(* ===== verification/Prelude.thy ===== *)
theory Prelude
  imports Complex_Main "HOL-Library.Word" "HOL-Library.Finite_Map"
begin

text \<open>
  Shared vocabulary of the development: the fragments of Go that every component uses.

  \<^item> Go strings are byte strings, modelled by \<^typ>\<open>string\<close>; the functions of package
    \<open>strings\<close> that the sources call are defined here with their behaviour on ASCII bytes
    (case folding and white space beyond ASCII is outside the model).
  \<^item> A Go \<open>map[K]V\<close> is a finite map \<^typ>\<open>('k, 'v) fmap\<close>. A \<open>range\<close> loop over a map visits
    every entry once in an order the language leaves open: a definition that contains such
    a loop takes the order as an argument, and \<open>iteration_order\<close> says which lists are
    possible orders.
  \<^item> \<open>time.Time\<close> is the number of nanoseconds since Go's zero time; \<open>time.Duration\<close>
    arithmetic is that of \<open>int64\<close>, and \<open>Time.Sub\<close> saturates.
  \<^item> Errors are values of \<open>go_error\<close>; a fallible function returns \<open>go_error + 'a\<close>.
  \<^item> \<open>float64\<close> values are only copied and compared in the modelled code; they are rationals
    (no NaN, no infinities).
\<close>

named_theorems go_defs \<open>definitions of the Go fragment that proofs unfold\<close>
named_theorems keeps \<open>preservation of a component's invariant by its operations\<close>

section \<open>Errors\<close>

text \<open>
  \<open>Errorf m\<close> is \<open>fmt.Errorf\<close> or \<open>errors.New\<close> with the text \<open>m\<close>, \<open>Sentinel s\<close> a package
  level error value compared by \<open>errors.Is\<close>, and \<open>Wrapf p e\<close> is
  \<open>fmt.Errorf("p%w", e)\<close> and \<open>Suffixf e q\<close> is \<open>fmt.Errorf("%wq", e)\<close>.
\<close>

datatype sentinel = ErrNoRows | ErrNodeNotFound | ErrSessionNotFound
  | ErrUnsupportedVersion | ErrMissingType | ErrMissingTimestamp
  | ErrRecoverable | ErrNonRecoverable | ErrAdapterSessionNotFound

datatype go_error = Errorf string | Sentinel sentinel | Wrapf string go_error | Suffixf go_error string

fun errors_Is :: "go_error \<Rightarrow> sentinel \<Rightarrow> bool" where
  "errors_Is (Errorf m) s = False"
| "errors_Is (Sentinel s') s = (s' = s)"
| "errors_Is (Wrapf p e) s = errors_Is e s"
| "errors_Is (Suffixf e q) s = errors_Is e s"

fun sentinel_text :: "sentinel \<Rightarrow> string" where
  "sentinel_text ErrNoRows = ''sql: no rows in result set''"
| "sentinel_text ErrNodeNotFound = ''node not found''"
| "sentinel_text ErrSessionNotFound = ''session not found''"
| "sentinel_text ErrUnsupportedVersion = ''unsupported protocol version''"
| "sentinel_text ErrMissingType = ''missing required field: type''"
| "sentinel_text ErrMissingTimestamp = ''missing required field: timestamp''"
| "sentinel_text ErrRecoverable = ''opencode adapter recoverable error''"
| "sentinel_text ErrNonRecoverable = ''opencode adapter non-recoverable error''"
| "sentinel_text ErrAdapterSessionNotFound = ''opencode adapter session not found''"

fun error_text :: "go_error \<Rightarrow> string" where
  "error_text (Errorf m) = m"
| "error_text (Sentinel s) = sentinel_text s"
| "error_text (Wrapf p e) = p @ error_text e"
| "error_text (Suffixf e q) = error_text e @ q"

type_synonym 'a go_result = "go_error + 'a"

text \<open>The environment's answer to one database statement: \<open>None\<close> when it succeeded.\<close>

type_synonym exec_outcome = "go_error option"

section \<open>Maps and iteration\<close>

definition map_get :: "('k, 'v) fmap \<Rightarrow> 'k \<Rightarrow> 'v \<Rightarrow> 'v" where
  "map_get m k zero = (case fmlookup m k of None \<Rightarrow> zero | Some v \<Rightarrow> v)"

definition iteration_order :: "('k, 'v) fmap \<Rightarrow> 'k list \<Rightarrow> bool" where
  "iteration_order m ks \<longleftrightarrow> distinct ks \<and> set ks = fset (fmdom m)"

definition map_values :: "('k, 'v) fmap \<Rightarrow> 'k list \<Rightarrow> 'v list" where
  "map_values m ks = List.map_filter (fmlookup m) ks"

lemma map_get_simps [simp]:
  "map_get (fmupd k v m) k' z = (if k' = k then v else map_get m k' z)"
  "map_get fmempty k z = z"
  by (auto simp: map_get_def)

lemma map_get_Some: "fmlookup m k = Some v \<Longrightarrow> map_get m k z = v"
  by (simp add: map_get_def)

lemma map_get_None: "fmlookup m k = None \<Longrightarrow> map_get m k z = z"
  by (simp add: map_get_def)

lemma iteration_order_exists: "\<exists>ks. iteration_order m ks"
  using finite_distinct_list [of "fset (fmdom m)"] by (auto simp: iteration_order_def)

lemma set_map_values:
  assumes "iteration_order m ks"
  shows "set (map_values m ks) = {v. \<exists>k. fmlookup m k = Some v}"
proof -
  have "k \<in> set ks" if "fmlookup m k = Some v" for k v
    using assms that by (auto simp: iteration_order_def intro: fmdomI)
  then show ?thesis
    by (force simp: map_values_def List.map_filter_def)
qed

lemma fmdom_empty_iff: "fmdom m = {||} \<longleftrightarrow> m = fmempty"
  by (metis fmdom_empty fmrestrict_fset_dom fmrestrict_fset_null)

lemma fmlookup_in_dom: "fmlookup m k = Some v \<Longrightarrow> k |\<in>| fmdom m"
  by (rule fmdomI)

lemma fcard_fmdrop_less:
  assumes "fmlookup m k = Some v"
  shows "fcard (fmdom m |-| {|k|}) < fcard (fmdom m)"
proof -
  have "k |\<in>| fmdom m" using assms by (rule fmdomI)
  then have "fmdom m |-| {|k|} |\<subset>| fmdom m" by auto
  then show ?thesis by (rule pfsubset_fcard_mono)
qed

lemma find_SomeD: "find P xs = Some x \<Longrightarrow> x \<in> set xs \<and> P x"
  by (induction xs) (auto split: if_splits)

end
