(* ===== verification/Go_Lib.thy ===== *)
theory Go_Lib
  imports Prelude "HOL-Library.Sublist"
begin

text \<open>
  The functions of Go's packages \<open>strings\<close>, \<open>strconv\<close> and \<open>time\<close> that the modelled sources
  call, on byte strings and on nanosecond counts, with the laws the components use.
\<close>

section \<open>Package strings\<close>

definition has_prefix :: "string \<Rightarrow> string \<Rightarrow> bool" where
  "has_prefix s p \<longleftrightarrow> take (length p) s = p"

definition has_suffix :: "string \<Rightarrow> string \<Rightarrow> bool" where
  "has_suffix s p \<longleftrightarrow> length p \<le> length s \<and> drop (length s - length p) s = p"

definition trim_prefix :: "string \<Rightarrow> string \<Rightarrow> string" where
  "trim_prefix s p = (if has_prefix s p then drop (length p) s else s)"

definition trim_suffix :: "string \<Rightarrow> string \<Rightarrow> string" where
  "trim_suffix s p = (if has_suffix s p then take (length s - length p) s else s)"

fun str_index :: "string \<Rightarrow> string \<Rightarrow> nat option" where
  "str_index s sub =
     (if has_prefix s sub then Some 0
      else case s of [] \<Rightarrow> None | _ # s' \<Rightarrow> map_option Suc (str_index s' sub))"

declare str_index.simps [simp del]

fun str_last_index :: "string \<Rightarrow> string \<Rightarrow> nat option" where
  "str_last_index [] sub = (if sub = [] then Some 0 else None)"
| "str_last_index (c # s) sub =
     (case str_last_index s sub of
        Some i \<Rightarrow> Some (Suc i)
      | None \<Rightarrow> if has_prefix (c # s) sub then Some 0 else None)"

definition str_contains :: "string \<Rightarrow> string \<Rightarrow> bool" where
  "str_contains s sub \<longleftrightarrow> str_index s sub \<noteq> None"

text \<open>\<open>strings.Cut(s, ":")\<close> for a one-byte separator: before, after, found.\<close>

fun str_cut :: "string \<Rightarrow> char \<Rightarrow> string \<times> string \<times> bool" where
  "str_cut [] sep = ([], [], False)"
| "str_cut (c # s) sep =
     (if c = sep then ([], s, True)
      else case str_cut s sep of (a, b, ok) \<Rightarrow> (c # a, b, ok))"

text \<open>\<open>strings.Split(s, sep)\<close> for a one-byte separator.\<close>

fun str_split :: "string \<Rightarrow> char \<Rightarrow> string list" where
  "str_split [] sep = [[]]"
| "str_split (c # s) sep =
     (if c = sep then [] # str_split s sep
      else case str_split s sep of [] \<Rightarrow> [[c]] | p # ps \<Rightarrow> (c # p) # ps)"

definition is_space :: "char \<Rightarrow> bool" where
  "is_space c \<longleftrightarrow> c \<in> {CHR 0x09, CHR 0x0A, CHR 0x0B, CHR 0x0C, CHR 0x0D, CHR 0x20}"

definition trim_space :: "string \<Rightarrow> string" where
  "trim_space s = rev (dropWhile is_space (rev (dropWhile is_space s)))"

definition lower_char :: "char \<Rightarrow> char" where
  "lower_char c =
     (let n = of_char c :: nat in if 65 \<le> n \<and> n \<le> 90 then char_of (n + 32) else c)"

definition to_lower :: "string \<Rightarrow> string" where
  "to_lower s = map lower_char s"

definition is_digit :: "char \<Rightarrow> bool" where
  "is_digit c \<longleftrightarrow> (let n = of_char c :: nat in 48 \<le> n \<and> n \<le> 57)"

text \<open>The decimal text of an integer, as \<open>%d\<close> prints it.\<close>

definition digit_char :: "nat \<Rightarrow> char" where
  "digit_char d = char_of (48 + d)"

fun nat_text :: "nat \<Rightarrow> string" where
  "nat_text n = (if n < 10 then [digit_char n] else nat_text (n div 10) @ [digit_char (n mod 10)])"

declare nat_text.simps [simp del]

definition int_text :: "int \<Rightarrow> string" where
  "int_text i = (if i < 0 then ''-'' @ nat_text (nat (- i)) else nat_text (nat i))"

text \<open>\<open>%q\<close> on text without quotes, backslashes and control bytes.\<close>

definition quoted :: "string \<Rightarrow> string" where
  "quoted s = [CHR 0x22] @ s @ [CHR 0x22]"

fun str_join :: "string \<Rightarrow> string list \<Rightarrow> string" where
  "str_join sep [] = []"
| "str_join sep [x] = x"
| "str_join sep (x # y # zs) = x @ sep @ str_join sep (y # zs)"

subsection \<open>Laws\<close>

lemma has_prefix_append [simp]: "has_prefix (p @ s) p"
  by (simp add: has_prefix_def)

lemma has_prefix_iff: "has_prefix s p \<longleftrightarrow> (\<exists>t. s = p @ t)"
  by (auto simp: has_prefix_def) (metis append_take_drop_id)

lemma has_suffix_iff: "has_suffix s p \<longleftrightarrow> (\<exists>t. s = t @ p)"
  by (auto simp: has_suffix_def) (metis append_take_drop_id)

lemma trim_prefix_append [simp]: "trim_prefix (p @ s) p = s"
  by (simp add: trim_prefix_def)

lemma trim_suffix_append [simp]: "trim_suffix (s @ p) p = s"
  by (simp add: trim_suffix_def has_suffix_def)

lemma str_index_iff: "str_index s sub \<noteq> None \<longleftrightarrow> sublist sub s"
proof (induction s)
  case Nil
  then show ?case by (auto simp: str_index.simps [of "[]"] has_prefix_def)
next
  case (Cons c s)
  have "has_prefix (c # s) sub \<longleftrightarrow> prefix sub (c # s)"
    by (auto simp: has_prefix_iff prefix_def)
  with Cons show ?case
    by (auto simp: str_index.simps [of "c # s"] sublist_Cons_right)
qed

lemma str_contains_iff: "str_contains s sub \<longleftrightarrow> sublist sub s"
  unfolding str_contains_def by (rule str_index_iff)

lemma str_cut_no_sep: "sep \<notin> set s \<Longrightarrow> str_cut s sep = (s, [], False)"
  by (induction s) auto

lemma str_cut_append: "sep \<notin> set a \<Longrightarrow> str_cut (a @ sep # b) sep = (a, b, True)"
  by (induction a) auto

lemma str_cut_found:
  "str_cut s sep = (a, b, True) \<Longrightarrow> s = a @ sep # b \<and> sep \<notin> set a"
  by (induction s arbitrary: a b) (auto split: if_splits prod.splits)

lemma str_split_nonempty [simp]: "str_split s sep \<noteq> []"
  by (induction s) (auto split: list.splits)

lemma trim_space_Nil [simp]: "trim_space [] = []"
  by (simp add: trim_space_def)

lemma trim_space_eq_Nil: "trim_space s = [] \<longleftrightarrow> (\<forall>c \<in> set s. is_space c)"
proof -
  have "trim_space s = [] \<longleftrightarrow> (\<forall>c \<in> set (dropWhile is_space s). is_space c)"
    by (simp add: trim_space_def)
  also have "\<dots> \<longleftrightarrow> dropWhile is_space s = []"
    using hd_dropWhile [of is_space s]
    by (cases "dropWhile is_space s") (auto dest: set_dropWhileD)
  finally show ?thesis by simp
qed

lemma to_lower_simps [simp]:
  "to_lower [] = []"
  "to_lower (c # s) = lower_char c # to_lower s"
  "to_lower (s @ t) = to_lower s @ to_lower t"
  by (simp_all add: to_lower_def)

text \<open>Reading a decimal text back, so that different numbers have different texts.\<close>

definition text_value :: "string \<Rightarrow> nat" where
  "text_value s = foldl (\<lambda>v c. v * 10 + (of_char c - 48)) 0 s"

lemma of_digit_char: "d < 10 \<Longrightarrow> of_char (digit_char d) - (48 :: nat) = d"
  by (simp add: digit_char_def of_char_of)

lemma text_value_nat_text [simp]: "text_value (nat_text n) = n"
proof (induction n rule: nat_text.induct)
  case (1 n)
  show ?case
  proof (cases "n < 10")
    case True
    then show ?thesis by (simp add: nat_text.simps [of n] text_value_def of_digit_char)
  next
    case False
    then show ?thesis
      using 1 by (simp add: nat_text.simps [of n] text_value_def of_digit_char)
  qed
qed

lemma nat_text_inj: "nat_text m = nat_text n \<longleftrightarrow> m = n"
  by (metis text_value_nat_text)

section \<open>Unsigned 64-bit counters\<close>

lemma unat_succ_less: "(x :: 64 word) < y \<Longrightarrow> unat (x + 1) = Suc (unat x)"
  by unat_arith

lemma succ_less: "(x :: 64 word) < y \<Longrightarrow> y \<noteq> x + 1 \<Longrightarrow> x + 1 < y"
  by unat_arith

lemma unat_pos_iff: "(x :: 64 word) \<noteq> 0 \<longleftrightarrow> 0 < unat x"
  by (simp add: unat_gt_0)

section \<open>Package time\<close>

type_synonym go_time = int
type_synonym duration = int

definition time_is_zero :: "go_time \<Rightarrow> bool" where
  "time_is_zero t \<longleftrightarrow> t = 0"

definition min_int64 :: int where "min_int64 = - (2 ^ 63)"
definition max_int64 :: int where "max_int64 = 2 ^ 63 - 1"

text \<open>Two's complement truncation to \<open>int64\<close>.\<close>

definition wrap64 :: "int \<Rightarrow> int" where
  "wrap64 i = (i + 2 ^ 63) mod 2 ^ 64 - 2 ^ 63"

definition second :: duration where "second = 1000000000"
definition millisecond :: duration where "millisecond = 1000000"

text \<open>\<open>time.Duration(n) * time.Second\<close>, with the wrap-around of \<open>int64\<close>.\<close>

definition seconds :: "int \<Rightarrow> duration" where
  "seconds n = wrap64 (n * second)"

text \<open>\<open>t.Sub(u)\<close>: the difference, saturated to the range of \<open>time.Duration\<close>.\<close>

definition time_sub :: "go_time \<Rightarrow> go_time \<Rightarrow> duration" where
  "time_sub t u = max min_int64 (min max_int64 (t - u))"

text \<open>\<open>Time.Unix\<close>: whole seconds since 1970.\<close>

definition time_unix :: "go_time \<Rightarrow> int" where
  "time_unix t = t div second - 62135596800"

lemma wrap64_id: "min_int64 \<le> i \<Longrightarrow> i \<le> max_int64 \<Longrightarrow> wrap64 i = i"
  by (simp add: wrap64_def min_int64_def max_int64_def)

lemma wrap64_range: "min_int64 \<le> wrap64 i \<and> wrap64 i \<le> max_int64"
proof -
  have "0 \<le> (i + 2 ^ 63) mod 2 ^ 64" "(i + 2 ^ 63) mod 2 ^ 64 < (2 ^ 64 :: int)"
    by (rule pos_mod_sign, simp) (rule pos_mod_bound, simp)
  then show ?thesis
    by (simp add: wrap64_def min_int64_def max_int64_def)
qed

lemma seconds_small: "0 \<le> n \<Longrightarrow> n \<le> 9223372036 \<Longrightarrow> seconds n = n * second"
  unfolding seconds_def by (rule wrap64_id) (simp_all add: min_int64_def max_int64_def second_def)

lemma time_sub_mono: "t \<le> t' \<Longrightarrow> time_sub t u \<le> time_sub t' u"
  by (simp add: time_sub_def)

lemma time_sub_range: "min_int64 \<le> time_sub t u \<and> time_sub t u \<le> max_int64"
  by (auto simp: time_sub_def min_int64_def max_int64_def)

section \<open>Package strconv\<close>

text \<open>\<open>strconv.ParseInt(s, 10, 64)\<close> and \<open>strconv.Atoi\<close>: an optional sign, at least one digit, and a value in
  the range of \<open>int64\<close>.\<close>

definition parse_digits :: "string \<Rightarrow> nat option" where
  "parse_digits s = (if s \<noteq> [] \<and> list_all is_digit s then Some (text_value s) else None)"

definition parse_int64 :: "string \<Rightarrow> int option" where
  "parse_int64 s =
     (let v = (case s of
          CHR ''-'' # ds \<Rightarrow> map_option (\<lambda>n. - int n) (parse_digits ds)
        | CHR ''+'' # ds \<Rightarrow> map_option int (parse_digits ds)
        | _ \<Rightarrow> map_option int (parse_digits s))
      in case v of Some i \<Rightarrow> if min_int64 \<le> i \<and> i \<le> max_int64 then Some i else None | None \<Rightarrow> None)"

lemma parse_int64_range: "parse_int64 s = Some i \<Longrightarrow> min_int64 \<le> i \<and> i \<le> max_int64"
  by (simp add: parse_int64_def Let_def split: option.splits if_splits)

text \<open>The conversion \<open>int64(f)\<close> truncates; beyond the range its result depends on the machine (\<open>conv\<close>).\<close>

definition int64_of_float :: "(rat \<Rightarrow> int) \<Rightarrow> rat \<Rightarrow> int" where
  "int64_of_float conv f =
     (let i = (if f < 0 then \<lceil>f\<rceil> else \<lfloor>f\<rfloor>) in if min_int64 \<le> i \<and> i \<le> max_int64 then i else conv f)"

end
