(* ===== verification/Event_Dedup.thy ===== *)
theory Event_Dedup
  imports Go_Lib
begin

text \<open>
  \<open>internal/supervisor/event_dedup.go\<close>: one bounded LRU cache of event ids per agent.

  The LRU cache is \<open>github.com/hashicorp/golang-lru/v2\<close>, which is not part of the
  repository: its three operations are the parameter \<open>lru_ops\<close> of the model, and
  \<open>lru_contract\<close> states its documented behaviour over the list of its keys, most recent
  first. \<open>lru_ref\<close> is a reference instance of that contract.
\<close>

section \<open>The cache library\<close>

record 'c lru_ops =
  lru_new :: "int \<Rightarrow> 'c go_result"
  lru_contains :: "'c \<Rightarrow> string \<Rightarrow> bool"
  lru_add :: "'c \<Rightarrow> string \<Rightarrow> 'c"

locale lru_contract =
  fixes ops :: "'c lru_ops"
    and cap :: "'c \<Rightarrow> nat"
    and keys :: "'c \<Rightarrow> string list"
  assumes new_ok: "0 < n \<Longrightarrow> \<exists>c. lru_new ops n = Inr c \<and> keys c = [] \<and> cap c = nat n"
    and contains_iff: "lru_contains ops c k \<longleftrightarrow> k \<in> set (keys c)"
    and keys_add: "keys (lru_add ops c k) = take (cap c) (k # removeAll k (keys c))"
    and cap_add: "cap (lru_add ops c k) = cap c"

section \<open>The model\<close>

definition dedupCacheSizePerAgent :: int where
  "dedupCacheSizePerAgent = 1000"

record 'c eventDedupCache =
  cacheSize :: int
  caches :: "(string, 'c) fmap"

definition newEventDedupCache :: "int \<Rightarrow> 'c eventDedupCache go_result" where
  "newEventDedupCache n =
     (if n \<le> 0 then Inl (Errorf ''cache size must be positive'')
      else Inr \<lparr>cacheSize = n, caches = fmempty\<rparr>)"

text \<open>The tail of \<open>seen\<close> once the agent's cache is at hand.\<close>

definition seen_in :: "'c lru_ops \<Rightarrow> 'c eventDedupCache \<Rightarrow> string \<Rightarrow> 'c \<Rightarrow> string
    \<Rightarrow> bool \<times> 'c eventDedupCache" where
  "seen_in ops d agentID cache eventID =
     (if lru_contains ops cache eventID then (True, d)
      else (False, d\<lparr>caches := fmupd agentID (lru_add ops cache eventID) (caches d)\<rparr>))"

definition seen :: "'c lru_ops \<Rightarrow> 'c eventDedupCache \<Rightarrow> string \<Rightarrow> bool \<times> 'c eventDedupCache" where
  "seen ops d eventKey =
     (case str_cut eventKey CHR '':'' of
        (agentID, eventID, ok) \<Rightarrow>
          if \<not> ok then (False, d)
          else if agentID = [] \<or> eventID = [] then (False, d)
          else case fmlookup (caches d) agentID of
              Some cache \<Rightarrow> seen_in ops d agentID cache eventID
            | None \<Rightarrow>
                (case lru_new ops (cacheSize d) of
                   Inl _ \<Rightarrow> (False, d)
                 | Inr cache \<Rightarrow>
                     seen_in ops (d\<lparr>caches := fmupd agentID cache (caches d)\<rparr>)
                       agentID cache eventID))"

section \<open>The ids an agent's cache remembers\<close>

definition remembered :: "('c \<Rightarrow> string list) \<Rightarrow> 'c eventDedupCache \<Rightarrow> string \<Rightarrow> string list" where
  "remembered keys d a = (case fmlookup (caches d) a of None \<Rightarrow> [] | Some c \<Rightarrow> keys c)"

text \<open>Every cache has the configured capacity and no id twice.\<close>

definition dedup_inv :: "('c \<Rightarrow> nat) \<Rightarrow> ('c \<Rightarrow> string list) \<Rightarrow> 'c eventDedupCache \<Rightarrow> bool" where
  "dedup_inv cap keys d \<longleftrightarrow> 0 < cacheSize d \<and>
     (\<forall>a c. fmlookup (caches d) a = Some c \<longrightarrow>
        cap c = nat (cacheSize d) \<and> distinct (keys c) \<and> length (keys c) \<le> nat (cacheSize d))"

lemma remembered_upd [simp]:
  "remembered keys (d\<lparr>caches := fmupd a c (caches d)\<rparr>) b =
     (if b = a then keys c else remembered keys d b)"
  by (simp add: remembered_def)

lemma dedup_inv_new: "newEventDedupCache n = Inr d \<Longrightarrow> dedup_inv cap keys d"
  by (auto simp: newEventDedupCache_def dedup_inv_def split: if_splits)

lemma remembered_new: "newEventDedupCache n = Inr d \<Longrightarrow> remembered keys d a = []"
  by (auto simp: newEventDedupCache_def remembered_def split: if_splits)

lemma seen_malformed:
  assumes "str_cut key CHR '':'' = (a, e, ok)" and "\<not> ok \<or> a = [] \<or> e = []"
  shows "seen ops d key = (False, d)"
  using assms by (auto simp: seen_def)

context lru_contract
begin

lemma keys_add_new: "k \<notin> set (keys c) \<Longrightarrow> keys (lru_add ops c k) = take (cap c) (k # keys c)"
  by (simp add: keys_add)

lemma seen_True_same:
  assumes "0 < cacheSize d" and "fst (seen ops d key)"
  shows "snd (seen ops d key) = d"
proof -
  obtain c where "lru_new ops (cacheSize d) = Inr c" "keys c = []"
    using new_ok assms(1) by blast
  then show ?thesis
    using assms(2)
    by (auto simp: seen_def seen_in_def contains_iff split: prod.splits option.splits if_splits)
qed

lemma seen_in_spec:
  assumes "dedup_inv cap keys d" and "fmlookup (caches d) a = Some c"
  shows "fst (seen_in ops d a c e) \<longleftrightarrow> e \<in> set (keys c)"
    and "remembered keys (snd (seen_in ops d a c e)) b =
      (if b = a \<and> e \<notin> set (keys c) then take (nat (cacheSize d)) (e # keys c)
       else remembered keys d b)"
    and "dedup_inv cap keys (snd (seen_in ops d a c e))"
    and "cacheSize (snd (seen_in ops d a c e)) = cacheSize d"
proof -
  have c: "cap c = nat (cacheSize d)" "distinct (keys c)" "length (keys c) \<le> nat (cacheSize d)"
      "0 < cacheSize d"
    using assms by (auto simp: dedup_inv_def)
  show "fst (seen_in ops d a c e) \<longleftrightarrow> e \<in> set (keys c)"
    and "cacheSize (snd (seen_in ops d a c e)) = cacheSize d"
    by (simp_all add: seen_in_def contains_iff)
  show "remembered keys (snd (seen_in ops d a c e)) b =
      (if b = a \<and> e \<notin> set (keys c) then take (nat (cacheSize d)) (e # keys c)
       else remembered keys d b)"
    using c assms(2) by (auto simp: seen_in_def contains_iff keys_add_new remembered_def)
  show "dedup_inv cap keys (snd (seen_in ops d a c e))"
    using c assms(1)
    by (auto simp: seen_in_def contains_iff dedup_inv_def keys_add_new cap_add
        simp del: take_Suc_Cons split: if_splits)
qed

lemma seen_spec:
  assumes inv: "dedup_inv cap keys d" and a: "CHR '':'' \<notin> set a" "a \<noteq> []" and e: "e \<noteq> []"
  shows "fst (seen ops d (a @ CHR '':'' # e)) \<longleftrightarrow> e \<in> set (remembered keys d a)"
    and "remembered keys (snd (seen ops d (a @ CHR '':'' # e))) b =
      (if b = a \<and> e \<notin> set (remembered keys d a)
       then take (nat (cacheSize d)) (e # remembered keys d a) else remembered keys d b)"
    and "dedup_inv cap keys (snd (seen ops d (a @ CHR '':'' # e)))"
    and "cacheSize (snd (seen ops d (a @ CHR '':'' # e))) = cacheSize d"
proof -
  have cut: "str_cut (a @ CHR '':'' # e) CHR '':'' = (a, e, True)"
    using str_cut_append [OF a(1)] by simp
  obtain c d' where step: "seen ops d (a @ CHR '':'' # e) = seen_in ops d' a c e"
    and d': "dedup_inv cap keys d'" "fmlookup (caches d') a = Some c"
      "remembered keys d' = remembered keys d" "keys c = remembered keys d a"
      "cacheSize d' = cacheSize d"
  proof (cases "fmlookup (caches d) a")
    case (Some c)
    with inv cut a e show ?thesis
      by (intro that [of d c]) (auto simp: seen_def remembered_def)
  next
    case None
    from inv obtain c where c: "lru_new ops (cacheSize d) = Inr c" "keys c = []"
      "cap c = nat (cacheSize d)"
      using new_ok [of "cacheSize d"] by (auto simp: dedup_inv_def)
    show ?thesis
    proof (rule that)
      show "seen ops d (a @ CHR '':'' # e) =
          seen_in ops (d\<lparr>caches := fmupd a c (caches d)\<rparr>) a c e"
        using None c cut a e by (simp add: seen_def)
      show "remembered keys (d\<lparr>caches := fmupd a c (caches d)\<rparr>) = remembered keys d"
        using None c by (auto simp: remembered_def fun_eq_iff)
    qed (use None inv c in \<open>auto simp: dedup_inv_def remembered_def\<close>)
  qed
  note spec = seen_in_spec [OF d'(1,2), of e]
  show "fst (seen ops d (a @ CHR '':'' # e)) \<longleftrightarrow> e \<in> set (remembered keys d a)"
    using spec(1) d'(4) by (simp add: step)
  show "remembered keys (snd (seen ops d (a @ CHR '':'' # e))) b =
      (if b = a \<and> e \<notin> set (remembered keys d a)
       then take (nat (cacheSize d)) (e # remembered keys d a) else remembered keys d b)"
    using spec(2) [of b] d' by (simp add: step)
  show "dedup_inv cap keys (snd (seen ops d (a @ CHR '':'' # e)))"
    using spec(3) by (simp add: step)
  show "cacheSize (snd (seen ops d (a @ CHR '':'' # e))) = cacheSize d"
    using spec(4) d'(5) by (simp add: step)
qed

end

section \<open>A reference instance of the cache library\<close>

text \<open>Capacity and keys, most recent first.\<close>

type_synonym lru_list = "nat \<times> string list"

definition lru_ref :: "lru_list lru_ops" where
  "lru_ref = \<lparr>
     lru_new = (\<lambda>n. if n \<le> 0 then Inl (Errorf ''must provide a positive size'') else Inr (nat n, [])),
     lru_contains = (\<lambda>(n, ks) k. k \<in> set ks),
     lru_add = (\<lambda>(n, ks) k. (n, take n (k # removeAll k ks)))\<rparr>"

interpretation lru_list: lru_contract lru_ref fst snd
  by unfold_locales (auto simp: lru_ref_def split: prod.splits)

end
