(* ===== verification/Event_Pipeline.thy ===== *)
theory Event_Pipeline
  imports Event_Dedup
begin

text \<open>
  \<open>internal/supervisor/event_pipeline.go\<close>: deduplication, per-agent sequence tracking with a
  buffer for events that arrive early, replay requests for gaps, and the bounded queue in
  front of the persistence worker.

  \<open>ProcessEvent\<close> is a state transformer that returns \<open>None\<close> for a nil error. The calls made
  to the \<open>ReplayRequestSender\<close> are recorded in \<open>replayRequests\<close>; the error the sender
  returns is only logged. Sequence numbers are \<open>uint64\<close>, that is \<^typ>\<open>64 word\<close>.
\<close>

section \<open>Data\<close>

type_synonym uint64 = "64 word"

definition persistQueueSize :: nat where
  "persistQueueSize = 1024"

record Event =
  ev_ID :: string
  ev_SessionID :: string
  ev_Type :: string
  ev_Data :: string
  ev_Timestamp :: go_time
  ev_Seq :: uint64

record RequestEventRange =
  From :: uint64
  To :: uint64

datatype sequenceStatus = sequenceStatusMatch | sequenceStatusOld | sequenceStatusGap

text \<open>A row of the table \<open>events\<close>, whose primary key is the event id.\<close>

record event_row =
  row_session_id :: string
  row_type :: string
  row_data :: string
  row_timestamp :: string

record 'c EventPipeline =
  has_db :: bool
  events_table :: "(string, event_row) fmap"
  has_replay_sender :: bool
  replayRequests :: "(string \<times> RequestEventRange) list"
  dedup :: "'c eventDedupCache"
  agentSequences :: "(string, uint64) fmap"
  pendingEvents :: "(string, (uint64, Event) fmap) fmap"
  persistQueue :: "Event list"

section \<open>Operations\<close>

definition NewEventPipeline :: "bool \<Rightarrow> (string, event_row) fmap \<Rightarrow> bool \<Rightarrow> 'c EventPipeline go_result" where
  "NewEventPipeline db table sender =
     (case newEventDedupCache dedupCacheSizePerAgent of
        Inl err \<Rightarrow> Inl (Wrapf ''create dedup cache: '' err)
      | Inr d \<Rightarrow> Inr \<lparr>has_db = db, events_table = table, has_replay_sender = sender,
          replayRequests = [], dedup = d, agentSequences = fmempty,
          pendingEvents = fmempty, persistQueue = []\<rparr>)"

definition LastSequence :: "('c, 'x) EventPipeline_scheme \<Rightarrow> string \<Rightarrow> uint64" where
  "LastSequence p agentID = map_get (agentSequences p) agentID 0"

text \<open>The agent's buffer; a missing entry is the nil map, which reads as empty.\<close>

definition pending_of :: "('c, 'x) EventPipeline_scheme \<Rightarrow> string \<Rightarrow> (uint64, Event) fmap" where
  "pending_of p agentID = map_get (pendingEvents p) agentID fmempty"

definition PendingCount :: "('c, 'x) EventPipeline_scheme \<Rightarrow> string \<Rightarrow> nat" where
  "PendingCount p agentID = fcard (fmdom (pending_of p agentID))"

definition deduplicateEvent :: "'c lru_ops \<Rightarrow> 'c EventPipeline \<Rightarrow> string \<Rightarrow> bool \<times> 'c EventPipeline" where
  "deduplicateEvent ops p eventKey =
     (case seen ops (dedup p) eventKey of (dup, d) \<Rightarrow> (dup, p\<lparr>dedup := d\<rparr>))"

definition validateSequence :: "('c, 'x) EventPipeline_scheme \<Rightarrow> string \<Rightarrow> Event
    \<Rightarrow> sequenceStatus go_result" where
  "validateSequence p agentID event =
     (if ev_Seq event = 0 then Inl (Errorf ''event sequence must be positive'')
      else let expected = LastSequence p agentID + 1 in
        if ev_Seq event < expected then Inr sequenceStatusOld
        else if ev_Seq event > expected then Inr sequenceStatusGap
        else Inr sequenceStatusMatch)"

definition handleGap :: "'c EventPipeline \<Rightarrow> string \<Rightarrow> Event \<Rightarrow> 'c EventPipeline" where
  "handleGap p agentID event =
     (let expected = LastSequence p agentID + 1;
          p' = p\<lparr>pendingEvents :=
                 fmupd agentID (fmupd (ev_Seq event) event (pending_of p agentID)) (pendingEvents p)\<rparr>
      in if has_replay_sender p
         then p'\<lparr>replayRequests :=
                replayRequests p @ [(agentID, \<lparr>From = expected, To = ev_Seq event - 1\<rparr>)]\<rparr>
         else p')"

text \<open>The loop of \<open>consumeInOrder\<close>: the events taken, what stays buffered, the new last
  sequence number.\<close>

function drain :: "(uint64, Event) fmap \<Rightarrow> uint64 \<Rightarrow> Event list \<times> (uint64, Event) fmap \<times> uint64" where
  "drain pending lastSeq =
     (case fmlookup pending (lastSeq + 1) of
        None \<Rightarrow> ([], pending, lastSeq)
      | Some nextEvent \<Rightarrow>
          (case drain (fmdrop (lastSeq + 1) pending) (ev_Seq nextEvent) of
             (events, rest, final) \<Rightarrow> (nextEvent # events, rest, final)))"
  by pat_completeness auto
termination
  by (relation "measure (\<lambda>(pending, _). fcard (fmdom pending))") (auto intro: fcard_fmdrop_less)

declare drain.simps [simp del]

definition consumeInOrder :: "'c EventPipeline \<Rightarrow> string \<Rightarrow> Event \<Rightarrow> Event list \<times> 'c EventPipeline" where
  "consumeInOrder p agentID first =
     (case fmlookup (pendingEvents p) agentID of
        None \<Rightarrow> ([first], p\<lparr>agentSequences := fmupd agentID (ev_Seq first) (agentSequences p)\<rparr>)
      | Some pending \<Rightarrow>
          (case drain pending (ev_Seq first) of
             (events, rest, final) \<Rightarrow>
               (first # events,
                p\<lparr>agentSequences := fmupd agentID final (agentSequences p),
                  pendingEvents :=
                    (if fmdom rest = {||} then fmdrop agentID (pendingEvents p)
                     else fmupd agentID rest (pendingEvents p))\<rparr>)))"

text \<open>The send with a \<open>default\<close> branch on the buffered channel: a full queue drops the event.\<close>

definition enqueuePersist :: "'c EventPipeline \<Rightarrow> Event \<Rightarrow> 'c EventPipeline" where
  "enqueuePersist p event =
     (if length (persistQueue p) < persistQueueSize
      then p\<lparr>persistQueue := persistQueue p @ [event]\<rparr> else p)"

definition ProcessEvent :: "'c lru_ops \<Rightarrow> 'c EventPipeline \<Rightarrow> string \<Rightarrow> Event
    \<Rightarrow> go_error option \<times> 'c EventPipeline" where
  "ProcessEvent ops p agentID event =
     (if agentID = [] then (Some (Errorf ''agent id is required''), p)
      else if ev_ID event = [] then (Some (Errorf ''event id is required''), p)
      else case deduplicateEvent ops p (agentID @ '':'' @ ev_ID event) of
          (True, p1) \<Rightarrow> (None, p1)
        | (False, p1) \<Rightarrow>
            (case validateSequence p1 agentID event of
               Inl err \<Rightarrow> (Some err, p1)
             | Inr sequenceStatusOld \<Rightarrow> (None, p1)
             | Inr sequenceStatusGap \<Rightarrow> (None, handleGap p1 agentID event)
             | Inr sequenceStatusMatch \<Rightarrow>
                 (case consumeInOrder p1 agentID event of
                    (ordered, p2) \<Rightarrow> (None, foldl enqueuePersist p2 ordered))))"

subsection \<open>The persistence worker\<close>

text \<open>
  \<open>format\<close> is \<open>Time.Format(time.RFC3339Nano)\<close> and \<open>outcome\<close> the database's answer to the
  INSERT; a second row with the same primary key is refused by the table itself.
\<close>

definition persistEvent :: "(go_time \<Rightarrow> string) \<Rightarrow> go_time \<Rightarrow> exec_outcome \<Rightarrow> 'c EventPipeline \<Rightarrow> Event
    \<Rightarrow> go_error option \<times> 'c EventPipeline" where
  "persistEvent format now outcome p event =
     (if \<not> has_db p then (None, p)
      else
        let data = (if ev_Data event = [] then ''{}'' else ev_Data event);
            timestamp = (if time_is_zero (ev_Timestamp event) then now else ev_Timestamp event);
            row = \<lparr>row_session_id = ev_SessionID event, row_type = ev_Type event,
                   row_data = data, row_timestamp = format timestamp\<rparr>;
            err = (case outcome of
                     Some e \<Rightarrow> Some e
                   | None \<Rightarrow> if ev_ID event |\<in>| fmdom (events_table p)
                             then Some (Errorf ''UNIQUE constraint failed: events.id'') else None)
        in case err of
             Some e \<Rightarrow> (Some (Wrapf (''persist event '' @ ev_ID event @ '': '') e), p)
           | None \<Rightarrow> (None, p\<lparr>events_table := fmupd (ev_ID event) row (events_table p)\<rparr>))"

text \<open>One turn of the worker: receive from the queue and persist; a failure is only logged.\<close>

definition workerStep :: "(go_time \<Rightarrow> string) \<Rightarrow> go_time \<Rightarrow> (Event \<Rightarrow> exec_outcome)
    \<Rightarrow> 'c EventPipeline \<Rightarrow> 'c EventPipeline" where
  "workerStep format now exec p =
     (case persistQueue p of
        [] \<Rightarrow> p
      | event # queue \<Rightarrow> snd (persistEvent format now (exec event) (p\<lparr>persistQueue := queue\<rparr>) event))"

text \<open>The branch taken once \<open>stopCh\<close> is closed: persist until the queue is empty, then return.\<close>

function workerDrain :: "(go_time \<Rightarrow> string) \<Rightarrow> go_time \<Rightarrow> (Event \<Rightarrow> exec_outcome)
    \<Rightarrow> 'c EventPipeline \<Rightarrow> 'c EventPipeline" where
  "workerDrain format now exec p =
     (if persistQueue p = [] then p else workerDrain format now exec (workerStep format now exec p))"
  by pat_completeness auto

lemma persistQueue_persistEvent [simp]:
  "persistQueue (snd (persistEvent format now out p e)) = persistQueue p"
  by (auto simp: persistEvent_def Let_def split: option.splits)

lemma persistQueue_workerStep [simp]: "persistQueue (workerStep format now exec p) = tl (persistQueue p)"
  by (cases "persistQueue p") (simp_all add: workerStep_def)

termination workerDrain
  by (relation "measure (\<lambda>(_, _, _, p). length (persistQueue p))") auto

declare workerDrain.simps [simp del]

section \<open>The buffer of early events\<close>

definition buffer_ok :: "uint64 \<Rightarrow> (uint64, Event) fmap \<Rightarrow> bool" where
  "buffer_ok lastSeq m \<longleftrightarrow> (\<forall>k e. fmlookup m k = Some e \<longrightarrow> ev_Seq e = k \<and> lastSeq + 1 < k)"

lemma buffer_okD: "buffer_ok s m \<Longrightarrow> fmlookup m k = Some e \<Longrightarrow> ev_Seq e = k \<and> s + 1 < k"
  by (simp add: buffer_ok_def)

lemma buffer_ok_empty [simp]: "buffer_ok s fmempty"
  by (simp add: buffer_ok_def)

definition buffered :: "(uint64, Event) fmap \<Rightarrow> nat set" where
  "buffered m = {unat k | k e. fmlookup m k = Some e}"

abbreviation seq_nats :: "Event list \<Rightarrow> nat list" where
  "seq_nats es \<equiv> map (\<lambda>e. unat (ev_Seq e)) es"

lemma buffered_empty [simp]: "buffered fmempty = {}"
  by (simp add: buffered_def)

lemma buffered_upd [simp]: "buffered (fmupd k e m) = insert (unat k) (buffered m)"
  by (auto simp: buffered_def)

lemma buffered_drop: "fmlookup m k = Some e \<Longrightarrow> buffered m = insert (unat k) (buffered (fmdrop k m))"
  by (auto simp: buffered_def)

lemma buffered_eq_empty: "buffered m = {} \<longleftrightarrow> m = fmempty"
  by (auto simp: buffered_def intro!: fmap_ext)

lemma drain_spec_conj:
  assumes "\<And>k e. fmlookup m k = Some e \<Longrightarrow> ev_Seq e = k \<and> s < k"
    and "drain m s = (es, rest, final)"
  shows "seq_nats es = [Suc (unat s) ..< Suc (unat final)] \<and>
    unat s \<le> unat final \<and> buffer_ok final rest \<and>
    {1..unat s} \<union> buffered m = {1..unat final} \<union> buffered rest"
  using assms
proof (induction m s arbitrary: es rest final rule: drain.induct)
  case (1 m s)
  show ?case
  proof (cases "fmlookup m (s + 1)")
    case None
    with "1.prems"(2) have [simp]: "es = []" "rest = m" "final = s"
      by (simp_all add: drain.simps [of m s])
    have "buffer_ok s m"
      using "1.prems"(1) None by (auto simp: buffer_ok_def intro: succ_less)
    then show ?thesis by simp
  next
    case (Some e)
    with "1.prems"(1) have e: "ev_Seq e = s + 1" and less: "s < s + 1" by blast+
    obtain es' where es': "drain (fmdrop (s + 1) m) (s + 1) = (es', rest, final)" "es = e # es'"
      using "1.prems"(2) Some e by (auto simp: drain.simps [of m s] split: prod.splits)
    have succ: "unat (s + 1) = Suc (unat s)" using less by (rule unat_succ_less)
    have "seq_nats es' = [Suc (unat (s + 1)) ..< Suc (unat final)] \<and>
      unat (s + 1) \<le> unat final \<and> buffer_ok final rest \<and>
      {1..unat (s + 1)} \<union> buffered (fmdrop (s + 1) m) = {1..unat final} \<union> buffered rest"
      using "1.IH" [OF Some, unfolded e] "1.prems"(1) es'(1)
      by (metis (no_types, lifting) fmlookup_drop option.distinct(1) succ_less)
    moreover have "[Suc (unat s) ..< Suc (unat final)] = Suc (unat s) # [Suc (Suc (unat s)) ..< Suc (unat final)]"
      if "Suc (unat s) \<le> unat final" using that by (simp add: upt_conv_Cons)
    ultimately show ?thesis
      using buffered_drop [OF Some] by (auto simp: es' succ e atLeastAtMostSuc_conv)
  qed
qed

lemmas drain_spec =
  drain_spec_conj [THEN conjunct1]
  drain_spec_conj [THEN conjunct2, THEN conjunct1]
  drain_spec_conj [THEN conjunct2, THEN conjunct2, THEN conjunct1]
  drain_spec_conj [THEN conjunct2, THEN conjunct2, THEN conjunct2]

section \<open>The pipeline's invariant\<close>

definition pipeline_inv :: "('c, 'x) EventPipeline_scheme \<Rightarrow> bool" where
  "pipeline_inv p \<longleftrightarrow>
     (\<forall>a. buffer_ok (LastSequence p a) (pending_of p a)) \<and>
     (\<forall>a. fmlookup (pendingEvents p) a \<noteq> Some fmempty) \<and>
     length (persistQueue p) \<le> persistQueueSize"

text \<open>The sequence numbers an agent's events have been accepted with.\<close>

definition received :: "('c, 'x) EventPipeline_scheme \<Rightarrow> string \<Rightarrow> nat set" where
  "received p a = {1..unat (LastSequence p a)} \<union> buffered (pending_of p a)"

lemma next_not_received:
  assumes "pipeline_inv p"
  shows "Suc (unat (LastSequence p a)) \<notin> received p a"
proof -
  have "Suc (unat (LastSequence p a)) \<noteq> unat k"
    if "fmlookup (pending_of p a) k = Some e" for k e
  proof -
    have "LastSequence p a + 1 < k"
      using assms that by (auto simp: pipeline_inv_def dest: buffer_okD)
    then show ?thesis by unat_arith
  qed
  then show ?thesis by (fastforce simp: received_def buffered_def)
qed

subsection \<open>What each operation does to it\<close>

lemma dedup_irrelevant [simp]:
  "LastSequence (p\<lparr>dedup := d\<rparr>) = LastSequence p"
  "pending_of (p\<lparr>dedup := d\<rparr>) = pending_of p"
  "pipeline_inv (p\<lparr>dedup := d\<rparr>) = pipeline_inv p"
  "received (p\<lparr>dedup := d\<rparr>) = received p"
  by (simp_all add: LastSequence_def pending_of_def pipeline_inv_def received_def fun_eq_iff)

lemma queue_irrelevant [simp]:
  "LastSequence (p\<lparr>persistQueue := q\<rparr>) = LastSequence p"
  "pending_of (p\<lparr>persistQueue := q\<rparr>) = pending_of p"
  "received (p\<lparr>persistQueue := q\<rparr>) = received p"
  by (simp_all add: LastSequence_def pending_of_def received_def fun_eq_iff)

lemma enqueue_all:
  "foldl enqueuePersist p es =
     p\<lparr>persistQueue := persistQueue p @ take (persistQueueSize - length (persistQueue p)) es\<rparr>"
proof (induction es arbitrary: p)
  case Nil
  show ?case by simp
next
  case (Cons e es)
  show ?case
  proof (cases "length (persistQueue p) < persistQueueSize")
    case True
    then have "persistQueueSize - length (persistQueue p) =
        Suc (persistQueueSize - Suc (length (persistQueue p)))" by simp
    with True show ?thesis by (simp add: Cons enqueuePersist_def [of p])
  next
    case False
    then show ?thesis by (simp add: Cons enqueuePersist_def [of p])
  qed
qed

lemma enqueue_all_inv [keeps]: "pipeline_inv p \<Longrightarrow> pipeline_inv (foldl enqueuePersist p es)"
  by (auto simp: enqueue_all pipeline_inv_def)

lemma handleGap_fields [simp]:
  "LastSequence (handleGap p a e) b = LastSequence p b"
  "persistQueue (handleGap p a e) = persistQueue p"
  "pending_of (handleGap p a e) b =
     (if b = a then fmupd (ev_Seq e) e (pending_of p a) else pending_of p b)"
  "pendingEvents (handleGap p a e) =
     fmupd a (fmupd (ev_Seq e) e (pending_of p a)) (pendingEvents p)"
  by (simp_all add: handleGap_def Let_def LastSequence_def pending_of_def)

lemma fmupd_neq_empty [simp]: "fmupd k v m \<noteq> fmempty" "fmempty \<noteq> fmupd k v m"
  by (metis fmdom_empty fmdom_fmupd finsert_not_fempty)+

lemma handleGap_inv [keeps]:
  assumes "pipeline_inv p" and "LastSequence p a + 1 < ev_Seq e"
  shows "pipeline_inv (handleGap p a e)"
  using assms by (auto simp: pipeline_inv_def buffer_ok_def)

lemma handleGap_received:
  "received (handleGap p a e) b =
     (if b = a then insert (unat (ev_Seq e)) (received p a) else received p b)"
  by (auto simp: received_def)

lemma consumeInOrder_pending:
  "consumeInOrder p a e =
     (case drain (pending_of p a) (ev_Seq e) of
        (es, rest, final) \<Rightarrow>
          (e # es,
           p\<lparr>agentSequences := fmupd a final (agentSequences p),
             pendingEvents := (if fmlookup (pendingEvents p) a = None then pendingEvents p
               else if rest = fmempty then fmdrop a (pendingEvents p)
               else fmupd a rest (pendingEvents p))\<rparr>))"
  by (auto simp: consumeInOrder_def pending_of_def map_get_def drain.simps [of fmempty]
      fmdom_empty_iff split: option.splits prod.splits)

lemma consumeInOrder_spec:
  assumes inv: "pipeline_inv p" and seq: "ev_Seq e = LastSequence p a + 1" "ev_Seq e \<noteq> 0"
    and res: "consumeInOrder p a e = (es, p')"
  shows "seq_nats es = [Suc (unat (LastSequence p a)) ..< Suc (unat (LastSequence p' a))]"
    and "b \<noteq> a \<Longrightarrow> LastSequence p' b = LastSequence p b \<and> pending_of p' b = pending_of p b"
    and "received p' a = insert (unat (ev_Seq e)) (received p a)"
    and "pipeline_inv p'" and "persistQueue p' = persistQueue p"
proof -
  let ?s = "ev_Seq e" and ?l = "LastSequence p a"
  obtain ds rest final where dr: "drain (pending_of p a) ?s = (ds, rest, final)"
    by (cases "drain (pending_of p a) ?s") auto
  have buf: "buffer_ok ?l (pending_of p a)" using inv by (simp add: pipeline_inv_def)
  have s: "unat ?s = Suc (unat ?l)" using seq by unat_arith
  note d = drain_spec [OF _ dr]
  have above: "ev_Seq x = k \<and> ?s < k" if "fmlookup (pending_of p a) k = Some x" for k x
    using buffer_okD [OF buf that] seq by simp
  have es: "es = e # ds" and p': "p' = p\<lparr>agentSequences := fmupd a final (agentSequences p),
      pendingEvents := (if fmlookup (pendingEvents p) a = None then pendingEvents p
        else if rest = fmempty then fmdrop a (pendingEvents p)
        else fmupd a rest (pendingEvents p))\<rparr>"
    using res dr by (auto simp: consumeInOrder_pending)
  have last: "LastSequence p' b = (if b = a then final else LastSequence p b)" for b
    by (simp add: p' LastSequence_def)
  have rest_empty: "rest = fmempty" if "fmlookup (pendingEvents p) a = None"
    using that dr by (simp add: pending_of_def map_get_def drain.simps [of fmempty])
  have pend: "pending_of p' b = (if b = a then rest else pending_of p b)" for b
    using rest_empty by (auto simp: p' pending_of_def map_get_def split: option.splits)
  show "seq_nats es = [Suc (unat ?l) ..< Suc (unat (LastSequence p' a))]"
    using d(1,2) above s by (simp add: es last upt_conv_Cons)
  show "received p' a = insert (unat ?s) (received p a)"
    using d(4) above s by (auto simp: received_def last pend atLeastAtMostSuc_conv)
  show queue: "persistQueue p' = persistQueue p" by (simp add: p')
  show "b \<noteq> a \<Longrightarrow> LastSequence p' b = LastSequence p b \<and> pending_of p' b = pending_of p b"
    by (simp add: last pend)
  have "fmlookup (pendingEvents p') b \<noteq> Some fmempty" for b
    using inv by (auto simp: p' pipeline_inv_def)
  then show "pipeline_inv p'"
    using inv d(3) above queue by (auto simp: pipeline_inv_def last pend)
qed

section \<open>Deliveries\<close>

text \<open>The events a call of \<open>ProcessEvent\<close> hands to \<open>enqueuePersist\<close>, in that order.\<close>

definition delivered :: "'c lru_ops \<Rightarrow> 'c EventPipeline \<Rightarrow> string \<Rightarrow> Event \<Rightarrow> Event list" where
  "delivered ops p a e =
     (if a = [] \<or> ev_ID e = [] then []
      else case deduplicateEvent ops p (a @ '':'' @ ev_ID e) of
          (True, _) \<Rightarrow> []
        | (False, p1) \<Rightarrow>
            if validateSequence p1 a e = Inr sequenceStatusMatch
            then fst (consumeInOrder p1 a e) else [])"

text \<open>A run over a list of incoming events: the deliveries, each with its agent, and the final
  pipeline.\<close>

fun process_all :: "'c lru_ops \<Rightarrow> 'c EventPipeline \<Rightarrow> (string \<times> Event) list
    \<Rightarrow> (string \<times> Event) list \<times> 'c EventPipeline" where
  "process_all ops p [] = ([], p)"
| "process_all ops p ((a, e) # xs) =
     (case process_all ops (snd (ProcessEvent ops p a e)) xs of
        (ds, p') \<Rightarrow> (map (Pair a) (delivered ops p a e) @ ds, p'))"

definition deliveries_to :: "string \<Rightarrow> (string \<times> Event) list \<Rightarrow> Event list" where
  "deliveries_to a ds = map snd (filter (\<lambda>d. fst d = a) ds)"

lemma deliveries_to_simps [simp]:
  "deliveries_to a [] = []"
  "deliveries_to a (xs @ ys) = deliveries_to a xs @ deliveries_to a ys"
  "deliveries_to a (map (Pair b) es) = (if a = b then es else [])"
  by (auto simp: deliveries_to_def filter_map o_def)

lemma validateSequence_cases:
  "validateSequence p a e = Inr sequenceStatusMatch \<longleftrightarrow>
     ev_Seq e \<noteq> 0 \<and> ev_Seq e = LastSequence p a + 1"
  "validateSequence p a e = Inr sequenceStatusGap \<longleftrightarrow>
     ev_Seq e \<noteq> 0 \<and> LastSequence p a + 1 < ev_Seq e"
  "validateSequence p a e = Inr sequenceStatusOld \<longleftrightarrow>
     ev_Seq e \<noteq> 0 \<and> ev_Seq e < LastSequence p a + 1"
  "(\<exists>err. validateSequence p a e = Inl err) \<longleftrightarrow> ev_Seq e = 0"
  by (auto simp: validateSequence_def Let_def)

text \<open>The four ways a call can go, as an elimination rule.\<close>

lemma ProcessEvent_cases:
  assumes "ProcessEvent ops p a e = (r, p')"
  obtains
    (ignored) d where "p' = p\<lparr>dedup := d\<rparr>" "delivered ops p a e = []"
  | (gap) d where "r = None" "p' = handleGap (p\<lparr>dedup := d\<rparr>) a e" "delivered ops p a e = []"
      "LastSequence p a + 1 < ev_Seq e"
  | (accepted) d es p2 where "r = None" "consumeInOrder (p\<lparr>dedup := d\<rparr>) a e = (es, p2)"
      "p' = foldl enqueuePersist p2 es" "delivered ops p a e = es"
      "ev_Seq e \<noteq> 0" "ev_Seq e = LastSequence p a + 1"
proof (cases "a = [] \<or> ev_ID e = []")
  case True
  with assms show thesis
    by (intro ignored [of "dedup p"]) (auto simp: ProcessEvent_def delivered_def split: if_splits)
next
  case False
  obtain dup d where dd: "seen ops (dedup p) (a @ '':'' @ ev_ID e) = (dup, d)"
    by (cases "seen ops (dedup p) (a @ '':'' @ ev_ID e)") auto
  show thesis
  proof (cases dup)
    case True
    with assms False dd show thesis
      by (intro ignored [of d]) (auto simp: ProcessEvent_def delivered_def deduplicateEvent_def)
  next
    case new: False
    let ?p1 = "p\<lparr>dedup := d\<rparr>"
    show thesis
    proof (cases "validateSequence ?p1 a e")
      case (Inl err)
      with assms False dd new show thesis
        by (intro ignored [of d]) (auto simp: ProcessEvent_def delivered_def deduplicateEvent_def)
    next
      case (Inr st)
      then show thesis
      proof (cases st)
        case sequenceStatusOld
        with Inr assms False dd new show thesis
          by (intro ignored [of d]) (auto simp: ProcessEvent_def delivered_def deduplicateEvent_def)
      next
        case sequenceStatusGap
        with Inr have "LastSequence p a + 1 < ev_Seq e"
          using validateSequence_cases(2) [of ?p1 a e] by simp
        with sequenceStatusGap Inr assms False dd new show thesis
          by (intro gap [of d]) (auto simp: ProcessEvent_def delivered_def deduplicateEvent_def)
      next
        case sequenceStatusMatch
        obtain es p2 where c: "consumeInOrder ?p1 a e = (es, p2)"
          by (cases "consumeInOrder ?p1 a e") auto
        have "ev_Seq e \<noteq> 0" "ev_Seq e = LastSequence p a + 1"
          using sequenceStatusMatch Inr validateSequence_cases(1) [of ?p1 a e] by auto
        with c sequenceStatusMatch Inr assms False dd new show thesis
          by (intro accepted [of d es p2])
            (auto simp: ProcessEvent_def delivered_def deduplicateEvent_def)
      qed
    qed
  qed
qed

lemma persistQueue_neutral [simp]:
  "LastSequence (foldl enqueuePersist p es) = LastSequence p"
  "pending_of (foldl enqueuePersist p es) = pending_of p"
  "received (foldl enqueuePersist p es) = received p"
  by (simp_all add: enqueue_all)

lemma consumeInOrder_dedup [simp]: "persistQueue (p\<lparr>dedup := d\<rparr>) = persistQueue p"
  by simp

lemma ProcessEvent_step:
  assumes inv: "pipeline_inv p" and res: "ProcessEvent ops p a e = (r, p')"
  shows "pipeline_inv p' \<and> unat (LastSequence p a) \<le> unat (LastSequence p' a) \<and>
    seq_nats (delivered ops p a e) =
      [Suc (unat (LastSequence p a)) ..< Suc (unat (LastSequence p' a))] \<and>
    (\<forall>b. b \<noteq> a \<longrightarrow> LastSequence p' b = LastSequence p b \<and> pending_of p' b = pending_of p b)"
  using res
proof (cases rule: ProcessEvent_cases)
  case (ignored d)
  then show ?thesis using inv by simp
next
  case (gap d)
  then show ?thesis using inv by (simp add: handleGap_inv)
next
  case (accepted d es p2)
  note c = consumeInOrder_spec [of "p\<lparr>dedup := d\<rparr>", OF _ _ accepted(5) accepted(2)]
  have le: "unat (LastSequence p a) \<le> unat (LastSequence p2 a)"
  proof -
    have "length (seq_nats es) = unat (LastSequence p2 a) - unat (LastSequence p a)"
      using c(1) inv accepted by (simp del: upt_Suc)
    moreover have "es \<noteq> []" using accepted(2) by (auto simp: consumeInOrder_pending split: prod.splits)
    ultimately show ?thesis by (cases es) auto
  qed
  show ?thesis using c inv accepted le by (simp add: enqueue_all_inv del: upt_Suc)
qed

lemma upt_join: "i \<le> j \<Longrightarrow> j \<le> k \<Longrightarrow> [i..<j] @ [j..<k] = [i..<k]"
  by (metis le_Suc_ex upt_add_eq_append)

lemma delivery_chain:
  assumes "pipeline_inv p" and "process_all ops p xs = (ds, p')"
  shows "pipeline_inv p' \<and> unat (LastSequence p a) \<le> unat (LastSequence p' a) \<and>
    seq_nats (deliveries_to a ds) =
      [Suc (unat (LastSequence p a)) ..< Suc (unat (LastSequence p' a))]"
  using assms
proof (induction xs arbitrary: p ds)
  case Nil
  then show ?case by simp
next
  case (Cons x xs)
  obtain b e where x: "x = (b, e)" by (cases x)
  obtain r p1 where pe: "ProcessEvent ops p b e = (r, p1)" by (cases "ProcessEvent ops p b e")
  obtain ds1 where rest: "process_all ops p1 xs = (ds1, p')"
    and ds: "ds = map (Pair b) (delivered ops p b e) @ ds1"
    using Cons.prems(2) pe by (auto simp: x split: prod.splits)
  note step = ProcessEvent_step [OF Cons.prems(1) pe]
  have ih: "pipeline_inv p' \<and> unat (LastSequence p1 a) \<le> unat (LastSequence p' a) \<and>
      seq_nats (deliveries_to a ds1) =
        [Suc (unat (LastSequence p1 a)) ..< Suc (unat (LastSequence p' a))]"
    using Cons.IH [OF _ rest] step by blast
  show ?case
  proof (cases "b = a")
    case True
    have "[Suc (unat (LastSequence p a)) ..< Suc (unat (LastSequence p' a))] =
        [Suc (unat (LastSequence p a)) ..< Suc (unat (LastSequence p1 a))] @
        [Suc (unat (LastSequence p1 a)) ..< Suc (unat (LastSequence p' a))]"
      using step ih True by (simp add: upt_join del: upt_Suc)
    with step ih True show ?thesis by (simp add: ds del: upt_Suc)
  next
    case False
    with step ih show ?thesis by (simp add: ds del: upt_Suc)
  qed
qed

section \<open>What has been received\<close>

lemma dedup_kept [simp]:
  "dedup (foldl enqueuePersist p es) = dedup p"
  "dedup (handleGap p a e) = dedup p"
  "dedup (snd (consumeInOrder p a e)) = dedup p"
  by (simp_all add: enqueue_all handleGap_def Let_def consumeInOrder_pending split: prod.splits)

lemma dedup_accepted [simp]:
  "dedup (snd (case consumeInOrder p a e of (es, p2) \<Rightarrow> (r, foldl enqueuePersist p2 es))) = dedup p"
  using dedup_kept(3) [of p a e] by (auto simp del: dedup_kept(3) split: prod.splits)

lemma ProcessEvent_dedup:
  assumes "a \<noteq> []" and "ev_ID e \<noteq> []"
  shows "dedup (snd (ProcessEvent ops p a e)) = snd (seen ops (dedup p) (a @ CHR '':'' # ev_ID e))"
proof -
  obtain dup d where "seen ops (dedup p) (a @ CHR '':'' # ev_ID e) = (dup, d)"
    by (cases "seen ops (dedup p) (a @ CHR '':'' # ev_ID e)")
  then show ?thesis
    using assms
    by (auto simp: ProcessEvent_def deduplicateEvent_def split: sum.splits sequenceStatus.splits bool.splits)
qed

lemma ProcessEvent_received:
  assumes inv: "pipeline_inv p" and "a \<noteq> []" "ev_ID e \<noteq> []" and seq: "ev_Seq e \<noteq> 0"
    and new: "\<not> fst (seen ops (dedup p) (a @ CHR '':'' # ev_ID e))"
    and res: "ProcessEvent ops p a e = (r, p')"
  shows "r = None" and "received p' a = insert (unat (ev_Seq e)) (received p a)"
proof -
  obtain d where d: "seen ops (dedup p) (a @ CHR '':'' # ev_ID e) = (False, d)"
    using new by (cases "seen ops (dedup p) (a @ CHR '':'' # ev_ID e)") auto
  let ?p1 = "p\<lparr>dedup := d\<rparr>"
  obtain st where st: "validateSequence ?p1 a e = Inr st"
    using seq validateSequence_cases(4) [of ?p1 a e] by (cases "validateSequence ?p1 a e") auto
  have pe: "ProcessEvent ops p a e = (case st of
      sequenceStatusOld \<Rightarrow> (None, ?p1)
    | sequenceStatusGap \<Rightarrow> (None, handleGap ?p1 a e)
    | sequenceStatusMatch \<Rightarrow> (None, foldl enqueuePersist (snd (consumeInOrder ?p1 a e))
        (fst (consumeInOrder ?p1 a e))))"
    using assms(2,3) d st
    by (auto simp: ProcessEvent_def deduplicateEvent_def split: sequenceStatus.splits prod.splits)
  show "r = None" using pe res by (cases st) auto
  show "received p' a = insert (unat (ev_Seq e)) (received p a)"
  proof (cases st)
    case sequenceStatusMatch
    obtain es p2 where c: "consumeInOrder ?p1 a e = (es, p2)" by (cases "consumeInOrder ?p1 a e")
    have "ev_Seq e = LastSequence ?p1 a + 1"
      using st sequenceStatusMatch validateSequence_cases(1) [of ?p1 a e] by auto
    then have "received p2 a = insert (unat (ev_Seq e)) (received ?p1 a)"
      using consumeInOrder_spec(3) [OF _ _ seq c] inv by simp
    then show ?thesis using pe res c sequenceStatusMatch by auto
  next
    case sequenceStatusOld
    then have less: "ev_Seq e < LastSequence p a + 1"
      using st validateSequence_cases(3) [of ?p1 a e] by auto
    then have "unat (ev_Seq e) \<le> unat (LastSequence p a)" by unat_arith
    moreover have "1 \<le> unat (ev_Seq e)" using seq by (simp add: unat_gt_0 Suc_le_eq)
    ultimately show ?thesis using pe res sequenceStatusOld by (auto simp: received_def)
  next
    case sequenceStatusGap
    then show ?thesis using pe res by (auto simp: handleGap_received)
  qed
qed

lemma ProcessEvent_duplicate:
  assumes "a \<noteq> []" "ev_ID e \<noteq> []" and "fst (seen ops (dedup p) (a @ CHR '':'' # ev_ID e))"
  shows "ProcessEvent ops p a e = (None, p\<lparr>dedup := snd (seen ops (dedup p) (a @ CHR '':'' # ev_ID e))\<rparr>)"
  using assms by (auto simp: ProcessEvent_def deduplicateEvent_def split: prod.splits)

subsection \<open>Runs over an arbitrary arrival order\<close>

text \<open>A usable input: ids are present, no agent id contains the separator of the dedup key, and
  an agent never uses one event id for two sequence numbers. Resending is allowed.\<close>

definition usable_input :: "(string \<times> Event) list \<Rightarrow> bool" where
  "usable_input xs \<longleftrightarrow>
     (\<forall>x \<in> set xs. fst x \<noteq> [] \<and> CHR '':'' \<notin> set (fst x) \<and> ev_ID (snd x) \<noteq> [] \<and> ev_Seq (snd x) \<noteq> 0) \<and>
     (\<forall>x \<in> set xs. \<forall>y \<in> set xs. fst x = fst y \<and> ev_ID (snd x) = ev_ID (snd y) \<longrightarrow>
        ev_Seq (snd x) = ev_Seq (snd y))"

definition sent_seqs :: "string \<Rightarrow> (string \<times> Event) list \<Rightarrow> nat set" where
  "sent_seqs a xs = set (seq_nats (deliveries_to a xs))"

text \<open>Every remembered id is that of an event whose sequence number has been received.\<close>

definition remembers_received :: "('c \<Rightarrow> string list) \<Rightarrow> 'c EventPipeline \<Rightarrow> (string \<times> Event) list \<Rightarrow> bool" where
  "remembers_received keys p xs \<longleftrightarrow>
     (\<forall>x \<in> set xs. ev_ID (snd x) \<in> set (remembered keys (dedup p) (fst x)) \<longrightarrow>
        unat (ev_Seq (snd x)) \<in> received p (fst x))"

lemma received_other:
  assumes "pipeline_inv p" and "ProcessEvent ops p a e = (r, p')" and "b \<noteq> a"
  shows "received p' b = received p b"
  using ProcessEvent_step [OF assms(1,2)] assms(3) by (simp add: received_def)

context lru_contract
begin

lemma received_step:
  assumes inv: "pipeline_inv p" "dedup_inv cap keys (dedup p)"
    and input: "usable_input xs" "x \<in> set xs" "remembers_received keys p xs"
    and x: "x = (a, e)" and res: "ProcessEvent ops p a e = (r, p')"
  shows "received p' b = (if b = a then insert (unat (ev_Seq e)) (received p a) else received p b)"
    and "pipeline_inv p'" and "dedup_inv cap keys (dedup p')" and "remembers_received keys p' xs"
proof -
  have u: "a \<noteq> []" "CHR '':'' \<notin> set a" "ev_ID e \<noteq> []" "ev_Seq e \<noteq> 0"
    using input x by (auto simp: usable_input_def)
  note spec = seen_spec [OF inv(2) u(2,1,3)]
  have dd: "dedup p' = snd (seen ops (dedup p) (a @ CHR '':'' # ev_ID e))"
    using ProcessEvent_dedup [OF u(1,3), of ops p] res by simp
  have here: "received p' a = insert (unat (ev_Seq e)) (received p a)"
  proof (cases "fst (seen ops (dedup p) (a @ CHR '':'' # ev_ID e))")
    case True
    then have "unat (ev_Seq e) \<in> received p a"
      using spec(1) input x by (force simp: remembers_received_def)
    with ProcessEvent_duplicate [OF u(1,3) True] res show ?thesis by (auto simp: insert_absorb)
  next
    case False
    then show ?thesis using ProcessEvent_received [OF inv(1) u(1,3,4) _ res] by blast
  qed
  show rec: "received p' b = (if b = a then insert (unat (ev_Seq e)) (received p a) else received p b)"
    for b using here received_other [OF inv(1) res] by simp
  show "pipeline_inv p'" using ProcessEvent_step [OF inv(1) res] by blast
  show "dedup_inv cap keys (dedup p')" using spec(3) by (simp add: dd)
  show "remembers_received keys p' xs"
    unfolding remembers_received_def
  proof (intro ballI impI)
    fix y assume y: "y \<in> set xs" "ev_ID (snd y) \<in> set (remembered keys (dedup p') (fst y))"
    show "unat (ev_Seq (snd y)) \<in> received p' (fst y)"
    proof (cases "ev_ID (snd y) \<in> set (remembered keys (dedup p) (fst y))")
      case True
      then show ?thesis using input(3) y(1) by (auto simp: remembers_received_def rec)
    next
      case False
      then have "fst y = a" "ev_ID (snd y) = ev_ID e"
        using y(2) by (auto simp: dd spec(2) split: if_splits dest!: in_set_takeD)
      then have "ev_Seq (snd y) = ev_Seq e"
        using input(1,2) y(1) x by (fastforce simp: usable_input_def)
      then show ?thesis using \<open>fst y = a\<close> by (simp add: rec)
    qed
  qed
qed

lemma received_run:
  assumes "pipeline_inv p" "dedup_inv cap keys (dedup p)" "usable_input all"
    and "set xs \<subseteq> set all" "remembers_received keys p all"
    and "process_all ops p xs = (ds, p')"
  shows "received p' a = received p a \<union> sent_seqs a xs"
  using assms
proof (induction xs arbitrary: p ds)
  case Nil
  then show ?case by (simp add: sent_seqs_def)
next
  case (Cons x xs)
  obtain b e where x: "x = (b, e)" by (cases x)
  obtain r p1 where pe: "ProcessEvent ops p b e = (r, p1)" by (cases "ProcessEvent ops p b e")
  obtain ds1 where rest: "process_all ops p1 xs = (ds1, p')"
    using Cons.prems(6) pe by (auto simp: x split: prod.splits)
  note step = received_step [OF Cons.prems(1,2,3) _ Cons.prems(5) x pe]
  have xin: "x \<in> set all" using Cons.prems(4) by simp
  have "received p' a = received p1 a \<union> sent_seqs a xs"
    using Cons.IH [OF _ _ Cons.prems(3) _ _ rest] step xin Cons.prems(4) by simp
  with step(1) [OF xin, of a] show ?case by (auto simp: sent_seqs_def deliveries_to_def x)
qed

end

section \<open>Properties of the pipeline\<close>

lemma fresh_pipeline:
  assumes "NewEventPipeline db table sender = Inr p"
  shows "pipeline_inv p" and "received p a = {}" and "unat (LastSequence p a) = 0"
    and "dedup_inv cap keys (dedup p)" and "remembered keys (dedup p) a = []"
  using assms
  by (auto simp: NewEventPipeline_def pipeline_inv_def received_def LastSequence_def pending_of_def
      split: sum.splits intro: dedup_inv_new remembered_new)

lemma complete_prefix:
  assumes inv: "pipeline_inv p" and rec: "received p a = {1..n}" and small: "n < 2 ^ 64 - 1"
  shows "unat (LastSequence p a) = n" and "PendingCount p a = 0"
proof -
  let ?l = "unat (LastSequence p a)"
  have "?l \<le> n"
  proof (cases "?l = 0")
    case False
    then have "?l \<in> received p a" by (simp add: received_def)
    then show ?thesis by (simp add: rec)
  qed simp
  moreover have "\<not> Suc ?l \<le> n" using next_not_received [OF inv, of a] by (simp add: rec)
  ultimately show last: "?l = n" by simp
  have "buffered (pending_of p a) = {}"
  proof (rule ccontr)
    assume "buffered (pending_of p a) \<noteq> {}"
    then obtain k e where k: "fmlookup (pending_of p a) k = Some e" by (auto simp: buffered_def)
    then have above: "LastSequence p a + 1 < k" using inv by (auto simp: pipeline_inv_def dest: buffer_okD)
    have "unat k \<in> received p a" using k by (auto simp: received_def buffered_def)
    then have "unat k \<le> ?l" by (simp add: rec last)
    moreover have "unat (LastSequence p a + 1) = Suc ?l"
      using small last by (simp add: unat_word_ariths)
    ultimately show False using above by (simp add: word_less_nat_alt)
  qed
  then show "PendingCount p a = 0" by (simp add: buffered_eq_empty PendingCount_def)
qed


definition demo_event :: "string \<Rightarrow> uint64 \<Rightarrow> Event" where
  "demo_event i s = \<lparr>ev_ID = i, ev_SessionID = ''s'', ev_Type = ''session.idle'', ev_Data = [],
     ev_Timestamp = 5, ev_Seq = s\<rparr>"

definition demo_pipeline :: "lru_list EventPipeline" where
  "demo_pipeline = \<lparr>has_db = True, events_table = fmempty, has_replay_sender = True,
     replayRequests = [], dedup = \<lparr>cacheSize = 1000, caches = fmempty\<rparr>, agentSequences = fmempty,
     pendingEvents = fmempty, persistQueue = []\<rparr>"

definition demo_input :: "(string \<times> Event) list" where
  "demo_input = [(''n1'', demo_event ''c'' 3), (''n2'', demo_event ''c'' 2), (''n1'', demo_event ''a'' 1),
     (''n1'', demo_event ''c'' 3), (''n1'', demo_event ''b'' 2), (''n1'', demo_event ''a'' 1)]"

lemma demo_pipeline_new: "NewEventPipeline True fmempty True = Inr demo_pipeline"
  by (simp add: NewEventPipeline_def newEventDedupCache_def dedupCacheSizePerAgent_def demo_pipeline_def)




text \<open>
  A replay request asks for a non-empty range that starts at the first sequence number the
  agent's stream still misses and ends just below the event that revealed the gap, and it is the
  only request of the call.
\<close>
theorem gap_requests_missing_range:
  assumes inv: "pipeline_inv p" and res: "ProcessEvent ops p a e = (r, p')"
    and req: "replayRequests p' \<noteq> replayRequests p"
  shows "replayRequests p' =
      replayRequests p @ [(a, \<lparr>From = LastSequence p a + 1, To = ev_Seq e - 1\<rparr>)] \<and>
    LastSequence p a + 1 \<le> ev_Seq e - 1 \<and> unat (LastSequence p a + 1) \<notin> received p a \<and>
    fmlookup (pending_of p' a) (ev_Seq e) = Some e"
  using res
proof (cases rule: ProcessEvent_cases)
  case (ignored d)
  then show ?thesis using req by simp
next
  case (accepted d es p2)
  then show ?thesis
    using req by (auto simp: enqueue_all consumeInOrder_pending split: prod.splits)
next
  case (gap d)
  have "LastSequence p a + 1 \<le> ev_Seq e - 1" using gap(4) by unat_arith
  moreover have "unat (LastSequence p a + 1) \<notin> received p a"
  proof
    assume "unat (LastSequence p a + 1) \<in> received p a"
    then consider "1 \<le> unat (LastSequence p a + 1)" "unat (LastSequence p a + 1) \<le> unat (LastSequence p a)"
      | k x where "fmlookup (pending_of p a) k = Some x" "unat (LastSequence p a + 1) = unat k"
      by (auto simp: received_def buffered_def)
    then show False
    proof cases
      case 1
      then show False by unat_arith
    next
      case 2
      then have "LastSequence p a + 1 < k"
        using inv by (auto simp: pipeline_inv_def dest: buffer_okD)
      with 2(2) show False by (simp add: word_less_nat_alt)
    qed
  qed
  ultimately show ?thesis
    using gap req by (auto simp: handleGap_def Let_def LastSequence_def pending_of_def split: if_splits)
qed

lemma gap_requests_missing_range_witness:
  "replayRequests (snd (ProcessEvent lru_ref demo_pipeline ''n1'' (demo_event ''c'' 3))) =
     [(''n1'', \<lparr>From = 1, To = 2\<rparr>)]"
proof -
  let ?p' = "snd (ProcessEvent lru_ref demo_pipeline ''n1'' (demo_event ''c'' 3))"
  have "replayRequests ?p' \<noteq> replayRequests demo_pipeline" by code_simp
  from gap_requests_missing_range [OF fresh_pipeline(1) [OF demo_pipeline_new]
      prod.collapse [symmetric] this]
  show ?thesis by (simp add: demo_pipeline_def LastSequence_def demo_event_def)
qed

subsection \<open>Duplicates and rejected events\<close>

text \<open>
  C3. An event is treated as a duplicate exactly when its id is among the remembered ids of its
  agent, a duplicate changes nothing at all, and the memory is a window: a new id is put in front
  and at most the configured number of ids is kept, per agent.
\<close>
theorem dedup_window:
  assumes c: "lru_contract ops cap keys" and inv: "dedup_inv cap keys (dedup p)"
    and a: "a \<noteq> []" "CHR '':'' \<notin> set a" and e: "ev_ID e \<noteq> []"
    and res: "ProcessEvent ops p a e = (r, p')"
  shows "(if ev_ID e \<in> set (remembered keys (dedup p) a) then r = None \<and> p' = p
     else remembered keys (dedup p') a =
       take (nat (cacheSize (dedup p))) (ev_ID e # remembered keys (dedup p) a)) \<and>
    length (remembered keys (dedup p') a) \<le> nat (cacheSize (dedup p)) \<and>
    dedup_inv cap keys (dedup p')"
proof -
  let ?s = "seen ops (dedup p) (a @ CHR '':'' # ev_ID e)"
  note spec = lru_contract.seen_spec [OF c inv a(2,1) e]
  have dd: "dedup p' = snd ?s" using ProcessEvent_dedup [OF a(1) e, of ops p] res by simp
  have "length (remembered keys d b) \<le> nat (cacheSize d)" if "dedup_inv cap keys d" for d b
    using that by (auto simp: dedup_inv_def remembered_def split: option.splits)
  then have "length (remembered keys (dedup p') a) \<le> nat (cacheSize (dedup p))"
    using spec(3,4) dd by metis
  moreover have "r = None \<and> p' = p" if "ev_ID e \<in> set (remembered keys (dedup p) a)"
  proof -
    have dup: "fst ?s" using spec(1) that by simp
    have "snd ?s = dedup p"
      using lru_contract.seen_True_same [OF c _ dup] inv by (simp add: dedup_inv_def)
    then show ?thesis using ProcessEvent_duplicate [OF a(1) e dup] res by simp
  qed
  ultimately show ?thesis using spec(2) [of a] spec(3) dd by simp
qed

lemma dedup_window_witness:
  "let p1 = snd (ProcessEvent lru_ref demo_pipeline ''n1'' (demo_event ''c'' 3))
   in ProcessEvent lru_ref p1 ''n1'' (demo_event ''c'' 4) = (None, p1)"
proof -
  define p1 where "p1 = snd (ProcessEvent lru_ref demo_pipeline ''n1'' (demo_event ''c'' 3))"
  have p1: "dedup p1 = \<lparr>cacheSize = 1000, caches = fmupd ''n1'' (1000, [''c'']) fmempty\<rparr>"
    unfolding p1_def by code_simp
  then have inv: "dedup_inv fst snd (dedup p1)" and mem: "''c'' \<in> set (remembered snd (dedup p1) ''n1'')"
    by (simp_all add: dedup_inv_def remembered_def)
  obtain r p2 where pe: "ProcessEvent lru_ref p1 ''n1'' (demo_event ''c'' 4) = (r, p2)"
    by (cases "ProcessEvent lru_ref p1 ''n1'' (demo_event ''c'' 4)")
  have "r = None \<and> p2 = p1"
    using dedup_window [OF lru_list.lru_contract_axioms inv _ _ _ pe] mem
    by (simp add: demo_event_def)
  then show ?thesis by (simp add: pe p1_def [symmetric])
qed

text \<open>
  The id of an event is recorded before its sequence number is validated: an event rejected
  with an error because its sequence number is 0 makes the pipeline drop, without an error and
  without any effect, the corrected event that is sent next under the same id.
\<close>
theorem rejected_event_blocks_its_id:
  assumes c: "lru_contract ops cap keys" and inv: "dedup_inv cap keys (dedup p)"
    and a: "a \<noteq> []" "CHR '':'' \<notin> set a" and e: "ev_ID e \<noteq> []" "ev_Seq e = 0"
    and new: "ev_ID e \<notin> set (remembered keys (dedup p) a)"
    and same: "ev_ID e' = ev_ID e"
  shows "\<exists>p1. ProcessEvent ops p a e = (Some (Errorf ''event sequence must be positive''), p1) \<and>
    ProcessEvent ops p1 a e' = (None, p1)"
proof -
  let ?s = "seen ops (dedup p) (a @ CHR '':'' # ev_ID e)"
  note spec = lru_contract.seen_spec [OF c inv a(2,1) e(1)]
  define p1 where "p1 = p\<lparr>dedup := snd ?s\<rparr>"
  have pe: "ProcessEvent ops p a e = (Some (Errorf ''event sequence must be positive''), p1)"
    using spec(1) new a e
    by (auto simp: ProcessEvent_def deduplicateEvent_def validateSequence_def p1_def split: prod.splits)
  have inv1: "dedup_inv cap keys (dedup p1)" using spec(3) by (simp add: p1_def)
  have "ev_ID e \<in> set (remembered keys (dedup p1) a)"
    using spec(2) [of a] new inv by (simp add: p1_def dedup_inv_def take_Cons')
  then have dup: "fst (seen ops (dedup p1) (a @ CHR '':'' # ev_ID e'))"
    using lru_contract.seen_spec(1) [OF c inv1 a(2,1)] e(1) same by simp
  then have "snd (seen ops (dedup p1) (a @ CHR '':'' # ev_ID e')) = dedup p1"
    using lru_contract.seen_True_same [OF c] inv1 by (simp add: dedup_inv_def)
  then have "ProcessEvent ops p1 a e' = (None, p1)"
    using ProcessEvent_duplicate [OF a(1) _ dup] e(1) same by simp
  with pe show ?thesis by blast
qed

lemma rejected_event_blocks_its_id_witness:
  "\<exists>p1. ProcessEvent lru_ref demo_pipeline ''n1'' (demo_event ''c'' 0) =
       (Some (Errorf ''event sequence must be positive''), p1) \<and>
     ProcessEvent lru_ref p1 ''n1'' (demo_event ''c'' 1) = (None, p1)"
  by (rule rejected_event_blocks_its_id [OF lru_list.lru_contract_axioms
        fresh_pipeline(4) [OF demo_pipeline_new]])
    (simp_all add: demo_event_def fresh_pipeline(5) [OF demo_pipeline_new])

subsection \<open>The persistence queue\<close>

lemma persistQueue_consume [simp]: "persistQueue (snd (consumeInOrder p a e)) = persistQueue p"
  by (simp add: consumeInOrder_pending split: prod.splits)

text \<open>
  Persistence is bounded and ordered: a call appends to the queue a prefix of what it
  delivers, the part that fits into the capacity, and drops the rest; without a full queue nothing
  is dropped.
\<close>
theorem queue_takes_what_fits:
  assumes "ProcessEvent ops p a e = (r, p')"
  shows "persistQueue p' = persistQueue p @
    take (persistQueueSize - length (persistQueue p)) (delivered ops p a e)"
  using assms
proof (cases rule: ProcessEvent_cases)
  case (accepted d es p2)
  then have "persistQueue p2 = persistQueue p"
    using persistQueue_consume [of "p\<lparr>dedup := d\<rparr>" a e] by (simp del: persistQueue_consume)
  then show ?thesis by (simp add: accepted(3,4) enqueue_all)
qed simp_all

text \<open>The row \<open>persistEvent\<close> writes.\<close>

definition row_of :: "(go_time \<Rightarrow> string) \<Rightarrow> go_time \<Rightarrow> Event \<Rightarrow> event_row" where
  "row_of format now e = \<lparr>row_session_id = ev_SessionID e, row_type = ev_Type e,
     row_data = (if ev_Data e = [] then ''{}'' else ev_Data e),
     row_timestamp = format (if ev_Timestamp e = 0 then now else ev_Timestamp e)\<rparr>"

lemma persistEvent_table:
  "events_table (snd (persistEvent format now out p e)) =
     (if has_db p \<and> out = None \<and> ev_ID e |\<notin>| fmdom (events_table p)
      then fmupd (ev_ID e) (row_of format now e) (events_table p) else events_table p)"
  "has_db (snd (persistEvent format now out p e)) = has_db p"
  by (auto simp: persistEvent_def Let_def row_of_def time_is_zero_def split: option.splits)

lemma workerStep_table:
  assumes "persistQueue p = e # q"
  shows "events_table (workerStep format now exec p) =
      (if has_db p \<and> exec e = None \<and> ev_ID e |\<notin>| fmdom (events_table p)
       then fmupd (ev_ID e) (row_of format now e) (events_table p) else events_table p)"
    and "has_db (workerStep format now exec p) = has_db p"
  using assms by (simp_all add: workerStep_def persistEvent_table)

text \<open>
  C4. Stopping loses nothing that was queued: the drain loop of the persistence worker ends with
  an empty queue, writes a row for every queued event whose id is not in the table yet and whose
  INSERT succeeds (the first of them, if several queued events share an id), and leaves every
  other row as it was.
\<close>
theorem drain_persists_queue:
  "persistQueue (workerDrain format now exec p) = [] \<and>
   fmlookup (events_table (workerDrain format now exec p)) i =
     (case fmlookup (events_table p) i of
        Some row \<Rightarrow> Some row
      | None \<Rightarrow> if has_db p
          then map_option (row_of format now)
            (find (\<lambda>e. ev_ID e = i \<and> exec e = None) (persistQueue p)) else None)"
proof (induction format now exec p rule: workerDrain.induct)
  case (1 format now exec p)
  show ?case
  proof (cases "persistQueue p")
    case Nil
    then show ?thesis by (simp add: workerDrain.simps [of _ _ _ p] split: option.splits)
  next
    case (Cons e q)
    let ?p = "workerStep format now exec p"
    have q: "persistQueue ?p = q" by (simp add: Cons)
    have "fmlookup (events_table p) (ev_ID e) \<noteq> None" if "ev_ID e |\<in>| fmdom (events_table p)"
      using that by (metis fmdom_notI)
    then show ?thesis
      using "1.IH" Cons q
      by (auto simp: workerDrain.simps [of _ _ _ p] workerStep_table [OF Cons] split: option.splits
          dest: fmdomI)
  qed
qed

end
