(* ===== verification/Cached_Store.thy ===== *)
theory Cached_Store
  imports Go_Lib
begin

text \<open>
  The contract behind \<open>NodeRegistry\<close> and \<open>SessionTracker\<close>: an in-memory map in front of a
  database table. Only a part of an entity is stored in its row (its \<open>core\<close>); an entity is
  \<open>ok\<close> when that part survives the text encoding of its timestamps.

  A cache is coherent with its table when every cached entity can be read back from its row,
  up to the fields that are never stored. The two components interpret the locales on their
  own scan and upsert functions.
\<close>

section \<open>Timestamps in the database\<close>

text \<open>\<open>Time.Format(time.RFC3339Nano)\<close> and \<open>time.Parse\<close>, of which only the text form matters.\<close>

record time_codec =
  format_nano :: "go_time \<Rightarrow> string"
  parse_layout :: "string \<Rightarrow> string \<Rightarrow> go_time go_result"

definition RFC3339Nano :: string where
  "RFC3339Nano = ''2006-01-02T15:04:05.999999999Z07:00''"

definition RFC3339 :: string where
  "RFC3339 = ''2006-01-02T15:04:05Z07:00''"

fun first_layout :: "time_codec \<Rightarrow> string list \<Rightarrow> string \<Rightarrow> go_time option" where
  "first_layout tc [] v = None"
| "first_layout tc (layout # layouts) v =
     (case parse_layout tc layout v of
        Inr t \<Rightarrow> Some t
      | Inl _ \<Rightarrow> first_layout tc layouts v)"

definition parseSQLiteTimestamp :: "time_codec \<Rightarrow> string \<Rightarrow> go_time go_result" where
  "parseSQLiteTimestamp tc value =
     (case first_layout tc
        [RFC3339Nano, RFC3339, ''2006-01-02 15:04:05'', ''2006-01-02 15:04:05.999999999''] value of
        Some t \<Rightarrow> Inr t
      | None \<Rightarrow> Inl (Errorf (''unsupported timestamp format: '' @ quoted value)))"

definition time_survives :: "time_codec \<Rightarrow> go_time \<Rightarrow> bool" where
  "time_survives tc t \<longleftrightarrow> parse_layout tc RFC3339Nano (format_nano tc t) = Inr t"

lemma parse_format: "time_survives tc t \<Longrightarrow> parseSQLiteTimestamp tc (format_nano tc t) = Inr t"
  by (simp add: parseSQLiteTimestamp_def time_survives_def)

text \<open>A codec to evaluate examples with: unary numerals.\<close>

definition unary_codec :: time_codec where
  "unary_codec = \<lparr>format_nano = (\<lambda>t. replicate (nat t) CHR ''1''),
     parse_layout = (\<lambda>layout s. if list_all (\<lambda>c. c = CHR ''1'') s then Inr (int (length s))
       else Inl (Errorf ''cannot parse''))\<rparr>"

lemma unary_codec_survives: "0 \<le> t \<Longrightarrow> time_survives unary_codec t"
  by (simp add: time_survives_def unary_codec_def list_all_length)

section \<open>Coherence\<close>

definition coherent :: "('e \<Rightarrow> bool) \<Rightarrow> ('e \<Rightarrow> 'e) \<Rightarrow> (string \<Rightarrow> 'r \<Rightarrow> 'e go_result)
    \<Rightarrow> (string, 'e) fmap \<Rightarrow> (string, 'r) fmap \<Rightarrow> bool" where
  "coherent ok core decode cache table \<longleftrightarrow>
     (\<forall>k e. fmlookup cache k = Some e \<longrightarrow> ok e \<longrightarrow>
        (\<exists>row. fmlookup table k = Some row \<and> decode k row = Inr (core e)))"

lemma coherent_empty [simp]: "coherent ok core decode fmempty table"
  by (simp add: coherent_def)

lemma coherentD:
  assumes "coherent ok core decode cache table" and "fmlookup cache k = Some e" and "ok e"
  obtains row where "fmlookup table k = Some row" and "decode k row = Inr (core e)"
  using assms by (auto simp: coherent_def)

locale cached_store =
  fixes ok :: "'e \<Rightarrow> bool"
    and core :: "'e \<Rightarrow> 'e"
    and key :: "'e \<Rightarrow> string"
    and decode :: "string \<Rightarrow> 'r \<Rightarrow> 'e go_result"
    and encode :: "'e \<Rightarrow> 'r"
  assumes decode_encode: "ok e \<Longrightarrow> decode (key e) (encode e) = Inr (core e)"
    and decode_core: "decode k r = Inr e \<Longrightarrow> core e = e \<and> key e = k"
begin

lemma coherent_put:
  "coherent ok core decode cache table \<Longrightarrow>
   coherent ok core decode (fmupd (key e) e cache) (fmupd (key e) (encode e) table)"
  by (auto simp: coherent_def decode_encode)

lemma coherent_fill:
  assumes "coherent ok core decode cache table"
    and "fmlookup table k = Some r" and "decode k r = Inr e"
  shows "coherent ok core decode (fmupd k e cache) table"
  using assms decode_core [OF assms(3)] by (auto simp: coherent_def)

lemma coherent_refresh:
  assumes "coherent ok core decode cache table" and "fmlookup cache k = Some e"
    and "core e' = core e" and "ok e' \<Longrightarrow> ok e"
  shows "coherent ok core decode (fmupd k e' cache) table"
  using assms by (auto simp: coherent_def)

text \<open>A whole table loaded into the cache.\<close>

lemma coherent_load:
  assumes "\<And>k e. fmlookup cache k = Some e \<Longrightarrow> \<exists>r. fmlookup table k = Some r \<and> decode k r = Inr e"
  shows "coherent ok core decode cache table"
  using assms decode_core by (fastforce simp: coherent_def)

end

text \<open>A read that consults the cache first and remembers what it found in the table.\<close>

locale read_through = cached_store +
  fixes cache_of :: "'s \<Rightarrow> (string, 'e) fmap"
    and table_of :: "'s \<Rightarrow> (string, 'r) fmap"
    and with_cache :: "(string, 'e) fmap \<Rightarrow> 's \<Rightarrow> 's"
    and read :: "exec_outcome \<Rightarrow> 's \<Rightarrow> string \<Rightarrow> 'e go_result \<times> 's"
  assumes cache_of_with: "cache_of (with_cache c s) = c"
    and table_of_with: "table_of (with_cache c s) = table_of s"
    and read_hit: "fmlookup (cache_of s) k = Some e \<Longrightarrow> read out s k = (Inr e, s)"
    and read_fill: "fmlookup (cache_of s) k = None \<Longrightarrow> fmlookup (table_of s) k = Some r \<Longrightarrow>
      decode k r = Inr e \<Longrightarrow> read None s k = (Inr e, with_cache (fmupd k e (cache_of s)) s)"
    and read_keeps: "read out s k = (res, s') \<Longrightarrow> s' \<noteq> s \<Longrightarrow>
      \<exists>r e. res = Inr e \<and> fmlookup (table_of s) k = Some r \<and> decode k r = Inr e \<and>
        s' = with_cache (fmupd k e (cache_of s)) s"
    and read_found: "read out s k = (Inr e, s') \<Longrightarrow> fmlookup (cache_of s') k = Some e"
begin

lemma read_coherent:
  assumes "coherent ok core decode (cache_of s) (table_of s)" and "read out s k = (res, s')"
  shows "coherent ok core decode (cache_of s') (table_of s')"
proof (cases "s' = s")
  case True
  then show ?thesis using assms(1) by simp
next
  case False
  then show ?thesis
    using read_keeps [OF assms(2) False] coherent_fill [OF assms(1)]
    by (auto simp: cache_of_with table_of_with)
qed

lemma read_again: "read out s k = (Inr e, s') \<Longrightarrow> read out' s' k = (Inr e, s')"
  by (rule read_hit) (rule read_found)

text \<open>After a restart, which empties the cache, an entity is read back from its row.\<close>

lemma read_after_restart:
  assumes "coherent ok core decode (cache_of s) (table_of s)"
    and "fmlookup (cache_of s) k = Some e" and "ok e"
  shows "fst (read None (with_cache fmempty s) k) = Inr (core e)"
proof -
  from assms obtain r where "fmlookup (table_of s) k = Some r" "decode k r = Inr (core e)"
    by (rule coherentD)
  then show ?thesis
    using read_fill [of "with_cache fmempty s" k r "core e"]
    by (simp add: cache_of_with table_of_with)
qed

end

end
