(* ===== verification/Registry.thy ===== *)
theory Registry
  imports Cached_Store
begin

text \<open>
  \<open>internal/supervisor/registry.go\<close>, \<open>auth_state.go\<close> and \<open>credential_sync.go\<close>: the node
  registry, a write-through cache over the table \<open>nodes\<close>.

  Every statement sent to the database has its outcome as an argument, \<open>None\<close> for success;
  \<open>now\<close> is the clock reading. A nil \<open>AuthStates\<close> map is \<open>None\<close>. \<open>json.Unmarshal\<close> of a
  payload is a parameter.
\<close>

section \<open>Data\<close>

type_synonym NodeStatus = string
type_synonym CredentialSyncStatus = string

definition NodeStatusOnline :: NodeStatus where "NodeStatusOnline = ''online''"
definition NodeStatusOffline :: NodeStatus where "NodeStatusOffline = ''offline''"
definition CredentialSyncStatusInSync :: CredentialSyncStatus where
  "CredentialSyncStatusInSync = ''in_sync''"
definition CredentialSyncStatusDriftDetected :: CredentialSyncStatus where
  "CredentialSyncStatusDriftDetected = ''drift_detected''"
definition CredentialSyncStatusUnknown :: CredentialSyncStatus where
  "CredentialSyncStatusUnknown = ''unknown''"

record NodeAuthState =
  as_Tool :: string
  as_Status :: string
  as_Reason :: string
  as_CheckedAt :: go_time

record NodeEntry =
  ne_ID :: string
  ne_Hostname :: string
  ne_Address :: string
  ne_Projects :: "string list"
  ne_Capabilities :: "string list"
  ne_Status :: NodeStatus
  ne_LastHeartbeat :: go_time
  ne_ConnectedAt :: go_time
  ne_CredSyncStatus :: CredentialSyncStatus
  ne_CredVersion :: int
  ne_AuthStates :: "(string, NodeAuthState) fmap option"
  ne_AuthUpdatedAt :: go_time

definition zero_node :: NodeEntry where
  "zero_node = \<lparr>ne_ID = [], ne_Hostname = [], ne_Address = [], ne_Projects = [], ne_Capabilities = [],
     ne_Status = [], ne_LastHeartbeat = 0, ne_ConnectedAt = 0, ne_CredSyncStatus = [],
     ne_CredVersion = 0, ne_AuthStates = None, ne_AuthUpdatedAt = 0\<rparr>"

text \<open>A row of the table \<open>nodes\<close>; the two timestamps may be NULL.\<close>

record node_row =
  nr_hostname :: string
  nr_status :: string
  nr_last_heartbeat :: "string option"
  nr_connected_at :: "string option"

record NodeRegistry =
  nodes_table :: "(string, node_row) fmap"
  nodes :: "(string, NodeEntry) fmap"
  recoveryErrors :: "64 word"

section \<open>The database side\<close>

definition NewNodeRegistry :: "(string, node_row) fmap \<Rightarrow> NodeRegistry" where
  "NewNodeRegistry table = \<lparr>nodes_table = table, nodes = fmempty, recoveryErrors = 0\<rparr>"

definition node_row_of :: "time_codec \<Rightarrow> NodeEntry \<Rightarrow> node_row" where
  "node_row_of tc node = \<lparr>nr_hostname = ne_Hostname node, nr_status = ne_Status node,
     nr_last_heartbeat = Some (format_nano tc (ne_LastHeartbeat node)),
     nr_connected_at = Some (format_nano tc (ne_ConnectedAt node))\<rparr>"

definition upsertNode :: "time_codec \<Rightarrow> exec_outcome \<Rightarrow> NodeRegistry \<Rightarrow> NodeEntry
    \<Rightarrow> go_error option \<times> NodeRegistry" where
  "upsertNode tc out r node =
     (case out of
        Some err \<Rightarrow> (Some (Wrapf (''upsert node '' @ ne_ID node @ '': '') err), r)
      | None \<Rightarrow> (None, r\<lparr>nodes_table := fmupd (ne_ID node) (node_row_of tc node) (nodes_table r)\<rparr>))"

definition scan_time :: "time_codec \<Rightarrow> string \<Rightarrow> string \<Rightarrow> string option \<Rightarrow> go_time go_result" where
  "scan_time tc column i v =
     (case v of
        None \<Rightarrow> Inr 0
      | Some s \<Rightarrow>
          (case parseSQLiteTimestamp tc s of
             Inl err \<Rightarrow> Inl (Wrapf (''parse '' @ column @ '' for node '' @ i @ '': '') err)
           | Inr t \<Rightarrow> Inr t))"

text \<open>\<open>scanNodeRow\<close> and \<open>scanNodeSingleRow\<close> have the same body.\<close>

definition scanNodeRow :: "time_codec \<Rightarrow> string \<Rightarrow> node_row \<Rightarrow> NodeEntry go_result" where
  "scanNodeRow tc i row =
     (let entry = zero_node\<lparr>ne_ID := i, ne_Hostname := nr_hostname row, ne_Status := nr_status row,
                   ne_CredSyncStatus := CredentialSyncStatusUnknown\<rparr>
      in case scan_time tc ''last_heartbeat'' i (nr_last_heartbeat row) of
           Inl err \<Rightarrow> Inl err
         | Inr hb \<Rightarrow>
             (case scan_time tc ''connected_at'' i (nr_connected_at row) of
                Inl err \<Rightarrow> Inl err
              | Inr ca \<Rightarrow> Inr (entry\<lparr>ne_LastHeartbeat := hb, ne_ConnectedAt := ca\<rparr>)))"

definition readNode :: "time_codec \<Rightarrow> exec_outcome \<Rightarrow> NodeRegistry \<Rightarrow> string \<Rightarrow> NodeEntry go_result" where
  "readNode tc out r nodeID =
     (case out of
        Some err \<Rightarrow> Inl err
      | None \<Rightarrow>
          (case fmlookup (nodes_table r) nodeID of
             None \<Rightarrow> Inl (Sentinel ErrNoRows)
           | Some row \<Rightarrow> scanNodeRow tc nodeID row))"

section \<open>Operations\<close>

definition cache_node :: "NodeRegistry \<Rightarrow> string \<Rightarrow> NodeEntry \<Rightarrow> NodeRegistry" where
  "cache_node r nodeID node = r\<lparr>nodes := fmupd nodeID node (nodes r)\<rparr>"

definition Register :: "time_codec \<Rightarrow> go_time \<Rightarrow> exec_outcome \<Rightarrow> NodeRegistry \<Rightarrow> NodeEntry
    \<Rightarrow> go_error option \<times> NodeRegistry" where
  "Register tc now out r node0 =
     (if ne_ID node0 = [] then (Some (Errorf ''register node: missing id''), r)
      else if ne_Hostname node0 = []
      then (Some (Errorf (''register node '' @ ne_ID node0 @ '': missing hostname'')), r)
      else
        let node = node0\<lparr>
              ne_ConnectedAt := (if time_is_zero (ne_ConnectedAt node0) then now else ne_ConnectedAt node0),
              ne_Status := NodeStatusOnline, ne_LastHeartbeat := now,
              ne_CredSyncStatus := (if ne_CredSyncStatus node0 = [] then CredentialSyncStatusUnknown
                else ne_CredSyncStatus node0)\<rparr>
        in case upsertNode tc out r node of
             (Some err, r') \<Rightarrow> (Some (Wrapf (''register node '' @ ne_ID node @ '': '') err), r')
           | (None, r') \<Rightarrow> (None, cache_node r' (ne_ID node) node))"

text \<open>A cached node, or the one in the table; the shared head of four operations, with the
  operation's name for the error text.\<close>

definition node_or_row :: "time_codec \<Rightarrow> exec_outcome \<Rightarrow> NodeRegistry \<Rightarrow> string \<Rightarrow> string
    \<Rightarrow> NodeEntry go_result" where
  "node_or_row tc out r action nodeID =
     (case fmlookup (nodes r) nodeID of
        Some node \<Rightarrow> Inr node
      | None \<Rightarrow>
          (case readNode tc out r nodeID of
             Inr node \<Rightarrow> Inr node
           | Inl err \<Rightarrow>
               if errors_Is err ErrNoRows then Inl (Sentinel ErrNodeNotFound)
               else Inl (Wrapf (action @ '' '' @ nodeID @ '': '') err)))"

definition MarkOffline :: "time_codec \<Rightarrow> go_time \<Rightarrow> exec_outcome \<Rightarrow> exec_outcome \<Rightarrow> NodeRegistry \<Rightarrow> string
    \<Rightarrow> go_error option \<times> NodeRegistry" where
  "MarkOffline tc now qout out r nodeID =
     (case node_or_row tc qout r ''mark node offline'' nodeID of
        Inl err \<Rightarrow> (Some err, r)
      | Inr node0 \<Rightarrow>
          let node = node0\<lparr>ne_Status := NodeStatusOffline, ne_LastHeartbeat := now\<rparr>
          in case upsertNode tc out r node of
               (Some err, r') \<Rightarrow> (Some (Wrapf (''mark node offline '' @ nodeID @ '': '') err), r')
             | (None, r') \<Rightarrow> (None, cache_node r' nodeID node))"

definition Unregister :: "time_codec \<Rightarrow> go_time \<Rightarrow> exec_outcome \<Rightarrow> exec_outcome \<Rightarrow> NodeRegistry \<Rightarrow> string
    \<Rightarrow> go_error option \<times> NodeRegistry" where
  "Unregister tc now qout out r nodeID = MarkOffline tc now qout out r nodeID"

definition GetNode :: "time_codec \<Rightarrow> exec_outcome \<Rightarrow> NodeRegistry \<Rightarrow> string
    \<Rightarrow> NodeEntry go_result \<times> NodeRegistry" where
  "GetNode tc out r nodeID =
     (case fmlookup (nodes r) nodeID of
        Some node \<Rightarrow> (Inr node, r)
      | None \<Rightarrow>
          (case readNode tc out r nodeID of
             Inr node \<Rightarrow> (Inr node, cache_node r nodeID node)
           | Inl err \<Rightarrow>
               if errors_Is err ErrNoRows then (Inl (Sentinel ErrNodeNotFound), r)
               else (Inl (Wrapf (''get node '' @ nodeID @ '': '') err), r)))"

text \<open>\<open>ks\<close> is the order in which the \<open>range\<close> loop visits the map.\<close>

definition ListNodes :: "NodeRegistry \<Rightarrow> string list \<Rightarrow> NodeEntry list" where
  "ListNodes r ks = map_values (nodes r) ks"

text \<open>The second critical section of \<open>UpdateAuthState\<close>, for the node the first one has read.\<close>

definition store_auth_states :: "go_time \<Rightarrow> NodeRegistry \<Rightarrow> string \<Rightarrow> NodeEntry \<Rightarrow> (string, NodeAuthState) fmap
    \<Rightarrow> NodeRegistry" where
  "store_auth_states now r nodeID node states =
     (let old = (case ne_AuthStates node of None \<Rightarrow> fmempty | Some m \<Rightarrow> m)
      in cache_node r nodeID (node\<lparr>ne_AuthStates := Some (old ++\<^sub>f states), ne_AuthUpdatedAt := now\<rparr>))"

definition UpdateAuthState :: "time_codec \<Rightarrow> go_time \<Rightarrow> exec_outcome \<Rightarrow> NodeRegistry \<Rightarrow> string
    \<Rightarrow> (string, NodeAuthState) fmap \<Rightarrow> go_error option \<times> NodeRegistry" where
  "UpdateAuthState tc now qout r nodeID states =
     (case node_or_row tc qout r ''update auth state'' nodeID of
        Inl err \<Rightarrow> (Some err, r)
      | Inr node \<Rightarrow> (None, store_auth_states now r nodeID node states))"

definition GetAuthState :: "time_codec \<Rightarrow> exec_outcome \<Rightarrow> NodeRegistry \<Rightarrow> string
    \<Rightarrow> (string, NodeAuthState) fmap \<times> NodeRegistry" where
  "GetAuthState tc out r nodeID =
     (case Option.bind (fmlookup (nodes r) nodeID) ne_AuthStates of
        Some m \<Rightarrow> (m, r)
      | None \<Rightarrow>
          (case readNode tc out r nodeID of
             Inl _ \<Rightarrow> (fmempty, r)
           | Inr node \<Rightarrow>
               (case ne_AuthStates node of
                  None \<Rightarrow> (fmempty, r)
                | Some m \<Rightarrow> (m, cache_node r nodeID node))))"

definition ReconcileCredentialVersion :: "time_codec \<Rightarrow> exec_outcome \<Rightarrow> NodeRegistry \<Rightarrow> string
    \<Rightarrow> int \<Rightarrow> int \<Rightarrow> go_error option \<times> NodeRegistry" where
  "ReconcileCredentialVersion tc qout r nodeID reportedVersion expectedVersion =
     (case node_or_row tc qout r ''reconcile credential version'' nodeID of
        Inl err \<Rightarrow> (Some err, r)
      | Inr node \<Rightarrow>
          (None, cache_node r nodeID (node\<lparr>ne_CredVersion := reportedVersion,
             ne_CredSyncStatus := (if reportedVersion = expectedVersion
               then CredentialSyncStatusInSync else CredentialSyncStatusDriftDetected)\<rparr>)))"

text \<open>The loop over the result rows, in the order \<open>ks\<close> the query returns them: the map and the
  number of rows that did not scan.\<close>

fun load_rows :: "time_codec \<Rightarrow> (string, node_row) fmap \<Rightarrow> string list
    \<Rightarrow> (string, NodeEntry) fmap \<times> 64 word \<Rightarrow> (string, NodeEntry) fmap \<times> 64 word" where
  "load_rows tc table [] acc = acc"
| "load_rows tc table (k # ks) (m, errs) =
     (case fmlookup table k of
        None \<Rightarrow> load_rows tc table ks (m, errs)
      | Some row \<Rightarrow>
          (case scanNodeRow tc k row of
             Inl _ \<Rightarrow> load_rows tc table ks (m, errs + 1)
           | Inr entry \<Rightarrow>
               load_rows tc table ks (fmupd k (entry\<lparr>ne_Status := NodeStatusOffline\<rparr>) m, errs)))"

definition LoadNodesFromDB :: "time_codec \<Rightarrow> exec_outcome \<Rightarrow> exec_outcome \<Rightarrow> exec_outcome \<Rightarrow> string list
    \<Rightarrow> NodeRegistry \<Rightarrow> go_error option \<times> NodeRegistry" where
  "LoadNodesFromDB tc uout qout iout ks r =
     (case uout of
        Some err \<Rightarrow> (Some (Wrapf ''load nodes: mark offline: '' err), r)
      | None \<Rightarrow>
          let r1 = r\<lparr>nodes_table := fmmap (\<lambda>row. row\<lparr>nr_status := NodeStatusOffline\<rparr>) (nodes_table r)\<rparr>
          in case qout of
               Some err \<Rightarrow> (Some (Wrapf ''load nodes: query rows: '' err), r1)
             | None \<Rightarrow>
                 (case load_rows tc (nodes_table r1) ks (fmempty, recoveryErrors r1) of
                    (m, errs) \<Rightarrow>
                      (case iout of
                         Some err \<Rightarrow> (Some (Wrapf ''load nodes: iterate rows: '' err),
                                      r1\<lparr>recoveryErrors := errs\<rparr>)
                       | None \<Rightarrow> (None, r1\<lparr>recoveryErrors := errs, nodes := m\<rparr>))))"

definition RecoveryErrorCount :: "NodeRegistry \<Rightarrow> 64 word" where
  "RecoveryErrorCount r = recoveryErrors r"

section \<open>Messages\<close>

record AuthStateReport =
  rep_Tool :: string
  rep_Status :: string
  rep_Reason :: string
  rep_CheckedAt :: go_time

record CredentialSyncPayload =
  csp_NodeID :: string
  csp_CredentialVersion :: int

fun states_of :: "AuthStateReport list \<Rightarrow> (string, NodeAuthState) fmap \<Rightarrow> (string, NodeAuthState) fmap" where
  "states_of [] m = m"
| "states_of (report # reports) m =
     states_of reports (fmupd (rep_Tool report)
       \<lparr>as_Tool = rep_Tool report, as_Status = rep_Status report, as_Reason = rep_Reason report,
        as_CheckedAt = rep_CheckedAt report\<rparr> m)"

definition HandleAuthStateMessage :: "(string \<Rightarrow> AuthStateReport list go_result) \<Rightarrow> time_codec \<Rightarrow> go_time
    \<Rightarrow> exec_outcome \<Rightarrow> NodeRegistry \<Rightarrow> string \<Rightarrow> string \<Rightarrow> go_error option \<times> NodeRegistry" where
  "HandleAuthStateMessage unmarshal tc now qout r nodeID payload =
     (if nodeID = [] then (Some (Errorf ''auth_state node id is required''), r)
      else case unmarshal payload of
          Inl err \<Rightarrow> (Some (Wrapf ''unmarshal auth_state payload: '' err), r)
        | Inr reports \<Rightarrow>
            if reports = [] then (Some (Errorf ''auth_state reports must not be empty''), r)
            else UpdateAuthState tc now qout r nodeID (states_of reports fmempty))"

definition HandleCredentialSyncMessage :: "(string \<Rightarrow> CredentialSyncPayload go_result) \<Rightarrow> time_codec
    \<Rightarrow> exec_outcome \<Rightarrow> NodeRegistry \<Rightarrow> string \<Rightarrow> int \<Rightarrow> go_error option \<times> NodeRegistry" where
  "HandleCredentialSyncMessage unmarshal tc qout r payload expectedVersion =
     (case unmarshal payload of
        Inl err \<Rightarrow> (Some (Wrapf ''unmarshal credential_sync payload: '' err), r)
      | Inr p \<Rightarrow>
          if csp_NodeID p = [] then (Some (Errorf ''credential_sync.node_id is required''), r)
          else ReconcileCredentialVersion tc qout r (csp_NodeID p) (csp_CredentialVersion p) expectedVersion)"

section \<open>The registry as a cached store\<close>

text \<open>The part of a node that its row keeps, and when the row keeps it.\<close>

definition node_core :: "NodeEntry \<Rightarrow> NodeEntry" where
  "node_core e = zero_node\<lparr>ne_ID := ne_ID e, ne_Hostname := ne_Hostname e, ne_Status := ne_Status e,
     ne_LastHeartbeat := ne_LastHeartbeat e, ne_ConnectedAt := ne_ConnectedAt e,
     ne_CredSyncStatus := CredentialSyncStatusUnknown\<rparr>"

definition node_storable :: "time_codec \<Rightarrow> NodeEntry \<Rightarrow> bool" where
  "node_storable tc e \<longleftrightarrow> time_survives tc (ne_LastHeartbeat e) \<and> time_survives tc (ne_ConnectedAt e)"

interpretation node_store:
  cached_store "node_storable tc" node_core ne_ID "scanNodeRow tc" "node_row_of tc" for tc
proof
  show "scanNodeRow tc (ne_ID e) (node_row_of tc e) = Inr (node_core e)" if "node_storable tc e" for e
    using that by (simp add: node_storable_def scanNodeRow_def node_row_of_def scan_time_def
        parse_format node_core_def)
  show "node_core e = e \<and> ne_ID e = k" if "scanNodeRow tc k r = Inr e" for k r e
    using that by (auto simp: scanNodeRow_def Let_def node_core_def zero_node_def split: sum.splits)
qed

definition with_nodes :: "(string, NodeEntry) fmap \<Rightarrow> NodeRegistry \<Rightarrow> NodeRegistry" where
  "with_nodes m r = r\<lparr>nodes := m\<rparr>"

lemma GetNode_simps:
  "fmlookup (nodes r) k = Some e \<Longrightarrow> GetNode tc out r k = (Inr e, r)"
  "fmlookup (nodes r) k = None \<Longrightarrow> readNode tc out r k = Inr e \<Longrightarrow>
     GetNode tc out r k = (Inr e, r\<lparr>nodes := fmupd k e (nodes r)\<rparr>)"
  by (simp_all add: GetNode_def cache_node_def)

lemma readNode_Inr_iff:
  "readNode tc out r k = Inr e \<longleftrightarrow>
     out = None \<and> (\<exists>row. fmlookup (nodes_table r) k = Some row \<and> scanNodeRow tc k row = Inr e)"
  by (auto simp: readNode_def split: option.splits)

interpretation node_store:
  read_through "node_storable tc" node_core ne_ID "scanNodeRow tc" "node_row_of tc"
    nodes nodes_table with_nodes "GetNode tc" for tc
proof
  fix s s' :: NodeRegistry and k out res and e :: NodeEntry
  assume r: "GetNode tc out s k = (res, s')" and "s' \<noteq> s"
  then show "\<exists>r e. res = Inr e \<and> fmlookup (nodes_table s) k = Some r \<and> scanNodeRow tc k r = Inr e \<and>
        s' = with_nodes (fmupd k e (nodes s)) s"
    by (auto simp: GetNode_def cache_node_def with_nodes_def readNode_Inr_iff
        split: option.splits sum.splits if_splits)
next
  show "fmlookup (nodes s') k = Some e" if "GetNode tc out s k = (Inr e, s')" for s s' out k e
    using that by (auto simp: GetNode_def cache_node_def split: option.splits sum.splits if_splits)
qed (auto simp: with_nodes_def GetNode_simps readNode_Inr_iff cache_node_def)

abbreviation registry_coherent :: "time_codec \<Rightarrow> NodeRegistry \<Rightarrow> bool" where
  "registry_coherent tc r \<equiv>
     coherent (node_storable tc) node_core (scanNodeRow tc) (nodes r) (nodes_table r)"

text \<open>Cached nodes are filed under their own id.\<close>

definition keyed :: "NodeRegistry \<Rightarrow> bool" where
  "keyed r \<longleftrightarrow> (\<forall>k e. fmlookup (nodes r) k = Some e \<longrightarrow> ne_ID e = k)"

definition registry_inv :: "time_codec \<Rightarrow> NodeRegistry \<Rightarrow> bool" where
  "registry_inv tc r \<longleftrightarrow> registry_coherent tc r \<and> keyed r"

lemma registry_inv_put [keeps]:
  assumes "registry_inv tc r" and "ne_ID e = k"
  shows "registry_inv tc (cache_node (r\<lparr>nodes_table := fmupd k (node_row_of tc e) (nodes_table r)\<rparr>) k e)"
  using assms node_store.coherent_put [of tc "nodes r" "nodes_table r" e]
  by (auto simp: registry_inv_def keyed_def cache_node_def)

lemma registry_inv_cache:
  assumes inv: "registry_inv tc r" and read: "node_or_row tc out r act k = Inr e"
    and same: "node_core e' = node_core e"
  shows "registry_inv tc (cache_node r k e')"
proof -
  have times: "node_storable tc e' = node_storable tc e" and id: "ne_ID e' = ne_ID e"
    using same by (auto simp: node_core_def zero_node_def node_storable_def)
  have co: "registry_coherent tc r" and key: "keyed r" using inv by (auto simp: registry_inv_def)
  consider (hit) "fmlookup (nodes r) k = Some e" | (row) row where
    "fmlookup (nodes_table r) k = Some row" "scanNodeRow tc k row = Inr e"
    using read by (auto simp: node_or_row_def readNode_Inr_iff split: option.splits sum.splits if_splits)
  then have "coherent (node_storable tc) node_core (scanNodeRow tc) (fmupd k e' (nodes r)) (nodes_table r)
      \<and> ne_ID e = k"
  proof cases
    case hit
    then show ?thesis
      using node_store.coherent_refresh [OF co hit same] key times by (auto simp: keyed_def)
  next
    case row
    have "coherent (node_storable tc) node_core (scanNodeRow tc) (fmupd k e (nodes r)) (nodes_table r)"
      by (rule node_store.coherent_fill [OF co row])
    then have "coherent (node_storable tc) node_core (scanNodeRow tc)
        (fmupd k e' (fmupd k e (nodes r))) (nodes_table r)"
      by (rule node_store.coherent_refresh) (simp_all add: same times)
    then show ?thesis using node_store.decode_core [OF row(2)] by simp
  qed
  then show ?thesis using key id by (auto simp: registry_inv_def keyed_def cache_node_def)
qed

lemma node_or_row_ID:
  "registry_inv tc r \<Longrightarrow> node_or_row tc out r act k = Inr e \<Longrightarrow> ne_ID e = k"
  by (auto simp: node_or_row_def readNode_Inr_iff registry_inv_def keyed_def
      split: option.splits sum.splits if_splits dest: node_store.decode_core)

lemma Register_inv [keeps]: "registry_inv tc r \<Longrightarrow> registry_inv tc (snd (Register tc now out r e))"
  by (auto simp: Register_def upsertNode_def Let_def registry_inv_put split: option.splits)

lemma MarkOffline_inv [keeps]:
  "registry_inv tc r \<Longrightarrow> registry_inv tc (snd (MarkOffline tc now qout out r k))"
  by (auto simp: MarkOffline_def upsertNode_def Let_def node_or_row_ID registry_inv_put
      split: option.splits sum.splits)

lemma UpdateAuthState_inv [keeps]:
  "registry_inv tc r \<Longrightarrow> registry_inv tc (snd (UpdateAuthState tc now out r k states))"
  by (auto simp: UpdateAuthState_def store_auth_states_def Let_def node_core_def intro: registry_inv_cache split: sum.splits)

lemma ReconcileCredentialVersion_inv [keeps]:
  "registry_inv tc r \<Longrightarrow> registry_inv tc (snd (ReconcileCredentialVersion tc out r k v w))"
  by (auto simp: ReconcileCredentialVersion_def node_core_def intro: registry_inv_cache split: sum.splits)

lemma GetNode_inv [keeps]:
  assumes "registry_inv tc r"
  shows "registry_inv tc (snd (GetNode tc out r k))"
proof -
  have "GetNode tc out r k = (case node_or_row tc out r ''get node'' k of
      Inl err \<Rightarrow> (Inl err, r)
    | Inr e \<Rightarrow> (Inr e, if fmlookup (nodes r) k = None then cache_node r k e else r))"
    by (auto simp: GetNode_def node_or_row_def split: option.splits sum.splits)
  then show ?thesis
    using assms registry_inv_cache [OF assms] by (auto split: sum.splits)
qed

lemma GetAuthState_same: "snd (GetAuthState tc out r k) = r"
  by (auto simp: GetAuthState_def readNode_def scanNodeRow_def zero_node_def Let_def
      split: option.splits sum.splits)

lemma load_rows_lookup:
  "fmlookup (fst (load_rows tc table ks (m, n))) k =
     (if k \<in> set ks then
        (case Option.bind (fmlookup table k) (\<lambda>row. case scanNodeRow tc k row of Inl _ \<Rightarrow> None | Inr e \<Rightarrow> Some e) of
           Some e \<Rightarrow> Some (e\<lparr>ne_Status := NodeStatusOffline\<rparr>)
         | None \<Rightarrow> fmlookup m k)
      else fmlookup m k)"
  by (induction tc table ks "(m, n)" arbitrary: m n rule: load_rows.induct)
    (auto split: option.splits sum.splits)

definition offline_row :: "node_row \<Rightarrow> node_row" where
  "offline_row row = row\<lparr>nr_status := NodeStatusOffline\<rparr>"

lemma scan_offline_row:
  "scanNodeRow tc k (offline_row row) =
     (case scanNodeRow tc k row of Inl err \<Rightarrow> Inl err | Inr e \<Rightarrow> Inr (e\<lparr>ne_Status := NodeStatusOffline\<rparr>))"
  by (auto simp: scanNodeRow_def offline_row_def Let_def split: sum.splits)

lemma load_rows_errors:
  assumes "\<forall>k \<in> set ks. fmlookup table k \<noteq> None"
  shows "snd (load_rows tc table ks (m, n)) =
     n + of_nat (length (filter (\<lambda>k. \<exists>row err. fmlookup table k = Some row \<and> scanNodeRow tc k row = Inl err) ks))"
  using assms
  by (induction tc table ks "(m, n)" arbitrary: m n rule: load_rows.induct)
    (auto split: option.splits sum.splits)

lemma LoadNodesFromDB_spec:
  assumes "LoadNodesFromDB tc uout qout iout ks r = (None, r')" and order: "iteration_order (nodes_table r) ks"
  shows "nodes_table r' = fmmap offline_row (nodes_table r)"
    and "fmlookup (nodes r') k =
      (case fmlookup (nodes_table r) k of
         None \<Rightarrow> None
       | Some row \<Rightarrow> (case scanNodeRow tc k row of
            Inl _ \<Rightarrow> None
          | Inr e \<Rightarrow> Some (e\<lparr>ne_Status := NodeStatusOffline\<rparr>)))"
    and "recoveryErrors r' = recoveryErrors r +
      of_nat (length (filter (\<lambda>k. \<exists>row err. fmlookup (nodes_table r) k = Some row \<and> scanNodeRow tc k row = Inl err) ks))"
proof -
  let ?t = "fmmap offline_row (nodes_table r)"
  have eq: "(\<lambda>row. row\<lparr>nr_status := NodeStatusOffline\<rparr>) = offline_row"
    by (simp add: offline_row_def fun_eq_iff)
  have r': "r' = r\<lparr>nodes_table := ?t, recoveryErrors := snd (load_rows tc ?t ks (fmempty, recoveryErrors r)),
      nodes := fst (load_rows tc ?t ks (fmempty, recoveryErrors r))\<rparr>"
    using assms(1) by (auto simp: LoadNodesFromDB_def Let_def eq split: option.splits prod.splits)
  have dom: "k \<in> set ks \<longleftrightarrow> fmlookup (nodes_table r) k \<noteq> None" for k
    using order by (auto simp: iteration_order_def fmlookup_dom_iff)
  show "nodes_table r' = ?t" by (simp add: r')
  show "fmlookup (nodes r') k = (case fmlookup (nodes_table r) k of None \<Rightarrow> None
       | Some row \<Rightarrow> (case scanNodeRow tc k row of Inl _ \<Rightarrow> None
          | Inr e \<Rightarrow> Some (e\<lparr>ne_Status := NodeStatusOffline\<rparr>)))"
    by (auto simp: r' load_rows_lookup dom scan_offline_row split: option.splits sum.splits)
  have "snd (load_rows tc ?t ks (fmempty, recoveryErrors r)) = recoveryErrors r +
      of_nat (length (filter (\<lambda>k. \<exists>row err. fmlookup ?t k = Some row \<and> scanNodeRow tc k row = Inl err) ks))"
    by (rule load_rows_errors) (simp add: dom)
  also have "filter (\<lambda>k. \<exists>row err. fmlookup ?t k = Some row \<and> scanNodeRow tc k row = Inl err) ks =
      filter (\<lambda>k. \<exists>row err. fmlookup (nodes_table r) k = Some row \<and> scanNodeRow tc k row = Inl err) ks"
    by (rule filter_cong) (auto simp: scan_offline_row split: sum.splits)
  finally show "recoveryErrors r' = recoveryErrors r +
      of_nat (length (filter (\<lambda>k. \<exists>row err. fmlookup (nodes_table r) k = Some row \<and> scanNodeRow tc k row = Inl err) ks))"
    by (simp add: r')
qed

lemma LoadNodesFromDB_inv:
  assumes "LoadNodesFromDB tc uout qout iout ks r = (None, r')" and "iteration_order (nodes_table r) ks"
  shows "registry_inv tc r'"
proof -
  note spec = LoadNodesFromDB_spec [OF assms]
  have row: "\<exists>row. fmlookup (nodes_table r') k = Some row \<and> scanNodeRow tc k row = Inr e"
    if "fmlookup (nodes r') k = Some e" for k e
    using that by (auto simp: spec scan_offline_row split: option.splits sum.splits)
  then have "registry_coherent tc r'" by (intro node_store.coherent_load) blast
  moreover have "keyed r'" using row node_store.decode_core by (fastforce simp: keyed_def)
  ultimately show ?thesis by (simp add: registry_inv_def)
qed

section \<open>Reachable registries\<close>

text \<open>Every registry that a sequence of operations, with any database outcomes, can produce. A
  failed \<open>LoadNodesFromDB\<close> ends the start-up and is not continued from.\<close>

inductive registry_reachable :: "time_codec \<Rightarrow> NodeRegistry \<Rightarrow> bool" for tc where
  created: "registry_reachable tc (NewNodeRegistry table)"
| registered: "registry_reachable tc r \<Longrightarrow> registry_reachable tc (snd (Register tc now out r node))"
| offlined: "registry_reachable tc r \<Longrightarrow> registry_reachable tc (snd (MarkOffline tc now qout out r k))"
| got: "registry_reachable tc r \<Longrightarrow> registry_reachable tc (snd (GetNode tc out r k))"
| auth_updated: "registry_reachable tc r \<Longrightarrow>
    registry_reachable tc (snd (UpdateAuthState tc now out r k states))"
| auth_got: "registry_reachable tc r \<Longrightarrow> registry_reachable tc (snd (GetAuthState tc out r k))"
| reconciled: "registry_reachable tc r \<Longrightarrow>
    registry_reachable tc (snd (ReconcileCredentialVersion tc out r k v w))"
| loaded: "registry_reachable tc r \<Longrightarrow> LoadNodesFromDB tc uout qout iout ks r = (None, r') \<Longrightarrow>
    iteration_order (nodes_table r) ks \<Longrightarrow> registry_reachable tc r'"

lemma registry_reachable_inv: "registry_reachable tc r \<Longrightarrow> registry_inv tc r"
proof (induction rule: registry_reachable.induct)
  case (created table)
  show ?case by (simp add: registry_inv_def keyed_def NewNodeRegistry_def)
qed (auto intro: keeps LoadNodesFromDB_inv simp: GetAuthState_same)

section \<open>Properties of the registry\<close>


definition demo_registry :: NodeRegistry where
  "demo_registry = snd (Register unary_codec 9 None (NewNodeRegistry fmempty)
     (zero_node\<lparr>ne_ID := ''n1'', ne_Hostname := ''host''\<rparr>))"

lemma demo_registry_lookup: "fmlookup (nodes demo_registry) ''n1'' =
    Some (zero_node\<lparr>ne_ID := ''n1'', ne_Hostname := ''host'', ne_Status := NodeStatusOnline,
      ne_LastHeartbeat := 9, ne_ConnectedAt := 9, ne_CredSyncStatus := CredentialSyncStatusUnknown\<rparr>)"
  by code_simp


text \<open>
  Start-up recovery: after a successful \<open>LoadNodesFromDB\<close> the registry holds exactly the rows
  that scan, each with status offline in memory and in the table, and the recovery error counter
  has grown by the number of rows that do not scan.
\<close>
theorem load_recovers_readable_rows:
  assumes "LoadNodesFromDB tc uout qout iout ks r = (None, r')" and "iteration_order (nodes_table r) ks"
  shows "fmlookup (nodes r') k =
      (case fmlookup (nodes_table r) k of
         None \<Rightarrow> None
       | Some row \<Rightarrow> (case scanNodeRow tc k row of
            Inl _ \<Rightarrow> None
          | Inr e \<Rightarrow> Some (e\<lparr>ne_Status := NodeStatusOffline\<rparr>))) \<and>
    nodes_table r' = fmmap offline_row (nodes_table r) \<and>
    RecoveryErrorCount r' = RecoveryErrorCount r + of_nat (length (filter
      (\<lambda>k. \<exists>row err. fmlookup (nodes_table r) k = Some row \<and> scanNodeRow tc k row = Inl err) ks))"
  using LoadNodesFromDB_spec [OF assms] by (simp add: RecoveryErrorCount_def)

definition demo_row :: "string \<Rightarrow> node_row" where
  "demo_row hb = \<lparr>nr_hostname = ''h'', nr_status = ''online'', nr_last_heartbeat = Some hb,
     nr_connected_at = None\<rparr>"

definition demo_nodes :: "(string, node_row) fmap" where
  "demo_nodes = fmap_of_list [(''n1'', demo_row ''11''), (''n2'', demo_row ''x'')]"

text \<open>
  The two critical sections of \<open>UpdateAuthState\<close> are not one: if the node is marked offline
  between them, the update writes the node back as it was read. The registry then reports the
  node online while its row says offline, until the next status change.
\<close>
theorem auth_update_revives_lost_node:
  assumes "registry_inv tc r" and "node_or_row tc q r ''update auth state'' k = Inr e"
    and "ne_Status e = NodeStatusOnline" and "q = None"
    and "r1 = snd (MarkOffline tc now None None r k)" and "r2 = store_auth_states now' r1 k e states"
  shows "(\<exists>e2. fmlookup (nodes r2) k = Some e2 \<and> ne_Status e2 = NodeStatusOnline) \<and>
    (\<exists>row. fmlookup (nodes_table r2) k = Some row \<and> nr_status row = NodeStatusOffline)"
proof -
  have "node_or_row tc None r ''mark node offline'' k = Inr e"
    using assms(2,4) by (auto simp: node_or_row_def split: option.splits sum.splits if_splits)
  with assms show ?thesis
    using node_or_row_ID [OF assms(1,2)]
    by (simp add: MarkOffline_def upsertNode_def Let_def store_auth_states_def cache_node_def node_row_of_def)
qed

lemma auth_update_revives_lost_node_witness:
  "\<exists>e2. fmlookup (nodes (store_auth_states 3 (snd (MarkOffline unary_codec 2 None None demo_registry ''n1'')) ''n1''
      (the (fmlookup (nodes demo_registry) ''n1'')) fmempty)) ''n1'' = Some e2 \<and> ne_Status e2 = NodeStatusOnline"
proof -
  have "registry_reachable unary_codec demo_registry"
    unfolding demo_registry_def by (intro registry_reachable.intros)
  note inv = registry_reachable_inv [OF this]
  have "node_or_row unary_codec None demo_registry ''update auth state'' ''n1'' =
      Inr (the (fmlookup (nodes demo_registry) ''n1''))"
    by (simp add: node_or_row_def demo_registry_lookup)
  from auth_update_revives_lost_node [OF inv this _ refl refl refl] show ?thesis
    by (simp add: demo_registry_lookup)
qed

end
