(* ===== verification/Tracker.thy ===== *)
theory Tracker
  imports Cached_Store "HOL-Library.Multiset"
begin

text \<open>
  \<open>internal/supervisor/tracker.go\<close>: the session tracker, a write-through cache over the table
  \<open>sessions\<close>. The conventions are those of the registry: outcomes of database statements and
  clock readings are arguments, and a \<open>range\<close> loop over a map takes its visiting order.
\<close>

section \<open>Data\<close>

type_synonym SessionStatus = string

definition SessionStatusRunning :: SessionStatus where "SessionStatusRunning = ''running''"
definition SessionStatusIdle :: SessionStatus where "SessionStatusIdle = ''idle''"
definition SessionStatusError :: SessionStatus where "SessionStatusError = ''error''"
definition SessionStatusUnreachable :: SessionStatus where "SessionStatusUnreachable = ''unreachable''"

record TokenUsage =
  tu_Prompt :: int
  tu_Completion :: int
  tu_Total :: int

record TrackedSession =
  ts_SessionID :: string
  ts_NodeID :: string
  ts_Project :: string
  ts_Status :: SessionStatus
  ts_TokenUsage :: TokenUsage
  ts_CompactionCount :: int
  ts_CurrentTask :: string
  ts_LastActivity :: go_time
  ts_SessionCost :: rat
  ts_Model :: string
  ts_StartedAt :: go_time

definition zero_session :: TrackedSession where
  "zero_session = \<lparr>ts_SessionID = [], ts_NodeID = [], ts_Project = [], ts_Status = [],
     ts_TokenUsage = \<lparr>tu_Prompt = 0, tu_Completion = 0, tu_Total = 0\<rparr>, ts_CompactionCount = 0,
     ts_CurrentTask = [], ts_LastActivity = 0, ts_SessionCost = 0, ts_Model = [], ts_StartedAt = 0\<rparr>"

text \<open>A row of \<open>sessions\<close>; the last three columns may be NULL.\<close>

record session_row =
  sr_node_id :: string
  sr_project :: string
  sr_status :: string
  sr_tokens :: "int option"
  sr_cost :: "rat option"
  sr_started_at :: "string option"

record SessionTracker =
  sessions_table :: "(string, session_row) fmap"
  sessions :: "(string, TrackedSession) fmap"
  session_recoveryErrors :: "64 word"

text \<open>The dynamic types an \<open>interface{}\<close> value of an update can have.\<close>

datatype update_value = VString string | VInt int | VFloat64 rat | VTime go_time
  | VTokenUsage TokenUsage | VOther

section \<open>The database side\<close>

definition NewSessionTracker :: "(string, session_row) fmap \<Rightarrow> SessionTracker" where
  "NewSessionTracker table = \<lparr>sessions_table = table, sessions = fmempty, session_recoveryErrors = 0\<rparr>"

definition session_row_of :: "time_codec \<Rightarrow> TrackedSession \<Rightarrow> session_row" where
  "session_row_of tc s = \<lparr>sr_node_id = ts_NodeID s, sr_project = ts_Project s, sr_status = ts_Status s,
     sr_tokens = Some (tu_Total (ts_TokenUsage s)), sr_cost = Some (ts_SessionCost s),
     sr_started_at = Some (format_nano tc (ts_StartedAt s))\<rparr>"

definition upsertSession :: "time_codec \<Rightarrow> exec_outcome \<Rightarrow> SessionTracker \<Rightarrow> TrackedSession
    \<Rightarrow> go_error option \<times> SessionTracker" where
  "upsertSession tc out t s =
     (case out of
        Some err \<Rightarrow> (Some (Wrapf (''upsert session '' @ ts_SessionID s @ '': '') err), t)
      | None \<Rightarrow> (None, t\<lparr>sessions_table :=
          fmupd (ts_SessionID s) (session_row_of tc s) (sessions_table t)\<rparr>))"

definition null_error :: "string \<Rightarrow> go_error" where
  "null_error column = Errorf (''sql: Scan error, converting NULL in column '' @ column @ '' is unsupported'')"

text \<open>\<open>scanSessionRow\<close> and \<open>scanSessionSingleRow\<close>; they differ only in wrapping the Scan error.\<close>

definition scan_session :: "(go_error \<Rightarrow> go_error) \<Rightarrow> time_codec \<Rightarrow> string \<Rightarrow> session_row
    \<Rightarrow> TrackedSession go_result" where
  "scan_session wrap tc i row =
     (case sr_tokens row of
        None \<Rightarrow> Inl (wrap (null_error ''tokens''))
      | Some tokens \<Rightarrow>
     (case sr_cost row of
        None \<Rightarrow> Inl (wrap (null_error ''cost''))
      | Some cost \<Rightarrow>
     (case sr_started_at row of
        None \<Rightarrow> Inl (wrap (null_error ''started_at''))
      | Some startedAt \<Rightarrow>
          (case parseSQLiteTimestamp tc startedAt of
             Inl err \<Rightarrow> Inl (Wrapf (''parse started_at for session '' @ i @ '': '') err)
           | Inr started \<Rightarrow>
               Inr (zero_session\<lparr>ts_SessionID := i, ts_NodeID := sr_node_id row,
                 ts_Project := sr_project row, ts_Status := sr_status row,
                 ts_TokenUsage := \<lparr>tu_Prompt = 0, tu_Completion = 0, tu_Total = tokens\<rparr>,
                 ts_SessionCost := cost, ts_StartedAt := started\<rparr>)))))"

definition scanSessionRow :: "time_codec \<Rightarrow> string \<Rightarrow> session_row \<Rightarrow> TrackedSession go_result" where
  "scanSessionRow tc i row = scan_session (Wrapf ''scan session row: '') tc i row"

definition scanSessionSingleRow :: "time_codec \<Rightarrow> string \<Rightarrow> session_row \<Rightarrow> TrackedSession go_result" where
  "scanSessionSingleRow tc i row = scan_session (\<lambda>err. err) tc i row"

definition readSession :: "time_codec \<Rightarrow> exec_outcome \<Rightarrow> SessionTracker \<Rightarrow> string
    \<Rightarrow> TrackedSession go_result" where
  "readSession tc out t sessionID =
     (case out of
        Some err \<Rightarrow> Inl err
      | None \<Rightarrow>
          (case fmlookup (sessions_table t) sessionID of
             None \<Rightarrow> Inl (Sentinel ErrNoRows)
           | Some row \<Rightarrow> scanSessionSingleRow tc sessionID row))"

section \<open>Operations\<close>

definition cache_session :: "SessionTracker \<Rightarrow> TrackedSession \<Rightarrow> SessionTracker" where
  "cache_session t s = t\<lparr>sessions := fmupd (ts_SessionID s) s (sessions t)\<rparr>"

definition AddSession :: "time_codec \<Rightarrow> go_time \<Rightarrow> go_time \<Rightarrow> exec_outcome \<Rightarrow> SessionTracker \<Rightarrow> TrackedSession
    \<Rightarrow> go_error option \<times> SessionTracker" where
  "AddSession tc now1 now2 out t s0 =
     (if ts_SessionID s0 = [] then (Some (Errorf ''add session: missing session_id''), t)
      else if ts_NodeID s0 = []
      then (Some (Errorf (''add session '' @ ts_SessionID s0 @ '': missing node_id'')), t)
      else if ts_Project s0 = []
      then (Some (Errorf (''add session '' @ ts_SessionID s0 @ '': missing project'')), t)
      else
        let s = s0\<lparr>ts_StartedAt := (if time_is_zero (ts_StartedAt s0) then now1 else ts_StartedAt s0),
                   ts_LastActivity := (if time_is_zero (ts_LastActivity s0) then now2 else ts_LastActivity s0),
                   ts_Status := (if ts_Status s0 = [] then SessionStatusRunning else ts_Status s0)\<rparr>
        in case upsertSession tc out t s of
             (Some err, t') \<Rightarrow> (Some (Wrapf (''add session '' @ ts_SessionID s @ '': '') err), t')
           | (None, t') \<Rightarrow> (None, cache_session t' s))"

definition GetSession :: "time_codec \<Rightarrow> exec_outcome \<Rightarrow> SessionTracker \<Rightarrow> string
    \<Rightarrow> TrackedSession go_result \<times> SessionTracker" where
  "GetSession tc out t sessionID =
     (case fmlookup (sessions t) sessionID of
        Some s \<Rightarrow> (Inr s, t)
      | None \<Rightarrow>
          (case readSession tc out t sessionID of
             Inr s \<Rightarrow> (Inr s, cache_session t s)
           | Inl err \<Rightarrow>
               if errors_Is err ErrNoRows then (Inl (Sentinel ErrSessionNotFound), t)
               else (Inl (Wrapf (''get session '' @ sessionID @ '': '') err), t)))"

definition update_error :: "string \<Rightarrow> string \<Rightarrow> go_error" where
  "update_error i m = Errorf (''update session '' @ i @ '': '' @ m)"

text \<open>The cases of the switch: their labels, the dynamic type each asks for, and the assignment
  made when the type assertion succeeds.\<close>

datatype update_key = K_node_id | K_project | K_status | K_tokens | K_cost | K_started_at
  | K_token_usage | K_session_cost | K_last_activity | K_current_task | K_model | K_compaction_count

fun key_name :: "update_key \<Rightarrow> string" where
  "key_name K_node_id = ''node_id''"
| "key_name K_project = ''project''"
| "key_name K_status = ''status''"
| "key_name K_tokens = ''tokens''"
| "key_name K_cost = ''cost''"
| "key_name K_started_at = ''started_at''"
| "key_name K_token_usage = ''token_usage''"
| "key_name K_session_cost = ''session_cost''"
| "key_name K_last_activity = ''last_activity''"
| "key_name K_current_task = ''current_task''"
| "key_name K_model = ''model''"
| "key_name K_compaction_count = ''compaction_count''"

fun type_name :: "update_key \<Rightarrow> string" where
  "type_name K_tokens = ''int''"
| "type_name K_compaction_count = ''int''"
| "type_name K_cost = ''float64''"
| "type_name K_session_cost = ''float64''"
| "type_name K_started_at = ''time.Time''"
| "type_name K_last_activity = ''time.Time''"
| "type_name K_token_usage = ''TokenUsage''"
| "type_name _ = ''string''"

text \<open>The type assertions \<open>value.(T)\<close>.\<close>

fun as_string :: "update_value \<Rightarrow> string option" where
  "as_string (VString x) = Some x" | "as_string _ = None"

fun as_int :: "update_value \<Rightarrow> int option" where
  "as_int (VInt x) = Some x" | "as_int _ = None"

fun as_float64 :: "update_value \<Rightarrow> rat option" where
  "as_float64 (VFloat64 x) = Some x" | "as_float64 _ = None"

fun as_time :: "update_value \<Rightarrow> go_time option" where
  "as_time (VTime x) = Some x" | "as_time _ = None"

fun as_token_usage :: "update_value \<Rightarrow> TokenUsage option" where
  "as_token_usage (VTokenUsage x) = Some x" | "as_token_usage _ = None"

fun assignment :: "update_key \<Rightarrow> update_value \<Rightarrow> (TrackedSession \<Rightarrow> TrackedSession) option" where
  "assignment K_node_id v = map_option (\<lambda>x s. s\<lparr>ts_NodeID := x\<rparr>) (as_string v)"
| "assignment K_project v = map_option (\<lambda>x s. s\<lparr>ts_Project := x\<rparr>) (as_string v)"
| "assignment K_status v = map_option (\<lambda>x s. s\<lparr>ts_Status := x\<rparr>) (as_string v)"
| "assignment K_tokens v =
     map_option (\<lambda>x s. s\<lparr>ts_TokenUsage := (ts_TokenUsage s)\<lparr>tu_Total := x\<rparr>\<rparr>) (as_int v)"
| "assignment K_cost v = map_option (\<lambda>x s. s\<lparr>ts_SessionCost := x\<rparr>) (as_float64 v)"
| "assignment K_started_at v = map_option (\<lambda>x s. s\<lparr>ts_StartedAt := x\<rparr>) (as_time v)"
| "assignment K_token_usage v = map_option (\<lambda>x s. s\<lparr>ts_TokenUsage := x\<rparr>) (as_token_usage v)"
| "assignment K_session_cost v = map_option (\<lambda>x s. s\<lparr>ts_SessionCost := x\<rparr>) (as_float64 v)"
| "assignment K_last_activity v = map_option (\<lambda>x s. s\<lparr>ts_LastActivity := x\<rparr>) (as_time v)"
| "assignment K_current_task v = map_option (\<lambda>x s. s\<lparr>ts_CurrentTask := x\<rparr>) (as_string v)"
| "assignment K_model v = map_option (\<lambda>x s. s\<lparr>ts_Model := x\<rparr>) (as_string v)"
| "assignment K_compaction_count v = map_option (\<lambda>x s. s\<lparr>ts_CompactionCount := x\<rparr>) (as_int v)"

definition update_key_of :: "string \<Rightarrow> update_key option" where
  "update_key_of key = find (\<lambda>K. key_name K = key)
     [K_node_id, K_project, K_status, K_tokens, K_cost, K_started_at, K_token_usage, K_session_cost,
      K_last_activity, K_current_task, K_model, K_compaction_count]"

text \<open>One iteration of the loop over the updates.\<close>

definition apply_update :: "string \<Rightarrow> string \<Rightarrow> update_value \<Rightarrow> TrackedSession
    \<Rightarrow> TrackedSession go_result" where
  "apply_update i key v s =
     (case update_key_of key of
        None \<Rightarrow> Inl (update_error i (''unsupported field '' @ quoted key))
      | Some K \<Rightarrow>
          (case assignment K v of
             None \<Rightarrow> Inl (update_error i (key @ '' must be '' @ type_name K))
           | Some f \<Rightarrow> Inr (f s)))"

fun apply_updates :: "string \<Rightarrow> (string \<times> update_value) list \<Rightarrow> TrackedSession
    \<Rightarrow> TrackedSession go_result" where
  "apply_updates i [] s = Inr s"
| "apply_updates i ((key, v) # us) s =
     (case apply_update i key v s of
        Inl err \<Rightarrow> Inl err
      | Inr s' \<Rightarrow> apply_updates i us s')"

text \<open>\<open>us\<close> lists the entries of the map \<open>updates\<close> in the order the loop visits them.\<close>

definition UpdateSession :: "time_codec \<Rightarrow> exec_outcome \<Rightarrow> exec_outcome \<Rightarrow> SessionTracker \<Rightarrow> string
    \<Rightarrow> (string \<times> update_value) list \<Rightarrow> go_error option \<times> SessionTracker" where
  "UpdateSession tc qout out t sessionID us =
     (case GetSession tc qout t sessionID of
        (Inl err, t') \<Rightarrow> (Some (Wrapf (''update session '' @ sessionID @ '': '') err), t')
      | (Inr s0, t') \<Rightarrow>
          (case apply_updates sessionID us s0 of
             Inl err \<Rightarrow> (Some err, t')
           | Inr s \<Rightarrow>
               (case upsertSession tc out t' s of
                  (Some err, t'') \<Rightarrow> (Some (Wrapf (''update session '' @ sessionID @ '': '') err), t'')
                | (None, t'') \<Rightarrow> (None, cache_session t'' s))))"

definition GetAllSessions :: "SessionTracker \<Rightarrow> string list \<Rightarrow> TrackedSession list" where
  "GetAllSessions t ks = map_values (sessions t) ks"

definition GetSessionsByProject :: "SessionTracker \<Rightarrow> string list \<Rightarrow> string \<Rightarrow> TrackedSession list" where
  "GetSessionsByProject t ks project = filter (\<lambda>s. ts_Project s = project) (map_values (sessions t) ks)"

definition unreachable_on :: "string \<Rightarrow> TrackedSession \<Rightarrow> TrackedSession" where
  "unreachable_on nodeID s =
     (if ts_NodeID s \<noteq> nodeID then s else s\<lparr>ts_Status := SessionStatusUnreachable\<rparr>)"

definition row_unreachable_on :: "string \<Rightarrow> session_row \<Rightarrow> session_row" where
  "row_unreachable_on nodeID row =
     (if sr_node_id row = nodeID then row\<lparr>sr_status := SessionStatusUnreachable\<rparr> else row)"

definition MarkUnreachable :: "exec_outcome \<Rightarrow> SessionTracker \<Rightarrow> string \<Rightarrow> go_error option \<times> SessionTracker" where
  "MarkUnreachable out t nodeID =
     (case out of
        Some err \<Rightarrow> (Some (Wrapf (''mark sessions unreachable for node '' @ nodeID @ '': '') err), t)
      | None \<Rightarrow> (None, t\<lparr>sessions_table := fmmap (row_unreachable_on nodeID) (sessions_table t),
                         sessions := fmmap (unreachable_on nodeID) (sessions t)\<rparr>))"

fun load_sessions :: "time_codec \<Rightarrow> (string, session_row) fmap \<Rightarrow> string list
    \<Rightarrow> (string, TrackedSession) fmap \<times> 64 word \<Rightarrow> (string, TrackedSession) fmap \<times> 64 word" where
  "load_sessions tc table [] acc = acc"
| "load_sessions tc table (k # ks) (m, errs) =
     (case fmlookup table k of
        None \<Rightarrow> load_sessions tc table ks (m, errs)
      | Some row \<Rightarrow>
          (case scanSessionRow tc k row of
             Inl _ \<Rightarrow> load_sessions tc table ks (m, errs + 1)
           | Inr s \<Rightarrow>
               load_sessions tc table ks (fmupd k (s\<lparr>ts_Status := SessionStatusUnreachable\<rparr>) m, errs)))"

definition LoadSessionsFromDB :: "time_codec \<Rightarrow> exec_outcome \<Rightarrow> exec_outcome \<Rightarrow> exec_outcome \<Rightarrow> string list
    \<Rightarrow> SessionTracker \<Rightarrow> go_error option \<times> SessionTracker" where
  "LoadSessionsFromDB tc uout qout iout ks t =
     (case uout of
        Some err \<Rightarrow> (Some (Wrapf ''load sessions: mark unreachable: '' err), t)
      | None \<Rightarrow>
          let t1 = t\<lparr>sessions_table :=
                fmmap (\<lambda>row. row\<lparr>sr_status := SessionStatusUnreachable\<rparr>) (sessions_table t)\<rparr>
          in case qout of
               Some err \<Rightarrow> (Some (Wrapf ''load sessions: query rows: '' err), t1)
             | None \<Rightarrow>
                 (case load_sessions tc (sessions_table t1) ks (fmempty, session_recoveryErrors t1) of
                    (m, errs) \<Rightarrow>
                      (case iout of
                         Some err \<Rightarrow> (Some (Wrapf ''load sessions: iterate rows: '' err),
                                      t1\<lparr>session_recoveryErrors := errs\<rparr>)
                       | None \<Rightarrow> (None, t1\<lparr>session_recoveryErrors := errs, sessions := m\<rparr>))))"

definition statusByEvent :: "string \<Rightarrow> SessionStatus option" where
  "statusByEvent eventType =
     (if eventType = ''session.running'' then Some SessionStatusRunning
      else if eventType = ''session.idle'' then Some SessionStatusIdle
      else if eventType = ''session.error'' then Some SessionStatusError
      else None)"

text \<open>The two updates are visited in either order; \<open>swap\<close> says which.\<close>

definition ApplyEvent :: "time_codec \<Rightarrow> bool \<Rightarrow> go_time \<Rightarrow> exec_outcome \<Rightarrow> exec_outcome \<Rightarrow> SessionTracker
    \<Rightarrow> string \<Rightarrow> string \<Rightarrow> go_error option \<times> SessionTracker" where
  "ApplyEvent tc swap now qout out t eventType sessionID =
     (case statusByEvent eventType of
        None \<Rightarrow> (Some (Errorf (''apply event: unsupported event type '' @ quoted eventType)), t)
      | Some status \<Rightarrow>
          let us = [(''status'', VString status), (''last_activity'', VTime now)]
          in UpdateSession tc qout out t sessionID (if swap then rev us else us))"

text \<open>Each \<open>AddSession\<close> of the loop has its own clock readings and outcome.\<close>

fun RestoreFromSnapshot :: "time_codec \<Rightarrow> string \<Rightarrow> (TrackedSession \<times> go_time \<times> go_time \<times> exec_outcome) list
    \<Rightarrow> SessionTracker \<Rightarrow> go_error option \<times> SessionTracker" where
  "RestoreFromSnapshot tc nodeID [] t = (None, t)"
| "RestoreFromSnapshot tc nodeID ((s, now1, now2, out) # ss) t =
     (let s' = s\<lparr>ts_NodeID := nodeID,
                 ts_Status := (if ts_Status s = [] then SessionStatusRunning else ts_Status s)\<rparr>
      in case AddSession tc now1 now2 out t s' of
           (Some err, t') \<Rightarrow> (Some (Wrapf (''restore snapshot session '' @ ts_SessionID s' @ '': '') err), t')
         | (None, t') \<Rightarrow> RestoreFromSnapshot tc nodeID ss t')"

definition SessionRecoveryErrorCount :: "SessionTracker \<Rightarrow> 64 word" where
  "SessionRecoveryErrorCount t = session_recoveryErrors t"

section \<open>The tracker as a cached store\<close>

definition session_core :: "TrackedSession \<Rightarrow> TrackedSession" where
  "session_core s = zero_session\<lparr>ts_SessionID := ts_SessionID s, ts_NodeID := ts_NodeID s,
     ts_Project := ts_Project s, ts_Status := ts_Status s,
     ts_TokenUsage := \<lparr>tu_Prompt = 0, tu_Completion = 0, tu_Total = tu_Total (ts_TokenUsage s)\<rparr>,
     ts_SessionCost := ts_SessionCost s, ts_StartedAt := ts_StartedAt s\<rparr>"

definition session_storable :: "time_codec \<Rightarrow> TrackedSession \<Rightarrow> bool" where
  "session_storable tc s \<longleftrightarrow> time_survives tc (ts_StartedAt s)"

lemma scan_session_Inr:
  "scanSessionRow tc i row = Inr s \<longleftrightarrow> scanSessionSingleRow tc i row = Inr s"
  by (auto simp: scanSessionRow_def scanSessionSingleRow_def scan_session_def
      split: option.splits sum.splits)

interpretation session_store: cached_store "session_storable tc" session_core ts_SessionID
  "scanSessionSingleRow tc" "session_row_of tc" for tc
proof
  show "scanSessionSingleRow tc (ts_SessionID e) (session_row_of tc e) = Inr (session_core e)"
    if "session_storable tc e" for e
    using that by (simp add: session_storable_def scanSessionSingleRow_def scan_session_def
        session_row_of_def parse_format session_core_def)
  show "session_core e = e \<and> ts_SessionID e = k" if "scanSessionSingleRow tc k r = Inr e" for k r e
    using that by (auto simp: scanSessionSingleRow_def scan_session_def session_core_def zero_session_def
        split: sum.splits option.splits)
qed

definition with_sessions :: "(string, TrackedSession) fmap \<Rightarrow> SessionTracker \<Rightarrow> SessionTracker" where
  "with_sessions m t = t\<lparr>sessions := m\<rparr>"

lemma readSession_Inr_iff:
  "readSession tc out t k = Inr e \<longleftrightarrow> out = None \<and>
     (\<exists>row. fmlookup (sessions_table t) k = Some row \<and> scanSessionSingleRow tc k row = Inr e)"
  by (auto simp: readSession_def split: option.splits)

lemma readSession_key: "readSession tc out t k = Inr e \<Longrightarrow> ts_SessionID e = k"
  by (auto simp: readSession_Inr_iff dest: session_store.decode_core)

interpretation session_store: read_through "session_storable tc" session_core ts_SessionID
  "scanSessionSingleRow tc" "session_row_of tc" sessions sessions_table with_sessions "GetSession tc" for tc
proof
  fix s s' :: SessionTracker and k out res and e :: TrackedSession
  assume r: "GetSession tc out s k = (res, s')" and "s' \<noteq> s"
  then obtain e where "readSession tc out s k = Inr e" "res = Inr e" "s' = cache_session s e"
    by (auto simp: GetSession_def split: option.splits sum.splits if_splits)
  then show "\<exists>r e. res = Inr e \<and> fmlookup (sessions_table s) k = Some r \<and>
      scanSessionSingleRow tc k r = Inr e \<and> s' = with_sessions (fmupd k e (sessions s)) s"
    using readSession_key by (auto simp: readSession_Inr_iff cache_session_def with_sessions_def)
next
  show "fmlookup (sessions s') k = Some e" if "GetSession tc out s k = (Inr e, s')" for s s' out k e
    using that readSession_key
    by (auto simp: GetSession_def cache_session_def split: option.splits sum.splits if_splits)
next
  show "GetSession tc None s k = (Inr e, with_sessions (fmupd k e (sessions s)) s)"
    if "fmlookup (sessions s) k = None" "fmlookup (sessions_table s) k = Some r"
      "scanSessionSingleRow tc k r = Inr e" for s k r e
  proof -
    have "readSession tc None s k = Inr e" using that by (auto simp: readSession_Inr_iff)
    then show ?thesis
      using readSession_key [of tc None s k e] that(1)
      by (simp add: GetSession_def with_sessions_def cache_session_def)
  qed
qed (auto simp: with_sessions_def GetSession_def)

section \<open>The loop over the updates\<close>

definition update_fun :: "string \<times> update_value \<Rightarrow> (TrackedSession \<Rightarrow> TrackedSession) option" where
  "update_fun u = Option.bind (update_key_of (fst u)) (\<lambda>K. assignment K (snd u))"

lemma apply_update_fun:
  "apply_update i k v s = Inr s' \<longleftrightarrow> (\<exists>f. update_fun (k, v) = Some f \<and> s' = f s)"
  by (auto simp: apply_update_def update_fun_def split: option.splits)

lemma apply_updates_fold:
  "apply_updates i us s = Inr s' \<longleftrightarrow>
     (\<forall>u \<in> set us. update_fun u \<noteq> None) \<and> s' = fold (\<lambda>u. the (update_fun u)) us s"
proof (induction us arbitrary: s)
  case (Cons u us)
  obtain k v where u: "u = (k, v)" by (cases u)
  show ?case
  proof (cases "update_fun (k, v)")
    case None
    then have "\<not> (\<exists>s'. apply_update i k v s = Inr s')" by (simp add: apply_update_fun)
    with None show ?thesis by (cases "apply_update i k v s") (auto simp: u)
  next
    case (Some f)
    then have "apply_update i k v s = Inr (f s)" by (simp add: apply_update_fun)
    with Some Cons show ?thesis by (simp add: u)
  qed
qed auto

lemma update_key_of_name: "update_key_of k = Some K \<Longrightarrow> key_name K = k"
  unfolding update_key_of_def by (drule find_SomeD) blast

text \<open>The key whose field a key writes; two keys that share it conflict.\<close>

definition slot :: "update_key \<Rightarrow> update_key" where
  "slot K = (if K = K_token_usage then K_tokens else if K = K_session_cost then K_cost else K)"

definition update_conflict :: "string \<Rightarrow> string \<Rightarrow> bool" where
  "update_conflict k k' \<longleftrightarrow>
     (case (update_key_of k, update_key_of k') of (Some K, Some K') \<Rightarrow> slot K = slot K' | _ \<Rightarrow> False)"

lemma assignment_commute:
  assumes "assignment K v = Some f" and "assignment K' v' = Some f'" and "slot K \<noteq> slot K'"
  shows "f (f' s) = f' (f s)"
  using assms by (cases K; cases K') (auto simp: slot_def)

lemma update_fun_commute:
  assumes "update_fun (k, v) = Some f" and "update_fun (k', v') = Some f'"
    and "\<not> update_conflict k k'"
  shows "f \<circ> f' = f' \<circ> f"
  using assms(1,2)
  using assms(3) by (auto simp: update_fun_def bind_eq_Some_conv fun_eq_iff update_conflict_def
      intro!: assignment_commute)

lemma apply_updates_permute:
  assumes "apply_updates i us s = Inr s'" and perm: "mset us' = mset us"
    and apart: "\<forall>u \<in> set us. \<forall>u' \<in> set us. u \<noteq> u' \<longrightarrow> \<not> update_conflict (fst u) (fst u')"
  shows "apply_updates i us' s = Inr s'"
proof -
  have ok: "\<forall>u \<in> set us. update_fun u \<noteq> None" and s': "s' = fold (\<lambda>u. the (update_fun u)) us s"
    using assms(1) by (auto simp: apply_updates_fold)
  have "the (update_fun u) \<circ> the (update_fun u') = the (update_fun u') \<circ> the (update_fun u)"
    if u: "u \<in> set us" "u' \<in> set us" for u u'
  proof (cases "u = u'")
    case False
    obtain f f' where f: "update_fun u = Some f" "update_fun u' = Some f'" using u ok by blast
    have "f \<circ> f' = f' \<circ> f"
      by (rule update_fun_commute [of "fst u" "snd u" f "fst u'" "snd u'" f'])
        (use f apart u False in simp_all)
    then show ?thesis by (simp add: f)
  qed simp
  then have "fold (\<lambda>u. the (update_fun u)) us = fold (\<lambda>u. the (update_fun u)) us'"
    using perm by (intro fold_multiset_equiv) auto
  moreover have "set us' = set us" using perm by (metis set_mset_mset)
  ultimately show ?thesis using ok s' by (simp add: apply_updates_fold)
qed

section \<open>The tracker's invariant\<close>

definition tracker_inv :: "time_codec \<Rightarrow> SessionTracker \<Rightarrow> bool" where
  "tracker_inv tc t \<longleftrightarrow>
     coherent (session_storable tc) session_core (scanSessionSingleRow tc) (sessions t) (sessions_table t) \<and>
     (\<forall>k s. fmlookup (sessions t) k = Some s \<longrightarrow> ts_SessionID s = k)"

lemma tracker_inv_put:
  assumes "tracker_inv tc t" and "ts_SessionID s = k"
  shows "tracker_inv tc (cache_session (t\<lparr>sessions_table :=
    fmupd k (session_row_of tc s) (sessions_table t)\<rparr>) s)"
  using assms session_store.coherent_put [of tc "sessions t" "sessions_table t" s]
  by (auto simp: tracker_inv_def cache_session_def)

lemma AddSession_inv [keeps]:
  "tracker_inv tc t \<Longrightarrow> tracker_inv tc (snd (AddSession tc now1 now2 out t s))"
  by (auto simp: AddSession_def upsertSession_def Let_def tracker_inv_put split: option.splits)

lemma GetSession_inv [keeps]:
  assumes "tracker_inv tc t"
  shows "tracker_inv tc (snd (GetSession tc out t k))"
proof -
  obtain res t' where g: "GetSession tc out t k = (res, t')" by (cases "GetSession tc out t k")
  have "fmlookup (sessions t') j = Some s \<Longrightarrow> ts_SessionID s = j" for j s
    using g assms by (auto simp: GetSession_def cache_session_def tracker_inv_def
        split: option.splits sum.splits if_splits)
  then show ?thesis
    using session_store.read_coherent [OF _ g] assms by (auto simp: tracker_inv_def g)
qed

lemma UpdateSession_inv [keeps]:
  assumes "tracker_inv tc t"
  shows "tracker_inv tc (snd (UpdateSession tc qout out t k us))"
  using GetSession_inv [OF assms, of qout k]
  by (auto simp: UpdateSession_def upsertSession_def tracker_inv_put
      split: option.splits sum.splits prod.splits)

lemma ApplyEvent_inv [keeps]:
  "tracker_inv tc t \<Longrightarrow> tracker_inv tc (snd (ApplyEvent tc swap now qout out t ty k))"
  by (auto simp: ApplyEvent_def Let_def intro: UpdateSession_inv split: option.splits)

lemma RestoreFromSnapshot_inv [keeps]:
  "tracker_inv tc t \<Longrightarrow> tracker_inv tc (snd (RestoreFromSnapshot tc n ss t))"
proof (induction tc n ss t rule: RestoreFromSnapshot.induct)
  case (2 tc nodeID s now1 now2 out ss t)
  define s' where "s' = s\<lparr>ts_NodeID := nodeID,
    ts_Status := (if ts_Status s = [] then SessionStatusRunning else ts_Status s)\<rparr>"
  obtain err t' where add: "AddSession tc now1 now2 out t s' = (err, t')"
    by (cases "AddSession tc now1 now2 out t s'")
  have "tracker_inv tc t'" using AddSession_inv [OF 2(2), of now1 now2 out s'] by (simp add: add)
  then show ?case
    using 2(1) [OF s'_def add [symmetric]] add s'_def
    by (cases err) (simp_all add: Let_def)
qed simp

lemma scan_row_unreachable:
  "scanSessionSingleRow tc k (row_unreachable_on n row) =
     map_sum id (unreachable_on n) (scanSessionSingleRow tc k row)"
  by (auto simp: scanSessionSingleRow_def scan_session_def row_unreachable_on_def unreachable_on_def
      split: option.splits sum.splits)

lemma MarkUnreachable_inv [keeps]:
  assumes "tracker_inv tc t"
  shows "tracker_inv tc (snd (MarkUnreachable out t n))"
proof -
  have "session_core (unreachable_on n s) = unreachable_on n (session_core s)"
    and "session_storable tc (unreachable_on n s) = session_storable tc s"
    and "ts_SessionID (unreachable_on n s) = ts_SessionID s" for s
    by (auto simp: session_core_def unreachable_on_def session_storable_def zero_session_def)
  then show ?thesis
    using assms
    by (fastforce simp: MarkUnreachable_def tracker_inv_def coherent_def scan_row_unreachable
        split: option.splits)
qed

lemma load_sessions_lookup:
  "fmlookup (fst (load_sessions tc table ks (m, n))) k =
     (if k \<in> set ks then
        (case Option.bind (fmlookup table k) (\<lambda>row. case scanSessionRow tc k row of Inl _ \<Rightarrow> None | Inr e \<Rightarrow> Some e) of
           Some e \<Rightarrow> Some (e\<lparr>ts_Status := SessionStatusUnreachable\<rparr>)
         | None \<Rightarrow> fmlookup m k)
      else fmlookup m k)"
  by (induction tc table ks "(m, n)" arbitrary: m n rule: load_sessions.induct)
    (auto split: option.splits sum.splits)

definition unreachable_row :: "session_row \<Rightarrow> session_row" where
  "unreachable_row row = row\<lparr>sr_status := SessionStatusUnreachable\<rparr>"

lemma scan_unreachable_row:
  "scanSessionRow tc k (unreachable_row row) =
     map_sum id (\<lambda>s. s\<lparr>ts_Status := SessionStatusUnreachable\<rparr>) (scanSessionRow tc k row)"
  by (auto simp: scanSessionRow_def scan_session_def unreachable_row_def split: option.splits sum.splits)

lemma LoadSessionsFromDB_spec:
  assumes "LoadSessionsFromDB tc uout qout iout ks t = (None, t')"
    and order: "iteration_order (sessions_table t) ks"
  shows "sessions_table t' = fmmap unreachable_row (sessions_table t)"
    and "fmlookup (sessions t') k =
      (case fmlookup (sessions_table t) k of
         None \<Rightarrow> None
       | Some row \<Rightarrow> (case scanSessionRow tc k row of
            Inl _ \<Rightarrow> None
          | Inr s \<Rightarrow> Some (s\<lparr>ts_Status := SessionStatusUnreachable\<rparr>)))"
proof -
  let ?t = "fmmap unreachable_row (sessions_table t)"
  have eq: "(\<lambda>row. row\<lparr>sr_status := SessionStatusUnreachable\<rparr>) = unreachable_row"
    by (simp add: unreachable_row_def fun_eq_iff)
  have t': "sessions_table t' = ?t"
      "sessions t' = fst (load_sessions tc ?t ks (fmempty, session_recoveryErrors t))"
    using assms(1) by (auto simp: LoadSessionsFromDB_def Let_def eq split: option.splits prod.splits)
  have dom: "k \<in> set ks \<longleftrightarrow> fmlookup (sessions_table t) k \<noteq> None" for k
    using order by (auto simp: iteration_order_def fmlookup_dom_iff)
  show "sessions_table t' = ?t" by (rule t')
  show "fmlookup (sessions t') k = (case fmlookup (sessions_table t) k of None \<Rightarrow> None
       | Some row \<Rightarrow> (case scanSessionRow tc k row of Inl _ \<Rightarrow> None
          | Inr s \<Rightarrow> Some (s\<lparr>ts_Status := SessionStatusUnreachable\<rparr>)))"
    by (auto simp: t' load_sessions_lookup dom scan_unreachable_row split: option.splits sum.splits)
qed

lemma LoadSessionsFromDB_inv:
  assumes "LoadSessionsFromDB tc uout qout iout ks t = (None, t')"
    and "iteration_order (sessions_table t) ks"
  shows "tracker_inv tc t'"
proof -
  note spec = LoadSessionsFromDB_spec [OF assms]
  have row: "\<exists>row. fmlookup (sessions_table t') k = Some row \<and> scanSessionSingleRow tc k row = Inr s"
    if "fmlookup (sessions t') k = Some s" for k s
    using that
    by (auto simp: spec scan_unreachable_row scan_session_Inr [symmetric] split: option.splits sum.splits)
  then show ?thesis
    using session_store.decode_core
    by (fastforce simp: tracker_inv_def intro!: session_store.coherent_load)
qed

section \<open>Reachable trackers\<close>

inductive tracker_reachable :: "time_codec \<Rightarrow> SessionTracker \<Rightarrow> bool" for tc where
  created: "tracker_reachable tc (NewSessionTracker table)"
| added: "tracker_reachable tc t \<Longrightarrow> tracker_reachable tc (snd (AddSession tc now1 now2 out t s))"
| got: "tracker_reachable tc t \<Longrightarrow> tracker_reachable tc (snd (GetSession tc out t k))"
| updated: "tracker_reachable tc t \<Longrightarrow> tracker_reachable tc (snd (UpdateSession tc qout out t k us))"
| applied: "tracker_reachable tc t \<Longrightarrow>
    tracker_reachable tc (snd (ApplyEvent tc swap now qout out t eventType k))"
| restored: "tracker_reachable tc t \<Longrightarrow> tracker_reachable tc (snd (RestoreFromSnapshot tc n ss t))"
| unreachable: "tracker_reachable tc t \<Longrightarrow> tracker_reachable tc (snd (MarkUnreachable out t n))"
| loaded: "tracker_reachable tc t \<Longrightarrow> LoadSessionsFromDB tc uout qout iout ks t = (None, t') \<Longrightarrow>
    iteration_order (sessions_table t) ks \<Longrightarrow> tracker_reachable tc t'"

lemma tracker_reachable_inv: "tracker_reachable tc t \<Longrightarrow> tracker_inv tc t"
proof (induction rule: tracker_reachable.induct)
  case (created table)
  show ?case by (simp add: tracker_inv_def NewSessionTracker_def)
qed (auto intro: keeps LoadSessionsFromDB_inv)

section \<open>Properties of the tracker\<close>

definition demo_session :: "string \<Rightarrow> string \<Rightarrow> TrackedSession" where
  "demo_session i n = zero_session\<lparr>ts_SessionID := i, ts_NodeID := n, ts_Project := ''p''\<rparr>"

definition demo_tracker :: SessionTracker where
  "demo_tracker = snd (AddSession unary_codec 3 4 None
     (snd (AddSession unary_codec 3 4 None (NewSessionTracker fmempty) (demo_session ''s1'' ''n1'')))
     (demo_session ''s2'' ''n2''))"

lemma demo_tracker_reachable: "tracker_reachable unary_codec demo_tracker"
  unfolding demo_tracker_def by (intro tracker_reachable.intros)

text \<open>
  The database can replace the tracker's cache: in every reachable tracker, reading a cached
  session after a restart gives the same node, project, status, total tokens, cost and start time,
  provided the start time survives the text format.
\<close>
theorem tracker_survives_restart:
  assumes "tracker_reachable tc t" and "fmlookup (sessions t) k = Some s" and "session_storable tc s"
  shows "fst (GetSession tc None (t\<lparr>sessions := fmempty\<rparr>) k) = Inr (session_core s) \<and> ts_SessionID s = k"
  using session_store.read_after_restart [of tc t k s] tracker_reachable_inv [OF assms(1)] assms(2,3)
  by (simp add: tracker_inv_def with_sessions_def)

lemma tracker_survives_restart_witness:
  "\<exists>s. fst (GetSession unary_codec None (demo_tracker\<lparr>sessions := fmempty\<rparr>) ''s1'') = Inr (session_core s) \<and>
     ts_SessionID s = ''s1''"
proof -
  have "fmlookup (sessions demo_tracker) ''s1'' = Some ((demo_session ''s1'' ''n1'')
      \<lparr>ts_StartedAt := 3, ts_LastActivity := 4, ts_Status := SessionStatusRunning\<rparr>)"
    by code_simp
  from tracker_survives_restart [OF demo_tracker_reachable this]
  show ?thesis by (auto simp: session_storable_def unary_codec_survives)
qed



text \<open>
  The order in which Go visits the map of updates does not matter: unless two keys write the
  same field (\<open>tokens\<close> with \<open>token_usage\<close>, \<open>cost\<close> with \<open>session_cost\<close>), a successful
  \<open>UpdateSession\<close> has the same result for every visiting order.
\<close>
theorem update_order_irrelevant:
  assumes "UpdateSession tc qout out t k us = (None, t')" and "mset us' = mset us"
    and "\<forall>u \<in> set us. \<forall>u' \<in> set us. u \<noteq> u' \<longrightarrow> \<not> update_conflict (fst u) (fst u')"
  shows "UpdateSession tc qout out t k us' = (None, t')"
proof -
  obtain s0 t1 where g: "GetSession tc qout t k = (Inr s0, t1)"
    using assms(1) by (auto simp: UpdateSession_def split: prod.splits sum.splits)
  with assms(1) obtain s where "apply_updates k us s0 = Inr s"
    by (auto simp: UpdateSession_def split: sum.splits)
  moreover from apply_updates_permute [OF this assms(2,3)] have "apply_updates k us' s0 = Inr s" .
  ultimately show ?thesis using assms(1) by (simp add: UpdateSession_def g)
qed

end
