(* ===== verification/Dep_Graph.thy ===== *)
theory Dep_Graph
  imports Tracker
begin

text \<open>
  \<open>internal/supervisor/depgraph.go\<close>: the graph of project dependencies, its validation by a
  depth-first search for cycles, and the projects to trigger when one completes.

  The maps \<open>visited\<close> and \<open>inStack\<close> are the sets of their true keys. The search is a loop
  over the neighbours of the node at the end of the path that recurses into an unvisited
  neighbour; its termination uses that the search only ever adds visited nodes.
\<close>

section \<open>Data\<close>

record DependencyConfig =
  DependsOn :: "string list"

record DependencyGraph =
  graph :: "(string, string list) fmap"
  reverseGraph :: "(string, string list) fmap"
  allProjects :: "string fset"

section \<open>The search\<close>

fun index_of :: "string list \<Rightarrow> string \<Rightarrow> nat option" where
  "index_of [] n = None"
| "index_of (p # ps) n = (if p = n then Some 0 else map_option Suc (index_of ps n))"

definition cycle_path :: "string list \<Rightarrow> string \<Rightarrow> string list option" where
  "cycle_path path neighbor = map_option (\<lambda>i. drop i path @ [neighbor]) (index_of path neighbor)"

definition successors :: "(string, string list) fmap \<Rightarrow> string \<Rightarrow> string list" where
  "successors g n = map_get g n []"

function (sequential) visit_neighbors :: "(string, string list) fmap \<Rightarrow> string list \<Rightarrow> string list
    \<Rightarrow> string fset \<times> string fset \<Rightarrow> string list option \<times> string fset \<times> string fset" where
  "visit_neighbors g path [] (visited, inStack) = (None, visited, inStack)"
| "visit_neighbors g path (n # ns) (visited, inStack) =
     (if n |\<notin>| visited then
        (case visit_neighbors g (path @ [n]) (successors g n) (finsert n visited, finsert n inStack) of
           (Some c, st) \<Rightarrow> (Some c, st)
         | (None, visited', inStack') \<Rightarrow> visit_neighbors g path ns (visited', inStack' |-| {|n|}))
      else if n |\<in>| inStack then
        (case cycle_path path n of
           Some c \<Rightarrow> (Some c, visited, inStack)
         | None \<Rightarrow> visit_neighbors g path ns (visited, inStack))
      else visit_neighbors g path ns (visited, inStack))"
  by pat_completeness auto

lemma visit_neighbors_grows:
  "visit_neighbors_dom (g, path, ns, visited, inStack) \<Longrightarrow>
   visit_neighbors g path ns (visited, inStack) = (r, visited', inStack') \<Longrightarrow> visited |\<subseteq>| visited'"
proof (induction g path ns "(visited, inStack)" arbitrary: visited inStack r visited' inStack'
    rule: visit_neighbors.pinduct)
  case (2 g path n ns visited inStack)
  then show ?case
    by (auto simp: visit_neighbors.psimps split: prod.splits option.splits if_splits) blast+
qed (auto simp: visit_neighbors.psimps)

definition graph_nodes :: "(string, string list) fmap \<Rightarrow> string set" where
  "graph_nodes g = (\<Union>n \<in> fset (fmdom g). set (successors g n))"

lemma finite_graph_nodes [simp]: "finite (graph_nodes g)"
  by (simp add: graph_nodes_def)

lemma successors_in_nodes: "set (successors g n) \<subseteq> graph_nodes g"
proof (cases "fmlookup g n")
  case None
  then show ?thesis by (simp add: successors_def map_get_def)
next
  case (Some ns)
  then have "n |\<in>| fmdom g" by (rule fmdomI)
  then show ?thesis by (auto simp: graph_nodes_def)
qed

definition unvisited :: "(string, string list) fmap \<Rightarrow> string list \<Rightarrow> string fset \<Rightarrow> nat" where
  "unvisited g ns visited = card ((graph_nodes g \<union> set ns) - fset visited)"

lemma unvisited_less:
  assumes "n |\<notin>| visited" and "n |\<in>| visited'" and "visited |\<subseteq>| visited'" and "set ns' \<subseteq> graph_nodes g \<union> set ns"
  shows "unvisited g ns' visited' < unvisited g (n # ns) visited"
  unfolding unvisited_def
proof (rule psubset_card_mono)
  show "graph_nodes g \<union> set ns' - fset visited' \<subset> graph_nodes g \<union> set (n # ns) - fset visited"
    using assms by (auto simp: less_eq_fset.rep_eq)
qed simp

lemma unvisited_le: "unvisited g ns visited \<le> unvisited g (n # ns) visited"
  unfolding unvisited_def by (rule card_mono) auto

termination visit_neighbors
proof (relation "measures [\<lambda>(g, _, ns, visited, _). unvisited g ns visited, \<lambda>(_, _, ns, _). length ns]",
    goal_cases)
  case 1
  then show ?case by simp
next
  case (2 g path n ns visited inStack)
  then show ?case using successors_in_nodes [of g n] by (auto intro!: unvisited_less)
next
  case (3 g path n ns visited inStack x st visited' inStack')
  then have "finsert n visited |\<subseteq>| visited'" by (metis visit_neighbors_grows)
  with 3 show ?case by (auto intro!: unvisited_less)
next
  case (4 g path n ns visited inStack)
  then show ?case using unvisited_le [of g ns visited n] by auto
next
  case (5 g path n ns visited inStack)
  then show ?case using unvisited_le [of g ns visited n] by auto
qed

definition detectCycleDFS :: "(string, string list) fmap \<Rightarrow> string \<Rightarrow> string fset \<times> string fset \<Rightarrow> string list
    \<Rightarrow> string list option \<times> string fset \<times> string fset" where
  "detectCycleDFS g node st path =
     (case visit_neighbors g (path @ [node]) (successors g node)
        (finsert node (fst st), finsert node (snd st)) of
        (Some c, st') \<Rightarrow> (Some c, st')
      | (None, visited, inStack) \<Rightarrow> (None, visited, inStack |-| {|node|}))"

text \<open>Entering a neighbour is the recursive call of \<open>detectCycleDFS\<close>.\<close>

lemma visit_neighbors_recursive:
  "visit_neighbors g path (n # ns) (visited, inStack) =
     (if n |\<notin>| visited then
        (case detectCycleDFS g n (visited, inStack) path of
           (Some c, st) \<Rightarrow> (Some c, st)
         | (None, st) \<Rightarrow> visit_neighbors g path ns st)
      else if n |\<in>| inStack \<and> cycle_path path n \<noteq> None then (cycle_path path n, visited, inStack)
      else visit_neighbors g path ns (visited, inStack))"
  by (auto simp: detectCycleDFS_def split: prod.splits option.splits)

text \<open>The loop of \<open>Validate\<close> over \<open>allProjects\<close>, in the order \<open>ks\<close>.\<close>

fun validate_from :: "(string, string list) fmap \<Rightarrow> string list \<Rightarrow> string fset \<times> string fset
    \<Rightarrow> string list option" where
  "validate_from g [] st = None"
| "validate_from g (p # ps) st =
     (if p |\<notin>| fst st then
        (case detectCycleDFS g p st [] of
           (Some c, _) \<Rightarrow> Some c
         | (None, st') \<Rightarrow> validate_from g ps st')
      else validate_from g ps st)"

definition Validate :: "DependencyGraph \<Rightarrow> string list \<Rightarrow> go_error option" where
  "Validate dg ks =
     (case validate_from (graph dg) ks ({||}, {||}) of
        Some c \<Rightarrow> Some (Errorf (''cycle detected: '' @ str_join '' -> '' c))
      | None \<Rightarrow> None)"

text \<open>The second loop of the constructor: for each project, append it to the dependents of each of
  its dependencies.\<close>

fun add_dependents :: "(string, string list) fmap \<Rightarrow> string list \<Rightarrow> (string, string list) fmap
    \<Rightarrow> (string, string list) fmap" where
  "add_dependents g [] r = r"
| "add_dependents g (p # ps) r =
     add_dependents g ps
       (fold (\<lambda>dep r. fmupd dep (map_get r dep [] @ [p]) r) (successors g p) r)"

definition build_graph :: "(string, DependencyConfig) fmap \<Rightarrow> string list \<Rightarrow> DependencyGraph" where
  "build_graph config ks =
     (let g = fmmap DependsOn config
      in \<lparr>graph = g, reverseGraph = add_dependents g ks fmempty,
          allProjects = fmdom g |\<union>| ffUnion ((\<lambda>p. fset_of_list (successors g p)) |`| fmdom g)\<rparr>)"

text \<open>\<open>ks\<close> is the visiting order of \<open>graph\<close>, \<open>ps\<close> that of \<open>allProjects\<close>; a nil configuration is
  \<open>None\<close>.\<close>

definition NewDependencyGraph :: "(string, DependencyConfig) fmap option \<Rightarrow> string list \<Rightarrow> string list
    \<Rightarrow> DependencyGraph go_result" where
  "NewDependencyGraph config ks ps =
     (let dg = build_graph (case config of None \<Rightarrow> fmempty | Some c \<Rightarrow> c) ks
      in case Validate dg ps of Some err \<Rightarrow> Inl err | None \<Rightarrow> Inr dg)"

definition GetDependencies :: "DependencyGraph \<Rightarrow> string \<Rightarrow> string list" where
  "GetDependencies dg project = map_get (graph dg) project []"

definition GetDependents :: "DependencyGraph \<Rightarrow> string \<Rightarrow> string list" where
  "GetDependents dg project = map_get (reverseGraph dg) project []"

text \<open>\<open>os\<close> is the visiting order of the tracker's sessions; a nil tracker is \<open>None\<close>.\<close>

definition hasCompletedSession :: "string \<Rightarrow> SessionTracker option \<Rightarrow> string list \<Rightarrow> bool" where
  "hasCompletedSession project tracker os =
     (case tracker of
        None \<Rightarrow> False
      | Some t \<Rightarrow> list_ex (\<lambda>s. ts_Status s \<noteq> SessionStatusError \<and> ts_Status s \<noteq> SessionStatusUnreachable)
          (GetSessionsByProject t os project))"

definition IsReady :: "DependencyGraph \<Rightarrow> string \<Rightarrow> SessionTracker option \<Rightarrow> string list \<Rightarrow> bool" where
  "IsReady dg project tracker os =
     (let deps = GetDependencies dg project
      in if deps = [] then True else list_all (\<lambda>dep. hasCompletedSession dep tracker os) deps)"

definition TriggerDependents :: "DependencyGraph \<Rightarrow> string \<Rightarrow> SessionTracker option \<Rightarrow> string list
    \<Rightarrow> string list go_result" where
  "TriggerDependents dg project tracker os =
     (if project = [] then Inl (Errorf ''project name cannot be empty'')
      else Inr (filter (\<lambda>d. IsReady dg d tracker os) (GetDependents dg project)))"

section \<open>Correctness of the search\<close>

definition depends :: "(string, string list) fmap \<Rightarrow> (string \<times> string) set" where
  "depends g = {(a, b). b \<in> set (successors g a)}"

fun walk :: "(string, string list) fmap \<Rightarrow> string list \<Rightarrow> bool" where
  "walk g (a # b # ps) \<longleftrightarrow> b \<in> set (successors g a) \<and> walk g (b # ps)"
| "walk g _ \<longleftrightarrow> True"

text \<open>A cycle: a walk of at least one step that returns to its start.\<close>

definition is_cycle :: "(string, string list) fmap \<Rightarrow> string list \<Rightarrow> bool" where
  "is_cycle g c \<longleftrightarrow> 2 \<le> length c \<and> hd c = last c \<and> walk g c"

lemma walk_snoc: "walk g (ps @ [n]) \<longleftrightarrow> walk g ps \<and> (ps \<noteq> [] \<longrightarrow> n \<in> set (successors g (last ps)))"
  by (induction g ps rule: walk.induct) auto

lemma walk_drop: "walk g ps \<Longrightarrow> walk g (drop i ps)"
proof (induction g ps arbitrary: i rule: walk.induct)
  case (1 g a b ps)
  then show ?case by (cases i) auto
qed (auto simp: drop_Cons split: nat.splits)

lemma walk_trancl: "walk g (a # ps) \<Longrightarrow> ps \<noteq> [] \<Longrightarrow> (a, last ps) \<in> (depends g)\<^sup>+"
proof (induction ps arbitrary: a)
  case (Cons b ps)
  then have "(a, b) \<in> depends g" by (simp add: depends_def)
  with Cons show ?case by (cases "ps = []") (auto intro: trancl_into_trancl2)
qed simp

lemma is_cycle_not_acyclic:
  assumes "is_cycle g c"
  shows "\<not> acyclic (depends g)"
proof -
  obtain a ps where c: "c = a # ps" "ps \<noteq> []"
    using assms by (cases c; cases "tl c") (auto simp: is_cycle_def)
  then have "(a, last ps) \<in> (depends g)\<^sup>+" "a = last ps"
    using assms walk_trancl by (auto simp: is_cycle_def)
  then show ?thesis by (auto simp: acyclic_def)
qed

lemma index_of_Some: "index_of ps n = Some i \<Longrightarrow> i < length ps \<and> ps ! i = n"
  by (induction ps arbitrary: i) (auto split: if_splits)

lemma index_of_in: "n \<in> set ps \<Longrightarrow> \<exists>i. index_of ps n = Some i"
  by (induction ps) auto

lemma cycle_path_is_cycle:
  assumes "walk g path" and "path \<noteq> []" and "n \<in> set (successors g (last path))"
    and "cycle_path path n = Some c"
  shows "is_cycle g c"
proof -
  obtain i where i: "i < length path" "path ! i = n" "c = drop i path @ [n]"
    using assms(4) index_of_Some by (auto simp: cycle_path_def)
  then have "hd c = last c" by (simp add: hd_append hd_drop_conv_nth)
  moreover have "walk g c"
    using walk_drop [OF assms(1), of i] assms(3) i by (simp add: walk_snoc)
  ultimately show ?thesis using i by (simp add: is_cycle_def)
qed

text \<open>Finished nodes are closed under successors and carry no cycle.\<close>

definition finished_ok :: "(string, string list) fmap \<Rightarrow> string set \<Rightarrow> bool" where
  "finished_ok g F \<longleftrightarrow> (\<forall>a \<in> F. set (successors g a) \<subseteq> F) \<and> acyclic (depends g \<inter> F \<times> F)"

lemma finish_node:
  assumes "finished_ok g F" and "set (successors g n) \<subseteq> F" and "n \<notin> F"
  shows "finished_ok g (insert n F)"
proof -
  let ?E = "depends g \<inter> F \<times> F" and ?E' = "depends g \<inter> insert n F \<times> insert n F"
  have sub: "?E' \<subseteq> ?E \<union> {n} \<times> F"
    using assms by (auto simp: finished_ok_def depends_def)
  have into_F: "b \<in> F" if "(a, b) \<in> ?E'\<^sup>+" for a b
    using that sub by (induction rule: trancl_induct) auto
  have in_F: "(a, b) \<in> ?E\<^sup>+" if "(a, b) \<in> ?E'\<^sup>+" "a \<in> F" for a b
    using that(1)
  proof (induction rule: trancl_induct)
    case (base y)
    then show ?case using sub that(2) assms(3) by auto
  next
    case (step y z)
    have "y \<in> F" using into_F step by blast
    then have "(y, z) \<in> ?E" using step sub assms(3) by auto
    then show ?case using step.IH by (meson trancl_into_trancl)
  qed
  have "(x, x) \<notin> ?E'\<^sup>+" for x
    using assms(1) into_F [of x x] in_F [of x x] unfolding finished_ok_def acyclic_def by blast
  then have "acyclic ?E'" by (simp add: acyclic_def)
  then show ?thesis using assms by (auto simp: finished_ok_def)
qed

lemma visit_neighbors_spec:
  assumes "set path = fset stk" and "stk |\<subseteq>| vis" and "finished_ok g (fset vis - fset stk)"
    and "walk g path" and "path \<noteq> []" and "set ns \<subseteq> set (successors g (last path))"
    and "visit_neighbors g path ns (vis, stk) = (r, vis', stk')"
  shows "case r of
      Some c \<Rightarrow> is_cycle g c
    | None \<Rightarrow> stk' = stk \<and> vis |\<subseteq>| vis' \<and> finished_ok g (fset vis' - fset stk) \<and>
        set ns \<subseteq> fset vis' - fset stk"
  using assms
proof (induction g path ns "(vis, stk)" arbitrary: vis stk r vis' stk' rule: visit_neighbors.induct)
  case (1 g path vis stk)
  then show ?case by auto
next
  case (2 g path n ns vis stk)
  note prems = "2.prems"
  have rest: "set ns \<subseteq> set (successors g (last path))" and edge: "n \<in> set (successors g (last path))"
    using prems(6) by auto
  show ?case
  proof (cases "n |\<in>| vis")
    case False
    then have nstk: "n |\<notin>| stk" using prems(2) by auto
    let ?p = "path @ [n]" and ?v = "finsert n vis" and ?s = "finsert n stk"
    obtain r1 vis1 stk1 where sub: "visit_neighbors g ?p (successors g n) (?v, ?s) = (r1, vis1, stk1)"
      by (cases "visit_neighbors g ?p (successors g n) (?v, ?s)") auto
    have F: "fset ?v - fset ?s = fset vis - fset stk" using False by auto
    have IH1: "case r1 of Some c \<Rightarrow> is_cycle g c
      | None \<Rightarrow> stk1 = ?s \<and> ?v |\<subseteq>| vis1 \<and> finished_ok g (fset vis1 - fset ?s) \<and>
          set (successors g n) \<subseteq> fset vis1 - fset ?s"
      by (rule "2.hyps"(1) [OF False _ _ _ _ _ _ sub]) (use prems edge F in \<open>auto simp: walk_snoc\<close>)
    show ?thesis
    proof (cases r1)
      case (Some c)
      then show ?thesis using IH1 prems(7) False sub by auto
    next
      case None
      then have stk1: "stk1 = ?s" "?v |\<subseteq>| vis1" and fin: "finished_ok g (fset vis1 - fset ?s)"
        and succ: "set (successors g n) \<subseteq> fset vis1 - fset ?s" using IH1 by auto
      have F1: "fset vis1 - fset stk = insert n (fset vis1 - fset ?s)" using stk1 nstk by auto
      have fin1: "finished_ok g (fset vis1 - fset stk)"
        unfolding F1 by (rule finish_node [OF fin succ]) simp
      have drop: "stk1 |-| {|n|} = stk" using stk1 nstk by auto
      have cont: "visit_neighbors g path ns (vis1, stk) = (r, vis', stk')"
        using prems(7) False sub None drop by simp
      have IH2: "case r of Some c \<Rightarrow> is_cycle g c
        | None \<Rightarrow> stk' = stk \<and> vis1 |\<subseteq>| vis' \<and> finished_ok g (fset vis' - fset stk) \<and>
            set ns \<subseteq> fset vis' - fset stk"
      proof (rule "2.hyps"(2) [OF False sub [symmetric] None refl, unfolded drop])
        show "stk |\<subseteq>| vis1" using prems(2) stk1 by auto
      qed (use prems fin1 rest cont drop in auto)
      show ?thesis
        using IH2 stk1 nstk by (auto split: option.splits)
    qed
  next
    case True
    show ?thesis
    proof (cases "n |\<in>| stk")
      case in_stk: True
      then have "n \<in> set path" using prems(1) by simp
      then obtain c where c: "cycle_path path n = Some c"
        using index_of_in [of n path] by (auto simp: cycle_path_def)
      then have "r = Some c" using prems(7) True in_stk by simp
      then show ?thesis using cycle_path_is_cycle [OF prems(4,5) edge c] by simp
    next
      case False
      have "case r of Some c \<Rightarrow> is_cycle g c
        | None \<Rightarrow> stk' = stk \<and> vis |\<subseteq>| vis' \<and> finished_ok g (fset vis' - fset stk) \<and>
            set ns \<subseteq> fset vis' - fset stk"
        by (rule "2.hyps"(4)) (use prems True False rest in auto)
      then show ?thesis using True False by (auto split: option.splits)
    qed
  qed
qed

lemma detectCycleDFS_spec:
  assumes "finished_ok g (fset vis)" and "n |\<notin>| vis"
    and "detectCycleDFS g n (vis, {||}) [] = (r, vis', stk')"
  shows "case r of
      Some c \<Rightarrow> is_cycle g c
    | None \<Rightarrow> stk' = {||} \<and> finished_ok g (fset vis') \<and> vis |\<subseteq>| vis' \<and> n |\<in>| vis'"
proof -
  obtain r1 vis1 stk1 where sub:
    "visit_neighbors g [n] (successors g n) (finsert n vis, {|n|}) = (r1, vis1, stk1)"
    by (cases "visit_neighbors g [n] (successors g n) (finsert n vis, {|n|})") auto
  have F: "fset (finsert n vis) - fset {|n|} = fset vis" using assms(2) by auto
  have spec: "case r1 of Some c \<Rightarrow> is_cycle g c
    | None \<Rightarrow> stk1 = {|n|} \<and> finsert n vis |\<subseteq>| vis1 \<and> finished_ok g (fset vis1 - fset {|n|}) \<and>
        set (successors g n) \<subseteq> fset vis1 - fset {|n|}"
    by (rule visit_neighbors_spec [OF _ _ _ _ _ _ sub]) (use assms(1) F in auto)
  show ?thesis
  proof (cases r1)
    case (Some c)
    then show ?thesis using spec assms(3) sub by (auto simp: detectCycleDFS_def)
  next
    case None
    then have fin: "finished_ok g (fset vis1 - {n})" "set (successors g n) \<subseteq> fset vis1 - {n}"
      and more: "finsert n vis |\<subseteq>| vis1" "stk1 = {|n|}" using spec by auto
    have "insert n (fset vis1 - {n}) = fset vis1" using more by auto
    then have "finished_ok g (fset vis1)" using finish_node [OF fin] by simp
    then show ?thesis using None assms(3) sub more by (auto simp: detectCycleDFS_def)
  qed
qed

lemma validate_from_spec:
  assumes "finished_ok g (fset vis)"
  shows "case validate_from g ps (vis, {||}) of
      Some c \<Rightarrow> is_cycle g c
    | None \<Rightarrow> \<exists>F. finished_ok g F \<and> fset vis \<union> set ps \<subseteq> F"
  using assms
proof (induction ps arbitrary: vis)
  case (Cons p ps)
  show ?case
  proof (cases "p |\<in>| vis")
    case True
    then show ?thesis using Cons.IH [OF Cons.prems] by (auto split: option.splits)
  next
    case False
    obtain r vis' stk' where d: "detectCycleDFS g p (vis, {||}) [] = (r, vis', stk')"
      by (cases "detectCycleDFS g p (vis, {||}) []") auto
    note spec = detectCycleDFS_spec [OF Cons.prems False d]
    show ?thesis
    proof (cases r)
      case (Some c)
      then show ?thesis using spec d False by simp
    next
      case None
      then have v: "stk' = {||}" "finished_ok g (fset vis')" "vis |\<subseteq>| vis'" "p |\<in>| vis'"
        using spec by auto
      have step: "validate_from g (p # ps) (vis, {||}) = validate_from g ps (vis', {||})"
        using d False None v(1) by simp
      show ?thesis
        unfolding step using Cons.IH [OF v(2)] v(3,4)
        by (auto split: option.splits simp: less_eq_fset.rep_eq)
    qed
  qed
qed auto

lemma Validate_spec:
  assumes "\<And>p. p |\<in>| fmdom (graph dg) \<Longrightarrow> p \<in> set ps"
  shows "case Validate dg ps of
      None \<Rightarrow> acyclic (depends (graph dg))
    | Some err \<Rightarrow> \<exists>c. is_cycle (graph dg) c \<and> err = Errorf (''cycle detected: '' @ str_join '' -> '' c)"
proof (cases "validate_from (graph dg) ps ({||}, {||})")
  have start: "finished_ok (graph dg) (fset {||})" by (simp add: finished_ok_def acyclic_def)
  note spec = validate_from_spec [OF start, of ps]
  case None
  then obtain F where F: "finished_ok (graph dg) F" "set ps \<subseteq> F" using spec by auto
  have "depends (graph dg) \<inter> F \<times> F = depends (graph dg)"
  proof -
    have "a \<in> F" if "b \<in> set (successors (graph dg) a)" for a b
    proof -
      have "a |\<in>| fmdom (graph dg)"
        using that by (cases "fmlookup (graph dg) a") (auto simp: successors_def map_get_def intro: fmdomI)
      then show ?thesis using assms F(2) by auto
    qed
    then show ?thesis using F(1) by (auto simp: depends_def finished_ok_def)
  qed
  then show ?thesis using F(1) None by (simp add: Validate_def finished_ok_def)
next
  have start: "finished_ok (graph dg) (fset {||})" by (simp add: finished_ok_def acyclic_def)
  case (Some c)
  then show ?thesis using validate_from_spec [OF start, of ps] by (auto simp: Validate_def)
qed

section \<open>The reverse graph\<close>

lemma fold_dependents:
  "set (map_get (fold (\<lambda>dep r. fmupd dep (map_get r dep [] @ [p]) r) deps r) d []) =
     set (map_get r d []) \<union> (if d \<in> set deps then {p} else {})"
  by (induction deps arbitrary: r) auto

lemma add_dependents_set:
  "set (map_get (add_dependents g ps r) d []) =
     set (map_get r d []) \<union> {p. p \<in> set ps \<and> d \<in> set (successors g p)}"
  by (induction g ps r rule: add_dependents.induct) (auto simp: fold_dependents)

section \<open>Properties of the dependency graph\<close>

text \<open>
  C10. Cycle detection is exact: a configuration is accepted if and only if its dependency relation
  is acyclic, whatever order Go visits the projects in, and a rejection names a real cycle of the
  configuration.
\<close>
theorem dependency_cycles_rejected:
  assumes "iteration_order config ks" and "set ps = fset (allProjects (build_graph config ks))"
  shows "((\<exists>dg. NewDependencyGraph (Some config) ks ps = Inr dg) \<longleftrightarrow> acyclic (depends (fmmap DependsOn config))) \<and>
    (\<forall>err. NewDependencyGraph (Some config) ks ps = Inl err \<longrightarrow>
       (\<exists>c. is_cycle (fmmap DependsOn config) c \<and> err = Errorf (''cycle detected: '' @ str_join '' -> '' c)))"
proof -
  let ?dg = "build_graph config ks"
  have g: "graph ?dg = fmmap DependsOn config" by (simp add: build_graph_def Let_def)
  have "p \<in> set ps" if "p |\<in>| fmdom (graph ?dg)" for p
    using that assms(2) by (simp add: build_graph_def Let_def)
  note spec = Validate_spec [of ?dg ps, OF this]
  show ?thesis
  proof (cases "Validate ?dg ps")
    case None
    with spec show ?thesis by (simp add: NewDependencyGraph_def g)
  next
    case (Some err)
    with spec obtain c where "is_cycle (graph ?dg) c" "err = Errorf (''cycle detected: '' @ str_join '' -> '' c)"
      by auto
    then show ?thesis
      using Some is_cycle_not_acyclic by (auto simp: NewDependencyGraph_def g)
  qed
qed

definition demo_config :: "(string, DependencyConfig) fmap" where
  "demo_config = fmap_of_list [(''a'', \<lparr>DependsOn = [''b'']\<rparr>), (''b'', \<lparr>DependsOn = [''c'', ''d'']\<rparr>),
     (''d'', \<lparr>DependsOn = [''c'', ''b'']\<rparr>)]"

lemma dependency_cycles_rejected_witness:
  "NewDependencyGraph (Some demo_config) [''b'', ''a'', ''d''] [''c'', ''a'', ''b'', ''d''] =
     Inl (Errorf ''cycle detected: b -> d -> b'') \<and> \<not> acyclic (depends (fmmap DependsOn demo_config))"
proof -
  have order: "iteration_order demo_config [''b'', ''a'', ''d'']"
    by (auto simp: iteration_order_def demo_config_def)
  have "set [''c'', ''a'', ''b'', ''d''] = fset (allProjects (build_graph demo_config [''b'', ''a'', ''d'']))"
    by (auto simp: build_graph_def demo_config_def Let_def successors_def map_get_def)
  note inst = dependency_cycles_rejected [OF order this]
  have "NewDependencyGraph (Some demo_config) [''b'', ''a'', ''d''] [''c'', ''a'', ''b'', ''d''] =
     Inl (Errorf ''cycle detected: b -> d -> b'')"
    by code_simp
  then show ?thesis using inst by auto
qed

text \<open>
  C11. Triggering is exact: for a graph built from a configuration, \<open>TriggerDependents\<close> returns
  precisely the projects that depend on the given one and all of whose dependencies have a session
  that is neither in error nor unreachable. A running or idle session counts, although the code
  calls this a completed session.
\<close>
theorem trigger_dependents_exact:
  assumes "iteration_order config ks" and "iteration_order (sessions t) os" and "project \<noteq> []"
  shows "\<exists>ready. TriggerDependents (build_graph config ks) project (Some t) os = Inr ready \<and>
    set ready = {d. project \<in> set (GetDependencies (build_graph config ks) d) \<and>
      (\<forall>dep \<in> set (GetDependencies (build_graph config ks) d).
         \<exists>k s. fmlookup (sessions t) k = Some s \<and> ts_Project s = dep \<and>
           ts_Status s \<noteq> SessionStatusError \<and> ts_Status s \<noteq> SessionStatusUnreachable)}"
proof -
  let ?dg = "build_graph config ks"
  have completed: "hasCompletedSession dep (Some t) os \<longleftrightarrow>
      (\<exists>k s. fmlookup (sessions t) k = Some s \<and> ts_Project s = dep \<and>
         ts_Status s \<noteq> SessionStatusError \<and> ts_Status s \<noteq> SessionStatusUnreachable)" for dep
    using set_map_values [OF assms(2)]
    by (auto simp: hasCompletedSession_def GetSessionsByProject_def list_ex_iff)
  have dependents: "d \<in> set (GetDependents ?dg project) \<longleftrightarrow> project \<in> set (GetDependencies ?dg d)" for d
  proof -
    have "d \<in> set ks" if "project \<in> set (successors (fmmap DependsOn config) d)"
      using that assms(1)
      by (cases "fmlookup config d") (auto simp: successors_def map_get_def iteration_order_def intro: fmdomI)
    then show ?thesis
      by (auto simp: GetDependents_def GetDependencies_def build_graph_def Let_def add_dependents_set
          successors_def)
  qed
  show ?thesis
    using assms(3) dependents completed
    by (auto simp: TriggerDependents_def IsReady_def Let_def list_all_iff)
qed

lemma trigger_dependents_exact_witness:
  "\<exists>ready. TriggerDependents (build_graph (fmap_of_list [(''a'', \<lparr>DependsOn = [''p'']\<rparr>)]) [''a'']) ''p''
     (Some demo_tracker) [''s1'', ''s2''] = Inr ready \<and> ''a'' \<in> set ready"
proof -
  have a: "iteration_order (fmap_of_list [(''a'', \<lparr>DependsOn = [''p'']\<rparr>)]) [''a'']"
    by (simp add: iteration_order_def)
  have b: "iteration_order (sessions demo_tracker) [''s1'', ''s2'']"
    by (auto simp: iteration_order_def demo_tracker_def AddSession_def demo_session_def zero_session_def
        NewSessionTracker_def upsertSession_def cache_session_def Let_def)
  obtain ready where r: "TriggerDependents (build_graph (fmap_of_list [(''a'', \<lparr>DependsOn = [''p'']\<rparr>)]) [''a'']) ''p''
       (Some demo_tracker) [''s1'', ''s2''] = Inr ready"
    and "set ready = {d. ''p'' \<in> set (GetDependencies (build_graph (fmap_of_list [(''a'', \<lparr>DependsOn = [''p'']\<rparr>)]) [''a'']) d) \<and>
      (\<forall>dep \<in> set (GetDependencies (build_graph (fmap_of_list [(''a'', \<lparr>DependsOn = [''p'']\<rparr>)]) [''a'']) d).
         \<exists>k s. fmlookup (sessions demo_tracker) k = Some s \<and> ts_Project s = dep \<and>
           ts_Status s \<noteq> SessionStatusError \<and> ts_Status s \<noteq> SessionStatusUnreachable)}"
    using trigger_dependents_exact [OF a b, of "''p''"] by blast
  moreover have "\<exists>k s. fmlookup (sessions demo_tracker) k = Some s \<and> ts_Project s = ''p'' \<and>
           ts_Status s \<noteq> SessionStatusError \<and> ts_Status s \<noteq> SessionStatusUnreachable"
    by (rule exI [of _ "''s1''"])
      (simp add: demo_tracker_def AddSession_def demo_session_def zero_session_def Let_def
        NewSessionTracker_def upsertSession_def cache_session_def SessionStatusRunning_def
        SessionStatusError_def SessionStatusUnreachable_def time_is_zero_def)
  ultimately show ?thesis by (auto simp: GetDependencies_def build_graph_def Let_def map_get_def)
qed

end
