(* ===== verification/Security.thy ===== *)
theory Security
  imports Go_Lib
begin

text \<open>
  \<open>internal/supervisor/security.go\<close>: origin patterns for web socket upgrades, and the removal
  of secrets from command arguments before they are written to the audit log.

  An \<open>interface{}\<close> value is a \<open>go_value\<close>. The entries of a \<open>map[string]interface{}\<close> are listed
  in the order a loop visits them. \<open>JOther\<close> is a value of any other Go type, for instance a
  \<open>map[string]string\<close>, of which the type switch knows nothing.
\<close>

section \<open>Origins\<close>

definition matchOriginWildcard :: "string \<Rightarrow> string \<Rightarrow> bool" where
  "matchOriginWildcard origin pattern =
     (if has_suffix pattern '':*'' then
        let pre = trim_suffix pattern '':*'';
            idx = (case str_last_index origin '':'' of None \<Rightarrow> -1 | Some i \<Rightarrow> int i);
            slashes = (case str_index origin ''//'' of None \<Rightarrow> -1 | Some i \<Rightarrow> int i);
            originNoPort = (if idx > slashes then take (nat idx) origin else origin)
        in originNoPort = pre
      else if has_prefix pattern ''https://*.'' then
        let suffix = trim_prefix pattern ''https://*''
        in if \<not> has_prefix origin ''https://'' then False
           else let host = trim_prefix origin ''https://''
                in has_suffix host suffix \<and> \<not> has_prefix host ''*''
      else if has_prefix pattern ''http://*.'' then
        let suffix = trim_prefix pattern ''http://*''
        in if \<not> has_prefix origin ''http://'' then False
           else let host = trim_prefix origin ''http://''
                in has_suffix host suffix \<and> \<not> has_prefix host ''*''
      else False)"

definition MatchOrigin :: "string \<Rightarrow> string \<Rightarrow> bool" where
  "MatchOrigin origin pattern =
     (if pattern = ''*'' then True
      else if str_contains pattern ''*'' then matchOriginWildcard origin pattern
      else origin = pattern)"

section \<open>Secrets\<close>

datatype go_value = JNull | JBool bool | JNumber rat | JString string
  | JArray "go_value list" | JObject "(string \<times> go_value) list" | JOther string

definition secretKeys :: "string list" where
  "secretKeys = [''token'', ''password'', ''secret'', ''key'', ''api_key'', ''auth'', ''credential'']"

definition IsSecretKey :: "string \<Rightarrow> bool" where
  "IsSecretKey key = list_ex (\<lambda>sk. str_contains (to_lower key) sk) secretKeys"

fun sanitizeValue :: "go_value \<Rightarrow> go_value"
  and sanitizeMap :: "(string \<times> go_value) list \<Rightarrow> (string \<times> go_value) list"
  and sanitize_elems :: "go_value list \<Rightarrow> go_value list" where
  "sanitizeValue (JObject m) = JObject (sanitizeMap m)"
| "sanitizeValue (JArray vs) = JArray (sanitize_elems vs)"
| "sanitizeValue v = v"
| "sanitizeMap [] = []"
| "sanitizeMap ((k, v) # m) =
     (k, if IsSecretKey k then JString ''[REDACTED]'' else sanitizeValue v) # sanitizeMap m"
| "sanitize_elems [] = []"
| "sanitize_elems (v # vs) = sanitizeValue v # sanitize_elems vs"

text \<open>\<open>marshal\<close> is \<open>json.Marshal\<close>; a nil map is \<open>None\<close>.\<close>

definition SanitizeArgs :: "(go_value \<Rightarrow> string go_result) \<Rightarrow> (string \<times> go_value) list option \<Rightarrow> string" where
  "SanitizeArgs marshal args =
     (case args of
        None \<Rightarrow> ''{}''
      | Some m \<Rightarrow> (case marshal (JObject (sanitizeMap m)) of Inl _ \<Rightarrow> ''{}'' | Inr data \<Rightarrow> data))"

section \<open>What origins can match\<close>

lemma str_last_index_Some:
  "str_last_index s [c] = Some i \<Longrightarrow> s = take i s @ c # drop (Suc i) s \<and> c \<notin> set (drop (Suc i) s)"
proof (induction s arbitrary: i)
  case (Cons x s)
  have none: "c \<notin> set s" if "str_last_index s [c] = None"
    using that by (induction s) (auto simp: has_prefix_def split: option.splits if_splits)
  show ?case
    using Cons none by (auto simp: has_prefix_def split: option.splits if_splits)
qed simp

lemma origin_literal:
  assumes "MatchOrigin origin pattern" and "CHR ''*'' \<notin> set pattern"
  shows "origin = pattern"
proof -
  have "\<not> str_contains pattern ''*''"
    unfolding str_contains_iff using assms(2) by (auto simp: sublist_def)
  then show ?thesis using assms by (auto simp: MatchOrigin_def split: if_splits)
qed

lemma origin_host:
  assumes "MatchOrigin origin pattern" and "pattern = scheme @ ''*.'' @ d" and "\<not> has_suffix pattern '':*''"
    and "scheme = ''https://'' \<or> scheme = ''http://''"
  shows "\<exists>h. origin = scheme @ h @ ''.'' @ d \<and> \<not> has_prefix h ''*''"
proof -
  have "sublist ''*'' pattern" unfolding assms(2) by (auto simp: sublist_def)
  then have wild: "matchOriginWildcard origin pattern"
    using assms by (auto simp: MatchOrigin_def str_contains_iff)
  have trim: "trim_prefix pattern (scheme @ ''*'') = ''.'' @ d" "has_prefix pattern (scheme @ ''*.'')"
    "scheme = ''http://'' \<Longrightarrow> \<not> has_prefix pattern ''https://*.''"
    using assms(2,4) by (auto simp: trim_prefix_def has_prefix_def)
  have "has_prefix origin scheme \<and> has_suffix (trim_prefix origin scheme) (''.'' @ d) \<and>
      \<not> has_prefix (trim_prefix origin scheme) ''*''"
    using wild trim assms(3,4) by (auto simp: matchOriginWildcard_def Let_def split: if_splits)
  moreover then obtain host where "origin = scheme @ host" by (auto simp: has_prefix_iff)
  ultimately show ?thesis by (auto simp: has_suffix_iff has_prefix_def)
qed

lemma origin_port:
  assumes "MatchOrigin origin (p @ '':*'')"
  shows "origin = p \<or> (\<exists>port. origin = p @ '':'' @ port \<and> CHR '':'' \<notin> set port)"
proof -
  let ?pattern = "p @ '':*''"
  have "sublist ''*'' ?pattern" by (auto simp: sublist_def intro: exI [of _ "p @ '':''"])
  moreover have "has_suffix ?pattern '':*''" "trim_suffix ?pattern '':*'' = p"
    by (auto simp: has_suffix_iff)
  ultimately consider "origin = p" | i where "str_last_index origin '':'' = Some i" "take i origin = p"
    using assms
    by (auto simp: MatchOrigin_def matchOriginWildcard_def str_contains_iff Let_def
        split: if_splits option.splits)
  then show ?thesis using str_last_index_Some [of origin "CHR '':''"] by cases auto
qed

text \<open>
  Origin patterns admit nothing else: a pattern without a star only its own text;
  \<open>scheme://*.domain\<close> only hosts that end in \<open>.domain\<close>, under the same scheme; \<open>prefix:*\<close> only the
  prefix itself or the prefix with one more \<open>:port\<close> part.
\<close>
theorem origin_patterns_sound:
  assumes "MatchOrigin origin pattern"
  shows "(CHR ''*'' \<notin> set pattern \<longrightarrow> origin = pattern) \<and>
    (\<forall>scheme d. scheme \<in> {''https://'', ''http://''} \<and> pattern = scheme @ ''*.'' @ d \<and>
         \<not> has_suffix pattern '':*'' \<longrightarrow>
       (\<exists>h. origin = scheme @ h @ ''.'' @ d \<and> \<not> has_prefix h ''*'')) \<and>
    (\<forall>p. pattern = p @ '':*'' \<longrightarrow>
       origin = p \<or> (\<exists>port. origin = p @ '':'' @ port \<and> CHR '':'' \<notin> set port))"
  using assms origin_literal origin_host origin_port by blast

section \<open>What the audit log can reveal\<close>

text \<open>Two values that differ only below secret keys.\<close>

inductive public_eq :: "go_value \<Rightarrow> go_value \<Rightarrow> bool"
  and public_eq_map :: "(string \<times> go_value) list \<Rightarrow> (string \<times> go_value) list \<Rightarrow> bool"
  and public_eq_list :: "go_value list \<Rightarrow> go_value list \<Rightarrow> bool" where
  same: "public_eq v v"
| object: "public_eq_map m m' \<Longrightarrow> public_eq (JObject m) (JObject m')"
| array: "public_eq_list vs vs' \<Longrightarrow> public_eq (JArray vs) (JArray vs')"
| map_Nil: "public_eq_map [] []"
| map_secret: "IsSecretKey k \<Longrightarrow> public_eq_map m m' \<Longrightarrow> public_eq_map ((k, v) # m) ((k, v') # m')"
| map_public: "public_eq v v' \<Longrightarrow> public_eq_map m m' \<Longrightarrow> public_eq_map ((k, v) # m) ((k, v') # m')"
| list_Nil: "public_eq_list [] []"
| list_Cons: "public_eq v v' \<Longrightarrow> public_eq_list vs vs' \<Longrightarrow> public_eq_list (v # vs) (v' # vs')"

lemma sanitize_public_eq:
  "public_eq v v' \<Longrightarrow> sanitizeValue v = sanitizeValue v'"
  "public_eq_map m m' \<Longrightarrow> sanitizeMap m = sanitizeMap m'"
  "public_eq_list vs vs' \<Longrightarrow> sanitize_elems vs = sanitize_elems vs'"
  by (induction rule: public_eq_public_eq_map_public_eq_list.inducts) auto

lemma redacted_public_eq:
  "public_eq v (sanitizeValue v)"
  "public_eq_map m (sanitizeMap m)"
  "public_eq_list vs (sanitize_elems vs)"
  by (induction v and m and vs rule: sanitizeValue_sanitizeMap_sanitize_elems.induct)
    (auto intro: public_eq_public_eq_map_public_eq_list.intros)

text \<open>
  C18. Redaction is exact. The audit text does not depend on anything below a secret key, at any
  depth: arguments that differ only there give the same text. And it keeps everything else: the
  redacted arguments differ from the original ones only below secret keys, so a second redaction
  changes nothing.
\<close>
theorem redaction_exact:
  "(public_eq_map m m' \<longrightarrow> SanitizeArgs marshal (Some m) = SanitizeArgs marshal (Some m')) \<and>
   public_eq_map m (sanitizeMap m) \<and> sanitizeMap (sanitizeMap m) = sanitizeMap m"
  using sanitize_public_eq(2) [of m m'] sanitize_public_eq(2) [OF redacted_public_eq(2) [of m]]
    redacted_public_eq(2) [of m]
  by (simp add: SanitizeArgs_def)

lemma redaction_exact_witness:
  "SanitizeArgs (\<lambda>v. Inr (if v = JObject [(''env'', JObject [(''API_KEY'', JString ''[REDACTED]'')])] then ''same'' else ''other''))
     (Some [(''env'', JObject [(''API_KEY'', JString ''s3cr3t'')])]) =
   SanitizeArgs (\<lambda>v. Inr (if v = JObject [(''env'', JObject [(''API_KEY'', JString ''[REDACTED]'')])] then ''same'' else ''other''))
     (Some [(''env'', JObject [(''API_KEY'', JNumber 7)])])"
proof -
  have "IsSecretKey ''API_KEY''" by code_simp
  then have "public_eq_map [(''env'', JObject [(''API_KEY'', JString ''s3cr3t'')])]
      [(''env'', JObject [(''API_KEY'', JNumber 7)])]"
    by (intro public_eq_public_eq_map_public_eq_list.intros)
  then show ?thesis using redaction_exact by blast
qed

end
