(* ===== verification/Command_Types.thy ===== *)
theory Command_Types
  imports Security
begin

text \<open>
  \<open>internal/supervisor/command_types.go\<close>: commands, their results, the aliases by which a
  command type can be asked for, and the payload an idempotency key is bound to.
\<close>

type_synonym CommandType = string
type_synonym CommandStatus = string

definition CommandTypeCreateSession :: CommandType where "CommandTypeCreateSession = ''create_session''"
definition CommandTypePromptSession :: CommandType where "CommandTypePromptSession = ''prompt_session''"
definition CommandTypeKillSession :: CommandType where "CommandTypeKillSession = ''kill_session''"
definition CommandTypeRestartSession :: CommandType where "CommandTypeRestartSession = ''restart_session''"
definition CommandTypeSessionStatus :: CommandType where "CommandTypeSessionStatus = ''session_status''"
definition CommandTypeHandover :: CommandType where "CommandTypeHandover = ''handover''"
definition CommandTypeCredentialPush :: CommandType where "CommandTypeCredentialPush = ''credential_push''"
definition CommandTypeOAuthTrigger :: CommandType where "CommandTypeOAuthTrigger = ''oauth_trigger''"
definition CommandTypeEnvCheck :: CommandType where "CommandTypeEnvCheck = ''env_check''"
definition CommandTypeEnvProvision :: CommandType where "CommandTypeEnvProvision = ''env_provision''"
definition CommandTypeAgentMDDiff :: CommandType where "CommandTypeAgentMDDiff = ''agentmd_diff''"
definition CommandTypeAgentMDSync :: CommandType where "CommandTypeAgentMDSync = ''agentmd_sync''"

lemmas command_type_defs = CommandTypeCreateSession_def CommandTypePromptSession_def
  CommandTypeKillSession_def CommandTypeRestartSession_def CommandTypeSessionStatus_def
  CommandTypeHandover_def CommandTypeCredentialPush_def CommandTypeOAuthTrigger_def
  CommandTypeEnvCheck_def CommandTypeEnvProvision_def CommandTypeAgentMDDiff_def CommandTypeAgentMDSync_def

definition CommandStatusSuccess :: CommandStatus where "CommandStatusSuccess = ''success''"
definition CommandStatusFailure :: CommandStatus where "CommandStatusFailure = ''failure''"
definition CommandStatusTimeout :: CommandStatus where "CommandStatusTimeout = ''timeout''"

definition DefaultCommandTimeout :: duration where "DefaultCommandTimeout = 30 * second"
definition HandoverCommandTimeout :: duration where "HandoverCommandTimeout = 60 * second"

record CommandTarget =
  tg_Project :: string
  tg_NodeID :: string

record Command =
  cmd_CommandID :: string
  cmd_Type :: CommandType
  cmd_IdempotencyKey :: string
  cmd_Target :: CommandTarget
  cmd_Args :: "(string \<times> go_value) list option"
  cmd_Timeout :: duration

record CommandResult =
  res_CommandID :: string
  res_Status :: CommandStatus
  res_Output :: string
  res_Error :: string
  res_Timestamp :: go_time

text \<open>The cases of the switch in \<open>ParseCommandIntent\<close>, in order.\<close>

definition intent_cases :: "(string list \<times> CommandType) list" where
  "intent_cases =
     [([CommandTypeCreateSession, ''start'', ''/start''], CommandTypeCreateSession),
      ([CommandTypePromptSession, ''inject'', ''/inject'', ''resume'', ''/resume''], CommandTypePromptSession),
      ([CommandTypeKillSession, ''kill'', ''/kill''], CommandTypeKillSession),
      ([CommandTypeRestartSession, ''restart'', ''/restart''], CommandTypeRestartSession),
      ([CommandTypeSessionStatus, ''status'', ''/status''], CommandTypeSessionStatus),
      ([CommandTypeHandover, ''/handover''], CommandTypeHandover),
      ([CommandTypeCredentialPush, ''push_credentials'', ''/push_credentials''], CommandTypeCredentialPush),
      ([CommandTypeOAuthTrigger, ''trigger_oauth'', ''/trigger_oauth''], CommandTypeOAuthTrigger),
      ([CommandTypeEnvCheck, ''check_env'', ''/check_env''], CommandTypeEnvCheck),
      ([CommandTypeEnvProvision, ''provision_env'', ''/provision_env''], CommandTypeEnvProvision),
      ([CommandTypeAgentMDDiff, ''diff_agentmd'', ''/diff_agentmd''], CommandTypeAgentMDDiff),
      ([CommandTypeAgentMDSync, ''sync_agentmd'', ''/sync_agentmd''], CommandTypeAgentMDSync)]"

definition ParseCommandIntent :: "string \<Rightarrow> CommandType go_result" where
  "ParseCommandIntent intent =
     (let normalized = trim_space (to_lower intent)
      in case find (\<lambda>(labels, _). normalized \<in> set labels) intent_cases of
           Some (_, t) \<Rightarrow> Inr t
         | None \<Rightarrow> Inl (Errorf (''unsupported command intent '' @ quoted intent)))"

definition supportedCommandTypes :: "CommandType list" where
  "supportedCommandTypes =
     [CommandTypeCreateSession, CommandTypePromptSession, CommandTypeKillSession,
      CommandTypeRestartSession, CommandTypeSessionStatus, CommandTypeHandover,
      CommandTypeCredentialPush, CommandTypeOAuthTrigger, CommandTypeEnvCheck,
      CommandTypeEnvProvision, CommandTypeAgentMDDiff, CommandTypeAgentMDSync]"

definition IsSupportedCommandType :: "CommandType \<Rightarrow> bool" where
  "IsSupportedCommandType commandType = (commandType \<in> set supportedCommandTypes)"

definition EffectiveTimeout :: "Command \<Rightarrow> duration" where
  "EffectiveTimeout c =
     (if cmd_Timeout c > 0 then cmd_Timeout c
      else if cmd_Type c = CommandTypeHandover then HandoverCommandTimeout
      else DefaultCommandTimeout)"

text \<open>The anonymous struct that \<open>canonicalPayload\<close> marshals; \<open>marshal\<close> is \<open>json.Marshal\<close>.\<close>

record canonical_command =
  can_Type :: CommandType
  can_Target :: CommandTarget
  can_Args :: "(string \<times> go_value) list option"
  can_TimeoutMs :: int

definition canonical_struct :: "Command \<Rightarrow> canonical_command" where
  "canonical_struct c = \<lparr>can_Type = cmd_Type c, can_Target = cmd_Target c, can_Args = cmd_Args c,
     can_TimeoutMs = EffectiveTimeout c div millisecond\<rparr>"

definition canonicalPayload :: "(canonical_command \<Rightarrow> string go_result) \<Rightarrow> Command \<Rightarrow> string go_result" where
  "canonicalPayload marshal c = marshal (canonical_struct c)"

section \<open>Properties\<close>

lemma EffectiveTimeout_pos: "0 < EffectiveTimeout c"
  by (simp add: EffectiveTimeout_def HandoverCommandTimeout_def DefaultCommandTimeout_def second_def)

lemma parse_supported:
  "list_all (\<lambda>t. ParseCommandIntent t = Inr t) supportedCommandTypes"
  by code_simp

lemma intent_types: "map snd intent_cases = supportedCommandTypes"
  by (simp add: intent_cases_def supportedCommandTypes_def)

lemma ParseCommandIntent_supported:
  assumes parse: "ParseCommandIntent u = Inr t"
  shows "IsSupportedCommandType t"
proof -
  obtain labels where "find (\<lambda>(labels, _). trim_space (to_lower u) \<in> set labels) intent_cases = Some (labels, t)"
    using parse
    by (cases "find (\<lambda>(labels, _). trim_space (to_lower u) \<in> set labels) intent_cases")
      (auto simp: ParseCommandIntent_def Let_def)
  then have "(labels, t) \<in> set intent_cases" by (blast dest: find_SomeD)
  then have "t \<in> set (map snd intent_cases)" by (metis image_eqI set_map snd_conv)
  then show ?thesis by (simp only: intent_types IsSupportedCommandType_def)
qed

text \<open>
  Normalisation of command types is sound and idempotent: whatever text is accepted, the result
  is one of the supported types, parsing it again gives itself, and the supported types are exactly
  the texts that are their own normal form.
\<close>
theorem intent_normal_form:
  "(\<forall>t. ParseCommandIntent s = Inr t \<longrightarrow> IsSupportedCommandType t \<and> ParseCommandIntent t = Inr t) \<and>
   (IsSupportedCommandType s \<longleftrightarrow> ParseCommandIntent s = Inr s)"
proof -
  have fixed: "ParseCommandIntent t = Inr t" if "IsSupportedCommandType t" for t
    using that parse_supported by (simp add: IsSupportedCommandType_def list_all_iff)
  show ?thesis using ParseCommandIntent_supported fixed by blast
qed

end
