(* ===== verification/Dispatcher.thy ===== *)
theory Dispatcher
  imports Command_Types Registry Tracker "HOL-Library.List_Lexorder" "HOL-Library.Char_ord"
begin

text \<open>
  \<open>internal/supervisor/command_dispatcher.go\<close>: target resolution, the idempotency table, and the
  correlation of results with waiting callers.

  \<open>DispatchCommand\<close> is modelled as a whole with the blocking wait as one step whose answer, the
  result received or the firing of the timer, is an argument. The concurrent protocol behind that
  step (pending map, result channels of capacity one, timeouts, late and duplicate results) is
  the step relation of \<open>Result_Routing\<close>.

  Not under \<open>src\<close>: \<open>uuid\<close> and \<open>sha256\<close>, which are parameters, as is \<open>encoding/json\<close>.
\<close>

section \<open>Data\<close>

record idempotency_row =
  ir_command_id :: string
  ir_result :: "string option"
  ir_expires_at :: string

text \<open>The libraries the dispatcher calls.\<close>

record dispatch_env =
  env_codec :: time_codec
  env_new_uuid :: string
  env_parse_uuid :: "string \<Rightarrow> go_error option"
  env_marshal_command :: "canonical_command \<Rightarrow> string go_result"
  env_sha256_hex :: "string \<Rightarrow> string"
  env_marshal_result :: "CommandResult \<Rightarrow> string go_result"
  env_unmarshal_result :: "string \<Rightarrow> CommandResult go_result"
  env_duration_text :: "duration \<Rightarrow> string"

text \<open>\<open>sent\<close> records what was handed to the transport. \<open>None\<close> stands for a nil registry, tracker
  or transport.\<close>

record CommandDispatcher =
  d_has_db :: bool
  idempotency :: "(string, idempotency_row) fmap"
  d_registry :: "NodeRegistry option"
  d_tracker :: "SessionTracker option"
  d_has_transport :: bool
  sent :: "(string \<times> Command) list"

section \<open>Target resolution\<close>

text \<open>The loop over the sessions; \<open>GetNode\<close> may extend the registry's cache, and each call has its
  own database outcome.\<close>

fun resolve_by_session :: "time_codec \<Rightarrow> (string \<Rightarrow> exec_outcome) \<Rightarrow> string \<Rightarrow> TrackedSession list
    \<Rightarrow> NodeRegistry \<Rightarrow> string option \<times> NodeRegistry" where
  "resolve_by_session tc qout project [] r = (None, r)"
| "resolve_by_session tc qout project (s # ss) r =
     (if ts_Project s \<noteq> project then resolve_by_session tc qout project ss r
      else case GetNode tc (qout (ts_NodeID s)) r (ts_NodeID s) of
          (Inl _, r') \<Rightarrow> resolve_by_session tc qout project ss r'
        | (Inr node, r') \<Rightarrow>
            if ne_Status node = NodeStatusOnline then (Some (ne_ID node), r')
            else resolve_by_session tc qout project ss r')"

definition resolve_by_project :: "string \<Rightarrow> NodeEntry list \<Rightarrow> string option" where
  "resolve_by_project project ns =
     map_option ne_ID (find (\<lambda>n. ne_Status n = NodeStatusOnline \<and> project \<in> set (ne_Projects n)) ns)"

text \<open>\<open>os\<close> and \<open>ks\<close> are the visiting orders of the sessions and of the nodes. The order of the nodes
  is a function of the registry, whose cache the first loop may have extended.\<close>

definition resolveTarget :: "time_codec \<Rightarrow> (string \<Rightarrow> exec_outcome) \<Rightarrow> string list \<Rightarrow> (NodeRegistry \<Rightarrow> string list)
    \<Rightarrow> CommandDispatcher \<Rightarrow> Command \<Rightarrow> string go_result \<times> CommandDispatcher" where
  "resolveTarget tc qout os ks d cmd =
     (case d_registry d of
        None \<Rightarrow> (Inl (Errorf ''node registry unavailable''), d)
      | Some r \<Rightarrow>
          let node_id = tg_NodeID (cmd_Target cmd); project = tg_Project (cmd_Target cmd)
          in if node_id \<noteq> [] then
               (case GetNode tc (qout node_id) r node_id of
                  (Inl err, r') \<Rightarrow>
                    (Inl (if errors_Is err ErrNodeNotFound then Errorf (''target node not found: '' @ node_id)
                          else Wrapf (''resolve node '' @ node_id @ '': '') err),
                     d\<lparr>d_registry := Some r'\<rparr>)
                | (Inr node, r') \<Rightarrow>
                    (if ne_Status node \<noteq> NodeStatusOnline
                     then Inl (Errorf (''target node offline: '' @ node_id)) else Inr (ne_ID node),
                     d\<lparr>d_registry := Some r'\<rparr>))
             else if project = [] then (Inl (Errorf ''target project or node_id is required''), d)
             else
               (case (case d_tracker d of
                        None \<Rightarrow> (None, r)
                      | Some t \<Rightarrow> resolve_by_session tc qout project (GetAllSessions t os) r) of
                  (Some n, r') \<Rightarrow> (Inr n, d\<lparr>d_registry := Some r'\<rparr>)
                | (None, r') \<Rightarrow>
                    (case resolve_by_project project (ListNodes r' (ks r')) of
                       Some n \<Rightarrow> (Inr n, d\<lparr>d_registry := Some r'\<rparr>)
                     | None \<Rightarrow> (Inl (Errorf (''no online node found for project: '' @ project)),
                                d\<lparr>d_registry := Some r'\<rparr>))))"

section \<open>The idempotency table\<close>

definition idempotencyHash :: "dispatch_env \<Rightarrow> Command \<Rightarrow> string go_result" where
  "idempotencyHash env cmd =
     (case canonicalPayload (env_marshal_command env) cmd of
        Inl err \<Rightarrow> Inl (Wrapf ''build canonical command payload: '' err)
      | Inr payload \<Rightarrow> Inr (env_sha256_hex env (cmd_IdempotencyKey cmd @ '':'' @ payload)))"

text \<open>\<open>qout\<close> is the outcome of the SELECT, \<open>dout\<close> that of the DELETE of an expired row.\<close>

definition checkIdempotency :: "dispatch_env \<Rightarrow> go_time \<Rightarrow> exec_outcome \<Rightarrow> exec_outcome \<Rightarrow> CommandDispatcher
    \<Rightarrow> string \<Rightarrow> CommandResult option \<times> CommandDispatcher" where
  "checkIdempotency env now qout dout d key =
     (if \<not> d_has_db d \<or> qout \<noteq> None then (None, d)
      else case fmlookup (idempotency d) key of
          None \<Rightarrow> (None, d)
        | Some row \<Rightarrow>
            (case ir_result row of
               None \<Rightarrow> (None, d)
             | Some resultJSON \<Rightarrow>
                 (case parseSQLiteTimestamp (env_codec env) (ir_expires_at row) of
                    Inl _ \<Rightarrow> (None, d)
                  | Inr expiresAt \<Rightarrow>
                      if now > expiresAt then
                        (None, if dout = None then d\<lparr>idempotency := fmdrop key (idempotency d)\<rparr> else d)
                      else
                        (case env_unmarshal_result env resultJSON of
                           Inl _ \<Rightarrow> (None, d)
                         | Inr result \<Rightarrow> (Some result, d)))))"

definition idempotency_ttl :: duration where
  "idempotency_ttl = 24 * 60 * 60 * second"

definition cacheResult :: "dispatch_env \<Rightarrow> go_time \<Rightarrow> exec_outcome \<Rightarrow> CommandDispatcher \<Rightarrow> string \<Rightarrow> CommandResult
    \<Rightarrow> go_error option \<times> CommandDispatcher" where
  "cacheResult env now out d key result =
     (if \<not> d_has_db d then (Some (Errorf ''command idempotency storage unavailable''), d)
      else case env_marshal_result env result of
          Inl err \<Rightarrow> (Some (Wrapf ''marshal command result cache: '' err), d)
        | Inr resultJSON \<Rightarrow>
            (case out of
               Some err \<Rightarrow> (Some (Wrapf ''cache command result: '' err), d)
             | None \<Rightarrow>
                 (None, d\<lparr>idempotency := fmupd key
                    \<lparr>ir_command_id = res_CommandID result, ir_result = Some resultJSON,
                     ir_expires_at = format_nano (env_codec env) (now + idempotency_ttl)\<rparr>
                    (idempotency d)\<rparr>)))"

section \<open>Dispatch\<close>

text \<open>The answer the blocking \<open>select\<close> gets: a result, a nil result, or the timer.\<close>

datatype reply = Reply CommandResult | NilReply | TimerFired

definition waitForResult :: "dispatch_env \<Rightarrow> go_time \<Rightarrow> string \<Rightarrow> duration \<Rightarrow> reply \<Rightarrow> CommandResult go_result" where
  "waitForResult env now commandID timeout reply =
     (case reply of
        Reply result \<Rightarrow> Inr result
      | NilReply \<Rightarrow> Inl (Errorf (''received nil command result for '' @ commandID))
      | TimerFired \<Rightarrow> Inr \<lparr>res_CommandID = commandID, res_Status = CommandStatusTimeout, res_Output = [],
          res_Error = ''command timed out after '' @ env_duration_text env timeout, res_Timestamp = now\<rparr>)"

definition sendCommand :: "dispatch_env \<Rightarrow> go_time \<Rightarrow> exec_outcome \<Rightarrow> reply \<Rightarrow> CommandDispatcher \<Rightarrow> string \<Rightarrow> Command
    \<Rightarrow> CommandResult go_result \<times> CommandDispatcher" where
  "sendCommand env now send reply d nodeID cmd =
     (if \<not> d_has_transport d then (Inl (Errorf ''command transport unavailable''), d)
      else let d' = d\<lparr>sent := sent d @ [(nodeID, cmd)]\<rparr>
        in case send of
             Some err \<Rightarrow> (Inl err, d')
           | None \<Rightarrow> (waitForResult env now (cmd_CommandID cmd) (EffectiveTimeout cmd) reply, d'))"

text \<open>What the surroundings answer during one dispatch.\<close>

record dispatch_answers =
  ans_now_check :: go_time
  ans_now_result :: go_time
  ans_now_cache :: go_time
  ans_select :: exec_outcome
  ans_delete :: exec_outcome
  ans_insert :: exec_outcome
  ans_get_node :: "string \<Rightarrow> exec_outcome"
  ans_session_order :: "string list"
  ans_node_order :: "NodeRegistry \<Rightarrow> string list"
  ans_send :: exec_outcome
  ans_reply :: reply

definition dispatchToTarget :: "dispatch_env \<Rightarrow> dispatch_answers \<Rightarrow> CommandDispatcher \<Rightarrow> Command
    \<Rightarrow> CommandResult go_result \<times> CommandDispatcher" where
  "dispatchToTarget env a d cmd =
     (case resolveTarget (env_codec env) (ans_get_node a) (ans_session_order a) (ans_node_order a) d cmd of
        (Inl err, d') \<Rightarrow>
          (Inr \<lparr>res_CommandID = cmd_CommandID cmd, res_Status = CommandStatusFailure, res_Output = [],
             res_Error = error_text err, res_Timestamp = ans_now_result a\<rparr>, d')
      | (Inr nodeID, d') \<Rightarrow>
          (case sendCommand env (ans_now_result a) (ans_send a) (ans_reply a) d' nodeID cmd of
             (Inl err, d'') \<Rightarrow> (Inl err, d'')
           | (Inr result, d'') \<Rightarrow>
               (Inr (result\<lparr>res_CommandID :=
                       (if res_CommandID result = [] then cmd_CommandID cmd else res_CommandID result),
                     res_Timestamp :=
                       (if time_is_zero (res_Timestamp result) then ans_now_result a else res_Timestamp result)\<rparr>), d'')))"

definition DispatchCommand :: "dispatch_env \<Rightarrow> dispatch_answers \<Rightarrow> CommandDispatcher \<Rightarrow> Command
    \<Rightarrow> CommandResult go_result \<times> CommandDispatcher" where
  "DispatchCommand env a d cmd0 =
     (case ParseCommandIntent (cmd_Type cmd0) of
        Inl err \<Rightarrow> (Inl err, d)
      | Inr normalizedType \<Rightarrow>
          let cmd1 = cmd0\<lparr>cmd_Type := normalizedType\<rparr>
          in case (if cmd_CommandID cmd1 = [] then None else env_parse_uuid env (cmd_CommandID cmd1)) of
               Some err \<Rightarrow> (Inl (Wrapf (''invalid command_id '' @ quoted (cmd_CommandID cmd1) @ '': '') err), d)
             | None \<Rightarrow>
                 let cmd = (if cmd_CommandID cmd1 = [] then cmd1\<lparr>cmd_CommandID := env_new_uuid env\<rparr> else cmd1)
                 in if cmd_IdempotencyKey cmd \<noteq> [] then
                      (case idempotencyHash env cmd of
                         Inl err \<Rightarrow> (Inl err, d)
                       | Inr key \<Rightarrow>
                           (case checkIdempotency env (ans_now_check a) (ans_select a) (ans_delete a) d key of
                              (Some cached, d1) \<Rightarrow> (Inr cached, d1)
                            | (None, d1) \<Rightarrow>
                                (case dispatchToTarget env a d1 cmd of
                                   (Inl err, d2) \<Rightarrow> (Inl err, d2)
                                 | (Inr result, d2) \<Rightarrow>
                                     (case cacheResult env (ans_now_cache a) (ans_insert a) d2 key result of
                                        (Some err, d3) \<Rightarrow> (Inl err, d3)
                                      | (None, d3) \<Rightarrow> (Inr result, d3)))))
                    else dispatchToTarget env a d cmd)"

section \<open>Resolution and idempotency\<close>

text \<open>The command as it is dispatched: type normalised, id filled in.\<close>

definition prepared :: "dispatch_env \<Rightarrow> Command \<Rightarrow> Command option" where
  "prepared env cmd0 =
     (case ParseCommandIntent (cmd_Type cmd0) of
        Inl _ \<Rightarrow> None
      | Inr t \<Rightarrow>
          if cmd_CommandID cmd0 = [] then Some (cmd0\<lparr>cmd_Type := t, cmd_CommandID := env_new_uuid env\<rparr>)
          else if env_parse_uuid env (cmd_CommandID cmd0) = None then Some (cmd0\<lparr>cmd_Type := t\<rparr>)
          else None)"

lemma DispatchCommand_prepared:
  assumes "prepared env cmd0 = Some cmd"
  shows "DispatchCommand env a d cmd0 =
    (if cmd_IdempotencyKey cmd \<noteq> [] then
       (case idempotencyHash env cmd of
          Inl err \<Rightarrow> (Inl err, d)
        | Inr key \<Rightarrow>
            (case checkIdempotency env (ans_now_check a) (ans_select a) (ans_delete a) d key of
               (Some cached, d1) \<Rightarrow> (Inr cached, d1)
             | (None, d1) \<Rightarrow>
                 (case dispatchToTarget env a d1 cmd of
                    (Inl err, d2) \<Rightarrow> (Inl err, d2)
                  | (Inr result, d2) \<Rightarrow>
                      (case cacheResult env (ans_now_cache a) (ans_insert a) d2 key result of
                         (Some err, d3) \<Rightarrow> (Inl err, d3)
                       | (None, d3) \<Rightarrow> (Inr result, d3)))))
     else dispatchToTarget env a d cmd)"
  using assms by (auto simp: DispatchCommand_def prepared_def Let_def split: sum.splits if_splits)

lemma DispatchCommand_rejected:
  assumes "prepared env cmd0 = None"
  shows "\<exists>err. DispatchCommand env a d cmd0 = (Inl err, d)"
  using assms by (auto simp: DispatchCommand_def prepared_def Let_def split: sum.splits if_splits)

lemma prepared_fields:
  assumes "prepared env cmd0 = Some cmd"
  shows "cmd_IdempotencyKey cmd = cmd_IdempotencyKey cmd0" and "cmd_Target cmd = cmd_Target cmd0"
    and "cmd_Args cmd = cmd_Args cmd0" and "ParseCommandIntent (cmd_Type cmd0) = Inr (cmd_Type cmd)"
  using assms by (auto simp: prepared_def split: sum.splits if_splits)

lemma hash_depends:
  "cmd_IdempotencyKey c = cmd_IdempotencyKey c' \<Longrightarrow> canonical_struct c = canonical_struct c' \<Longrightarrow>
   idempotencyHash env c = idempotencyHash env c'"
  by (auto simp: idempotencyHash_def canonicalPayload_def split: sum.splits)

definition result_survives :: "dispatch_env \<Rightarrow> CommandResult \<Rightarrow> bool" where
  "result_survives env r \<longleftrightarrow>
     (\<forall>j. env_marshal_result env r = Inr j \<longrightarrow> env_unmarshal_result env j = Inr r)"

lemma cacheResult_check:
  assumes "cacheResult env now out d key r = (None, d')" and "result_survives env r"
    and "time_survives (env_codec env) (now + idempotency_ttl)"
    and "fmlookup (idempotency d'') key = fmlookup (idempotency d') key" and "d_has_db d''"
    and "now' \<le> now + idempotency_ttl"
  shows "checkIdempotency env now' None dout d'' key = (Some r, d'')"
  using assms
  by (auto simp: cacheResult_def checkIdempotency_def result_survives_def parse_format
      split: if_splits sum.splits option.splits)

lemma checkIdempotency_frame:
  "checkIdempotency env now q del d key = (r, d') \<Longrightarrow>
   sent d' = sent d \<and> d_registry d' = d_registry d \<and> d_tracker d' = d_tracker d \<and>
   d_has_db d' = d_has_db d \<and> d_has_transport d' = d_has_transport d"
  by (auto simp: checkIdempotency_def split: if_splits option.splits sum.splits)

lemma cacheResult_frame:
  "cacheResult env now out d key r = (e, d') \<Longrightarrow>
   sent d' = sent d \<and> d_registry d' = d_registry d \<and> d_tracker d' = d_tracker d"
  by (auto simp: cacheResult_def split: if_splits option.splits sum.splits)

lemma resolveTarget_frame:
  "resolveTarget tc q os ks d cmd = (r, d') \<Longrightarrow>
   sent d' = sent d \<and> idempotency d' = idempotency d \<and> d_has_db d' = d_has_db d \<and>
   d_has_transport d' = d_has_transport d"
  by (auto simp: resolveTarget_def Let_def split: if_splits option.splits sum.splits prod.splits)

lemma resolve_by_session_sound:
  assumes "resolve_by_session tc q project ss r = (res, r')" and "registry_inv tc r"
  shows "registry_inv tc r' \<and> (case res of None \<Rightarrow> True | Some n \<Rightarrow>
    \<exists>e. fmlookup (nodes r') n = Some e \<and> ne_Status e = NodeStatusOnline)"
  using assms
proof (induction tc q project ss r rule: resolve_by_session.induct)
  case (2 tc q project s ss r)
  obtain g r1 where g: "GetNode tc (q (ts_NodeID s)) r (ts_NodeID s) = (g, r1)"
    by (cases "GetNode tc (q (ts_NodeID s)) r (ts_NodeID s)")
  have inv: "registry_inv tc r1" using GetNode_inv [OF 2(5), of "q (ts_NodeID s)" "ts_NodeID s"] g by simp
  show ?case
  proof (cases g)
    case (Inl err)
    then show ?thesis using 2(1,2,4,5) g inv by (auto split: if_splits)
  next
    case (Inr node)
    have "fmlookup (nodes r1) (ts_NodeID s) = Some node" using node_store.read_found g Inr by blast
    moreover from this have "ne_ID node = ts_NodeID s" using inv by (auto simp: registry_inv_def keyed_def)
    ultimately show ?thesis using 2(1,3,4,5) g Inr inv by (auto split: if_splits)
  qed
qed auto

lemma resolveTarget_sound:
  assumes "resolveTarget tc q os ks d cmd = (Inr n, d')" and "d_registry d = Some r" and "registry_inv tc r"
    and order: "\<And>r. iteration_order (nodes r) (ks r)"
  shows "\<exists>r' e. d_registry d' = Some r' \<and> registry_inv tc r' \<and> fmlookup (nodes r') n = Some e \<and>
    ne_Status e = NodeStatusOnline \<and> (tg_NodeID (cmd_Target cmd) \<noteq> [] \<longrightarrow> n = tg_NodeID (cmd_Target cmd))"
proof (cases "tg_NodeID (cmd_Target cmd) = []")
  case False
  let ?n = "tg_NodeID (cmd_Target cmd)"
  obtain node r' where g: "GetNode tc (q ?n) r ?n = (Inr node, r')" "ne_Status node = NodeStatusOnline"
      "n = ne_ID node" "d_registry d' = Some r'"
    using assms(1,2) False by (auto simp: resolveTarget_def Let_def split: prod.splits sum.splits if_splits)
  have inv: "registry_inv tc r'" using GetNode_inv [OF assms(3), of "q ?n" ?n] g by simp
  moreover have "fmlookup (nodes r') ?n = Some node" using node_store.read_found g(1) by blast
  ultimately show ?thesis using g by (auto simp: registry_inv_def keyed_def)
next
  case True
  let ?p = "tg_Project (cmd_Target cmd)"
  obtain res r' where loop: "(case d_tracker d of None \<Rightarrow> (None, r)
      | Some t \<Rightarrow> resolve_by_session tc q ?p (GetAllSessions t os) r) = (res, r')"
    by (cases "case d_tracker d of None \<Rightarrow> (None, r)
      | Some t \<Rightarrow> resolve_by_session tc q ?p (GetAllSessions t os) r")
  have s: "registry_inv tc r' \<and> (case res of None \<Rightarrow> True | Some n \<Rightarrow>
      \<exists>e. fmlookup (nodes r') n = Some e \<and> ne_Status e = NodeStatusOnline)"
    using loop assms(3) resolve_by_session_sound [of tc q ?p _ r res r'] by (cases "d_tracker d") auto
  show ?thesis
  proof (cases res)
    case (Some m)
    then show ?thesis
      using assms(1,2) True loop s by (auto simp: resolveTarget_def Let_def split: if_splits)
  next
    case None
    then obtain e where e: "find (\<lambda>n. ne_Status n = NodeStatusOnline \<and> ?p \<in> set (ne_Projects n))
        (map_values (nodes r') (ks r')) = Some e" "n = ne_ID e" "d_registry d' = Some r'"
      using assms(1,2) True loop
      by (auto simp: resolveTarget_def resolve_by_project_def ListNodes_def Let_def
          split: if_splits option.splits)
    obtain k where "fmlookup (nodes r') k = Some e" "ne_Status e = NodeStatusOnline"
      using find_SomeD [OF e(1)] set_map_values [OF order, of r'] by auto
    then show ?thesis using e s True by (auto simp: registry_inv_def keyed_def)
  qed
qed

lemma dispatchToTarget_frame:
  assumes "dispatchToTarget env a d cmd = (r, d')"
  shows "idempotency d' = idempotency d \<and> d_has_db d' = d_has_db d"
proof -
  obtain t d1 where "resolveTarget (env_codec env) (ans_get_node a) (ans_session_order a) (ans_node_order a) d cmd = (t, d1)"
    by (cases "resolveTarget (env_codec env) (ans_get_node a) (ans_session_order a) (ans_node_order a) d cmd")
  with assms resolveTarget_frame [OF this] show ?thesis
    by (auto simp: dispatchToTarget_def sendCommand_def Let_def split: sum.splits option.splits prod.splits if_splits)
qed

text \<open>
  C7. Idempotency: once a command with an idempotency key has returned a result, every later
  command with the same key and the same canonical payload returns that very result, whatever its
  command id and whatever has happened to nodes and sessions, without sending anything and without
  changing any state, as long as the entry has not expired after 24 hours. This includes failures
  and timeouts.
\<close>
theorem idempotent_replay:
  assumes first: "DispatchCommand env a d cmd0 = (Inr res, d1)" "prepared env cmd0 = Some cmd"
      "cmd_IdempotencyKey cmd \<noteq> []" "idempotencyHash env cmd = Inr key" "fmlookup (idempotency d) key = None"
    and codec: "result_survives env res" "time_survives (env_codec env) (ans_now_cache a + idempotency_ttl)"
    and again: "prepared env cmd0' = Some cmd'" "cmd_IdempotencyKey cmd' = cmd_IdempotencyKey cmd"
      "canonical_struct cmd' = canonical_struct cmd"
    and later: "d_has_db d'" "fmlookup (idempotency d') key = fmlookup (idempotency d1) key"
      "ans_select a' = None" "ans_now_check a' \<le> ans_now_cache a + idempotency_ttl"
  shows "DispatchCommand env a' d' cmd0' = (Inr res, d')"
proof -
  have "checkIdempotency env (ans_now_check a) (ans_select a) (ans_delete a) d key = (None, d)"
    using first(5) by (simp add: checkIdempotency_def)
  then obtain d2 where c: "cacheResult env (ans_now_cache a) (ans_insert a) d2 key res = (None, d1)"
    using first by (auto simp: DispatchCommand_prepared [OF first(2)] split: sum.splits option.splits prod.splits)
  have "checkIdempotency env (ans_now_check a') None (ans_delete a') d' key = (Some res, d')"
    by (rule cacheResult_check [OF c codec later(2,1,4)])
  moreover have "idempotencyHash env cmd' = Inr key" using hash_depends [OF again(2,3)] first(4) by simp
  ultimately show ?thesis
    using first(3) again(2) later(3) by (simp add: DispatchCommand_prepared [OF again(1)])
qed

lemma dispatchToTarget_sent:
  assumes "dispatchToTarget env a d cmd = (res, d')" and "d_registry d = Some r"
    and "registry_inv (env_codec env) r" and order: "\<And>r. iteration_order (nodes r) (ans_node_order a r)"
  shows "sent d' = sent d \<or>
    (\<exists>n r' e. sent d' = sent d @ [(n, cmd)] \<and> d_registry d' = Some r' \<and> fmlookup (nodes r') n = Some e \<and>
       ne_Status e = NodeStatusOnline \<and> (tg_NodeID (cmd_Target cmd) \<noteq> [] \<longrightarrow> n = tg_NodeID (cmd_Target cmd)))"
proof -
  obtain t d1 where rt:
    "resolveTarget (env_codec env) (ans_get_node a) (ans_session_order a) (ans_node_order a) d cmd = (t, d1)"
    by (cases "resolveTarget (env_codec env) (ans_get_node a) (ans_session_order a) (ans_node_order a) d cmd")
  note frame = resolveTarget_frame [OF rt]
  show ?thesis
  proof (cases t)
    case (Inl err)
    then show ?thesis using assms(1) rt frame by (auto simp: dispatchToTarget_def)
  next
    case (Inr n)
    obtain r' e where r': "d_registry d1 = Some r'" "fmlookup (nodes r') n = Some e" "ne_Status e = NodeStatusOnline"
        "tg_NodeID (cmd_Target cmd) \<noteq> [] \<longrightarrow> n = tg_NodeID (cmd_Target cmd)"
      using resolveTarget_sound [OF rt [unfolded Inr] assms(2,3) order] by blast
    have "sent d' = sent d1 \<or> sent d' = sent d1 @ [(n, cmd)]" and "d_registry d' = d_registry d1"
      using assms(1) rt Inr
      by (auto simp: dispatchToTarget_def sendCommand_def Let_def
          split: sum.splits option.splits prod.splits if_splits)
    then show ?thesis using r' frame by auto
  qed
qed

lemma DispatchCommand_sent:
  assumes "DispatchCommand env a d cmd0 = (res, d')" and "d_registry d = Some r"
    and "registry_inv (env_codec env) r" and order: "\<And>r. iteration_order (nodes r) (ans_node_order a r)"
  shows "sent d' = sent d \<or>
    (\<exists>n cmd r' e. sent d' = sent d @ [(n, cmd)] \<and> d_registry d' = Some r' \<and> fmlookup (nodes r') n = Some e \<and>
       ne_Status e = NodeStatusOnline \<and> IsSupportedCommandType (cmd_Type cmd) \<and>
       (tg_NodeID (cmd_Target cmd0) \<noteq> [] \<longrightarrow> n = tg_NodeID (cmd_Target cmd0)))"
proof (cases "prepared env cmd0")
  case None
  then show ?thesis using DispatchCommand_rejected [OF None, of a d] assms(1) by auto
next
  case (Some cmd)
  have type: "IsSupportedCommandType (cmd_Type cmd)"
    using ParseCommandIntent_supported prepared_fields(4) [OF Some] by blast
  have sent_by: "sent d2 = sent d1 \<or> (\<exists>n r' e. sent d2 = sent d1 @ [(n, cmd)] \<and> d_registry d2 = Some r' \<and>
      fmlookup (nodes r') n = Some e \<and> ne_Status e = NodeStatusOnline \<and>
      (tg_NodeID (cmd_Target cmd0) \<noteq> [] \<longrightarrow> n = tg_NodeID (cmd_Target cmd0)))"
    if "dispatchToTarget env a d1 cmd = (x, d2)" "d_registry d1 = Some r" for d1 d2 x
    using dispatchToTarget_sent [OF that assms(3) order]
    by (simp add: prepared_fields(2) [OF Some])
  show ?thesis
  proof (cases "cmd_IdempotencyKey cmd = []")
    case True
    then have "dispatchToTarget env a d cmd = (res, d')"
      using assms(1) by (simp add: DispatchCommand_prepared [OF Some])
    from sent_by [OF this assms(2)] type show ?thesis by blast
  next
    case False
    show ?thesis
    proof (cases "idempotencyHash env cmd")
      case (Inl err)
      then show ?thesis using assms(1) False by (simp add: DispatchCommand_prepared [OF Some])
    next
      case (Inr key)
      obtain c d1 where chk: "checkIdempotency env (ans_now_check a) (ans_select a) (ans_delete a) d key = (c, d1)"
        by (cases "checkIdempotency env (ans_now_check a) (ans_select a) (ans_delete a) d key")
      obtain x d2 where dt: "dispatchToTarget env a d1 cmd = (x, d2)" by (cases "dispatchToTarget env a d1 cmd")
      note frame = checkIdempotency_frame [OF chk]
      have d': "d' = d1 \<or> d' = d2 \<or> (\<exists>y e. cacheResult env (ans_now_cache a) (ans_insert a) d2 key y = (e, d'))"
        using assms(1) False Inr chk dt
        by (auto simp: DispatchCommand_prepared [OF Some] split: option.splits sum.splits prod.splits)
      then have "d' = d1 \<or> (sent d' = sent d2 \<and> d_registry d' = d_registry d2)"
        using cacheResult_frame by blast
      then show ?thesis using sent_by [OF dt] frame assms(2) type by auto
    qed
  qed
qed

text \<open>A dispatch changes the registry only by reading nodes.\<close>

lemma resolve_by_session_reads:
  assumes reads: "\<And>q r k. P r \<Longrightarrow> P (snd (GetNode tc q r k))"
  shows "P r \<Longrightarrow> P (snd (resolve_by_session tc q project ss r))"
proof (induction ss arbitrary: r)
  case (Cons s ss)
  obtain g r1 where g: "GetNode tc (q (ts_NodeID s)) r (ts_NodeID s) = (g, r1)"
    by (cases "GetNode tc (q (ts_NodeID s)) r (ts_NodeID s)")
  have "P r1" using reads [OF Cons(2), of "q (ts_NodeID s)" "ts_NodeID s"] g by simp
  then show ?case using Cons g by (cases g) auto
qed simp

lemma resolveTarget_reads:
  assumes reads: "\<And>q r k. P r \<Longrightarrow> P (snd (GetNode tc q r k))" and "d_registry d = Some r" and "P r"
  shows "\<exists>r'. d_registry (snd (resolveTarget tc q os ks d cmd)) = Some r' \<and> P r'"
proof -
  have "P (snd (case d_tracker d of None \<Rightarrow> (None, r) | Some t \<Rightarrow> resolve_by_session tc q p (GetAllSessions t os) r))" for p
    using assms(3) resolve_by_session_reads [of P tc, OF reads assms(3)] by (auto split: option.splits)
  then show ?thesis
    using assms(2,3) reads [OF assms(3)]
    by (auto simp: resolveTarget_def Let_def split: sum.splits option.splits prod.splits) (metis snd_conv)+
qed

lemma dispatchToTarget_registry:
  "d_registry (snd (dispatchToTarget env a d cmd)) =
   d_registry (snd (resolveTarget (env_codec env) (ans_get_node a) (ans_session_order a) (ans_node_order a) d cmd))"
  by (auto simp: dispatchToTarget_def sendCommand_def Let_def split: sum.splits option.splits prod.splits)

lemma DispatchCommand_reads:
  assumes "DispatchCommand env a d cmd0 = (res, d')" and "d_registry d = Some r" and "P r"
    and reads: "\<And>q r k. P r \<Longrightarrow> P (snd (GetNode (env_codec env) q r k))"
  shows "\<exists>r'. d_registry d' = Some r' \<and> P r'"
proof (cases "prepared env cmd0")
  case None
  then show ?thesis using DispatchCommand_rejected [OF None, of a d] assms(1-3) by auto
next
  case (Some cmd)
  have step: "\<exists>r'. d_registry (snd (dispatchToTarget env a d1 cmd)) = Some r' \<and> P r'" if "d_registry d1 = Some r" for d1
    unfolding dispatchToTarget_registry by (rule resolveTarget_reads [OF reads that assms(3)])
  consider "d_registry d' = d_registry d"
    | d1 where "d_registry d1 = d_registry d" "d_registry d' = d_registry (snd (dispatchToTarget env a d1 cmd))"
    using assms(1)
    by (auto simp: DispatchCommand_prepared [OF Some] split: option.splits sum.splits prod.splits if_splits
        dest!: checkIdempotency_frame cacheResult_frame)
  then show ?thesis
  proof cases
    case 1
    then show ?thesis using assms(2,3) by simp
  next
    case 2
    then show ?thesis using step assms(2) by simp
  qed
qed

text \<open>
  A dispatch sends at most one command, to a node that the registry holds as online (the one
  asked for, if one was asked for), with a supported type; in all other cases it sends nothing.
\<close>
theorem dispatch_only_to_online_nodes:
  assumes "DispatchCommand env a d cmd0 = (res, d')" and "d_registry d = Some r"
    and "registry_reachable (env_codec env) r" and order: "\<And>r. iteration_order (nodes r) (ans_node_order a r)"
  shows "sent d' = sent d \<or>
    (\<exists>n cmd r' e. sent d' = sent d @ [(n, cmd)] \<and> d_registry d' = Some r' \<and> fmlookup (nodes r') n = Some e \<and>
       ne_Status e = NodeStatusOnline \<and> IsSupportedCommandType (cmd_Type cmd) \<and>
       (tg_NodeID (cmd_Target cmd0) \<noteq> [] \<longrightarrow> n = tg_NodeID (cmd_Target cmd0)))"
  using DispatchCommand_sent [OF assms(1,2) registry_reachable_inv [OF assms(3)] order] .

definition demo_command :: "string \<Rightarrow> Command" where
  "demo_command i = \<lparr>cmd_CommandID = i, cmd_Type = ''/kill'', cmd_IdempotencyKey = ''k'',
     cmd_Target = \<lparr>tg_Project = [], tg_NodeID = ''n1''\<rparr>, cmd_Args = None, cmd_Timeout = 0\<rparr>"

definition demo_failure :: CommandResult where
  "demo_failure = \<lparr>res_CommandID = ''c1'', res_Status = ''failure'', res_Output = [],
     res_Error = ''target node not found: n1'', res_Timestamp = 1\<rparr>"

definition demo_env :: dispatch_env where
  "demo_env = \<lparr>env_codec = \<lparr>format_nano = (\<lambda>t. if t = idempotency_ttl then ''D'' else ''?''),
       parse_layout = (\<lambda>l s. if s = ''D'' then Inr idempotency_ttl else Inl (Errorf ''bad''))\<rparr>,
     env_new_uuid = ''u'', env_parse_uuid = (\<lambda>_. None), env_marshal_command = (\<lambda>_. Inr ''{}''),
     env_sha256_hex = (\<lambda>s. s), env_marshal_result = (\<lambda>_. Inr ''{r}''),
     env_unmarshal_result = (\<lambda>_. Inr demo_failure), env_duration_text = (\<lambda>_. ''30s'')\<rparr>"

definition demo_answers :: dispatch_answers where
  "demo_answers = \<lparr>ans_now_check = 0, ans_now_result = 1, ans_now_cache = 0, ans_select = None, ans_delete = None,
     ans_insert = None, ans_get_node = (\<lambda>_. None), ans_session_order = [],
     ans_node_order = (\<lambda>r. []), ans_send = None, ans_reply = TimerFired\<rparr>"

definition demo_dispatcher :: "NodeRegistry \<Rightarrow> CommandDispatcher" where
  "demo_dispatcher r = \<lparr>d_has_db = True, idempotency = fmempty, d_registry = Some r, d_tracker = None,
     d_has_transport = True, sent = []\<rparr>"

text \<open>A failure because the node is unknown is replayed after the node has registered.\<close>

lemma idempotent_replay_witness:
  "let d1 = snd (DispatchCommand demo_env demo_answers (demo_dispatcher (NewNodeRegistry fmempty)) (demo_command ''c1''));
       d' = d1\<lparr>d_registry := Some demo_registry\<rparr>
   in DispatchCommand demo_env demo_answers d' (demo_command ''c2'') = (Inr demo_failure, d')"
proof -
  let ?d = "demo_dispatcher (NewNodeRegistry fmempty)"
  let ?r = "DispatchCommand demo_env demo_answers ?d (demo_command ''c1'')"
  let ?c = "\<lambda>i. (demo_command i)\<lparr>cmd_Type := ''kill_session''\<rparr>"
  have "fst ?r = Inr demo_failure" by code_simp
  then have first: "?r = (Inr demo_failure, snd ?r)" by (metis prod.collapse)
  have prep: "prepared demo_env (demo_command ''c1'') = Some (?c ''c1'')"
    "prepared demo_env (demo_command ''c2'') = Some (?c ''c2'')" by code_simp+
  have key: "idempotencyHash demo_env (?c ''c1'') = Inr ''k:{}''" by code_simp
  have codec: "result_survives demo_env demo_failure"
    "time_survives (env_codec demo_env) (ans_now_cache demo_answers + idempotency_ttl)"
    by (simp_all add: result_survives_def time_survives_def demo_env_def demo_answers_def)
  have db: "d_has_db (snd ?r)" by code_simp
  show ?thesis
    unfolding Let_def
    by (rule idempotent_replay [OF first prep(1) _ key _ codec prep(2)])
      (use db in \<open>simp_all add: demo_command_def demo_dispatcher_def demo_answers_def canonical_struct_def
         EffectiveTimeout_def idempotency_ttl_def second_def\<close>)
qed

text \<open>An order for a registry with at most the node \<open>n1\<close>.\<close>

lemma dispatch_only_to_online_nodes_witness:
  "\<exists>n cmd. sent (snd (DispatchCommand (demo_env\<lparr>env_codec := unary_codec\<rparr>)
       (demo_answers\<lparr>ans_node_order := (\<lambda>r. sorted_list_of_fset (fmdom (nodes r)))\<rparr>)
       (demo_dispatcher demo_registry) ((demo_command ''c1'')\<lparr>cmd_IdempotencyKey := []\<rparr>))) = [(n, cmd)] \<and>
     n = ''n1''"
proof -
  let ?env = "demo_env\<lparr>env_codec := unary_codec\<rparr>" and ?a = "demo_answers\<lparr>ans_node_order := (\<lambda>r. sorted_list_of_fset (fmdom (nodes r)))\<rparr>"
  let ?cmd = "(demo_command ''c1'')\<lparr>cmd_IdempotencyKey := []\<rparr>"
  have reach: "registry_reachable (env_codec ?env) demo_registry"
    unfolding demo_registry_def by (auto intro: registry_reachable.intros)
  have "sent (snd (DispatchCommand ?env ?a (demo_dispatcher demo_registry) ?cmd)) \<noteq> sent (demo_dispatcher demo_registry)"
    by code_simp
  moreover have "iteration_order (nodes r) (ans_node_order ?a r)" for r
    by (simp add: iteration_order_def sorted_list_of_fset.rep_eq)
  from dispatch_only_to_online_nodes [OF prod.collapse [symmetric] _ reach this, of "demo_dispatcher demo_registry" ?cmd]
  have "sent (snd (DispatchCommand ?env ?a (demo_dispatcher demo_registry) ?cmd)) = sent (demo_dispatcher demo_registry) \<or>
    (\<exists>n cmd. sent (snd (DispatchCommand ?env ?a (demo_dispatcher demo_registry) ?cmd)) =
        sent (demo_dispatcher demo_registry) @ [(n, cmd)] \<and>
      (tg_NodeID (cmd_Target ?cmd) \<noteq> [] \<longrightarrow> n = tg_NodeID (cmd_Target ?cmd)))"
    by (auto simp: demo_dispatcher_def)
  moreover have "sent (demo_dispatcher demo_registry) = []" "tg_NodeID (cmd_Target ?cmd) = ''n1''"
    by (simp_all add: demo_dispatcher_def demo_command_def)
  ultimately show ?thesis by auto
qed

end
