(* ===== verification/Protocol.thy ===== *)
theory Protocol
  imports Go_Lib
begin

text \<open>
  \<open>internal/shared/protocol.go\<close> and \<open>types.go\<close>: the envelope of every message between agents and
  supervisor. The JSON encoding itself is a parameter.
\<close>

section \<open>Data\<close>

definition ProtocolVersion :: int where "ProtocolVersion = 1"

type_synonym MessageType = string

definition MessageTypeEvent :: MessageType where "MessageTypeEvent = ''event''"
definition MessageTypeCommand :: MessageType where "MessageTypeCommand = ''command''"
definition MessageTypeCommandResult :: MessageType where "MessageTypeCommandResult = ''command_result''"
definition MessageTypeHeartbeat :: MessageType where "MessageTypeHeartbeat = ''heartbeat''"
definition MessageTypeRegister :: MessageType where "MessageTypeRegister = ''register''"
definition MessageTypeCredentialSync :: MessageType where "MessageTypeCredentialSync = ''credential_sync''"
definition MessageTypeAuthState :: MessageType where "MessageTypeAuthState = ''auth_state''"
definition MessageTypeConfigUpdate :: MessageType where "MessageTypeConfigUpdate = ''config_update''"

lemmas message_types = MessageTypeEvent_def MessageTypeCommand_def MessageTypeCommandResult_def
  MessageTypeHeartbeat_def MessageTypeRegister_def MessageTypeCredentialSync_def MessageTypeAuthState_def
  MessageTypeConfigUpdate_def

record Envelope =
  env_Version :: int
  env_Type :: string
  env_RequestID :: string
  env_Timestamp :: int
  env_Payload :: string

text \<open>\<open>json.Marshal\<close> and \<open>json.Unmarshal\<close> at type \<open>Envelope\<close>.\<close>

record envelope_codec =
  encode_envelope :: "Envelope \<Rightarrow> string go_result"
  decode_envelope :: "string \<Rightarrow> Envelope go_result"

section \<open>Validation\<close>

definition validateEnvelope :: "Envelope \<Rightarrow> go_error option" where
  "validateEnvelope env =
     (if env_Version env \<noteq> ProtocolVersion
      then Some (Suffixf (Sentinel ErrUnsupportedVersion)
        ('': got '' @ int_text (env_Version env) @ '', expected '' @ int_text ProtocolVersion))
      else if env_Type env = [] then Some (Sentinel ErrMissingType)
      else if env_Timestamp env = 0 then Some (Sentinel ErrMissingTimestamp)
      else None)"

definition MarshalEnvelope :: "envelope_codec \<Rightarrow> Envelope \<Rightarrow> string go_result" where
  "MarshalEnvelope ec env =
     (case validateEnvelope env of
        Some err \<Rightarrow> Inl err
      | None \<Rightarrow> encode_envelope ec env)"

definition UnmarshalEnvelope :: "envelope_codec \<Rightarrow> string \<Rightarrow> Envelope go_result" where
  "UnmarshalEnvelope ec data =
     (case decode_envelope ec data of
        Inl err \<Rightarrow> Inl (Wrapf ''failed to unmarshal envelope: '' err)
      | Inr env \<Rightarrow>
          (case validateEnvelope env of
             Some err \<Rightarrow> Inl err
           | None \<Rightarrow> Inr env))"

lemma validateEnvelope_None_iff:
  "validateEnvelope env = None \<longleftrightarrow>
     env_Version env = ProtocolVersion \<and> env_Type env \<noteq> [] \<and> env_Timestamp env \<noteq> 0"
  by (simp add: validateEnvelope_def)

lemma UnmarshalEnvelope_valid: "UnmarshalEnvelope ec data = Inr env \<Longrightarrow> validateEnvelope env = None"
  by (auto simp: UnmarshalEnvelope_def split: sum.splits option.splits)

lemma MarshalEnvelope_valid: "MarshalEnvelope ec env = Inr data \<Longrightarrow> validateEnvelope env = None"
  by (auto simp: MarshalEnvelope_def split: option.splits)

end
