(* ===== verification/Result_Routing.thy ===== *)
theory Result_Routing
  imports Dispatcher Protocol
begin

text \<open>
  The concurrent half of \<open>command_dispatcher.go\<close>: callers of \<open>sendCommand\<close> and \<open>waitForResult\<close>,
  the hub's calls of \<open>HandleCommandResult\<close>, and the timers, interleaved in any order. A step is
  what runs under \<open>pendingMu\<close> or one channel operation.

  A channel is created for one command id and holds at most one result. The pending map names
  the current channel of an id; callers and handlers keep the channel they looked up.
\<close>

section \<open>The pending map and its channels\<close>

record result_chan =
  ch_command :: string
  ch_buffer :: "CommandResult list"

record router =
  pending :: "(string, nat) fmap"
  chans :: "(nat, result_chan) fmap"
  next_chan :: nat

definition new_router :: router where
  "new_router = \<lparr>pending = fmempty, chans = fmempty, next_chan = 0\<rparr>"

text \<open>\<open>make(chan *CommandResult, 1)\<close> stored under the command id.\<close>

definition make_chan :: "router \<Rightarrow> string \<Rightarrow> nat \<times> router" where
  "make_chan rt commandID =
     (next_chan rt, rt\<lparr>pending := fmupd commandID (next_chan rt) (pending rt),
        chans := fmupd (next_chan rt) \<lparr>ch_command = commandID, ch_buffer = []\<rparr> (chans rt),
        next_chan := Suc (next_chan rt)\<rparr>)"

text \<open>The look-up at the start of \<open>sendCommand\<close> and of \<open>waitForResult\<close>.\<close>

definition pending_chan :: "router \<Rightarrow> string \<Rightarrow> nat \<times> router" where
  "pending_chan rt commandID =
     (case fmlookup (pending rt) commandID of
        Some ch \<Rightarrow> (ch, rt)
      | None \<Rightarrow> make_chan rt commandID)"

definition delete_pending :: "router \<Rightarrow> string \<Rightarrow> router" where
  "delete_pending rt commandID = rt\<lparr>pending := fmdrop commandID (pending rt)\<rparr>"

text \<open>The non-blocking send of a handler.\<close>

definition offer :: "router \<Rightarrow> nat \<Rightarrow> CommandResult \<Rightarrow> bool \<times> router" where
  "offer rt ch result =
     (case fmlookup (chans rt) ch of
        None \<Rightarrow> (False, rt)
      | Some c \<Rightarrow>
          if ch_buffer c = [] then (True, rt\<lparr>chans := fmupd ch (c\<lparr>ch_buffer := [result]\<rparr>) (chans rt)\<rparr>)
          else (False, rt))"

definition stamped :: "go_time \<Rightarrow> CommandResult \<Rightarrow> CommandResult" where
  "stamped now result =
     result\<lparr>res_Timestamp := (if time_is_zero (res_Timestamp result) then now else res_Timestamp result)\<rparr>"

text \<open>\<open>HandleCommandResult\<close> when nothing happens between its look-up and its send.\<close>

definition HandleCommandResult :: "go_time \<Rightarrow> router \<Rightarrow> CommandResult \<Rightarrow> bool \<times> router" where
  "HandleCommandResult now rt result =
     (if res_CommandID result = [] then (False, rt)
      else case fmlookup (pending rt) (res_CommandID result) of
          None \<Rightarrow> (False, rt)
        | Some ch \<Rightarrow> offer rt ch (stamped now result))"

text \<open>A nil envelope is \<open>None\<close>.\<close>

definition HandleCommandResultEnvelope :: "(string \<Rightarrow> CommandResult go_result) \<Rightarrow> go_time \<Rightarrow> router
    \<Rightarrow> Envelope option \<Rightarrow> go_error option \<times> router" where
  "HandleCommandResultEnvelope unmarshal now rt env =
     (case env of
        None \<Rightarrow> (Some (Errorf ''nil command result envelope''), rt)
      | Some env \<Rightarrow>
          (case unmarshal (env_Payload env) of
             Inl err \<Rightarrow> (Some (Wrapf ''unmarshal command result envelope: '' err), rt)
           | Inr result0 \<Rightarrow>
               let result = (if res_CommandID result0 = [] then result0\<lparr>res_CommandID := env_RequestID env\<rparr> else result0)
               in (None, snd (HandleCommandResult now rt result))))"

section \<open>Interleaved callers and handlers\<close>

datatype caller = Sending string | Waiting string nat | Returned string CommandResult | SendFailed string

text \<open>\<open>deliveries\<close> are the handlers between their look-up and their send; \<open>arrived\<close> is the history of
  the results handed to \<open>HandleCommandResult\<close>, with their timestamps filled in.\<close>

record routing =
  rt :: router
  callers :: "(nat, caller) fmap"
  deliveries :: "(nat \<times> CommandResult) list"
  arrived :: "CommandResult set"

definition routing_start :: routing where
  "routing_start = \<lparr>rt = new_router, callers = fmempty, deliveries = [], arrived = {}\<rparr>"

inductive routing_step :: "dispatch_env \<Rightarrow> routing \<Rightarrow> routing \<Rightarrow> bool" for env where
  call: "fmlookup (callers s) t = None \<Longrightarrow> pending_chan (rt s) i = (ch, rt') \<Longrightarrow>
    routing_step env s (s\<lparr>rt := rt', callers := fmupd t (Sending i) (callers s)\<rparr>)"
| send_ok: "fmlookup (callers s) t = Some (Sending i) \<Longrightarrow> pending_chan (rt s) i = (ch, rt') \<Longrightarrow>
    routing_step env s (s\<lparr>rt := rt', callers := fmupd t (Waiting i ch) (callers s)\<rparr>)"
| send_error: "fmlookup (callers s) t = Some (Sending i) \<Longrightarrow>
    routing_step env s (s\<lparr>rt := delete_pending (rt s) i, callers := fmupd t (SendFailed i) (callers s)\<rparr>)"
| receive: "fmlookup (callers s) t = Some (Waiting i ch) \<Longrightarrow> fmlookup (chans (rt s)) ch = Some c \<Longrightarrow>
    ch_buffer c = r # rest \<Longrightarrow>
    routing_step env s (s\<lparr>rt := delete_pending ((rt s)\<lparr>chans := fmupd ch (c\<lparr>ch_buffer := rest\<rparr>) (chans (rt s))\<rparr>) i,
      callers := fmupd t (Returned i r) (callers s)\<rparr>)"
| timeout: "fmlookup (callers s) t = Some (Waiting i ch) \<Longrightarrow>
    waitForResult env now i timeout TimerFired = Inr r \<Longrightarrow>
    routing_step env s (s\<lparr>rt := delete_pending (rt s) i, callers := fmupd t (Returned i r) (callers s)\<rparr>)"
| look_up: "res_CommandID r \<noteq> [] \<Longrightarrow> fmlookup (pending (rt s)) (res_CommandID r) = Some ch \<Longrightarrow>
    routing_step env s (s\<lparr>deliveries := deliveries s @ [(ch, stamped now r)],
      arrived := insert (stamped now r) (arrived s)\<rparr>)"
| no_waiter: "res_CommandID r = [] \<or> fmlookup (pending (rt s)) (res_CommandID r) = None \<Longrightarrow>
    routing_step env s (s\<lparr>arrived := insert (stamped now r) (arrived s)\<rparr>)"
| deliver: "deliveries s = ds @ (ch, r) # ds' \<Longrightarrow>
    routing_step env s (s\<lparr>deliveries := ds @ ds', rt := snd (offer (rt s) ch r)\<rparr>)"

inductive routing_reachable :: "dispatch_env \<Rightarrow> routing \<Rightarrow> bool" for env where
  start: "routing_reachable env routing_start"
| step: "routing_reachable env s \<Longrightarrow> routing_step env s s' \<Longrightarrow> routing_reachable env s'"

section \<open>The invariant\<close>

definition chan_for :: "router \<Rightarrow> nat \<Rightarrow> string \<Rightarrow> bool" where
  "chan_for r ch i \<longleftrightarrow> (\<exists>c. fmlookup (chans r) ch = Some c \<and> ch_command c = i)"

definition caller_ok :: "CommandResult set \<Rightarrow> router \<Rightarrow> caller \<Rightarrow> bool" where
  "caller_ok seen r x = (case x of
      Waiting i ch \<Rightarrow> chan_for r ch i
    | Returned i res \<Rightarrow> res_CommandID res = i \<and> (res \<in> seen \<or> res_Status res = CommandStatusTimeout)
    | _ \<Rightarrow> True)"

text \<open>Some caller is sending the command or waiting for its result.\<close>

fun works_on :: "caller \<Rightarrow> string \<Rightarrow> bool" where
  "works_on (Sending j) i \<longleftrightarrow> j = i"
| "works_on (Waiting j ch) i \<longleftrightarrow> j = i"
| "works_on _ i \<longleftrightarrow> False"

definition active :: "(nat, caller) fmap \<Rightarrow> string \<Rightarrow> bool" where
  "active m i \<longleftrightarrow> (\<exists>t x. fmlookup m t = Some x \<and> works_on x i)"

definition routing_inv :: "routing \<Rightarrow> bool" where
  "routing_inv s \<longleftrightarrow>
     (\<forall>i ch. fmlookup (pending (rt s)) i = Some ch \<longrightarrow> chan_for (rt s) ch i \<and> active (callers s) i) \<and>
     (\<forall>ch c. fmlookup (chans (rt s)) ch = Some c \<longrightarrow> ch < next_chan (rt s) \<and> length (ch_buffer c) \<le> 1 \<and>
        (\<forall>r \<in> set (ch_buffer c). res_CommandID r = ch_command c \<and> r \<in> arrived s)) \<and>
     (\<forall>(ch, r) \<in> set (deliveries s). chan_for (rt s) ch (res_CommandID r) \<and> r \<in> arrived s) \<and>
     (\<forall>t x. fmlookup (callers s) t = Some x \<longrightarrow> caller_ok (arrived s) (rt s) x)"

lemma chan_for_make: "chan_for r ch i \<Longrightarrow> ch < next_chan r \<Longrightarrow> chan_for (snd (make_chan r j)) ch i"
  by (auto simp: chan_for_def make_chan_def)

lemma pending_chan_cases:
  assumes "pending_chan r i = (ch, r')"
  obtains (old) "r' = r" "fmlookup (pending r) i = Some ch"
  | (new) "fmlookup (pending r) i = None" "ch = next_chan r" "r' = snd (make_chan r i)"
  using assms by (auto simp: pending_chan_def make_chan_def split: option.splits)

lemma routing_invD:
  assumes "routing_inv s"
  shows "fmlookup (pending (rt s)) i = Some ch \<Longrightarrow> chan_for (rt s) ch i"
    and "fmlookup (pending (rt s)) i = Some ch \<Longrightarrow> active (callers s) i"
    and "fmlookup (chans (rt s)) ch = Some c \<Longrightarrow> ch < next_chan (rt s)"
    and "fmlookup (chans (rt s)) ch = Some c \<Longrightarrow> length (ch_buffer c) \<le> 1"
    and "fmlookup (chans (rt s)) ch = Some c \<Longrightarrow> r \<in> set (ch_buffer c) \<Longrightarrow> res_CommandID r = ch_command c"
    and "fmlookup (chans (rt s)) ch = Some c \<Longrightarrow> r \<in> set (ch_buffer c) \<Longrightarrow> r \<in> arrived s"
    and "(ch, r) \<in> set (deliveries s) \<Longrightarrow> chan_for (rt s) ch (res_CommandID r)"
    and "(ch, r) \<in> set (deliveries s) \<Longrightarrow> r \<in> arrived s"
    and "fmlookup (callers s) t = Some x \<Longrightarrow> caller_ok (arrived s) (rt s) x"
  using assms by (auto simp: routing_inv_def)

text \<open>Steps that only add channels, and steps that only remove pending entries.\<close>

definition chans_grow :: "router \<Rightarrow> router \<Rightarrow> bool" where
  "chans_grow r r' \<longleftrightarrow> (\<forall>ch i. chan_for r ch i \<longrightarrow> chan_for r' ch i)"

lemma caller_ok_mono:
  "caller_ok seen r x \<Longrightarrow> chans_grow r r' \<Longrightarrow> seen \<subseteq> seen' \<Longrightarrow> caller_ok seen' r' x"
  by (auto simp: caller_ok_def chans_grow_def split: caller.splits)

lemma chans_grow_refl [simp]: "chans_grow r r" "chans_grow r (delete_pending r i)"
  by (auto simp: chans_grow_def chan_for_def delete_pending_def)

lemma chans_grow_buffer:
  "fmlookup (chans r) ch = Some c \<Longrightarrow> chans_grow r (r\<lparr>chans := fmupd ch (c\<lparr>ch_buffer := b\<rparr>) (chans r)\<rparr>)"
  by (auto simp: chans_grow_def chan_for_def)

lemma active_upd:
  assumes "active m i" and "\<And>y. fmlookup m t = Some y \<Longrightarrow> works_on y i \<Longrightarrow> works_on x i"
  shows "active (fmupd t x m) i"
proof -
  obtain t' y where "fmlookup m t' = Some y" "works_on y i" using assms(1) by (auto simp: active_def)
  with assms(2) show ?thesis
    unfolding active_def by (cases "t' = t") (auto intro: exI [of _ t'] exI [of _ t])
qed

lemma active_new: "works_on x i \<Longrightarrow> active (fmupd t x m) i"
  by (auto simp: active_def)

lemma inv_pending_chan:
  assumes inv: "routing_inv s" and pc: "pending_chan (rt s) i = (ch, r')"
    and t: "fmlookup (callers s) t = None \<or> fmlookup (callers s) t = Some (Sending i)"
    and x: "x = Sending i \<or> x = Waiting i ch"
  shows "routing_inv (s\<lparr>rt := r', callers := fmupd t x (callers s)\<rparr>)"
  using pc
proof (cases rule: pending_chan_cases)
  case old
  have act: "active (fmupd t x (callers s)) j" if "active (callers s) j" for j
    using active_upd [OF that, of t x] t x by auto
  have "caller_ok (arrived s) (rt s) x"
    using x routing_invD(1) [OF inv old(2)] by (auto simp: caller_ok_def)
  then show ?thesis using inv old act by (auto simp: routing_inv_def)
next
  case new
  have act: "active (fmupd t x (callers s)) j" if "active (callers s) j \<or> j = i" for j
    using that active_upd [of "callers s" j t x] active_new [of x i t] t x by auto
  have grow: "chans_grow (rt s) r'"
    using inv new by (auto simp: chans_grow_def chan_for_def make_chan_def dest: routing_invD(3))
  have "chan_for r' ch i" using new by (simp add: chan_for_def make_chan_def)
  then have "caller_ok (arrived s) r' x" using x by (auto simp: caller_ok_def)
  moreover have "caller_ok (arrived s) r' y" if "fmlookup (callers s) u = Some y" for u y
    by (rule caller_ok_mono [OF routing_invD(9) [OF inv that] grow]) simp
  moreover have "chan_for r' c (res_CommandID r)" if "(c, r) \<in> set (deliveries s)" for c r
    using routing_invD(7) [OF inv that] grow by (auto simp: chans_grow_def)
  moreover have "chan_for r' c j \<and> active (fmupd t x (callers s)) j" if "fmlookup (pending r') j = Some c" for c j
    using that \<open>chan_for r' ch i\<close> act routing_invD(1,2) [OF inv] grow new
    by (auto simp: chans_grow_def make_chan_def split: if_splits)
  ultimately show ?thesis
    using routing_invD(3-6,8) [OF inv] new
    by (auto simp: routing_inv_def make_chan_def less_Suc_eq split: if_splits)
qed

lemma inv_leave:
  assumes inv: "routing_inv s" and t: "fmlookup (callers s) t = Some y" "works_on y i"
    and x: "caller_ok (arrived s) (rt s) x"
  shows "routing_inv (s\<lparr>rt := delete_pending (rt s) i, callers := fmupd t x (callers s)\<rparr>)"
proof -
  have act: "active (fmupd t x (callers s)) j" if "active (callers s) j" "j \<noteq> i" for j
    using active_upd [OF that(1), of t x] t that(2) by (cases y) auto
  have "caller_ok (arrived s) (delete_pending (rt s) i) z" if "caller_ok (arrived s) (rt s) z" for z
    by (rule caller_ok_mono [OF that]) simp_all
  moreover have "chan_for (delete_pending r j) = chan_for r" for r j
    by (auto simp: chan_for_def delete_pending_def fun_eq_iff)
  ultimately show ?thesis
    using inv act x by (auto simp: routing_inv_def delete_pending_def split: if_splits)
qed

lemma inv_buffer:
  assumes inv: "routing_inv s" and c: "fmlookup (chans (rt s)) ch = Some c"
    and b: "length b \<le> 1" "\<And>r. r \<in> set b \<Longrightarrow> res_CommandID r = ch_command c \<and> r \<in> arrived s"
  shows "routing_inv (s\<lparr>rt := (rt s)\<lparr>chans := fmupd ch (c\<lparr>ch_buffer := b\<rparr>) (chans (rt s))\<rparr>\<rparr>)"
proof -
  let ?r = "(rt s)\<lparr>chans := fmupd ch (c\<lparr>ch_buffer := b\<rparr>) (chans (rt s))\<rparr>"
  have same: "chan_for ?r = chan_for (rt s)" using c by (auto simp: chan_for_def fun_eq_iff)
  have "caller_ok (arrived s) ?r z = caller_ok (arrived s) (rt s) z" for z
    by (auto simp: caller_ok_def same split: caller.splits)
  then show ?thesis
    using inv b routing_invD(3) [OF inv c] by (auto simp: routing_inv_def same split: if_splits)
qed

lemma caller_ok_more: "caller_ok seen r x \<Longrightarrow> caller_ok (insert y seen) r x"
  by (auto simp: caller_ok_def split: caller.splits)

lemma stamped_id [simp]: "res_CommandID (stamped now r) = res_CommandID r"
  by (simp add: stamped_def)

lemma routing_step_inv: "routing_step env s s' \<Longrightarrow> routing_inv s \<Longrightarrow> routing_inv s'"
proof (induction rule: routing_step.induct)
  case (call s t i ch rt')
  then show ?case by (intro inv_pending_chan) auto
next
  case (send_ok s t i ch rt')
  then show ?case by (intro inv_pending_chan) auto
next
  case (send_error s t i)
  then show ?case by (intro inv_leave) (auto simp: caller_ok_def)
next
  case (receive s t i ch c r rest)
  let ?s = "s\<lparr>rt := (rt s)\<lparr>chans := fmupd ch (c\<lparr>ch_buffer := rest\<rparr>) (chans (rt s))\<rparr>\<rparr>"
  have len: "length (ch_buffer c) \<le> 1" and mem: "\<And>x. x \<in> set (ch_buffer c) \<Longrightarrow> res_CommandID x = ch_command c \<and> x \<in> arrived s"
    using routing_invD(4-6) [OF receive(4) receive(2)] by auto
  have "routing_inv ?s" using receive(3) len mem by (intro inv_buffer [OF receive(4,2)]) auto
  moreover have "ch_command c = i"
    using routing_invD(9) [OF receive(4,1)] receive(2) by (auto simp: caller_ok_def chan_for_def)
  then have "caller_ok (arrived s) (rt s) (Returned i r)" using receive(3) mem by (simp add: caller_ok_def)
  ultimately show ?case using receive(1) inv_leave [of ?s t "Waiting i ch" i "Returned i r"]
    by (simp add: caller_ok_def)
next
  case (timeout s t i ch now timeout r)
  then show ?case by (intro inv_leave) (auto simp: caller_ok_def waitForResult_def)
next
  case (look_up r s ch now)
  then show ?case using routing_invD(1) [OF look_up(3,2)]
    by (auto simp: routing_inv_def intro: caller_ok_more)
next
  case (no_waiter r s now)
  then show ?case by (auto simp: routing_inv_def intro: caller_ok_more)
next
  case (deliver s ds ch r ds')
  have del: "routing_inv (s\<lparr>deliveries := ds @ ds'\<rparr>)" using deliver by (auto simp: routing_inv_def)
  have r: "r \<in> arrived s" "chan_for (rt s) ch (res_CommandID r)"
    using routing_invD(7,8) [OF deliver(2), of ch r] deliver(1) by auto
  then obtain c where c: "fmlookup (chans (rt s)) ch = Some c" "ch_command c = res_CommandID r"
    by (auto simp: chan_for_def)
  show ?case
    using inv_buffer [OF del, of ch c "[r]"] r c del by (auto simp: offer_def)
qed

lemma routing_reachable_inv: "routing_reachable env s \<Longrightarrow> routing_inv s"
proof (induction rule: routing_reachable.induct)
  case start
  show ?case by (simp add: routing_inv_def routing_start_def new_router_def)
qed (rule routing_step_inv)

section \<open>Properties of the routing\<close>

text \<open>
  C5. Results are never mixed up: in every interleaving of callers, results and timers, a caller
  that returns gets a result with its own command id, and that result either arrived for this id
  or is the caller's timeout.
\<close>
theorem results_routed_to_their_command:
  assumes "routing_reachable env s" and "fmlookup (callers s) t = Some (Returned i r)"
  shows "res_CommandID r = i \<and> (r \<in> arrived s \<or> res_Status r = CommandStatusTimeout)"
  using routing_invD(9) [OF routing_reachable_inv [OF assms(1)] assms(2)] by (simp add: caller_ok_def)

text \<open>
  C6. Nothing leaks: whenever no caller is sending or waiting, the pending map is empty, whatever
  mixture of results, timeouts, send errors and reused command ids led there; and no channel ever
  holds more than one result, so a handler never blocks.
\<close>
theorem pending_map_does_not_leak:
  assumes "routing_reachable env s" and "\<forall>t x. fmlookup (callers s) t = Some x \<longrightarrow> (\<forall>i. \<not> works_on x i)"
  shows "pending (rt s) = fmempty \<and>
    (\<forall>ch c. fmlookup (chans (rt s)) ch = Some c \<longrightarrow> length (ch_buffer c) \<le> 1)"
proof -
  note inv = routing_reachable_inv [OF assms(1)]
  have "fmlookup (pending (rt s)) i = None" for i
    using routing_invD(2) [OF inv, of i] assms(2) by (cases "fmlookup (pending (rt s)) i") (auto simp: active_def)
  then show ?thesis using routing_invD(4) [OF inv] by (auto intro!: fmap_ext)
qed

definition demo_result :: CommandResult where
  "demo_result = \<lparr>res_CommandID = ''c'', res_Status = ''success'', res_Output = [], res_Error = [], res_Timestamp = 7\<rparr>"

definition demo_chan :: "CommandResult list \<Rightarrow> router" where
  "demo_chan b = \<lparr>pending = fmupd ''c'' 0 fmempty, chans = fmupd 0 \<lparr>ch_command = ''c'', ch_buffer = b\<rparr> fmempty,
     next_chan = 1\<rparr>"

definition demo_returned :: routing where
  "demo_returned = \<lparr>rt = delete_pending (demo_chan []) ''c'', callers = fmupd 0 (Returned ''c'' demo_result) fmempty,
     deliveries = [], arrived = {demo_result}\<rparr>"

lemma demo_returned_reachable: "routing_reachable env demo_returned"
proof -
  let ?m = "\<lambda>x. fmupd (0 :: nat) x fmempty"
  let ?s1 = "\<lparr>rt = demo_chan [], callers = ?m (Sending ''c''), deliveries = [], arrived = {}\<rparr>"
  let ?s2 = "?s1\<lparr>callers := ?m (Waiting ''c'' 0)\<rparr>"
  let ?s3 = "?s2\<lparr>deliveries := [(0, demo_result)], arrived := {demo_result}\<rparr>"
  let ?s4 = "?s3\<lparr>rt := demo_chan [demo_result], deliveries := []\<rparr>"
  have 1: "routing_step env routing_start ?s1"
    using routing_step.call [of routing_start 0 "''c''" 0 "demo_chan []" env]
    by (simp add: routing_start_def new_router_def pending_chan_def make_chan_def demo_chan_def)
  have 2: "routing_step env ?s1 ?s2"
    using routing_step.send_ok [of ?s1 0 "''c''" 0 "demo_chan []" env] by (simp add: pending_chan_def demo_chan_def)
  have 3: "routing_step env ?s2 ?s3"
    using routing_step.look_up [of demo_result ?s2 0 env 1]
    by (simp add: demo_chan_def demo_result_def stamped_def time_is_zero_def)
  have 4: "routing_step env ?s3 ?s4"
    using routing_step.deliver [of ?s3 "[]" 0 demo_result "[]" env] by (simp add: offer_def demo_chan_def)
  have 5: "routing_step env ?s4 demo_returned"
    using routing_step.receive [of ?s4 0 "''c''" 0 "\<lparr>ch_command = ''c'', ch_buffer = [demo_result]\<rparr>" demo_result "[]" env]
    by (simp add: demo_chan_def demo_returned_def)
  note run = routing_reachable.step [OF routing_reachable.step [OF routing_reachable.start 1] 2]
  show ?thesis by (rule routing_reachable.step [OF routing_reachable.step [OF routing_reachable.step [OF run 3] 4] 5])
qed

lemma results_routed_to_their_command_witness:
  "res_CommandID demo_result = ''c'' \<and> (demo_result \<in> arrived demo_returned \<or> res_Status demo_result = CommandStatusTimeout)"
  by (rule results_routed_to_their_command [OF demo_returned_reachable]) (simp add: demo_returned_def)

lemma pending_map_does_not_leak_witness:
  "pending (rt demo_returned) = fmempty"
  using pending_map_does_not_leak [OF demo_returned_reachable] by (simp add: demo_returned_def)

text \<open>
  The first result wins: \<open>HandleCommandResult\<close> answers true exactly when the command id has a
  pending channel that is still empty; then the channel holds this result, and a further result for
  the same id is refused and changes nothing until the first one has been taken.
\<close>
theorem first_result_wins:
  assumes "HandleCommandResult now r res = (ok, r')" and "res_CommandID res \<noteq> []"
  shows "(ok \<longleftrightarrow> (\<exists>ch c. fmlookup (pending r) (res_CommandID res) = Some ch \<and>
        fmlookup (chans r) ch = Some c \<and> ch_buffer c = [])) \<and>
    (\<not> ok \<longrightarrow> r' = r) \<and>
    (ok \<longrightarrow> (\<exists>ch c. fmlookup (pending r') (res_CommandID res) = Some ch \<and>
        fmlookup (chans r') ch = Some c \<and> ch_buffer c = [stamped now res]) \<and>
      (\<forall>now' res'. res_CommandID res' = res_CommandID res \<longrightarrow> HandleCommandResult now' r' res' = (False, r')))"
proof (cases "fmlookup (pending r) (res_CommandID res)")
  case None
  with assms show ?thesis by (simp add: HandleCommandResult_def)
next
  case (Some ch)
  show ?thesis
  proof (cases "fmlookup (chans r) ch")
    case None
    with assms Some show ?thesis by (simp add: HandleCommandResult_def offer_def)
  next
    case (Some c)
    with assms \<open>fmlookup (pending r) (res_CommandID res) = Some ch\<close> show ?thesis
      by (cases "ch_buffer c") (auto simp: HandleCommandResult_def offer_def)
  qed
qed

end
