(* ===== verification/Supervisor_Config.thy ===== *)
theory Supervisor_Config
  imports Security
begin

text \<open>
  \<open>internal/config/supervisor.go\<close> and \<open>internal/config/agent.go\<close>: the configuration structs, their
  defaults and their validation. Reading the file and \<open>json.Unmarshal\<close> are arguments of the two
  load functions.
\<close>

section \<open>Structs\<close>

type_synonym env_map = "(string, string) fmap"

record ServerConfig =
  Port :: int
  HTTPPort :: int
  AuthToken :: string
  HeartbeatIntervalSec :: int
  HeartbeatTimeoutCount :: int
  AllowedOrigins :: "string list"

record ModelRate =
  rate_Input :: rat
  rate_Output :: rat

record CostProviderConfig =
  APIKey :: string
  provider_Enabled :: "bool option"
  ModelRates :: "(string, ModelRate) fmap"
  BaseURL :: string
  AdminAPIKey :: string
  OrgAPIKey :: string

record CostConfig =
  PollIntervalMinutes :: int
  Anthropic :: CostProviderConfig
  OpenAI :: CostProviderConfig
  RequestTimeoutSec :: int
  cost_MaxRetries :: int
  BackoffBaseMS :: int

record IdlePolicyConfig =
  idle_Enabled :: bool
  IdleThresholdSec :: int
  idle_MaxRetries :: int
  idle_RetryResetSeconds :: int

record CompactionPolicyConfig =
  compaction_Enabled :: bool
  TokenThreshold :: int
  compaction_MaxRetries :: int
  compaction_RetryResetSeconds :: int

record CostPolicyConfig =
  kill_Enabled :: bool
  CostThresholdUSD :: rat
  kill_MaxRetries :: int
  kill_RetryResetSeconds :: int

record PolicyConfig =
  ResumeOnIdle :: IdlePolicyConfig
  RestartOnCompaction :: CompactionPolicyConfig
  KillOnCost :: CostPolicyConfig
  CheckIntervalSec :: int

record TLSConfig =
  tls_Enabled :: bool
  CertPath :: string
  KeyPath :: string

record SecurityConfig =
  TLS :: TLSConfig
  OriginAllowlist :: "string list"
  rotation_Enabled :: bool
  CheckIntervalSeconds :: int
  audit_Enabled :: bool
  RetentionDays :: int

record CredentialDistributionConfig =
  cred_Version :: int
  cred_Defaults :: env_map
  cred_Agents :: "(string, env_map) fmap"

record ChannelsConfig =
  discord_BotToken :: string
  discord_GuildID :: string
  discord_Alerts :: string
  discord_DevLog :: string
  discord_BuildLog :: string
  slack_BotToken :: string
  slack_Alerts :: string
  slack_DevLog :: string
  n8n_WebhookURL :: string

record SupervisorConfig =
  Server :: ServerConfig
  Channels :: ChannelsConfig
  Database_Path :: string
  Cost :: CostConfig
  Routes :: "go_value list"
  Policies :: PolicyConfig
  Dependencies :: go_value
  Security :: SecurityConfig
  Credentials :: CredentialDistributionConfig

section \<open>Defaults\<close>

definition positive_or :: "'a :: linordered_idom \<Rightarrow> 'a \<Rightarrow> 'a" where
  "positive_or def v = (if v \<le> 0 then def else v)"

definition applyPolicyDefaults :: "PolicyConfig \<Rightarrow> PolicyConfig" where
  "applyPolicyDefaults p = \<lparr>
     ResumeOnIdle = (ResumeOnIdle p)\<lparr>
       IdleThresholdSec := positive_or 300 (IdleThresholdSec (ResumeOnIdle p)),
       idle_MaxRetries := positive_or 3 (idle_MaxRetries (ResumeOnIdle p)),
       idle_RetryResetSeconds := positive_or 3600 (idle_RetryResetSeconds (ResumeOnIdle p))\<rparr>,
     RestartOnCompaction = (RestartOnCompaction p)\<lparr>
       TokenThreshold := positive_or 180000 (TokenThreshold (RestartOnCompaction p)),
       compaction_MaxRetries := positive_or 2 (compaction_MaxRetries (RestartOnCompaction p)),
       compaction_RetryResetSeconds := positive_or 3600 (compaction_RetryResetSeconds (RestartOnCompaction p))\<rparr>,
     KillOnCost = (KillOnCost p)\<lparr>
       CostThresholdUSD := positive_or 10 (CostThresholdUSD (KillOnCost p)),
       kill_MaxRetries := positive_or 1 (kill_MaxRetries (KillOnCost p)),
       kill_RetryResetSeconds := positive_or 86400 (kill_RetryResetSeconds (KillOnCost p))\<rparr>,
     CheckIntervalSec = positive_or 30 (CheckIntervalSec p)\<rparr>"

definition applySecurityDefaults :: "SecurityConfig \<Rightarrow> SecurityConfig" where
  "applySecurityDefaults s = s\<lparr>CheckIntervalSeconds := positive_or 300 (CheckIntervalSeconds s),
     RetentionDays := positive_or 90 (RetentionDays s)\<rparr>"

definition applyCostDefaults :: "CostConfig \<Rightarrow> CostConfig" where
  "applyCostDefaults c = c\<lparr>PollIntervalMinutes := positive_or 60 (PollIntervalMinutes c),
     RequestTimeoutSec := positive_or 15 (RequestTimeoutSec c),
     cost_MaxRetries := positive_or 3 (cost_MaxRetries c),
     BackoffBaseMS := positive_or 500 (BackoffBaseMS c)\<rparr>"

section \<open>Validation\<close>

definition EffectiveAPIKey :: "CostProviderConfig \<Rightarrow> string" where
  "EffectiveAPIKey p =
     (if APIKey p \<noteq> [] then APIKey p else if AdminAPIKey p \<noteq> [] then AdminAPIKey p else OrgAPIKey p)"

definition IsEnabled :: "CostProviderConfig \<Rightarrow> bool" where
  "IsEnabled p = (case provider_Enabled p of Some b \<Rightarrow> b | None \<Rightarrow> EffectiveAPIKey p \<noteq> [])"

text \<open>A sequence of \<open>if cond \<open>{\<close> return err \<open>}\<close>\<close> statements.\<close>

fun first_error :: "(bool \<times> string) list \<Rightarrow> go_error option" where
  "first_error [] = None"
| "first_error ((bad, m) # cs) = (if bad then Some (Errorf (''validation error: '' @ m)) else first_error cs)"

text \<open>\<open>if err := check; err != nil \<open>{\<close> return err \<open>}\<close>\<close> in front of the rest.\<close>

definition require :: "go_error option \<Rightarrow> 'a go_result \<Rightarrow> 'a go_result" where
  "require check rest = (case check of Some err \<Rightarrow> Inl err | None \<Rightarrow> rest)"

lemma require_Inr: "require c x = Inr y \<longleftrightarrow> c = None \<and> x = Inr y"
  by (simp add: require_def split: option.splits)

definition rate_checks :: "string \<Rightarrow> CostProviderConfig \<Rightarrow> string \<Rightarrow> (bool \<times> string) list" where
  "rate_checks provider cfg model =
     (case fmlookup (ModelRates cfg) model of
        None \<Rightarrow> []
      | Some rates \<Rightarrow>
          [(model = [], ''cost.providers.'' @ provider @ ''.model_rates keys must not be empty''),
           (rate_Input rates < 0 \<or> rate_Output rates < 0,
            ''cost.providers.'' @ provider @ ''.model_rates.'' @ model @ '' rates must be >= 0'')])"

text \<open>\<open>ks\<close> is the visiting order of the model rates.\<close>

definition validateCostProviderConfig :: "string \<Rightarrow> string list \<Rightarrow> CostProviderConfig \<Rightarrow> go_error option" where
  "validateCostProviderConfig provider ks cfg =
     (if \<not> IsEnabled cfg then None
      else if EffectiveAPIKey cfg = []
      then Some (Errorf (''validation error: cost.providers.'' @ provider @ ''.api_key is required when provider is enabled''))
      else first_error (concat (map (rate_checks provider cfg) ks)))"

definition env_checks :: "string \<Rightarrow> string list \<Rightarrow> env_map \<Rightarrow> (bool \<times> string) list" where
  "env_checks pre ks env =
     map (\<lambda>k. (fmlookup env k = Some [], pre @ k @ '' must not be empty'')) ks"

definition validateCredentialDistributionConfig :: "string list \<Rightarrow> string list \<Rightarrow> (string \<Rightarrow> string list)
    \<Rightarrow> CredentialDistributionConfig \<Rightarrow> go_error option" where
  "validateCredentialDistributionConfig ks agents aks cfg =
     first_error
       ((cred_Version cfg < 0, ''credentials.version must be >= 0, got '' @ int_text (cred_Version cfg)) #
        env_checks ''credentials.defaults.env.'' ks (cred_Defaults cfg) @
        concat (map (\<lambda>a. env_checks (''credentials.agents.'' @ a @ ''.env.'') (aks a)
          (map_get (cred_Agents cfg) a fmempty)) agents))"

text \<open>Visiting orders of the maps, and the text of \<open>%f\<close>.\<close>

record config_orders =
  ord_anthropic :: "string list"
  ord_openai :: "string list"
  ord_defaults :: "string list"
  ord_agents :: "string list"
  ord_agent_env :: "string \<Rightarrow> string list"
  float_text :: "rat \<Rightarrow> string"

definition policy_checks :: "(rat \<Rightarrow> string) \<Rightarrow> PolicyConfig \<Rightarrow> (bool \<times> string) list" where
  "policy_checks ft p =
     [(CheckIntervalSec p \<le> 0, ''policies.check_interval_seconds must be positive, got '' @ int_text (CheckIntervalSec p)),
      (IdleThresholdSec (ResumeOnIdle p) \<le> 0, ''policies.resume_on_idle.idle_threshold_seconds must be positive, got '' @
         int_text (IdleThresholdSec (ResumeOnIdle p))),
      (idle_MaxRetries (ResumeOnIdle p) \<le> 0, ''policies.resume_on_idle.max_retries must be positive, got '' @
         int_text (idle_MaxRetries (ResumeOnIdle p))),
      (idle_RetryResetSeconds (ResumeOnIdle p) \<le> 0, ''policies.resume_on_idle.retry_reset_seconds must be positive, got '' @
         int_text (idle_RetryResetSeconds (ResumeOnIdle p))),
      (TokenThreshold (RestartOnCompaction p) \<le> 0, ''policies.restart_on_compaction.token_threshold must be positive, got '' @
         int_text (TokenThreshold (RestartOnCompaction p))),
      (compaction_MaxRetries (RestartOnCompaction p) \<le> 0, ''policies.restart_on_compaction.max_retries must be positive, got '' @
         int_text (compaction_MaxRetries (RestartOnCompaction p))),
      (compaction_RetryResetSeconds (RestartOnCompaction p) \<le> 0, ''policies.restart_on_compaction.retry_reset_seconds must be positive, got '' @
         int_text (compaction_RetryResetSeconds (RestartOnCompaction p))),
      (CostThresholdUSD (KillOnCost p) \<le> 0, ''policies.kill_on_cost.cost_threshold_usd must be positive, got '' @
         ft (CostThresholdUSD (KillOnCost p))),
      (kill_MaxRetries (KillOnCost p) \<le> 0, ''policies.kill_on_cost.max_retries must be positive, got '' @
         int_text (kill_MaxRetries (KillOnCost p))),
      (kill_RetryResetSeconds (KillOnCost p) \<le> 0, ''policies.kill_on_cost.retry_reset_seconds must be positive, got '' @
         int_text (kill_RetryResetSeconds (KillOnCost p)))]"

definition server_checks :: "ServerConfig \<Rightarrow> (bool \<times> string) list" where
  "server_checks s =
     [(Port s \<le> 0 \<or> Port s > 65535, ''server.port must be between 1 and 65535, got '' @ int_text (Port s)),
      (HTTPPort s < 0 \<or> HTTPPort s > 65535, ''server.http_port must be between 0 and 65535, got '' @ int_text (HTTPPort s)),
      (AuthToken s = [], ''server.auth_token is required''),
      (HeartbeatIntervalSec s \<le> 0, ''server.heartbeat_interval_sec must be positive, got '' @ int_text (HeartbeatIntervalSec s)),
      (HeartbeatTimeoutCount s \<le> 0, ''server.heartbeat_timeout_count must be positive, got '' @ int_text (HeartbeatTimeoutCount s))]"

definition tls_checks :: "TLSConfig \<Rightarrow> (bool \<times> string) list" where
  "tls_checks t =
     [(tls_Enabled t \<and> CertPath t = [], ''security.tls.cert_path is required when TLS is enabled''),
      (tls_Enabled t \<and> KeyPath t = [], ''security.tls.key_path is required when TLS is enabled'')]"

text \<open>The defaults are written into the configuration on the way; the default database path is set
  between the third and the fourth server check, which do not read it.\<close>

definition validateSupervisorConfig :: "config_orders \<Rightarrow> SupervisorConfig \<Rightarrow> SupervisorConfig go_result" where
  "validateSupervisorConfig ord cfg0 =
     require (first_error (server_checks (Server cfg0))) (
      let cfg1 = cfg0\<lparr>Database_Path := (if Database_Path cfg0 = [] then ''./supervisor.db'' else Database_Path cfg0),
                      Cost := applyCostDefaults (Cost cfg0)\<rparr> in
      require (validateCostProviderConfig ''anthropic'' (ord_anthropic ord) (Anthropic (Cost cfg1))) (
      require (validateCostProviderConfig ''openai'' (ord_openai ord) (OpenAI (Cost cfg1))) (
      let cfg2 = cfg1\<lparr>Policies := applyPolicyDefaults (Policies cfg1)\<rparr> in
      require (first_error (policy_checks (float_text ord) (Policies cfg2))) (
      let cfg3 = cfg2\<lparr>Security := applySecurityDefaults (Security cfg2)\<rparr> in
      require (first_error (tls_checks (TLS (Security cfg3)))) (
      require (validateCredentialDistributionConfig (ord_defaults ord) (ord_agents ord) (ord_agent_env ord)
        (Credentials cfg3)) (
      Inr cfg3))))))"

definition LoadSupervisorConfig :: "config_orders \<Rightarrow> string go_result \<Rightarrow> (string \<Rightarrow> SupervisorConfig go_result)
    \<Rightarrow> SupervisorConfig go_result" where
  "LoadSupervisorConfig ord file unmarshal =
     (case file of
        Inl err \<Rightarrow> Inl (Wrapf ''failed to read config file: '' err)
      | Inr data \<Rightarrow>
          (case unmarshal data of
             Inl err \<Rightarrow> Inl (Wrapf ''failed to parse config: '' err)
           | Inr cfg \<Rightarrow> validateSupervisorConfig ord cfg))"

section \<open>The agent's configuration\<close>

record ProjectConfig =
  proj_Name :: string
  proj_Directory :: string

record ToolPathsConfig =
  path_Opencode :: string
  path_Claude :: string
  path_Codex :: string

record AgentConfig =
  SupervisorURL :: string
  agent_AuthToken :: string
  OpencodePort :: int
  AuthReportIntervalSec :: int
  ToolPaths :: ToolPathsConfig
  Projects :: "ProjectConfig list"

definition project_checks :: "nat \<Rightarrow> ProjectConfig \<Rightarrow> (bool \<times> string) list" where
  "project_checks i p =
     [(proj_Name p = [], ''projects['' @ nat_text i @ ''].name is required''),
      (proj_Directory p = [], ''projects['' @ nat_text i @ ''].directory is required'')]"

definition validateAgentConfig :: "AgentConfig \<Rightarrow> AgentConfig go_result" where
  "validateAgentConfig cfg0 =
     (let cfg = cfg0\<lparr>AuthReportIntervalSec := positive_or 30 (AuthReportIntervalSec cfg0)\<rparr>
      in require (first_error
           ([(SupervisorURL cfg = [], ''supervisor_url is required''),
             (agent_AuthToken cfg = [], ''auth_token is required''),
             (OpencodePort cfg \<le> 0 \<or> OpencodePort cfg > 65535,
              ''opencode_port must be between 1 and 65535, got '' @ int_text (OpencodePort cfg))] @
            concat (map (\<lambda>(i, p). project_checks i p) (enumerate 0 (Projects cfg))))) (Inr cfg))"

section \<open>What validation accepts\<close>

lemma first_error_None: "first_error cs = None \<longleftrightarrow> (\<forall>c \<in> set cs. \<not> fst c)"
  by (induction cs rule: first_error.induct) auto

definition server_ok :: "ServerConfig \<Rightarrow> bool" where
  "server_ok s \<longleftrightarrow> 1 \<le> Port s \<and> Port s \<le> 65535 \<and> 0 \<le> HTTPPort s \<and> HTTPPort s \<le> 65535 \<and>
     AuthToken s \<noteq> [] \<and> 0 < HeartbeatIntervalSec s \<and> 0 < HeartbeatTimeoutCount s"

definition provider_ok :: "CostProviderConfig \<Rightarrow> bool" where
  "provider_ok p \<longleftrightarrow> (IsEnabled p \<longrightarrow> EffectiveAPIKey p \<noteq> [] \<and>
     (\<forall>m r. fmlookup (ModelRates p) m = Some r \<longrightarrow> m \<noteq> [] \<and> 0 \<le> rate_Input r \<and> 0 \<le> rate_Output r))"

definition tls_ok :: "TLSConfig \<Rightarrow> bool" where
  "tls_ok t \<longleftrightarrow> (tls_Enabled t \<longrightarrow> CertPath t \<noteq> [] \<and> KeyPath t \<noteq> [])"

definition credentials_ok :: "CredentialDistributionConfig \<Rightarrow> bool" where
  "credentials_ok c \<longleftrightarrow> 0 \<le> cred_Version c \<and> (\<forall>k. fmlookup (cred_Defaults c) k \<noteq> Some []) \<and>
     (\<forall>a m k. fmlookup (cred_Agents c) a = Some m \<longrightarrow> fmlookup m k \<noteq> Some [])"

definition acceptable :: "SupervisorConfig \<Rightarrow> bool" where
  "acceptable cfg \<longleftrightarrow> server_ok (Server cfg) \<and> provider_ok (Anthropic (Cost cfg)) \<and>
     provider_ok (OpenAI (Cost cfg)) \<and> tls_ok (TLS (Security cfg)) \<and> credentials_ok (Credentials cfg)"

text \<open>The orders visit every entry of the maps.\<close>

definition orders_for :: "config_orders \<Rightarrow> SupervisorConfig \<Rightarrow> bool" where
  "orders_for ord cfg \<longleftrightarrow>
     iteration_order (ModelRates (Anthropic (Cost cfg))) (ord_anthropic ord) \<and>
     iteration_order (ModelRates (OpenAI (Cost cfg))) (ord_openai ord) \<and>
     iteration_order (cred_Defaults (Credentials cfg)) (ord_defaults ord) \<and>
     iteration_order (cred_Agents (Credentials cfg)) (ord_agents ord) \<and>
     (\<forall>a m. fmlookup (cred_Agents (Credentials cfg)) a = Some m \<longrightarrow> iteration_order m (ord_agent_env ord a))"

lemma order_mem: "iteration_order m ks \<Longrightarrow> fmlookup m k = Some v \<Longrightarrow> k \<in> set ks"
  by (auto simp: iteration_order_def intro: fmdomI)

lemma server_checks_ok: "first_error (server_checks s) = None \<longleftrightarrow> server_ok s"
  by (auto simp: first_error_None server_checks_def server_ok_def)

lemma provider_checks_ok:
  assumes "iteration_order (ModelRates p) ks"
  shows "validateCostProviderConfig n ks p = None \<longleftrightarrow> provider_ok p"
proof -
  let ?good = "\<lambda>m. \<forall>r. fmlookup (ModelRates p) m = Some r \<longrightarrow> m \<noteq> [] \<and> 0 \<le> rate_Input r \<and> 0 \<le> rate_Output r"
  have "(\<forall>c \<in> set (rate_checks n p m). \<not> fst c) \<longleftrightarrow> ?good m" for m
    by (cases "fmlookup (ModelRates p) m") (simp_all add: rate_checks_def not_less)
  then have "validateCostProviderConfig n ks p = None \<longleftrightarrow>
      (IsEnabled p \<longrightarrow> EffectiveAPIKey p \<noteq> [] \<and> (\<forall>m \<in> set ks. ?good m))"
    by (simp add: validateCostProviderConfig_def first_error_None ball_UN)
  moreover have "(\<forall>m \<in> set ks. ?good m) \<longleftrightarrow> (\<forall>m. ?good m)"
    using order_mem [OF assms] by metis
  ultimately show ?thesis by (simp add: provider_ok_def)
qed

lemma env_checks_ok:
  "iteration_order m ks \<Longrightarrow> (\<forall>c \<in> set (env_checks p ks m). \<not> fst c) \<longleftrightarrow> (\<forall>k. fmlookup m k \<noteq> Some [])"
  by (auto simp: env_checks_def dest: order_mem)

lemma credential_checks_ok:
  assumes "iteration_order (cred_Defaults c) ks" and "iteration_order (cred_Agents c) ags"
    and "\<And>a m. fmlookup (cred_Agents c) a = Some m \<Longrightarrow> iteration_order m (aks a)"
  shows "validateCredentialDistributionConfig ks ags aks c = None \<longleftrightarrow> credentials_ok c"
proof -
  have agent: "(\<forall>x \<in> set (env_checks p (aks a) (map_get (cred_Agents c) a fmempty)). \<not> fst x) \<longleftrightarrow>
      (\<forall>m k. fmlookup (cred_Agents c) a = Some m \<longrightarrow> fmlookup m k \<noteq> Some [])" for p a
  proof (cases "fmlookup (cred_Agents c) a")
    case None
    then show ?thesis by (simp add: map_get_def env_checks_def)
  next
    case (Some m)
    then show ?thesis using env_checks_ok [OF assms(3) [OF Some]] by (simp add: map_get_def)
  qed
  have "validateCredentialDistributionConfig ks ags aks c = None \<longleftrightarrow>
      0 \<le> cred_Version c \<and> (\<forall>k. fmlookup (cred_Defaults c) k \<noteq> Some []) \<and>
      (\<forall>a \<in> set ags. \<forall>m k. fmlookup (cred_Agents c) a = Some m \<longrightarrow> fmlookup m k \<noteq> Some [])"
    unfolding validateCredentialDistributionConfig_def first_error_None
    by (simp add: ball_Un env_checks_ok [OF assms(1)] agent not_less)
  moreover have "(\<forall>a \<in> set ags. \<forall>m k. fmlookup (cred_Agents c) a = Some m \<longrightarrow> fmlookup m k \<noteq> Some []) \<longleftrightarrow>
      (\<forall>a m k. fmlookup (cred_Agents c) a = Some m \<longrightarrow> fmlookup m k \<noteq> Some [])"
    using order_mem [OF assms(2)] by metis
  ultimately show ?thesis by (simp add: credentials_ok_def)
qed

lemma policy_defaults_pass: "first_error (policy_checks ft (applyPolicyDefaults p)) = None"
  by (simp add: first_error_None policy_checks_def applyPolicyDefaults_def positive_or_def)

lemma tls_checks_ok: "first_error (tls_checks t) = None \<longleftrightarrow> tls_ok t"
  by (auto simp: first_error_None tls_checks_def tls_ok_def)

definition with_defaults :: "SupervisorConfig \<Rightarrow> SupervisorConfig" where
  "with_defaults cfg = cfg\<lparr>Database_Path := (if Database_Path cfg = [] then ''./supervisor.db'' else Database_Path cfg),
     Cost := applyCostDefaults (Cost cfg), Policies := applyPolicyDefaults (Policies cfg),
     Security := applySecurityDefaults (Security cfg)\<rparr>"

lemma validate_exact:
  assumes "orders_for ord cfg"
  shows "validateSupervisorConfig ord cfg = Inr cfg' \<longleftrightarrow> acceptable cfg \<and> cfg' = with_defaults cfg"
proof -
  have simps: "Anthropic (applyCostDefaults c) = Anthropic c" "OpenAI (applyCostDefaults c) = OpenAI c"
    "TLS (applySecurityDefaults s) = TLS s" for c s
    by (simp_all add: applyCostDefaults_def applySecurityDefaults_def)
  have checks: "validateCostProviderConfig ''anthropic'' (ord_anthropic ord) (Anthropic (Cost cfg)) = None \<longleftrightarrow>
      provider_ok (Anthropic (Cost cfg))"
    "validateCostProviderConfig ''openai'' (ord_openai ord) (OpenAI (Cost cfg)) = None \<longleftrightarrow>
      provider_ok (OpenAI (Cost cfg))"
    "validateCredentialDistributionConfig (ord_defaults ord) (ord_agents ord) (ord_agent_env ord) (Credentials cfg) = None \<longleftrightarrow>
      credentials_ok (Credentials cfg)"
    using assms by (auto simp: orders_for_def provider_checks_ok credential_checks_ok)
  show ?thesis
    by (auto simp: validateSupervisorConfig_def Let_def acceptable_def with_defaults_def simps checks
        policy_defaults_pass server_checks_ok tls_checks_ok require_Inr)
qed

lemma positive_or_idem [simp]: "0 < d \<Longrightarrow> positive_or d (positive_or d v) = positive_or d v"
  by (simp add: positive_or_def)

text \<open>
  C14. Validation of the supervisor's configuration is exact and stable: it succeeds if and only if
  the ports, token, heartbeat, provider, TLS and credential settings are acceptable; no policy
  setting can ever be rejected, since defaults replace it first; the result is the input with
  the defaults filled in, and validating that again changes nothing.
\<close>
theorem config_validation_exact:
  assumes "orders_for ord cfg"
  shows "((\<exists>cfg'. validateSupervisorConfig ord cfg = Inr cfg') \<longleftrightarrow> acceptable cfg) \<and>
    (\<forall>cfg'. validateSupervisorConfig ord cfg = Inr cfg' \<longrightarrow>
       cfg' = with_defaults cfg \<and> validateSupervisorConfig ord cfg' = Inr cfg')"
proof -
  let ?c = "with_defaults cfg"
  have "orders_for ord ?c" "acceptable ?c = acceptable cfg" "with_defaults ?c = ?c"
    using assms
    by (simp_all add: orders_for_def acceptable_def with_defaults_def applyCostDefaults_def
        applyPolicyDefaults_def applySecurityDefaults_def)
  then show ?thesis
    using validate_exact [OF assms] validate_exact [of ord ?c] by simp
qed

definition demo_provider :: CostProviderConfig where
  "demo_provider = \<lparr>APIKey = [], provider_Enabled = None, ModelRates = fmempty, BaseURL = [], AdminAPIKey = [], OrgAPIKey = []\<rparr>"

definition demo_policies :: PolicyConfig where
  "demo_policies = \<lparr>ResumeOnIdle = \<lparr>idle_Enabled = True, IdleThresholdSec = 0, idle_MaxRetries = -1, idle_RetryResetSeconds = 0\<rparr>,
     RestartOnCompaction = \<lparr>compaction_Enabled = False, TokenThreshold = 5, compaction_MaxRetries = 0, compaction_RetryResetSeconds = 0\<rparr>,
     KillOnCost = \<lparr>kill_Enabled = True, CostThresholdUSD = 0, kill_MaxRetries = 0, kill_RetryResetSeconds = 0\<rparr>,
     CheckIntervalSec = 0\<rparr>"

definition demo_supervisor :: SupervisorConfig where
  "demo_supervisor = \<lparr>Server = \<lparr>Port = 8420, HTTPPort = 0, AuthToken = ''t'', HeartbeatIntervalSec = 30,
       HeartbeatTimeoutCount = 3, AllowedOrigins = []\<rparr>,
     Channels = \<lparr>discord_BotToken = [], discord_GuildID = [], discord_Alerts = [], discord_DevLog = [], discord_BuildLog = [],
       slack_BotToken = [], slack_Alerts = [], slack_DevLog = [], n8n_WebhookURL = []\<rparr>,
     Database_Path = [],
     Cost = \<lparr>PollIntervalMinutes = 0, Anthropic = demo_provider, OpenAI = demo_provider, RequestTimeoutSec = 0,
       cost_MaxRetries = 0, BackoffBaseMS = 0\<rparr>,
     Routes = [], Policies = demo_policies, Dependencies = JNull,
     Security = \<lparr>TLS = \<lparr>tls_Enabled = False, CertPath = [], KeyPath = []\<rparr>, OriginAllowlist = [], rotation_Enabled = False,
       CheckIntervalSeconds = 0, audit_Enabled = True, RetentionDays = 0\<rparr>,
     Credentials = \<lparr>cred_Version = 1, cred_Defaults = fmempty, cred_Agents = fmempty\<rparr>\<rparr>"

lemma config_validation_exact_witness:
  "\<exists>cfg'. validateSupervisorConfig \<lparr>ord_anthropic = [], ord_openai = [], ord_defaults = [], ord_agents = [],
      ord_agent_env = (\<lambda>_. []), float_text = (\<lambda>_. [])\<rparr> demo_supervisor = Inr cfg'"
proof -
  have "acceptable demo_supervisor"
    by (simp add: acceptable_def demo_supervisor_def server_ok_def provider_ok_def tls_ok_def credentials_ok_def
        demo_provider_def IsEnabled_def EffectiveAPIKey_def)
  moreover have "orders_for \<lparr>ord_anthropic = [], ord_openai = [], ord_defaults = [], ord_agents = [],
      ord_agent_env = (\<lambda>_. []), float_text = (\<lambda>_. [])\<rparr> demo_supervisor"
    by (simp add: orders_for_def demo_supervisor_def demo_provider_def iteration_order_def)
  ultimately show ?thesis using config_validation_exact by blast
qed

end
