(* ===== verification/Policy_Engine.thy ===== *)
theory Policy_Engine
  imports Supervisor_Config Command_Types Tracker Event_Pipeline
begin

text \<open>
  \<open>internal/supervisor/policy_engine.go\<close>: automatic interventions on sessions, capped retries per
  session and policy, and the events that report them.

  The engine sends its events to the event pipeline. It only needs what \<open>event_sink\<close> states, and
  the pipeline provides it for every cache library that meets \<open>lru_contract\<close>. The dispatcher's
  answer to each command and the clock readings are arguments; \<open>dispatched\<close> records the commands.
\<close>

section \<open>Data\<close>

definition policyEngineAgentID :: string where
  "policyEngineAgentID = ''policy-engine''"

record retryState =
  rs_count :: int
  rs_lastAttempt :: go_time
  rs_lastSuccess :: go_time

text \<open>\<open>'s\<close> is the state of the event sink; a nil sink is \<open>None\<close>.\<close>

record 's PolicyEngine =
  pe_config :: PolicyConfig
  pe_interval :: duration
  retries :: "(string, (string, retryState) fmap) fmap"
  eventSeq :: uint64
  events :: "'s option"
  dispatched :: "Command list"

definition withPolicyDefaults :: "PolicyConfig \<Rightarrow> PolicyConfig" where
  "withPolicyDefaults cfg =
     (let c1 = (if CheckIntervalSec cfg \<le> 0 then cfg\<lparr>CheckIntervalSec := 30\<rparr> else cfg);
          i = ResumeOnIdle c1;
          i1 = (if IdleThresholdSec i \<le> 0 then i\<lparr>IdleThresholdSec := 300\<rparr> else i);
          i2 = (if idle_MaxRetries i1 \<le> 0 then i1\<lparr>idle_MaxRetries := 3\<rparr> else i1);
          i3 = (if idle_RetryResetSeconds i2 \<le> 0 then i2\<lparr>idle_RetryResetSeconds := 3600\<rparr> else i2);
          c = RestartOnCompaction c1;
          c2 = (if TokenThreshold c \<le> 0 then c\<lparr>TokenThreshold := 180000\<rparr> else c);
          c3 = (if compaction_MaxRetries c2 \<le> 0 then c2\<lparr>compaction_MaxRetries := 2\<rparr> else c2);
          c4 = (if compaction_RetryResetSeconds c3 \<le> 0 then c3\<lparr>compaction_RetryResetSeconds := 3600\<rparr> else c3);
          k = KillOnCost c1;
          k1 = (if CostThresholdUSD k \<le> 0 then k\<lparr>CostThresholdUSD := 10\<rparr> else k);
          k2 = (if kill_MaxRetries k1 \<le> 0 then k1\<lparr>kill_MaxRetries := 1\<rparr> else k1);
          k3 = (if kill_RetryResetSeconds k2 \<le> 0 then k2\<lparr>kill_RetryResetSeconds := 86400\<rparr> else k2)
      in c1\<lparr>ResumeOnIdle := i3, RestartOnCompaction := c4, KillOnCost := k3\<rparr>)"

definition NewPolicyEngine :: "PolicyConfig \<Rightarrow> 's option \<Rightarrow> 's PolicyEngine" where
  "NewPolicyEngine policyConfig sink =
     (let cfg = withPolicyDefaults policyConfig
      in \<lparr>pe_config = cfg, pe_interval = seconds (CheckIntervalSec cfg), retries = fmempty, eventSeq = 0,
          events = sink, dispatched = []\<rparr>)"

section \<open>Retry states\<close>

definition getRetryStateLocked :: "'s PolicyEngine \<Rightarrow> string \<Rightarrow> string \<Rightarrow> retryState" where
  "getRetryStateLocked p sessionID policyName =
     (case fmlookup (retries p) sessionID of
        None \<Rightarrow> \<lparr>rs_count = 0, rs_lastAttempt = 0, rs_lastSuccess = 0\<rparr>
      | Some byPolicy \<Rightarrow> map_get byPolicy policyName \<lparr>rs_count = 0, rs_lastAttempt = 0, rs_lastSuccess = 0\<rparr>)"

definition setRetryStateLocked :: "'s PolicyEngine \<Rightarrow> string \<Rightarrow> string \<Rightarrow> retryState \<Rightarrow> 's PolicyEngine" where
  "setRetryStateLocked p sessionID policyName state =
     p\<lparr>retries := fmupd sessionID
       (fmupd policyName state (map_get (retries p) sessionID fmempty)) (retries p)\<rparr>"

definition RetryCount :: "'s PolicyEngine \<Rightarrow> string \<Rightarrow> string \<Rightarrow> int" where
  "RetryCount p sessionID policyName = rs_count (getRetryStateLocked p sessionID policyName)"

definition canAttempt :: "'s PolicyEngine \<Rightarrow> string \<Rightarrow> string \<Rightarrow> int \<Rightarrow> duration \<Rightarrow> go_time
    \<Rightarrow> bool \<times> int \<times> 's PolicyEngine" where
  "canAttempt p sessionID policyName maxRetries retryResetWindow now =
     (let state = getRetryStateLocked p sessionID policyName
      in if maxRetries > 0 \<and> rs_count state \<ge> maxRetries then
           if retryResetWindow > 0 \<and> time_sub now (rs_lastAttempt state) \<ge> retryResetWindow
           then (True, 0, setRetryStateLocked p sessionID policyName (state\<lparr>rs_count := 0\<rparr>))
           else (False, rs_count state, p)
         else (True, rs_count state, p))"

definition markFailure :: "'s PolicyEngine \<Rightarrow> string \<Rightarrow> string \<Rightarrow> go_time \<Rightarrow> int \<times> 's PolicyEngine" where
  "markFailure p sessionID policyName now =
     (let state = getRetryStateLocked p sessionID policyName;
          state' = state\<lparr>rs_count := rs_count state + 1, rs_lastAttempt := now\<rparr>
      in (rs_count state', setRetryStateLocked p sessionID policyName state'))"

definition markSuccess :: "'s PolicyEngine \<Rightarrow> string \<Rightarrow> string \<Rightarrow> go_time \<Rightarrow> 's PolicyEngine" where
  "markSuccess p sessionID policyName now =
     (let state = getRetryStateLocked p sessionID policyName
      in setRetryStateLocked p sessionID policyName (state\<lparr>rs_count := 0, rs_lastSuccess := now\<rparr>))"

section \<open>Events\<close>

type_synonym 's process_event = "'s \<Rightarrow> string \<Rightarrow> Event \<Rightarrow> go_error option \<times> 's"

definition policy_id :: "nat \<Rightarrow> string" where
  "policy_id n = ''policy-'' @ nat_text n"

definition policy_event :: "uint64 \<Rightarrow> string \<Rightarrow> string \<Rightarrow> string \<Rightarrow> go_time \<Rightarrow> Event" where
  "policy_event seq eventType sessionID data now =
     \<lparr>ev_ID = policy_id (unat seq), ev_SessionID = sessionID, ev_Type = eventType,
      ev_Data = data, ev_Timestamp = now, ev_Seq = seq\<rparr>"

text \<open>\<open>marshal\<close> is \<open>json.Marshal\<close>.\<close>

definition emitPolicyEvent :: "(go_value \<Rightarrow> string go_result) \<Rightarrow> 's process_event \<Rightarrow> go_time \<Rightarrow> 's PolicyEngine
    \<Rightarrow> string \<Rightarrow> string \<Rightarrow> (string \<times> go_value) list \<Rightarrow> go_error option \<times> 's PolicyEngine" where
  "emitPolicyEvent marshal process now p eventType sessionID payload =
     (case events p of
        None \<Rightarrow> (None, p)
      | Some sink \<Rightarrow>
          (case marshal (JObject payload) of
             Inl err \<Rightarrow> (Some (Wrapf (''marshal '' @ eventType @ '' payload: '') err), p)
           | Inr data \<Rightarrow>
               let seq = eventSeq p + 1
               in case process sink policyEngineAgentID (policy_event seq eventType sessionID data now) of
                    (err, sink') \<Rightarrow> (err, p\<lparr>eventSeq := seq, events := Some sink'\<rparr>)))"

definition emitPolicyAction :: "(go_value \<Rightarrow> string go_result) \<Rightarrow> 's process_event \<Rightarrow> go_time \<Rightarrow> 's PolicyEngine
    \<Rightarrow> string \<Rightarrow> string \<Rightarrow> CommandType \<Rightarrow> string \<Rightarrow> int \<Rightarrow> string \<Rightarrow> 's PolicyEngine" where
  "emitPolicyAction marshal process now p sessionID policyName action result retryCount lastError =
     snd (emitPolicyEvent marshal process now p ''policy.action'' sessionID
       ([(''policy'', JString policyName), (''session_id'', JString sessionID), (''action'', JString action),
         (''result'', JString result), (''retry_count'', JNumber (of_int retryCount))] @
        (if lastError \<noteq> [] then [(''last_error'', JString lastError)] else [])))"

definition emitRetryCapAlert :: "(go_value \<Rightarrow> string go_result) \<Rightarrow> 's process_event \<Rightarrow> go_time \<Rightarrow> 's PolicyEngine
    \<Rightarrow> string \<Rightarrow> string \<Rightarrow> int \<Rightarrow> string \<Rightarrow> 's PolicyEngine" where
  "emitRetryCapAlert marshal process now p sessionID policyName retryCount lastError =
     (let payload = [(''policy'', JString policyName), (''session_id'', JString sessionID),
            (''reason'', JString ''max_retries_reached''), (''retry_count'', JNumber (of_int retryCount)),
            (''last_error'', JString lastError)];
          p1 = snd (emitPolicyEvent marshal process now p ''policy.alert'' sessionID payload)
      in snd (emitPolicyEvent marshal process now p1 ''policy.retry_cap'' sessionID payload))"

section \<open>Interventions\<close>

text \<open>The surroundings of one intervention: the clock, and the dispatcher's answer, where \<open>Inr None\<close>
  is a nil result.\<close>

record intervention_env =
  iv_now :: go_time
  iv_answer :: "CommandResult option go_result"
  iv_event_now :: go_time

definition intervention_command :: "TrackedSession \<Rightarrow> string \<Rightarrow> CommandType \<Rightarrow> Command" where
  "intervention_command session policyName commandType =
     \<lparr>cmd_CommandID = [], cmd_Type = commandType, cmd_IdempotencyKey = [],
      cmd_Target = \<lparr>tg_Project = ts_Project session, tg_NodeID = ts_NodeID session\<rparr>,
      cmd_Args = Some [(''session_id'', JString (ts_SessionID session)), (''policy'', JString policyName)],
      cmd_Timeout = 2 * second\<rparr>"

text \<open>The error text of an intervention that did not succeed, or \<open>None\<close>.\<close>

definition failure_text :: "CommandResult option go_result \<Rightarrow> string option" where
  "failure_text answer =
     (case answer of
        Inl err \<Rightarrow> Some (error_text err)
      | Inr None \<Rightarrow> Some ''command returned non-success status''
      | Inr (Some result) \<Rightarrow>
          if res_Status result \<noteq> CommandStatusSuccess
          then Some (if res_Error result \<noteq> [] then res_Error result else ''command returned non-success status'')
          else None)"

definition tryIntervention :: "(go_value \<Rightarrow> string go_result) \<Rightarrow> 's process_event \<Rightarrow> intervention_env \<Rightarrow> 's PolicyEngine
    \<Rightarrow> TrackedSession \<Rightarrow> string \<Rightarrow> int \<Rightarrow> duration \<Rightarrow> CommandType \<Rightarrow> 's PolicyEngine" where
  "tryIntervention marshal process iv p session policyName maxRetries retryResetWindow commandType =
     (case canAttempt p (ts_SessionID session) policyName maxRetries retryResetWindow (iv_now iv) of
        (False, _, p1) \<Rightarrow> p1
      | (True, retryCount, p1) \<Rightarrow>
          let p2 = p1\<lparr>dispatched := dispatched p1 @ [intervention_command session policyName commandType]\<rparr>
          in case failure_text (iv_answer iv) of
               Some msg \<Rightarrow>
                 (case markFailure p2 (ts_SessionID session) policyName (iv_now iv) of
                    (n, p3) \<Rightarrow>
                      let p4 = emitPolicyAction marshal process (iv_event_now iv) p3 (ts_SessionID session)
                            policyName commandType ''failure'' n msg
                      in if n \<ge> maxRetries
                         then emitRetryCapAlert marshal process (iv_event_now iv) p4 (ts_SessionID session) policyName n msg
                         else p4)
             | None \<Rightarrow>
                 emitPolicyAction marshal process (iv_event_now iv)
                   (markSuccess p2 (ts_SessionID session) policyName (iv_now iv))
                   (ts_SessionID session) policyName commandType ''success'' retryCount [])"

definition evaluateResumeOnIdle :: "(go_value \<Rightarrow> string go_result) \<Rightarrow> 's process_event \<Rightarrow> intervention_env
    \<Rightarrow> 's PolicyEngine \<Rightarrow> TrackedSession \<Rightarrow> go_time \<Rightarrow> 's PolicyEngine" where
  "evaluateResumeOnIdle marshal process iv p session now =
     (let policy = ResumeOnIdle (pe_config p)
      in if \<not> idle_Enabled policy then p
         else if time_is_zero (ts_LastActivity session) \<or>
           time_sub now (ts_LastActivity session) < seconds (IdleThresholdSec policy) then p
         else tryIntervention marshal process iv p session ''resume_on_idle'' (idle_MaxRetries policy)
           (seconds (idle_RetryResetSeconds policy)) CommandTypePromptSession)"

definition evaluateRestartOnCompaction :: "(go_value \<Rightarrow> string go_result) \<Rightarrow> 's process_event \<Rightarrow> intervention_env
    \<Rightarrow> 's PolicyEngine \<Rightarrow> TrackedSession \<Rightarrow> 's PolicyEngine" where
  "evaluateRestartOnCompaction marshal process iv p session =
     (let policy = RestartOnCompaction (pe_config p)
      in if \<not> compaction_Enabled policy then p
         else if tu_Total (ts_TokenUsage session) < TokenThreshold policy then p
         else tryIntervention marshal process iv p session ''restart_on_compaction'' (compaction_MaxRetries policy)
           (seconds (compaction_RetryResetSeconds policy)) CommandTypeRestartSession)"

definition evaluateKillOnCost :: "(go_value \<Rightarrow> string go_result) \<Rightarrow> 's process_event \<Rightarrow> intervention_env
    \<Rightarrow> 's PolicyEngine \<Rightarrow> TrackedSession \<Rightarrow> 's PolicyEngine" where
  "evaluateKillOnCost marshal process iv p session =
     (let policy = KillOnCost (pe_config p)
      in if \<not> kill_Enabled policy then p
         else if ts_SessionCost session < CostThresholdUSD policy then p
         else tryIntervention marshal process iv p session ''kill_on_cost'' (kill_MaxRetries policy)
           (seconds (kill_RetryResetSeconds policy)) CommandTypeKillSession)"

text \<open>\<open>alive\<close> says whether the context is still alive when the loop reaches a session, and \<open>iv\<close> gives
  the surroundings of the intervention of a policy on a session.\<close>

fun check_sessions :: "(go_value \<Rightarrow> string go_result) \<Rightarrow> 's process_event \<Rightarrow> (TrackedSession \<Rightarrow> string \<Rightarrow> intervention_env)
    \<Rightarrow> (TrackedSession \<Rightarrow> bool) \<Rightarrow> go_time \<Rightarrow> TrackedSession list \<Rightarrow> 's PolicyEngine \<Rightarrow> 's PolicyEngine" where
  "check_sessions marshal process iv alive now [] p = p"
| "check_sessions marshal process iv alive now (session # ss) p =
     (if \<not> alive session then p
      else
        let p1 = evaluateResumeOnIdle marshal process (iv session ''resume_on_idle'') p session now;
            p2 = evaluateRestartOnCompaction marshal process (iv session ''restart_on_compaction'') p1 session;
            p3 = evaluateKillOnCost marshal process (iv session ''kill_on_cost'') p2 session
        in check_sessions marshal process iv alive now ss p3)"

text \<open>A nil tracker is \<open>None\<close>; \<open>os\<close> is the visiting order of its sessions.\<close>

definition runChecks :: "(go_value \<Rightarrow> string go_result) \<Rightarrow> 's process_event \<Rightarrow> (TrackedSession \<Rightarrow> string \<Rightarrow> intervention_env)
    \<Rightarrow> bool \<Rightarrow> (TrackedSession \<Rightarrow> bool) \<Rightarrow> go_time \<Rightarrow> SessionTracker option \<Rightarrow> bool \<Rightarrow> string list
    \<Rightarrow> 's PolicyEngine \<Rightarrow> 's PolicyEngine" where
  "runChecks marshal process iv cancelled alive now tracker has_dispatcher os p =
     (if cancelled then p
      else case tracker of
          None \<Rightarrow> p
        | Some t \<Rightarrow>
            if \<not> has_dispatcher then p
            else check_sessions marshal process iv alive now (GetAllSessions t os) p)"

section \<open>Frames\<close>

lemma emitPolicyEvent_frame [simp]:
  "retries (snd (emitPolicyEvent m pr t p ty i pl)) = retries p"
  "dispatched (snd (emitPolicyEvent m pr t p ty i pl)) = dispatched p"
  "pe_config (snd (emitPolicyEvent m pr t p ty i pl)) = pe_config p"
  by (auto simp: emitPolicyEvent_def Let_def split: option.splits sum.splits prod.splits)

lemma emit_frames [simp]:
  "retries (emitPolicyAction m pr t p i n c r k e) = retries p"
  "dispatched (emitPolicyAction m pr t p i n c r k e) = dispatched p"
  "pe_config (emitPolicyAction m pr t p i n c r k e) = pe_config p"
  "retries (emitRetryCapAlert m pr t p i n k e) = retries p"
  "dispatched (emitRetryCapAlert m pr t p i n k e) = dispatched p"
  "pe_config (emitRetryCapAlert m pr t p i n k e) = pe_config p"
  by (simp_all add: emitPolicyAction_def emitRetryCapAlert_def Let_def)

lemma retry_state_cong: "retries p = retries q \<Longrightarrow> getRetryStateLocked p i n = getRetryStateLocked q i n"
  by (simp add: getRetryStateLocked_def)

lemma get_set_retry:
  "getRetryStateLocked (setRetryStateLocked p i n st) i' n' =
     (if i' = i \<and> n' = n then st else getRetryStateLocked p i' n')"
  by (auto simp: getRetryStateLocked_def setRetryStateLocked_def map_get_def split: option.splits)

lemma setRetryStateLocked_frame [simp]:
  "dispatched (setRetryStateLocked p i n st) = dispatched p"
  "pe_config (setRetryStateLocked p i n st) = pe_config p"
  "events (setRetryStateLocked p i n st) = events p"
  "eventSeq (setRetryStateLocked p i n st) = eventSeq p"
  by (simp_all add: setRetryStateLocked_def)

section \<open>The retry cap\<close>

text \<open>Several attempts of one policy on one session.\<close>

definition attempts :: "(go_value \<Rightarrow> string go_result) \<Rightarrow> 's process_event \<Rightarrow> TrackedSession \<Rightarrow> string \<Rightarrow> int
    \<Rightarrow> duration \<Rightarrow> CommandType \<Rightarrow> intervention_env list \<Rightarrow> 's PolicyEngine \<Rightarrow> 's PolicyEngine" where
  "attempts m pr s n maxR w c ivs p = foldl (\<lambda>p iv. tryIntervention m pr iv p s n maxR w c) p ivs"

lemma failed_attempt:
  assumes "0 < maxR" and "failure_text (iv_answer iv) \<noteq> None"
    and "st = getRetryStateLocked p (ts_SessionID s) n"
    and "rs_count st < maxR \<or> time_sub (iv_now iv) (rs_lastAttempt st) < w"
    and "p' = tryIntervention m pr iv p s n maxR w c"
  shows "getRetryStateLocked p' (ts_SessionID s) n =
      (if rs_count st < maxR then st\<lparr>rs_count := rs_count st + 1, rs_lastAttempt := iv_now iv\<rparr> else st)"
    and "length (dispatched p') = length (dispatched p) + (if rs_count st < maxR then 1 else 0)"
proof -
  obtain msg where msg: "failure_text (iv_answer iv) = Some msg" using assms(2) by auto
  let ?p2 = "p\<lparr>dispatched := dispatched p @ [intervention_command s n c]\<rparr>"
  have st2: "getRetryStateLocked ?p2 (ts_SessionID s) n = st" using assms(3) by (simp add: getRetryStateLocked_def)
  show "getRetryStateLocked p' (ts_SessionID s) n =
      (if rs_count st < maxR then st\<lparr>rs_count := rs_count st + 1, rs_lastAttempt := iv_now iv\<rparr> else st)"
    and "length (dispatched p') = length (dispatched p) + (if rs_count st < maxR then 1 else 0)"
    using assms(1,3,4,5) msg st2
    by (auto simp: tryIntervention_def canAttempt_def markFailure_def Let_def get_set_retry
        retry_state_cong [OF emit_frames(4)] retry_state_cong [OF emit_frames(1)])
qed

lemma time_sub_less: "t - u < w \<Longrightarrow> 0 < w \<Longrightarrow> time_sub t u < w"
  by (auto simp: time_sub_def min_int64_def)

lemma attempts_cap:
  assumes "0 < maxR" and "0 < w"
    and "\<forall>iv \<in> set ivs. failure_text (iv_answer iv) \<noteq> None \<and> lo \<le> iv_now iv \<and> iv_now iv < lo + w"
    and "st = getRetryStateLocked p (ts_SessionID s) n" "0 \<le> rs_count st" "rs_count st \<le> maxR"
    and "0 < rs_count st \<longrightarrow> lo \<le> rs_lastAttempt st"
  shows "length (dispatched (attempts m pr s n maxR w c ivs p)) =
    length (dispatched p) + min (length ivs) (nat (maxR - rs_count st))"
  using assms(3-)
proof (induction ivs arbitrary: p st)
  case Nil
  then show ?case by (simp add: attempts_def)
next
  case (Cons iv ivs)
  let ?p' = "tryIntervention m pr iv p s n maxR w c"
  have "rs_count st < maxR \<or> time_sub (iv_now iv) (rs_lastAttempt st) < w"
    using Cons.prems assms(1,2) time_sub_less [of "iv_now iv" "rs_lastAttempt st" w] by fastforce
  note step = failed_attempt [OF assms(1) _ Cons.prems(2) this refl, of m pr c]
  have rest: "attempts m pr s n maxR w c (iv # ivs) p = attempts m pr s n maxR w c ivs ?p'"
    by (simp add: attempts_def)
  define st' where "st' = getRetryStateLocked ?p' (ts_SessionID s) n"
  have st': "st' = (if rs_count st < maxR then st\<lparr>rs_count := rs_count st + 1, rs_lastAttempt := iv_now iv\<rparr> else st)"
    using step(1) Cons.prems(1) by (simp add: st'_def)
  have "length (dispatched (attempts m pr s n maxR w c ivs ?p')) =
      length (dispatched ?p') + min (length ivs) (nat (maxR - rs_count st'))"
    by (rule Cons.IH [OF _ st'_def]) (use Cons.prems st' in \<open>auto split: if_splits\<close>)
  then show ?case using step(2) Cons.prems(1,3,4) st' by (auto simp: rest)
qed

text \<open>
  C12. The retry cap is exact: for any sequence of failing attempts of one policy on one session
  inside one reset window, from a zero retry count, the engine dispatches exactly the first
  \<open>maxRetries\<close> of them (all of them, if they are fewer) and nothing after that.
\<close>
theorem retry_cap_exact:
  assumes "0 < maxRetries" and "0 < window"
    and "\<forall>iv \<in> set ivs. failure_text (iv_answer iv) \<noteq> None \<and> start \<le> iv_now iv \<and> iv_now iv < start + window"
    and "RetryCount p (ts_SessionID session) policy = 0"
  shows "length (dispatched (attempts marshal process session policy maxRetries window command ivs p)) =
    length (dispatched p) + min (length ivs) (nat maxRetries)"
  using attempts_cap [OF assms(1-3) refl, of p session policy marshal process command] assms(1,4)
  by (simp add: RetryCount_def)

definition demo_iv :: "go_time \<Rightarrow> intervention_env" where
  "demo_iv t = \<lparr>iv_now = t, iv_answer = Inr None, iv_event_now = t\<rparr>"

definition silent_engine :: "unit PolicyEngine" where
  "silent_engine = NewPolicyEngine demo_policies None"

lemma retry_cap_exact_witness:
  "length (dispatched (attempts (\<lambda>_. Inr []) (\<lambda>s a e. (None, s)) (demo_session ''s'' ''n'') ''kill_on_cost'' 2 100
     CommandTypeKillSession (map demo_iv [1, 2, 3, 4]) silent_engine)) = 2"
proof -
  have "length (dispatched (attempts (\<lambda>_. Inr []) (\<lambda>s a e. (None, s)) (demo_session ''s'' ''n'') ''kill_on_cost'' 2 100
     CommandTypeKillSession (map demo_iv [1, 2, 3, 4]) silent_engine)) =
    length (dispatched silent_engine) + min (length (map demo_iv [1, 2, 3, 4])) (nat 2)"
    by (rule retry_cap_exact [where start = 1])
      (simp_all add: demo_iv_def failure_text_def silent_engine_def NewPolicyEngine_def RetryCount_def
        getRetryStateLocked_def Let_def)
  then show ?thesis by (simp add: silent_engine_def NewPolicyEngine_def Let_def)
qed

lemma policy_id_inj: "policy_id m = policy_id n \<longleftrightarrow> m = n"
  by (simp add: policy_id_def nat_text_inj)

lemma policy_id_nonempty [simp]: "policy_id n \<noteq> []"
  by (simp add: policy_id_def)

section \<open>The engine as a client of the event pipeline\<close>

locale event_sink =
  fixes process :: "'s process_event"
    and last_seq :: "'s \<Rightarrow> string \<Rightarrow> uint64"
    and ready :: "'s \<Rightarrow> string \<Rightarrow> bool"
    and known :: "'s \<Rightarrow> string \<Rightarrow> string \<Rightarrow> bool"
  assumes accept: "ready s a \<Longrightarrow> ev_ID e \<noteq> [] \<Longrightarrow> \<not> known s a (ev_ID e) \<Longrightarrow> ev_Seq e \<noteq> 0 \<Longrightarrow>
    ev_Seq e = last_seq s a + 1 \<Longrightarrow>
    \<exists>s'. process s a e = (None, s') \<and> ready s' a \<and> last_seq s' a = ev_Seq e \<and>
      (\<forall>i. known s' a i \<longrightarrow> known s a i \<or> i = ev_ID e)"

text \<open>All events of the engine so far have been accepted, and only their ids are known.\<close>

definition engine_in_step :: "('s \<Rightarrow> string \<Rightarrow> uint64) \<Rightarrow> ('s \<Rightarrow> string \<Rightarrow> bool) \<Rightarrow> ('s \<Rightarrow> string \<Rightarrow> string \<Rightarrow> bool)
    \<Rightarrow> 's PolicyEngine \<Rightarrow> bool" where
  "engine_in_step last_seq ready known p \<longleftrightarrow>
     (case events p of
        None \<Rightarrow> True
      | Some s \<Rightarrow> ready s policyEngineAgentID \<and> last_seq s policyEngineAgentID = eventSeq p \<and>
          (\<forall>i. known s policyEngineAgentID i \<longrightarrow> (\<exists>n \<le> unat (eventSeq p). i = policy_id n)))"

context event_sink
begin

lemma emit_in_step:
  assumes ok: "engine_in_step last_seq ready known p" and "unat (eventSeq p) < 2 ^ 64 - 1"
    and e: "emitPolicyEvent m process t p ty i pl = (err, p')"
  shows "engine_in_step last_seq ready known p'" and "unat (eventSeq p') \<le> unat (eventSeq p) + 1"
    and "(\<exists>d. m (JObject pl) = Inr d) \<Longrightarrow> err = None"
proof -
  let ?a = policyEngineAgentID and ?seq = "eventSeq p + 1"
  have next_seq: "unat ?seq = Suc (unat (eventSeq p))" using assms(2) by (simp add: unat_word_ariths)
  have all: "engine_in_step last_seq ready known p' \<and> unat (eventSeq p') \<le> unat (eventSeq p) + 1 \<and>
      ((\<exists>d. m (JObject pl) = Inr d) \<longrightarrow> err = None)"
  proof (cases "events p")
    case None
    then show ?thesis using e ok by (auto simp: emitPolicyEvent_def)
  next
    case (Some s)
    show ?thesis
    proof (cases "m (JObject pl)")
      case (Inl er)
      then show ?thesis using e ok Some by (auto simp: emitPolicyEvent_def)
    next
      case (Inr d)
      let ?e = "policy_event ?seq ty i d t"
      have "?seq \<noteq> 0" using next_seq by (metis nat.simps(3) unat_0)
      moreover have "\<not> known s ?a (ev_ID ?e)"
        using ok Some next_seq by (fastforce simp: engine_in_step_def policy_event_def policy_id_inj)
      ultimately obtain s' where s': "process s ?a ?e = (None, s')" "ready s' ?a" "last_seq s' ?a = ?seq"
          "\<forall>i. known s' ?a i \<longrightarrow> known s ?a i \<or> i = ev_ID ?e"
        using accept [of s ?a ?e] ok Some by (auto simp: engine_in_step_def policy_event_def policy_id_nonempty)
      then have p': "p' = p\<lparr>eventSeq := ?seq, events := Some s'\<rparr>" "err = None"
        using e Some Inr by (simp_all add: emitPolicyEvent_def Let_def)
      have "\<exists>n \<le> unat ?seq. j = policy_id n" if j: "known s' ?a j" for j
      proof -
        consider "known s ?a j" | "j = policy_id (unat ?seq)" using s'(4) j by (auto simp: policy_event_def)
        then show ?thesis
        proof cases
          case 1
          then obtain n where "n \<le> unat (eventSeq p)" "j = policy_id n"
            using ok Some by (auto simp: engine_in_step_def)
          then show ?thesis using next_seq by (intro exI [of _ n]) simp
        qed auto
      qed
      then show ?thesis using s' p' next_seq by (simp add: engine_in_step_def)
    qed
  qed
  show "engine_in_step last_seq ready known p'" "unat (eventSeq p') \<le> unat (eventSeq p) + 1"
    "(\<exists>d. m (JObject pl) = Inr d) \<Longrightarrow> err = None" using all by auto
qed

lemma emit_snd:
  assumes "engine_in_step last_seq ready known p" and "unat (eventSeq p) + k < 2 ^ 64" and "1 \<le> k"
  shows "engine_in_step last_seq ready known (snd (emitPolicyEvent m process t p ty i pl)) \<and>
    unat (eventSeq (snd (emitPolicyEvent m process t p ty i pl))) + (k - 1) < 2 ^ 64"
  using emit_in_step(1,2) [OF assms(1) _ prod.collapse [symmetric], of m t ty i pl] assms(2,3) by auto

text \<open>\<open>room k p\<close>: in step, with room for \<open>k\<close> more events.\<close>

definition room :: "nat \<Rightarrow> 's PolicyEngine \<Rightarrow> bool" where
  "room k p \<longleftrightarrow> engine_in_step last_seq ready known p \<and> events p \<noteq> None \<and> unat (eventSeq p) + k < 2 ^ 64"

lemma emit_keeps_sink: "events p \<noteq> None \<Longrightarrow> events (snd (emitPolicyEvent m pr t p ty i pl)) \<noteq> None"
  by (auto simp: emitPolicyEvent_def Let_def split: option.splits sum.splits prod.splits)

lemma room_mono: "room k p \<Longrightarrow> j \<le> k \<Longrightarrow> room j p"
  by (simp add: room_def)

lemma room_cong: "events p = events q \<Longrightarrow> eventSeq p = eventSeq q \<Longrightarrow> room k p = room k q"
  by (auto simp: room_def engine_in_step_def split: option.splits)

lemma room_emit: "room (Suc k) p \<Longrightarrow> room k (snd (emitPolicyEvent m process t p ty i pl))"
  using emit_snd [of p "Suc k" m t ty i pl] emit_keeps_sink [of p] by (simp add: room_def del: not_None_eq)

lemma room_action: "room (Suc k) p \<Longrightarrow> room k (emitPolicyAction m process t p i n c r x e)"
  unfolding emitPolicyAction_def by (rule room_emit)

lemma room_alert: "room (Suc (Suc k)) p \<Longrightarrow> room k (emitRetryCapAlert m process t p i n x e)"
  unfolding emitRetryCapAlert_def Let_def by (intro room_emit)

lemma room_try:
  assumes "room (k + 3) p"
  shows "room k (tryIntervention m process iv p s n maxR w c)"
proof -
  obtain ok r p1 where ca: "canAttempt p (ts_SessionID s) n maxR w (iv_now iv) = (ok, r, p1)"
    by (cases "canAttempt p (ts_SessionID s) n maxR w (iv_now iv)")
  have same: "events p1 = events p" "eventSeq p1 = eventSeq p"
    using ca by (auto simp: canAttempt_def Let_def split: if_splits)
  let ?p2 = "p1\<lparr>dispatched := dispatched p1 @ [intervention_command s n c]\<rparr>"
  have p1: "room (k + 3) p1" using assms room_cong [OF same] by simp
  have p3: "room (Suc (Suc (Suc k))) (snd (markFailure ?p2 (ts_SessionID s) n (iv_now iv)))"
      "room (Suc (Suc (Suc k))) (markSuccess ?p2 (ts_SessionID s) n (iv_now iv))"
    using p1 room_cong [of p1 "snd (markFailure ?p2 (ts_SessionID s) n (iv_now iv))"]
      room_cong [of p1 "markSuccess ?p2 (ts_SessionID s) n (iv_now iv)"]
    by (simp_all add: markFailure_def markSuccess_def Let_def eval_nat_numeral)
  show ?thesis
  proof (cases ok)
    case False
    then show ?thesis using room_mono [OF p1] ca by (simp add: tryIntervention_def)
  next
    case True
    show ?thesis
    proof (cases "failure_text (iv_answer iv)")
      case None
      then show ?thesis
        using True ca room_mono [OF room_action [OF p3(2)]] by (simp add: tryIntervention_def Let_def)
    next
      case (Some msg)
      then show ?thesis
        using True ca p3(1) room_alert [OF room_action [OF p3(1)]] room_mono [OF room_action [OF p3(1)], of k]
        by (auto simp: tryIntervention_def Let_def markFailure_def)
    qed
  qed
qed

lemma room_check_sessions:
  "room (k + 9 * length ss) p \<Longrightarrow> room k (check_sessions m process iv alive now ss p)"
proof (induction ss arbitrary: p)
  case (Cons s ss)
  have idle: "room j (evaluateResumeOnIdle m process v q s now)" if "room (j + 3) q" for j v q
    using that room_mono [OF that, of j] by (auto simp: evaluateResumeOnIdle_def Let_def intro: room_try)
  have comp: "room j (evaluateRestartOnCompaction m process v q s)" if "room (j + 3) q" for j v q
    using that room_mono [OF that, of j] by (auto simp: evaluateRestartOnCompaction_def Let_def intro: room_try)
  have kill: "room j (evaluateKillOnCost m process v q s)" if "room (j + 3) q" for j v q
    using that room_mono [OF that, of j] by (auto simp: evaluateKillOnCost_def Let_def intro: room_try)
  show ?case
  proof (cases "alive s")
    case True
    have "room (k + 9 * length ss + 3 + 3 + 3) p" using Cons.prems by (simp add: algebra_simps)
    from Cons.IH [OF kill [OF comp [OF idle [OF this]]]] True show ?thesis by (simp add: Let_def)
  next
    case False
    then show ?thesis using room_mono [OF Cons.prems, of k] by simp
  qed
qed simp

end

text \<open>The pipeline is such a sink for an agent without buffered events.\<close>

definition stream_ready :: "('c \<Rightarrow> nat) \<Rightarrow> ('c \<Rightarrow> string list) \<Rightarrow> 'c EventPipeline \<Rightarrow> string \<Rightarrow> bool" where
  "stream_ready cap keys p a \<longleftrightarrow> pipeline_inv p \<and> dedup_inv cap keys (dedup p) \<and> a \<noteq> [] \<and>
     CHR '':'' \<notin> set a \<and> pending_of p a = fmempty"

definition remembers :: "('c \<Rightarrow> string list) \<Rightarrow> 'c EventPipeline \<Rightarrow> string \<Rightarrow> string \<Rightarrow> bool" where
  "remembers keys p a i \<longleftrightarrow> i \<in> set (remembered keys (dedup p) a)"

sublocale lru_contract \<subseteq> pipe: event_sink "ProcessEvent ops" LastSequence "stream_ready cap keys" "remembers keys"
proof
  fix p :: "'c EventPipeline" and a and e :: Event
  assume ready: "stream_ready cap keys p a" and i: "ev_ID e \<noteq> []" and new: "\<not> remembers keys p a (ev_ID e)"
    and seq: "ev_Seq e \<noteq> 0" "ev_Seq e = LastSequence p a + 1"
  let ?k = "a @ CHR '':'' # ev_ID e"
  obtain p' r where pe: "ProcessEvent ops p a e = (r, p')" by (cases "ProcessEvent ops p a e")
  have u: "a \<noteq> []" "CHR '':'' \<notin> set a" "pipeline_inv p" "dedup_inv cap keys (dedup p)" "pending_of p a = fmempty"
    using ready by (auto simp: stream_ready_def)
  note spec = seen_spec [OF u(4,2,1) i]
  have fresh: "\<not> fst (seen ops (dedup p) ?k)" using spec(1) new by (simp add: remembers_def)
  have dd: "dedup p' = snd (seen ops (dedup p) ?k)" using ProcessEvent_dedup [OF u(1) i, of ops p] pe by simp
  have "r = None" using ProcessEvent_received(1) [OF u(3,1) i seq(1) fresh pe] .
  have rec: "received p' a = insert (unat (ev_Seq e)) (received p a)"
    using ProcessEvent_received(2) [OF u(3,1) i seq(1) fresh pe] .
  have inv: "pipeline_inv p'" using ProcessEvent_step [OF u(3) pe] by blast
  have n: "unat (ev_Seq e) = Suc (unat (LastSequence p a))" using seq by unat_arith
  have pd: "pending_of p' a = fmempty \<and> LastSequence p' a = ev_Seq e"
    using pe
  proof (cases rule: ProcessEvent_cases)
    case (ignored d)
    then have "unat (ev_Seq e) \<in> received p a" using rec by auto
    then show ?thesis using n u(5) by (simp add: received_def)
  next
    case (gap d)
    then show ?thesis using seq by simp
  next
    case (accepted d es p2)
    then show ?thesis using u(5) seq
      by (auto simp: consumeInOrder_pending drain.simps [of fmempty] pending_of_def LastSequence_def map_get_def
          split: option.splits if_splits)
  qed
  have "remembers keys p' a i \<longrightarrow> remembers keys p a i \<or> i = ev_ID e" for i
    using spec(2) [of a] by (auto simp: remembers_def dd dest: in_set_takeD split: if_splits)
  then show "\<exists>s'. ProcessEvent ops p a e = (None, s') \<and> stream_ready cap keys s' a \<and>
      LastSequence s' a = ev_Seq e \<and> (\<forall>i. remembers keys s' a i \<longrightarrow> remembers keys p a i \<or> i = ev_ID e)"
    using pe \<open>r = None\<close> inv pd u spec(3) by (auto simp: stream_ready_def dd)
qed

section \<open>Properties of the engine\<close>

lemma fresh_in_step:
  assumes "NewEventPipeline db table sender = Inr q"
  shows "engine_in_step LastSequence (stream_ready cap keys) (remembers keys) (NewPolicyEngine cfg (Some q))"
proof -
  note fresh = fresh_pipeline [OF assms]
  have "pending_of q a = fmempty" for a
    using assms by (auto simp: NewEventPipeline_def pending_of_def split: sum.splits)
  moreover have "LastSequence q a = 0" for a using fresh(3) [of a] by (simp add: unat_eq_zero)
  ultimately show ?thesis
    using fresh(1,4,5)
    by (simp add: engine_in_step_def NewPolicyEngine_def Let_def stream_ready_def remembers_def policyEngineAgentID_def)
qed

text \<open>Several ticks of the engine's loop, each with its own surroundings.\<close>

fun ticks :: "(go_value \<Rightarrow> string go_result) \<Rightarrow> 's process_event
    \<Rightarrow> ((TrackedSession \<Rightarrow> string \<Rightarrow> intervention_env) \<times> (TrackedSession \<Rightarrow> bool) \<times> go_time \<times> TrackedSession list) list
    \<Rightarrow> 's PolicyEngine \<Rightarrow> 's PolicyEngine" where
  "ticks m pr [] p = p"
| "ticks m pr ((iv, alive, now, ss) # ts) p = ticks m pr ts (check_sessions m pr iv alive now ss p)"

context event_sink
begin

lemma room_ticks:
  "room (k + 9 * sum_list (map (\<lambda>(_, _, _, ss). length ss) ts)) p \<Longrightarrow> room k (ticks m process ts p)"
proof (induction ts arbitrary: p)
  case (Cons t ts)
  obtain iv alive now ss where t: "t = (iv, alive, now, ss)" by (cases t)
  have "room ((k + 9 * sum_list (map (\<lambda>(_, _, _, ss). length ss) ts)) + 9 * length ss) p"
    using Cons.prems by (simp add: t algebra_simps)
  from Cons.IH [OF room_check_sessions [OF this]] show ?case by (simp add: t)
qed simp

end

context lru_contract
begin

lemma ticks_in_step:
  assumes "NewEventPipeline db table sender = Inr q"
    and "9 * sum_list (map (\<lambda>(_, _, _, ss). length ss) ts) < 2 ^ 64"
  shows "engine_in_step LastSequence (stream_ready cap keys) (remembers keys)
      (ticks m (ProcessEvent ops) ts (NewPolicyEngine cfg (Some q))) \<and>
    events (ticks m (ProcessEvent ops) ts (NewPolicyEngine cfg (Some q))) \<noteq> None"
proof -
  have "pipe.room (0 + 9 * sum_list (map (\<lambda>(_, _, _, ss). length ss) ts)) (NewPolicyEngine cfg (Some q))"
    using fresh_in_step [OF assms(1)] assms(2) by (simp add: pipe.room_def NewPolicyEngine_def Let_def)
  from pipe.room_ticks [OF this] show ?thesis by (simp add: pipe.room_def)
qed

end

text \<open>
  C13. The policy engine never loses an event to the pipeline's own checks: starting with a fresh
  pipeline, after any number of ticks over any sessions with any dispatcher answers, the pipeline
  has accepted every event the engine emitted, in order and without a gap: the last sequence number
  of the engine's stream is the engine's own counter and nothing is buffered (as long as the 64-bit
  counter does not run out).
\<close>
theorem policy_events_all_accepted:
  assumes "lru_contract ops cap keys" and "NewEventPipeline db table sender = Inr q"
    and "p = ticks marshal (ProcessEvent ops) ts (NewPolicyEngine cfg (Some q))"
    and "9 * sum_list (map (\<lambda>(_, _, _, ss). length ss) ts) < 2 ^ 64"
  shows "\<exists>q'. events p = Some q' \<and> LastSequence q' policyEngineAgentID = eventSeq p \<and>
    PendingCount q' policyEngineAgentID = 0"
proof -
  have "engine_in_step LastSequence (stream_ready cap keys) (remembers keys) p \<and> events p \<noteq> None"
    unfolding assms(3) by (rule lru_contract.ticks_in_step [OF assms(1,2,4)])
  then show ?thesis by (auto simp: engine_in_step_def stream_ready_def PendingCount_def)
qed

definition demo_ticks :: "((TrackedSession \<Rightarrow> string \<Rightarrow> intervention_env) \<times> (TrackedSession \<Rightarrow> bool) \<times> go_time \<times> TrackedSession list) list" where
  "demo_ticks = replicate 2 ((\<lambda>_ _. demo_iv 5), (\<lambda>_. True), 9, [(demo_session ''s'' ''n'')\<lparr>ts_SessionCost := 50\<rparr>])"

lemma policy_events_all_accepted_witness:
  "\<exists>q'. events (ticks (\<lambda>_. Inr ''{}'') (ProcessEvent lru_ref) demo_ticks (NewPolicyEngine demo_policies (Some demo_pipeline))) = Some q' \<and>
     LastSequence q' policyEngineAgentID = 3"
proof -
  let ?p = "ticks (\<lambda>_. Inr ''{}'') (ProcessEvent lru_ref) demo_ticks (NewPolicyEngine demo_policies (Some demo_pipeline))"
  have "eventSeq ?p = 3" by code_simp
  moreover have "9 * sum_list (map (\<lambda>(_, _, _, ss). length ss) demo_ticks) < 2 ^ 64"
    by (simp add: demo_ticks_def sum_list_replicate)
  from policy_events_all_accepted [OF lru_list.lru_contract_axioms demo_pipeline_new refl this]
  have "\<exists>q'. events ?p = Some q' \<and> LastSequence q' policyEngineAgentID = eventSeq ?p"
    by blast
  ultimately show ?thesis by simp
qed

text \<open>
  The defaults of the engine and the defaults of the configuration loader are written twice in
  the sources and agree; a configuration that passed the loader reaches the engine unchanged.
\<close>
theorem policy_defaults_agree:
  "withPolicyDefaults cfg = applyPolicyDefaults cfg \<and>
   withPolicyDefaults (applyPolicyDefaults cfg) = applyPolicyDefaults cfg"
proof -
  have agree: "withPolicyDefaults c = applyPolicyDefaults c" for c
    by (rule PolicyConfig.equality)
      (auto simp: withPolicyDefaults_def applyPolicyDefaults_def positive_or_def Let_def)
  moreover have "applyPolicyDefaults (applyPolicyDefaults cfg) = applyPolicyDefaults cfg"
    by (simp add: applyPolicyDefaults_def)
  ultimately show ?thesis by simp
qed

text \<open>Why a policy may act on a session.\<close>

definition justified :: "PolicyConfig \<Rightarrow> go_time \<Rightarrow> TrackedSession \<Rightarrow> Command \<Rightarrow> bool" where
  "justified cfg now s c \<longleftrightarrow>
     (c = intervention_command s ''resume_on_idle'' CommandTypePromptSession \<and> idle_Enabled (ResumeOnIdle cfg) \<and>
        ts_LastActivity s \<noteq> 0 \<and> seconds (IdleThresholdSec (ResumeOnIdle cfg)) \<le> time_sub now (ts_LastActivity s)) \<or>
     (c = intervention_command s ''restart_on_compaction'' CommandTypeRestartSession \<and>
        compaction_Enabled (RestartOnCompaction cfg) \<and>
        TokenThreshold (RestartOnCompaction cfg) \<le> tu_Total (ts_TokenUsage s)) \<or>
     (c = intervention_command s ''kill_on_cost'' CommandTypeKillSession \<and> kill_Enabled (KillOnCost cfg) \<and>
        CostThresholdUSD (KillOnCost cfg) \<le> ts_SessionCost s)"

lemma try_dispatches:
  "pe_config (tryIntervention m pr iv p s n maxR w c) = pe_config p \<and>
   (dispatched (tryIntervention m pr iv p s n maxR w c) = dispatched p \<or>
    dispatched (tryIntervention m pr iv p s n maxR w c) = dispatched p @ [intervention_command s n c])"
proof -
  obtain ok r p1 where ca: "canAttempt p (ts_SessionID s) n maxR w (iv_now iv) = (ok, r, p1)"
    by (cases "canAttempt p (ts_SessionID s) n maxR w (iv_now iv)")
  have "dispatched p1 = dispatched p" "pe_config p1 = pe_config p"
    using ca by (auto simp: canAttempt_def Let_def split: if_splits)
  then show ?thesis
    by (cases ok; cases "failure_text (iv_answer iv)")
      (auto simp: tryIntervention_def ca Let_def markFailure_def markSuccess_def)
qed

definition adds_justified :: "go_time \<Rightarrow> TrackedSession set \<Rightarrow> 's PolicyEngine \<Rightarrow> 's PolicyEngine \<Rightarrow> bool" where
  "adds_justified now S p p' \<longleftrightarrow> pe_config p' = pe_config p \<and>
     (\<exists>cs. dispatched p' = dispatched p @ cs \<and> (\<forall>c \<in> set cs. \<exists>s \<in> S. justified (pe_config p) now s c))"

lemma adds_refl: "adds_justified now S p p"
  by (simp add: adds_justified_def)

lemma adds_trans:
  "adds_justified now S p q \<Longrightarrow> adds_justified now S' q r \<Longrightarrow> adds_justified now (S \<union> S') p r"
  by (fastforce simp: adds_justified_def)

lemma try_adds:
  assumes "justified (pe_config p) now s (intervention_command s n c)"
  shows "adds_justified now {s} p (tryIntervention m pr iv p s n maxR w c)"
  using try_dispatches [of m pr iv p s n maxR w c] assms by (fastforce simp: adds_justified_def)

lemma evaluations_add:
  "adds_justified now {s} p (evaluateResumeOnIdle m pr iv p s now)"
  "adds_justified now {s} p (evaluateRestartOnCompaction m pr iv p s)"
  "adds_justified now {s} p (evaluateKillOnCost m pr iv p s)"
  by (auto simp: evaluateResumeOnIdle_def evaluateRestartOnCompaction_def evaluateKillOnCost_def Let_def
      time_is_zero_def justified_def adds_refl intro!: try_adds)

lemma check_sessions_adds: "adds_justified now (set ss) p (check_sessions m pr iv alive now ss p)"
proof (induction ss arbitrary: p)
  case (Cons s ss)
  have "adds_justified now {s} p (evaluateKillOnCost m pr v3 (evaluateRestartOnCompaction m pr v2
      (evaluateResumeOnIdle m pr v1 p s now) s) s)" for v1 v2 v3
    using adds_trans [OF adds_trans [OF evaluations_add(1) [of now s p m pr v1] evaluations_add(2) [of now s _ m pr v2]]
        evaluations_add(3) [of now s _ m pr v3]] by simp
  from adds_trans [OF this Cons.IH] show ?case
    by (auto simp: Let_def adds_justified_def [of _ _ p p])
qed (simp add: adds_refl)

text \<open>
  The engine acts only with cause: every command a round of checks dispatches is the command of
  a policy that is enabled and whose threshold a session of the tracker has reached, addressed to
  that session's node and project.
\<close>
theorem interventions_justified:
  assumes "iteration_order (sessions t) os"
    and "p' = runChecks marshal process iv cancelled alive now (Some t) has_dispatcher os p"
  shows "\<exists>cs. dispatched p' = dispatched p @ cs \<and>
    (\<forall>c \<in> set cs. \<exists>k s. fmlookup (sessions t) k = Some s \<and> justified (pe_config p) now s c)"
proof -
  have "adds_justified now (set (GetAllSessions t os)) p p'"
    using check_sessions_adds [of now "GetAllSessions t os" p marshal process iv alive] adds_refl [of now _ p]
    by (auto simp: assms(2) runChecks_def)
  moreover have "set (GetAllSessions t os) = {s. \<exists>k. fmlookup (sessions t) k = Some s}"
    unfolding GetAllSessions_def by (rule set_map_values [OF assms(1)])
  ultimately show ?thesis by (fastforce simp: adds_justified_def)
qed

lemma interventions_justified_witness:
  "\<exists>cs. dispatched (runChecks (\<lambda>_. Inr []) (\<lambda>s a e. (None, s)) (\<lambda>_ _. demo_iv 5) False (\<lambda>_. True) 400000000000
      (Some demo_tracker) True [''s1'', ''s2''] silent_engine) = dispatched silent_engine @ cs \<and> length cs = 2 \<and>
    (\<exists>k s. fmlookup (sessions demo_tracker) k = Some s \<and> justified (pe_config silent_engine) 400000000000 s (hd cs))"
proof -
  let ?r = "runChecks (\<lambda>_. Inr []) (\<lambda>s a e. (None, s)) (\<lambda>_ _. demo_iv 5) False (\<lambda>_. True) 400000000000
      (Some demo_tracker) True [''s1'', ''s2''] silent_engine"
  have order: "iteration_order (sessions demo_tracker) [''s1'', ''s2'']"
    by (auto simp: iteration_order_def demo_tracker_def AddSession_def demo_session_def zero_session_def
        NewSessionTracker_def upsertSession_def cache_session_def Let_def)
  have len: "length (dispatched ?r) = 2" "dispatched silent_engine = []" by code_simp+
  obtain cs where "dispatched ?r = dispatched silent_engine @ cs"
      "\<forall>c \<in> set cs. \<exists>k s. fmlookup (sessions demo_tracker) k = Some s \<and> justified (pe_config silent_engine) 400000000000 s c"
    using interventions_justified [OF order refl] by blast
  moreover from this len have "length cs = 2" by simp
  moreover from this have "hd cs \<in> set cs" by (intro hd_in_set) auto
  ultimately show ?thesis by blast
qed

text \<open>
  Policy events are numbered from 1 in every run of the supervisor and use the number as their
  primary key: if the table already holds the event of an earlier run with the same number, the
  insert of the new event fails and the table keeps the old row.
\<close>
theorem policy_event_lost_after_restart:
  assumes "has_db q" and "policy_id (unat seq) |\<in>| fmdom (events_table q)"
  shows "\<exists>err. persistEvent format now' None q (policy_event seq eventType sessionID data now) = (Some err, q)"
  using assms by (simp add: persistEvent_def policy_event_def Let_def)

lemma policy_event_lost_after_restart_witness:
  "\<exists>err. persistEvent (\<lambda>_. []) 1 None (demo_pipeline\<lparr>events_table := fmupd ''policy-1'' (row_of (\<lambda>_. []) 1 (demo_event ''a'' 1)) fmempty\<rparr>)
     (policy_event 1 ''policy.alert'' ''s'' ''{}'' 2) =
     (Some err, demo_pipeline\<lparr>events_table := fmupd ''policy-1'' (row_of (\<lambda>_. []) 1 (demo_event ''a'' 1)) fmempty\<rparr>)"
proof -
  have "policy_id (unat (1 :: uint64)) = ''policy-1''" by code_simp
  then show ?thesis
    by (intro policy_event_lost_after_restart) (simp_all add: demo_pipeline_def)
qed

end
