(* ===== verification/Hub.thy ===== *)
theory Hub
  imports Result_Routing Security
begin

text \<open>
  \<open>internal/supervisor/hub.go\<close>, \<open>agent_conn.go\<close> and the hub side of \<open>command_dispatcher.go\<close>: the
  table of agent connections, its event loop, the read and write pumps and the command transport.

  A connection is an entry of a store, so that two connections of one agent stay distinct. Its
  send channel has a buffer of 256 messages and can be closed once; what Go turns into a panic is
  recorded in \<open>panic\<close>. The first part gives the body of each \<open>select\<close> case and handler, the second
  interleaves the goroutines.

  The two registry pointers of the hub are only ever set to one registry, by \<open>Server.SetRegistry\<close>;
  that registry is the field \<open>registry\<close>, and two flags say which pointer is set.
\<close>

section \<open>Data\<close>

record HubEvent =
  he_Type :: string
  he_AgentID :: string
  he_Time :: go_time

record AgentConn =
  ac_agentID :: string
  ac_send :: "string list"
  ac_closed :: bool
  ac_open :: bool
  ac_lastHeartbeat :: go_time

datatype go_panic = CloseOfClosedChannel | SendOnClosedChannel

record Hub =
  clients :: "(string, nat) fmap"
  conns :: "(nat, AgentConn) fmap"
  hub_events :: "HubEvent list"
  authToken :: string
  allowedOrigins :: "string list"
  strictOrigin :: bool
  heartbeatInterval :: duration
  heartbeatTimeout :: int
  registry :: NodeRegistry
  has_nodeRegistry :: bool
  has_credentialRegistry :: bool
  expectedCredVersion :: int
  commandDispatcher :: "router option"
  panic :: "go_panic option"

definition send_capacity :: nat where "send_capacity = 256"
definition events_capacity :: nat where "events_capacity = 64"

definition NewHub :: "NodeRegistry \<Rightarrow> string \<Rightarrow> string list \<Rightarrow> duration \<Rightarrow> int \<Rightarrow> Hub" where
  "NewHub r token origins interval timeout =
     \<lparr>clients = fmempty, conns = fmempty, hub_events = [], authToken = token, allowedOrigins = origins,
      strictOrigin = False, heartbeatInterval = interval, heartbeatTimeout = timeout, registry = r,
      has_nodeRegistry = False, has_credentialRegistry = False, expectedCredVersion = 0,
      commandDispatcher = None, panic = None\<rparr>"

definition newAgentConn :: "go_time \<Rightarrow> string \<Rightarrow> AgentConn" where
  "newAgentConn now agentID = \<lparr>ac_agentID = agentID, ac_send = [], ac_closed = False, ac_open = True,
     ac_lastHeartbeat = now\<rparr>"

text \<open>What the surroundings provide: the decoders of the payloads, the timestamp codec, the database
  outcomes that can occur and the messages that can be broadcast.\<close>

record hub_world =
  w_codec :: time_codec
  w_envelope :: envelope_codec
  w_command :: "Command \<Rightarrow> string go_result"
  w_sync :: "string \<Rightarrow> CredentialSyncPayload go_result"
  w_auth :: "string \<Rightarrow> AuthStateReport list go_result"
  w_result :: "string \<Rightarrow> CommandResult go_result"
  w_outcomes :: "exec_outcome set"
  w_broadcasts :: "string set"

section \<open>Configuration\<close>

definition UpdateAuthToken :: "Hub \<Rightarrow> string \<Rightarrow> Hub" where
  "UpdateAuthToken h newToken = h\<lparr>authToken := newToken\<rparr>"

definition SetStrictOrigin :: "Hub \<Rightarrow> bool \<Rightarrow> Hub" where
  "SetStrictOrigin h strict = h\<lparr>strictOrigin := strict\<rparr>"

definition SetAllowedOrigins :: "Hub \<Rightarrow> string list \<Rightarrow> Hub" where
  "SetAllowedOrigins h origins = h\<lparr>allowedOrigins := origins\<rparr>"

definition ConfigureCredentialReconciliation :: "Hub \<Rightarrow> bool \<Rightarrow> int \<Rightarrow> Hub" where
  "ConfigureCredentialReconciliation h has expectedVersion =
     h\<lparr>has_credentialRegistry := has, expectedCredVersion := expectedVersion\<rparr>"

definition ConfigureNodeRegistry :: "Hub \<Rightarrow> bool \<Rightarrow> Hub" where
  "ConfigureNodeRegistry h has = h\<lparr>has_nodeRegistry := has\<rparr>"

definition ConfigureCommandResultDispatcher :: "Hub \<Rightarrow> router option \<Rightarrow> Hub" where
  "ConfigureCommandResultDispatcher h d = h\<lparr>commandDispatcher := d\<rparr>"

definition ClientCount :: "Hub \<Rightarrow> nat" where
  "ClientCount h = fcard (fmdom (clients h))"

section \<open>Accepting connections\<close>

record ws_request =
  rq_Authorization :: string
  rq_token :: string
  rq_Origin :: string
  rq_NodeID :: string
  rq_handshake_ok :: bool
  rq_uuid :: string

definition checkOriginStrict :: "Hub \<Rightarrow> ws_request \<Rightarrow> bool" where
  "checkOriginStrict h r =
     (if rq_Origin r = [] then False else list_ex (MatchOrigin (rq_Origin r)) (allowedOrigins h))"

definition checkOrigin :: "Hub \<Rightarrow> ws_request \<Rightarrow> bool" where
  "checkOrigin h r =
     (if strictOrigin h then checkOriginStrict h r
      else if allowedOrigins h = [] then True
      else if rq_Origin r = [] then True
      else list_ex (\<lambda>allowed. allowed = ''*'' \<or> allowed = rq_Origin r) (allowedOrigins h))"

definition request_token :: "ws_request \<Rightarrow> string" where
  "request_token r =
     (if has_prefix (rq_Authorization r) ''Bearer '' then trim_prefix (rq_Authorization r) ''Bearer ''
      else rq_token r)"

text \<open>The connection that \<open>ServeWS\<close> offers to the loop, if it gets that far; the upgrade fails when
  \<open>checkOrigin\<close> does or when the handshake does.\<close>

definition ServeWS :: "Hub \<Rightarrow> go_time \<Rightarrow> ws_request \<Rightarrow> AgentConn option" where
  "ServeWS h now r =
     (if request_token r \<noteq> authToken h then None
      else if \<not> (checkOrigin h r \<and> rq_handshake_ok r) then None
      else
        let agentID = trim_space (rq_NodeID r)
        in Some (newAgentConn now (if agentID = [] then rq_uuid r else agentID)))"

section \<open>The event loop\<close>

definition set_conn :: "Hub \<Rightarrow> nat \<Rightarrow> AgentConn \<Rightarrow> Hub" where
  "set_conn h c ac = h\<lparr>conns := fmupd c ac (conns h)\<rparr>"

text \<open>\<open>close(conn.send)\<close> and \<open>conn.conn.Close()\<close>.\<close>

definition close_send :: "Hub \<Rightarrow> nat \<Rightarrow> Hub" where
  "close_send h c =
     (case fmlookup (conns h) c of
        None \<Rightarrow> h
      | Some ac \<Rightarrow>
          if ac_closed ac then h\<lparr>panic := Some CloseOfClosedChannel\<rparr>
          else set_conn h c (ac\<lparr>ac_closed := True\<rparr>))"

definition close_ws :: "Hub \<Rightarrow> nat \<Rightarrow> Hub" where
  "close_ws h c =
     (case fmlookup (conns h) c of
        None \<Rightarrow> h
      | Some ac \<Rightarrow> set_conn h c (ac\<lparr>ac_open := False\<rparr>))"

text \<open>A panic ends the goroutine, and with it the program.\<close>

definition unless_panic :: "(Hub \<Rightarrow> Hub) \<Rightarrow> Hub \<Rightarrow> Hub" where
  "unless_panic f h = (if panic h = None then f h else h)"

definition emit_event :: "HubEvent \<Rightarrow> Hub \<Rightarrow> Hub" where
  "emit_event ev h =
     (if length (hub_events h) < events_capacity then h\<lparr>hub_events := hub_events h @ [ev]\<rparr> else h)"

definition registerNodeOnline :: "time_codec \<Rightarrow> go_time \<Rightarrow> exec_outcome \<Rightarrow> string \<Rightarrow> Hub \<Rightarrow> Hub" where
  "registerNodeOnline tc now out agentID h =
     (if \<not> has_nodeRegistry h \<or> agentID = [] then h
      else h\<lparr>registry := snd (Register tc now out (registry h)
        (zero_node\<lparr>ne_ID := agentID, ne_Hostname := agentID\<rparr>))\<rparr>)"

definition registerNodeOffline :: "time_codec \<Rightarrow> go_time \<Rightarrow> exec_outcome \<Rightarrow> exec_outcome \<Rightarrow> string \<Rightarrow> Hub \<Rightarrow> Hub" where
  "registerNodeOffline tc now qout out agentID h =
     (if \<not> has_nodeRegistry h \<or> agentID = [] then h
      else h\<lparr>registry := snd (MarkOffline tc now qout out (registry h) agentID)\<rparr>)"

definition run_register :: "time_codec \<Rightarrow> go_time \<Rightarrow> exec_outcome \<Rightarrow> nat \<Rightarrow> AgentConn \<Rightarrow> Hub \<Rightarrow> Hub" where
  "run_register tc now out c ac h =
     (let h1 = (case fmlookup (clients h) (ac_agentID ac) of
                  Some existing \<Rightarrow>
                    if existing \<noteq> c then unless_panic (\<lambda>h. close_ws h existing) (close_send h existing) else h
                | None \<Rightarrow> h)
      in unless_panic (\<lambda>h.
           emit_event \<lparr>he_Type = ''node.online'', he_AgentID = ac_agentID ac, he_Time = now\<rparr>
             (registerNodeOnline tc now out (ac_agentID ac)
               (h\<lparr>clients := fmupd (ac_agentID ac) c (clients h)\<rparr>))) h1)"

definition run_unregister :: "time_codec \<Rightarrow> go_time \<Rightarrow> exec_outcome \<Rightarrow> exec_outcome \<Rightarrow> nat \<Rightarrow> AgentConn \<Rightarrow> Hub \<Rightarrow> Hub" where
  "run_unregister tc now qout out c ac h =
     (if fmlookup (clients h) (ac_agentID ac) = Some c
      then unless_panic (registerNodeOffline tc now qout out (ac_agentID ac))
        (close_send (h\<lparr>clients := fmdrop (ac_agentID ac) (clients h)\<rparr>) c)
      else h)"

text \<open>The loops over the clients, in the visiting order \<open>ks\<close>. Deleting the entry just visited does not
  change which entries follow.\<close>

fun run_broadcast :: "string \<Rightarrow> string list \<Rightarrow> Hub \<Rightarrow> Hub" where
  "run_broadcast msg [] h = h"
| "run_broadcast msg (k # ks) h =
     (case fmlookup (clients h) k of
        None \<Rightarrow> run_broadcast msg ks h
      | Some c \<Rightarrow>
          (case fmlookup (conns h) c of
             None \<Rightarrow> run_broadcast msg ks h
           | Some ac \<Rightarrow>
               if ac_closed ac then h\<lparr>panic := Some SendOnClosedChannel\<rparr>
               else if length (ac_send ac) < send_capacity
               then run_broadcast msg ks (set_conn h c (ac\<lparr>ac_send := ac_send ac @ [msg]\<rparr>))
               else run_broadcast msg ks ((close_send h c)\<lparr>clients := fmdrop k (clients h)\<rparr>)))"

fun run_done :: "string list \<Rightarrow> Hub \<Rightarrow> Hub" where
  "run_done [] h = h"
| "run_done (k # ks) h =
     (case fmlookup (clients h) k of
        None \<Rightarrow> run_done ks h
      | Some c \<Rightarrow>
          unless_panic (run_done ks)
            (unless_panic (\<lambda>h. (close_ws h c)\<lparr>clients := fmdrop k (clients h)\<rparr>) (close_send h c)))"

section \<open>Heartbeats\<close>

definition timed_out :: "go_time \<Rightarrow> Hub \<Rightarrow> AgentConn \<Rightarrow> bool" where
  "timed_out now h ac \<longleftrightarrow>
     time_sub now (ac_lastHeartbeat ac) > wrap64 (heartbeatInterval h * heartbeatTimeout h)"

definition timed_out_conns :: "go_time \<Rightarrow> string list \<Rightarrow> Hub \<Rightarrow> nat list" where
  "timed_out_conns now ks h =
     filter (\<lambda>c. case fmlookup (conns h) c of None \<Rightarrow> False | Some ac \<Rightarrow> timed_out now h ac)
       (map_values (clients h) ks)"

fun drop_timed_out :: "time_codec \<Rightarrow> go_time \<Rightarrow> (nat \<Rightarrow> exec_outcome \<times> exec_outcome) \<Rightarrow> nat list \<Rightarrow> Hub \<Rightarrow> Hub" where
  "drop_timed_out tc now outs [] h = h"
| "drop_timed_out tc now outs (c # cs) h =
     (case fmlookup (conns h) c of
        None \<Rightarrow> drop_timed_out tc now outs cs h
      | Some ac \<Rightarrow>
          drop_timed_out tc now outs cs
            (close_ws (emit_event \<lparr>he_Type = ''node.offline'', he_AgentID = ac_agentID ac, he_Time = now\<rparr>
              (registerNodeOffline tc now (fst (outs c)) (snd (outs c)) (ac_agentID ac) h)) c))"

definition checkHeartbeats :: "time_codec \<Rightarrow> go_time \<Rightarrow> (nat \<Rightarrow> exec_outcome \<times> exec_outcome) \<Rightarrow> string list \<Rightarrow> Hub \<Rightarrow> Hub" where
  "checkHeartbeats tc now outs ks h = drop_timed_out tc now outs (timed_out_conns now ks h) h"

section \<open>Messages of an agent\<close>

definition reconcileCredentialSync :: "hub_world \<Rightarrow> exec_outcome \<Rightarrow> string \<Rightarrow> Hub \<Rightarrow> Hub" where
  "reconcileCredentialSync w qout payload h =
     (if \<not> has_credentialRegistry h then h
      else h\<lparr>registry := snd (HandleCredentialSyncMessage (w_sync w) (w_codec w) qout (registry h) payload
        (expectedCredVersion h))\<rparr>)"

definition reconcileAuthState :: "hub_world \<Rightarrow> go_time \<Rightarrow> exec_outcome \<Rightarrow> string \<Rightarrow> string \<Rightarrow> Hub \<Rightarrow> Hub" where
  "reconcileAuthState w now qout nodeID payload h =
     (if \<not> has_credentialRegistry h then h
      else h\<lparr>registry := snd (HandleAuthStateMessage (w_auth w) (w_codec w) now qout (registry h) nodeID payload)\<rparr>)"

definition handleCommandResultEnvelope :: "hub_world \<Rightarrow> go_time \<Rightarrow> Envelope \<Rightarrow> Hub \<Rightarrow> Hub" where
  "handleCommandResultEnvelope w now env h =
     (case commandDispatcher h of
        None \<Rightarrow> h
      | Some d \<Rightarrow> h\<lparr>commandDispatcher := Some (snd (HandleCommandResultEnvelope (w_result w) now d (Some env)))\<rparr>)"

definition handleEnvelope :: "hub_world \<Rightarrow> go_time \<Rightarrow> exec_outcome \<Rightarrow> nat \<Rightarrow> AgentConn \<Rightarrow> Envelope \<Rightarrow> Hub \<Rightarrow> Hub" where
  "handleEnvelope w now qout c ac env h =
     (let h1 = set_conn h c (ac\<lparr>ac_lastHeartbeat := now\<rparr>)
      in if env_Type env = MessageTypeHeartbeat then h1
         else if env_Type env = MessageTypeCredentialSync then reconcileCredentialSync w qout (env_Payload env) h1
         else if env_Type env = MessageTypeRegister then h1
         else if env_Type env = MessageTypeAuthState
         then reconcileAuthState w now qout (ac_agentID ac) (env_Payload env) h1
         else if env_Type env = MessageTypeCommandResult then handleCommandResultEnvelope w now env h1
         else h1)"

text \<open>One message read by \<open>readPump\<close>; what does not unmarshal is skipped.\<close>

definition read_message :: "hub_world \<Rightarrow> go_time \<Rightarrow> exec_outcome \<Rightarrow> nat \<Rightarrow> AgentConn \<Rightarrow> string \<Rightarrow> Hub \<Rightarrow> Hub" where
  "read_message w now qout c ac message h =
     (case UnmarshalEnvelope (w_envelope w) message of
        Inl _ \<Rightarrow> h
      | Inr env \<Rightarrow> handleEnvelope w now qout c ac env h)"

section \<open>The command transport\<close>

text \<open>\<open>hubCommandTransport.Send\<close> looks the connection up under the lock and sends after releasing it.\<close>

definition transport_lookup :: "hub_world \<Rightarrow> go_time \<Rightarrow> Hub option \<Rightarrow> string \<Rightarrow> Command \<Rightarrow> (nat \<times> string) go_result" where
  "transport_lookup w now hub nodeID cmd =
     (case hub of
        None \<Rightarrow> Inl (Errorf ''command transport unavailable'')
      | Some h \<Rightarrow>
          (case w_command w cmd of
             Inl err \<Rightarrow> Inl (Wrapf ''marshal command payload: '' err)
           | Inr payload \<Rightarrow>
               (case MarshalEnvelope (w_envelope w)
                  \<lparr>env_Version = ProtocolVersion, env_Type = MessageTypeCommand, env_RequestID = cmd_CommandID cmd,
                   env_Timestamp = time_unix now, env_Payload = payload\<rparr> of
                  Inl err \<Rightarrow> Inl (Wrapf ''marshal command envelope: '' err)
                | Inr data \<Rightarrow>
                    (case fmlookup (clients h) nodeID of
                       None \<Rightarrow> Inl (Errorf (''node '' @ nodeID @ '' is not connected''))
                     | Some c \<Rightarrow> Inr (c, data)))))"

definition transport_send :: "string \<Rightarrow> nat \<Rightarrow> string \<Rightarrow> Hub \<Rightarrow> go_error option \<times> Hub" where
  "transport_send nodeID c data h =
     (case fmlookup (conns h) c of
        None \<Rightarrow> (None, h)
      | Some ac \<Rightarrow>
          if ac_closed ac then (None, h\<lparr>panic := Some SendOnClosedChannel\<rparr>)
          else if length (ac_send ac) < send_capacity
          then (None, set_conn h c (ac\<lparr>ac_send := ac_send ac @ [data]\<rparr>))
          else (Some (Errorf (''node '' @ nodeID @ '' command channel is saturated'')), h))"

section \<open>The goroutines interleaved\<close>

text \<open>\<open>waiting\<close>: connections that \<open>ServeWS\<close> is about to hand to the loop; \<open>reading\<close>: their read pump
  runs; \<open>leaving\<close>: the pump has ended and wants to unregister; \<open>inflight\<close>: command sends between
  look-up and send; \<open>running\<close>: the loop has not seen the end of the context.\<close>

record hub_run =
  hub :: Hub
  waiting :: "nat set"
  reading :: "nat set"
  leaving :: "nat set"
  inflight :: "(string \<times> nat \<times> string) set"
  running :: bool

definition hub_start :: "Hub \<Rightarrow> hub_run" where
  "hub_start h = \<lparr>hub = h, waiting = {}, reading = {}, leaving = {}, inflight = {}, running = True\<rparr>"

inductive hub_step :: "hub_world \<Rightarrow> hub_run \<Rightarrow> hub_run \<Rightarrow> bool" for w where
  serve: "ServeWS (hub s) now req = Some ac \<Longrightarrow> fmlookup (conns (hub s)) c = None \<Longrightarrow>
    hub_step w s (s\<lparr>hub := set_conn (hub s) c ac, waiting := insert c (waiting s)\<rparr>)"
| register: "running s \<Longrightarrow> c \<in> waiting s \<Longrightarrow> fmlookup (conns (hub s)) c = Some ac \<Longrightarrow> out \<in> w_outcomes w \<Longrightarrow>
    hub_step w s (s\<lparr>hub := run_register (w_codec w) now out c ac (hub s), waiting := waiting s - {c},
      reading := insert c (reading s)\<rparr>)"
| message: "c \<in> reading s \<Longrightarrow> fmlookup (conns (hub s)) c = Some ac \<Longrightarrow> qout \<in> w_outcomes w \<Longrightarrow>
    hub_step w s (s\<lparr>hub := read_message w now qout c ac msg (hub s)\<rparr>)"
| read_end: "c \<in> reading s \<Longrightarrow>
    hub_step w s (s\<lparr>reading := reading s - {c}, leaving := insert c (leaving s)\<rparr>)"
| unregister: "running s \<Longrightarrow> c \<in> leaving s \<Longrightarrow> fmlookup (conns (hub s)) c = Some ac \<Longrightarrow> qout \<in> w_outcomes w \<Longrightarrow>
    out \<in> w_outcomes w \<Longrightarrow>
    hub_step w s (s\<lparr>hub := unless_panic (\<lambda>h. close_ws h c) (run_unregister (w_codec w) now qout out c ac (hub s)),
      leaving := leaving s - {c}\<rparr>)"
| abandon: "\<not> running s \<Longrightarrow> c \<in> leaving s \<Longrightarrow>
    hub_step w s (s\<lparr>hub := close_ws (hub s) c, leaving := leaving s - {c}\<rparr>)"
| broadcast: "running s \<Longrightarrow> msg \<in> w_broadcasts w \<Longrightarrow> iteration_order (clients (hub s)) ks \<Longrightarrow>
    hub_step w s (s\<lparr>hub := run_broadcast msg ks (hub s)\<rparr>)"
| tick: "running s \<Longrightarrow> iteration_order (clients (hub s)) ks \<Longrightarrow>
    (\<And>c. fst (outs c) \<in> w_outcomes w \<and> snd (outs c) \<in> w_outcomes w) \<Longrightarrow>
    hub_step w s (s\<lparr>hub := checkHeartbeats (w_codec w) now outs ks (hub s)\<rparr>)"
| stop: "running s \<Longrightarrow> iteration_order (clients (hub s)) ks \<Longrightarrow>
    hub_step w s (s\<lparr>hub := run_done ks (hub s), running := False\<rparr>)"
| look_up: "transport_lookup w now (Some (hub s)) nodeID cmd = Inr (c, data) \<Longrightarrow>
    hub_step w s (s\<lparr>inflight := insert (nodeID, c, data) (inflight s)\<rparr>)"
| send: "(nodeID, c, data) \<in> inflight s \<Longrightarrow>
    hub_step w s (s\<lparr>hub := snd (transport_send nodeID c data (hub s)), inflight := inflight s - {(nodeID, c, data)}\<rparr>)"
| pump: "fmlookup (conns (hub s)) c = Some ac \<Longrightarrow> ac_send ac = m # ms \<Longrightarrow>
    hub_step w s (s\<lparr>hub := set_conn (hub s) c (ac\<lparr>ac_send := ms\<rparr>)\<rparr>)"
| read_node: "qout \<in> w_outcomes w \<Longrightarrow>
    hub_step w s (s\<lparr>hub := (hub s)\<lparr>registry := snd (GetNode (w_codec w) qout (registry (hub s)) nodeID)\<rparr>\<rparr>)"
| take_event: "hub_events (hub s) = ev # evs \<Longrightarrow> hub_step w s (s\<lparr>hub := (hub s)\<lparr>hub_events := evs\<rparr>\<rparr>)"
| new_token: "hub_step w s (s\<lparr>hub := UpdateAuthToken (hub s) token\<rparr>)"

text \<open>A panic is the end of a run.\<close>

inductive hub_reachable :: "hub_world \<Rightarrow> Hub \<Rightarrow> hub_run \<Rightarrow> bool" for w h0 where
  start: "hub_reachable w h0 (hub_start h0)"
| step: "hub_reachable w h0 s \<Longrightarrow> panic (hub s) = None \<Longrightarrow> hub_step w s s' \<Longrightarrow> hub_reachable w h0 s'"

section \<open>The table of connections\<close>

text \<open>
  Over all interleavings: a client's send channel is open and filed under its own id, and a
  connection that is neither waiting nor in the table has been closed.
\<close>

definition conn_table :: "(string, nat) fmap \<Rightarrow> (nat, AgentConn) fmap \<Rightarrow> nat set \<Rightarrow> bool" where
  "conn_table cl cs W \<longleftrightarrow>
     (\<forall>a c. fmlookup cl a = Some c \<longrightarrow> c \<notin> W \<and>
        (\<exists>ac. fmlookup cs c = Some ac \<and> ac_agentID ac = a \<and> \<not> ac_closed ac)) \<and>
     (\<forall>c \<in> W. \<exists>ac. fmlookup cs c = Some ac \<and> \<not> ac_closed ac) \<and>
     (\<forall>c ac. fmlookup cs c = Some ac \<longrightarrow> c \<notin> W \<longrightarrow> fmlookup cl (ac_agentID ac) \<noteq> Some c \<longrightarrow> ac_closed ac)"

lemma conn_tableD:
  assumes "conn_table cl cs W"
  shows "fmlookup cl a = Some c \<Longrightarrow> c \<notin> W"
    and "fmlookup cl a = Some c \<Longrightarrow> \<exists>ac. fmlookup cs c = Some ac \<and> ac_agentID ac = a \<and> \<not> ac_closed ac"
    and "c \<in> W \<Longrightarrow> \<exists>ac. fmlookup cs c = Some ac \<and> \<not> ac_closed ac"
    and "fmlookup cs c = Some ac \<Longrightarrow> c \<notin> W \<Longrightarrow> fmlookup cl (ac_agentID ac) \<noteq> Some c \<Longrightarrow> ac_closed ac"
  using assms by (auto simp: conn_table_def)

lemma conn_table_touch:
  assumes "conn_table cl cs W" and "fmlookup cs c = Some ac"
    and "ac_agentID ac' = ac_agentID ac" and "ac_closed ac' = ac_closed ac"
  shows "conn_table cl (fmupd c ac' cs) W"
  using conn_tableD [OF assms(1)] assms(2-4) unfolding conn_table_def by (auto; fastforce)

lemma conn_table_drop:
  assumes t: "conn_table cl cs W" and k: "fmlookup cl k = Some c" and ac: "fmlookup cs c = Some ac"
    and "ac_agentID ac' = ac_agentID ac" and "ac_closed ac'"
  shows "conn_table (fmdrop k cl) (fmupd c ac' cs) W"
proof -
  have own: "ac_agentID ac = k" "c \<notin> W" using conn_tableD(1,2) [OF t k] ac by auto
  have other: "c' \<noteq> c" if "fmlookup cl a = Some c'" "a \<noteq> k" for a c'
    using conn_tableD(2) [OF t that(1)] own ac that(2) by auto
  show ?thesis
    using assms own other by (auto simp: conn_table_def)
qed

lemma conn_table_wait:
  assumes "conn_table cl cs W" and "fmlookup cs c = None" and "\<not> ac_closed ac"
  shows "conn_table cl (fmupd c ac cs) (insert c W)"
  using assms by (fastforce simp: conn_table_def)

lemma conn_table_join:
  assumes t: "conn_table cl cs W" and c: "c \<in> W" "fmlookup cs c = Some ac" and k: "fmlookup cl (ac_agentID ac) = None"
  shows "conn_table (fmupd (ac_agentID ac) c cl) cs (W - {c})"
  using conn_tableD(3) [OF t c(1)] assms by (fastforce simp: conn_table_def)

definition hub_inv :: "hub_run \<Rightarrow> bool" where
  "hub_inv s \<longleftrightarrow> conn_table (clients (hub s)) (conns (hub s)) (waiting s) \<and>
     panic (hub s) \<noteq> Some CloseOfClosedChannel"

text \<open>Operations that touch neither table nor channels.\<close>

lemma same_table_simps [simp]:
  "clients (emit_event ev h) = clients h" "conns (emit_event ev h) = conns h" "panic (emit_event ev h) = panic h"
  "registry (emit_event ev h) = registry h"
  "clients (registerNodeOnline tc now out a h) = clients h" "conns (registerNodeOnline tc now out a h) = conns h"
  "panic (registerNodeOnline tc now out a h) = panic h"
  "clients (registerNodeOffline tc now qout out a h) = clients h"
  "conns (registerNodeOffline tc now qout out a h) = conns h"
  "panic (registerNodeOffline tc now qout out a h) = panic h"
  "clients (UpdateAuthToken h t) = clients h" "conns (UpdateAuthToken h t) = conns h"
  "panic (UpdateAuthToken h t) = panic h" "registry (UpdateAuthToken h t) = registry h"
  by (simp_all add: emit_event_def registerNodeOnline_def registerNodeOffline_def UpdateAuthToken_def)

lemma handleEnvelope_table [simp]:
  "clients (handleEnvelope w now q c ac env h) = clients h"
  "conns (handleEnvelope w now q c ac env h) = fmupd c (ac\<lparr>ac_lastHeartbeat := now\<rparr>) (conns h)"
  "panic (handleEnvelope w now q c ac env h) = panic h"
  by (auto simp: handleEnvelope_def Let_def set_conn_def reconcileCredentialSync_def reconcileAuthState_def
      handleCommandResultEnvelope_def split: option.splits)

lemma close_ws_table [simp]:
  "clients (close_ws h c) = clients h" "panic (close_ws h c) = panic h" "registry (close_ws h c) = registry h"
  "has_nodeRegistry (close_ws h c) = has_nodeRegistry h"
  "conns (close_ws h c) = (case fmlookup (conns h) c of None \<Rightarrow> conns h
     | Some ac \<Rightarrow> fmupd c (ac\<lparr>ac_open := False\<rparr>) (conns h))"
  by (auto simp: close_ws_def set_conn_def split: option.splits)

lemma close_send_open:
  assumes "fmlookup (conns h) c = Some ac" and "\<not> ac_closed ac"
  shows "close_send h c = h\<lparr>conns := fmupd c (ac\<lparr>ac_closed := True\<rparr>) (conns h)\<rparr>"
  using assms by (simp add: close_send_def set_conn_def)

lemma conn_table_close_ws:
  "conn_table cl (conns h) W \<Longrightarrow> conn_table cl (conns (close_ws h c)) W"
  by (auto split: option.splits intro: conn_table_touch)

lemma register_table:
  assumes t: "conn_table (clients h) (conns h) W" and p: "panic h = None"
    and c: "c \<in> W" "fmlookup (conns h) c = Some ac"
  shows "conn_table (clients (run_register tc now out c ac h)) (conns (run_register tc now out c ac h)) (W - {c}) \<and>
    panic (run_register tc now out c ac h) = None"
proof (cases "fmlookup (clients h) (ac_agentID ac)")
  case None
  then show ?thesis using conn_table_join [OF t c None] p by (simp add: run_register_def unless_panic_def)
next
  case (Some x)
  let ?k = "ac_agentID ac"
  obtain ax where ax: "fmlookup (conns h) x = Some ax" "\<not> ac_closed ax" using conn_tableD(2) [OF t Some] by auto
  have ne: "x \<noteq> c" using conn_tableD(1) [OF t Some] c(1) by auto
  let ?cs = "fmupd x (ax\<lparr>ac_closed := True, ac_open := False\<rparr>) (conns h)"
  have "conn_table (fmdrop ?k (clients h)) ?cs W" by (rule conn_table_drop [OF t Some ax(1)]) simp_all
  from conn_table_join [OF this c(1), of ac] have "conn_table (fmupd ?k c (fmdrop ?k (clients h))) ?cs (W - {c})"
    using c(2) ne by simp
  moreover have "fmupd ?k c (fmdrop ?k (clients h)) = fmupd ?k c (clients h)" by (rule fmap_ext) simp
  ultimately show ?thesis
    using ne p ax Some by (simp add: run_register_def unless_panic_def close_send_open)
qed

lemma unregister_table:
  assumes t: "conn_table (clients h) (conns h) W" and p: "panic h = None" and ac: "fmlookup (conns h) c = Some ac"
  shows "conn_table (clients (run_unregister tc now q out c ac h)) (conns (run_unregister tc now q out c ac h)) W \<and>
    panic (run_unregister tc now q out c ac h) = None"
proof (cases "fmlookup (clients h) (ac_agentID ac) = Some c")
  case True
  have "\<not> ac_closed ac" using conn_tableD(2) [OF t True] ac by auto
  then show ?thesis
    using conn_table_drop [OF t True ac, of "ac\<lparr>ac_closed := True\<rparr>"] p ac True
    by (simp add: run_unregister_def unless_panic_def close_send_open)
qed (simp add: run_unregister_def t p)

lemma broadcast_table:
  "conn_table (clients h) (conns h) W \<Longrightarrow> panic h = None \<Longrightarrow>
   conn_table (clients (run_broadcast msg ks h)) (conns (run_broadcast msg ks h)) W \<and> panic (run_broadcast msg ks h) = None"
proof (induction msg ks h rule: run_broadcast.induct)
  case (2 msg k ks h)
  show ?case
  proof (cases "fmlookup (clients h) k")
    case (Some c)
    obtain ac where ac: "fmlookup (conns h) c = Some ac" "\<not> ac_closed ac" using conn_tableD(2) [OF 2(5) Some] by auto
    have "conn_table (fmdrop k (clients h)) (fmupd c (ac\<lparr>ac_closed := True\<rparr>) (conns h)) W"
      by (rule conn_table_drop [OF 2(5) Some ac(1)]) simp_all
    moreover have "conn_table (clients h) (fmupd c (ac\<lparr>ac_send := ac_send ac @ [msg]\<rparr>) (conns h)) W"
      by (rule conn_table_touch [OF 2(5) ac(1)]) simp_all
    ultimately show ?thesis
      using 2(3,4) [OF Some ac] 2(6) Some ac by (simp add: set_conn_def close_send_open)
  qed (use 2 in simp)
qed simp

lemma done_table:
  "conn_table (clients h) (conns h) W \<Longrightarrow> panic h = None \<Longrightarrow>
   conn_table (clients (run_done ks h)) (conns (run_done ks h)) W \<and> panic (run_done ks h) = None"
proof (induction ks arbitrary: h)
  case (Cons k ks)
  show ?case
  proof (cases "fmlookup (clients h) k")
    case (Some c)
    obtain ac where ac: "fmlookup (conns h) c = Some ac" "\<not> ac_closed ac" using conn_tableD(2) [OF Cons(2) Some] by auto
    have "conn_table (fmdrop k (clients h)) (fmupd c (ac\<lparr>ac_closed := True, ac_open := False\<rparr>) (conns h)) W"
      by (rule conn_table_drop [OF Cons(2) Some ac(1)]) simp_all
    then show ?thesis using Cons(1) Cons(3) Some ac by (simp add: unless_panic_def close_send_open)
  qed (use Cons in simp)
qed simp

lemma heartbeat_table:
  "conn_table (clients h) (conns h) W \<Longrightarrow> panic h = None \<Longrightarrow>
   conn_table (clients h) (conns (drop_timed_out tc now outs cs h)) W \<and>
   panic (drop_timed_out tc now outs cs h) = None \<and> clients (drop_timed_out tc now outs cs h) = clients h"
proof (induction cs arbitrary: h)
  case (Cons c cs)
  show ?case
  proof (cases "fmlookup (conns h) c")
    case (Some ac)
    have "conn_table (clients h) (fmupd c (ac\<lparr>ac_open := False\<rparr>) (conns h)) W"
      by (rule conn_table_touch [OF Cons(2) Some]) simp_all
    then show ?thesis
      using Cons(1) [of "close_ws (emit_event \<lparr>he_Type = ''node.offline'', he_AgentID = ac_agentID ac, he_Time = now\<rparr>
              (registerNodeOffline tc now (fst (outs c)) (snd (outs c)) (ac_agentID ac) h)) c"] Cons(3) Some by simp
  qed (use Cons in simp)
qed simp

lemma hub_step_inv: "hub_step w s s' \<Longrightarrow> hub_inv s \<Longrightarrow> panic (hub s) = None \<Longrightarrow> hub_inv s'"
proof (induction rule: hub_step.induct)
  case (serve s now req ac c)
  have "\<not> ac_closed ac" using serve(1) by (auto simp: ServeWS_def newAgentConn_def Let_def split: if_splits)
  then show ?case using serve conn_table_wait [of "clients (hub s)" "conns (hub s)" "waiting s" c ac]
    by (simp add: hub_inv_def set_conn_def)
next
  case (register s c ac out now)
  then show ?case using register_table [of "hub s" "waiting s" c ac "w_codec w" now out] by (simp add: hub_inv_def)
next
  case (message c s ac qout now msg)
  then show ?case using conn_table_touch [of "clients (hub s)" "conns (hub s)" "waiting s" c ac "ac\<lparr>ac_lastHeartbeat := now\<rparr>"]
    by (auto simp: hub_inv_def read_message_def split: sum.splits)
next
  case (unregister s c ac qout out now)
  then show ?case
    using unregister_table [of "hub s" "waiting s" c ac "w_codec w" now qout out] conn_table_close_ws
    by (simp add: hub_inv_def unless_panic_def del: close_ws_table(5))
next
  case (abandon s c)
  then show ?case using conn_table_close_ws by (simp add: hub_inv_def del: close_ws_table(5))
next
  case (broadcast s msg ks)
  then show ?case using broadcast_table [of "hub s" "waiting s" msg ks] by (simp add: hub_inv_def)
next
  case (tick s ks outs now)
  then show ?case using heartbeat_table [of "hub s" "waiting s" "w_codec w" now outs "timed_out_conns now ks (hub s)"]
    by (simp add: hub_inv_def checkHeartbeats_def)
next
  case (stop s ks)
  then show ?case using done_table [of "hub s" "waiting s" ks] by (simp add: hub_inv_def)
next
  case (send nodeID c data s)
  then show ?case
    by (auto simp: hub_inv_def transport_send_def set_conn_def split: option.splits intro: conn_table_touch)
next
  case (pump s c ac m ms)
  then show ?case
    using conn_table_touch [of "clients (hub s)" "conns (hub s)" "waiting s" c ac "ac\<lparr>ac_send := ms\<rparr>"]
    by (simp add: hub_inv_def set_conn_def)
qed (simp_all add: hub_inv_def)

definition fresh_hub :: "Hub \<Rightarrow> bool" where
  "fresh_hub h \<longleftrightarrow> clients h = fmempty \<and> conns h = fmempty \<and> panic h = None"

lemma hub_reachable_inv: "hub_reachable w h0 s \<Longrightarrow> fresh_hub h0 \<Longrightarrow> hub_inv s"
proof (induction rule: hub_reachable.induct)
  case start
  then show ?case by (simp add: hub_inv_def hub_start_def fresh_hub_def conn_table_def)
qed (auto intro: hub_step_inv)

section \<open>Online nodes are connected\<close>

text \<open>What a reader of the registry sees of a node.\<close>

definition seen_online :: "time_codec \<Rightarrow> NodeRegistry \<Rightarrow> string \<Rightarrow> bool" where
  "seen_online tc r a \<longleftrightarrow> (case node_or_row tc None r [] a of Inl _ \<Rightarrow> False | Inr e \<Rightarrow> ne_Status e = NodeStatusOnline)"

lemma node_or_row_Inr_iff:
  "node_or_row tc q r act k = Inr e \<longleftrightarrow>
     fmlookup (nodes r) k = Some e \<or>
     fmlookup (nodes r) k = None \<and> q = None \<and>
       (\<exists>row. fmlookup (nodes_table r) k = Some row \<and> scanNodeRow tc k row = Inr e)"
  using readNode_Inr_iff [of tc q r k e]
  by (cases "readNode tc q r k") (auto simp: node_or_row_def split: option.splits if_splits)

lemma seen_online_iff:
  "seen_online tc r a \<longleftrightarrow> (\<exists>e. node_or_row tc None r [] a = Inr e \<and> ne_Status e = NodeStatusOnline)"
  by (auto simp: seen_online_def split: sum.splits)

lemma seen_online_cache:
  assumes "node_or_row tc q r act k = Inr e" and "ne_Status e' = ne_Status e"
  shows "seen_online tc (cache_node r k e') a = seen_online tc r a"
  using assms by (auto simp: seen_online_iff node_or_row_Inr_iff cache_node_def split: if_splits)

lemma seen_online_put:
  "seen_online tc (cache_node (r\<lparr>nodes_table := fmupd k row (nodes_table r)\<rparr>) k e) a =
     (if a = k then ne_Status e = NodeStatusOnline else seen_online tc r a)"
  by (auto simp: seen_online_iff node_or_row_Inr_iff cache_node_def)

lemma seen_online_UpdateAuthState:
  "seen_online tc (snd (UpdateAuthState tc now q r k states)) a = seen_online tc r a"
  by (auto simp: UpdateAuthState_def store_auth_states_def Let_def seen_online_cache split: sum.splits)

lemma seen_online_Reconcile:
  "seen_online tc (snd (ReconcileCredentialVersion tc q r k v w)) a = seen_online tc r a"
  by (auto simp: ReconcileCredentialVersion_def seen_online_cache split: sum.splits)

lemma seen_online_GetNode: "seen_online tc (snd (GetNode tc q r k)) a = seen_online tc r a"
  using seen_online_cache [of tc q r "''get node''" k]
  by (auto simp: GetNode_def node_or_row_Inr_iff readNode_Inr_iff split: option.splits sum.splits)

lemma seen_online_GetNode_result:
  "GetNode tc None r k = (Inr e, r') \<Longrightarrow> seen_online tc r k \<longleftrightarrow> ne_Status e = NodeStatusOnline"
  by (auto simp: GetNode_def seen_online_iff node_or_row_Inr_iff readNode_Inr_iff split: option.splits sum.splits if_splits)

lemma seen_online_Register:
  "seen_online tc (snd (Register tc now out r (zero_node\<lparr>ne_ID := k, ne_Hostname := k\<rparr>))) a \<Longrightarrow>
   seen_online tc r a \<or> a = k \<and> k \<noteq> []"
  by (auto simp: Register_def upsertNode_def Let_def seen_online_put split: if_splits option.splits)

lemma seen_online_MarkOffline:
  assumes "registry_inv tc r"
  shows "seen_online tc (snd (MarkOffline tc now None None r k)) a \<longleftrightarrow> a \<noteq> k \<and> seen_online tc r a"
proof (cases "node_or_row tc None r ''mark node offline'' k")
  case (Inl err)
  then have "\<not> seen_online tc r k" by (auto simp: seen_online_iff node_or_row_Inr_iff node_or_row_def split: option.splits sum.splits if_splits)
  then show ?thesis using Inl by (auto simp: MarkOffline_def)
next
  case (Inr e)
  then show ?thesis using node_or_row_ID [OF assms Inr]
    by (simp add: MarkOffline_def upsertNode_def Let_def seen_online_put NodeStatusOffline_def NodeStatusOnline_def)
qed

lemma HandleAuthState_keeps:
  "registry_inv tc r \<Longrightarrow> registry_inv tc (snd (HandleAuthStateMessage u tc now q r k p))"
  "seen_online tc (snd (HandleAuthStateMessage u tc now q r k p)) a = seen_online tc r a"
  by (auto simp: HandleAuthStateMessage_def seen_online_UpdateAuthState keeps split: sum.splits)

lemma HandleCredentialSync_keeps:
  "registry_inv tc r \<Longrightarrow> registry_inv tc (snd (HandleCredentialSyncMessage u tc q r p v))"
  "seen_online tc (snd (HandleCredentialSyncMessage u tc q r p v)) a = seen_online tc r a"
  by (auto simp: HandleCredentialSyncMessage_def seen_online_Reconcile keeps split: sum.splits)

text \<open>The registry side of each step.\<close>

lemma hub_registry_simps [simp]:
  "registry (close_send h c) = registry h" "has_nodeRegistry (close_send h c) = has_nodeRegistry h"
  "registry (set_conn h c ac) = registry h" "has_nodeRegistry (set_conn h c ac) = has_nodeRegistry h"
  "has_nodeRegistry (emit_event ev h) = has_nodeRegistry h"
  "has_nodeRegistry (registerNodeOnline tc now out a h) = has_nodeRegistry h"
  "has_nodeRegistry (registerNodeOffline tc now q out a h) = has_nodeRegistry h"
  "has_nodeRegistry (UpdateAuthToken h t) = has_nodeRegistry h"
  "registry (snd (transport_send n c d h)) = registry h"
  "has_nodeRegistry (snd (transport_send n c d h)) = has_nodeRegistry h"
  "clients (snd (transport_send n c d h)) = clients h"
  "clients (set_conn h c ac) = clients h" "clients (close_send h c) = clients h"
  by (auto simp: close_send_def set_conn_def emit_event_def registerNodeOnline_def registerNodeOffline_def
      UpdateAuthToken_def transport_send_def split: option.splits)

definition online_inv :: "time_codec \<Rightarrow> Hub \<Rightarrow> bool" where
  "online_inv tc h \<longleftrightarrow> registry_inv tc (registry h) \<and>
     (\<forall>a. seen_online tc (registry h) a \<longrightarrow> a \<noteq> [] \<and> has_nodeRegistry h \<and> fmlookup (clients h) a \<noteq> None)"

lemma online_inv_cong:
  assumes "online_inv tc h" and "registry_inv tc (registry h')"
    and "\<And>a. seen_online tc (registry h') a \<Longrightarrow> seen_online tc (registry h) a"
    and "clients h' = clients h" and "has_nodeRegistry h' = has_nodeRegistry h"
  shows "online_inv tc h'"
  using assms unfolding online_inv_def by auto

lemma online_handleEnvelope:
  assumes "online_inv tc h" and "tc = w_codec w"
  shows "online_inv tc (handleEnvelope w now q c ac env h)"
proof (rule online_inv_cong [OF assms(1)])
  have r: "registry_inv tc (registry h)" using assms(1) by (simp add: online_inv_def)
  let ?h = "handleEnvelope w now q c ac env h"
  note unf = handleEnvelope_def Let_def reconcileCredentialSync_def reconcileAuthState_def handleCommandResultEnvelope_def
  show "registry_inv tc (registry ?h)"
    using r assms(2) by (auto simp: unf HandleAuthState_keeps HandleCredentialSync_keeps split: option.splits)
  show "seen_online tc (registry h) a" if "seen_online tc (registry ?h) a" for a
    using that assms(2)
    by (auto simp: unf HandleAuthState_keeps(2) HandleCredentialSync_keeps(2) split: option.splits if_splits)
  show "clients ?h = clients h" "has_nodeRegistry ?h = has_nodeRegistry h"
    by (auto simp: unf split: option.splits)
qed

lemma online_offline:
  assumes "online_inv tc h"
  shows "registry_inv tc (registry (registerNodeOffline tc now None None a h)) \<and>
    (seen_online tc (registry (registerNodeOffline tc now None None a h)) b \<longleftrightarrow> b \<noteq> a \<and> seen_online tc (registry h) b)"
  using assms by (auto simp: registerNodeOffline_def online_inv_def seen_online_MarkOffline keeps)

lemma online_heartbeats:
  "online_inv tc h \<Longrightarrow> (\<And>c. outs c = (None, None)) \<Longrightarrow> online_inv tc (drop_timed_out tc now outs cs h)"
proof (induction cs arbitrary: h)
  case (Cons c cs)
  show ?case
  proof (cases "fmlookup (conns h) c")
    case (Some ac)
    let ?h = "close_ws (emit_event \<lparr>he_Type = ''node.offline'', he_AgentID = ac_agentID ac, he_Time = now\<rparr>
        (registerNodeOffline tc now (fst (outs c)) (snd (outs c)) (ac_agentID ac) h)) c"
    have "online_inv tc ?h"
      by (rule online_inv_cong [OF Cons(2)]) (use online_offline [OF Cons(2)] Cons(3) in simp_all)
    then show ?thesis using Cons(1) Cons(3) Some by simp
  qed (use Cons in simp)
qed simp

lemma online_register:
  assumes h: "online_inv tc h" and t: "conn_table (clients h) (conns h) W" "panic h = None" "c \<in> W" "fmlookup (conns h) c = Some ac"
  shows "online_inv tc (run_register tc now out c ac h)"
proof -
  let ?r = "snd (Register tc now out (registry h) (zero_node\<lparr>ne_ID := ac_agentID ac, ne_Hostname := ac_agentID ac\<rparr>))"
  let ?h = "run_register tc now out c ac h"
  have p: "panic ?h = None" using register_table [OF t] by blast
  have f: "clients ?h = fmupd (ac_agentID ac) c (clients h)" "has_nodeRegistry ?h = has_nodeRegistry h"
      "registry ?h = (if \<not> has_nodeRegistry h \<or> ac_agentID ac = [] then registry h else ?r)"
    using p by (auto simp: run_register_def Let_def unless_panic_def registerNodeOnline_def split: option.splits if_splits)
  have "registry_inv tc ?r" using h by (auto simp: online_inv_def intro: keeps)
  then show ?thesis
    using h f unfolding online_inv_def by (auto dest!: seen_online_Register)
qed

lemma online_unregister:
  assumes h: "online_inv tc h" and t: "conn_table (clients h) (conns h) W" "panic h = None" "fmlookup (conns h) c = Some ac"
  shows "online_inv tc (run_unregister tc now None None c ac h)"
proof (cases "fmlookup (clients h) (ac_agentID ac) = Some c")
  case True
  let ?h = "run_unregister tc now None None c ac h"
  have p: "panic ?h = None" using unregister_table [OF t] by blast
  have r: "registry ?h = registry (registerNodeOffline tc now None None (ac_agentID ac) h)"
      "clients ?h = fmdrop (ac_agentID ac) (clients h)" "has_nodeRegistry ?h = has_nodeRegistry h"
    using p True by (auto simp: run_unregister_def unless_panic_def registerNodeOffline_def split: if_splits)
  show ?thesis
    using h r online_offline [OF h, of now "ac_agentID ac"] unfolding online_inv_def by auto
qed (simp add: run_unregister_def h)

text \<open>The steps of a supervisor whose database works and that broadcasts nothing, as the sources do.\<close>

lemma hub_step_online:
  assumes "hub_step w s s'" and "online_inv (w_codec w) (hub s)" and "hub_inv s" and "panic (hub s) = None"
    and "w_outcomes w = {None}" and "w_broadcasts w = {}" and "running s'"
  shows "online_inv (w_codec w) (hub s')"
  using assms
proof (induction rule: hub_step.induct)
  case (serve s now req ac c)
  show ?case by (rule online_inv_cong [OF serve(3)]) (use serve(3) in \<open>simp_all add: online_inv_def\<close>)
next
  case (register s c ac out now)
  then show ?case using online_register [of "w_codec w" "hub s" "waiting s" c ac] by (simp add: hub_inv_def)
next
  case (message c s ac qout now msg)
  then show ?case using online_handleEnvelope [of "w_codec w" "hub s" w] by (auto simp: read_message_def split: sum.splits)
next
  case (unregister s c ac qout out now)
  let ?h = "run_unregister (w_codec w) now None None c ac (hub s)"
  have o: "online_inv (w_codec w) ?h"
    using unregister online_unregister [of "w_codec w" "hub s" "waiting s" c ac] by (simp add: hub_inv_def)
  have "online_inv (w_codec w) (unless_panic (\<lambda>h. close_ws h c) ?h)"
    by (rule online_inv_cong [OF o]) (use o in \<open>auto simp: online_inv_def unless_panic_def split: if_splits\<close>)
  then show ?case using unregister by simp
next
  case (tick s ks outs now)
  have "outs c = (None, None)" for c using tick(3) [of c] tick(7) by (cases "outs c") auto
  then show ?case using tick online_heartbeats [of "w_codec w" "hub s" outs] by (simp add: checkHeartbeats_def)
next
  case (read_node qout s nodeID)
  show ?case
    by (rule online_inv_cong [OF read_node(2)])
      (use read_node(2) in \<open>auto simp: online_inv_def seen_online_GetNode intro: keeps\<close>)
qed (auto simp: online_inv_def)

lemma hub_step_running: "hub_step w s s' \<Longrightarrow> running s' \<Longrightarrow> running s"
  by (induction rule: hub_step.induct) auto

lemma hub_reachable_online:
  assumes "hub_reachable w h0 s" and "fresh_hub h0" and "online_inv (w_codec w) h0"
    and "w_outcomes w = {None}" and "w_broadcasts w = {}" and "running s"
  shows "online_inv (w_codec w) (hub s)"
  using assms
proof (induction rule: hub_reachable.induct)
  case start
  then show ?case by (simp add: hub_start_def)
next
  case (step s s')
  then show ?case
    using hub_step_online [OF step(3) _ hub_reachable_inv [OF step(1)]] hub_step_running [OF step(3)] by simp
qed

lemma fresh_online_inv:
  assumes "registry_inv tc (registry h)" and "\<And>a. \<not> seen_online tc (registry h) a"
  shows "online_inv tc h"
  using assms by (simp add: online_inv_def)

lemma loaded_nodes_offline:
  assumes "LoadNodesFromDB tc uout qout iout ks r = (None, r')" and "iteration_order (nodes_table r) ks"
  shows "\<not> seen_online tc r' a"
  using LoadNodesFromDB_spec(1,2) [OF assms]
  by (auto simp: seen_online_iff node_or_row_Inr_iff scan_offline_row NodeStatusOnline_def NodeStatusOffline_def
      split: option.splits sum.splits)

section \<open>Properties of the hub\<close>

text \<open>
  C15. Send channels are closed once and only by leaving the table: in every interleaving of
  connections, reconnections, read pumps, broadcasts, heartbeat checks, command sends and shutdown,
  no channel is closed twice, and a connection's channel is closed exactly when the connection is
  neither waiting for its registration nor the current client of its agent. So a replaced or
  removed connection always ends its write pump, and a current one never does.
\<close>
theorem send_channel_lifecycle:
  assumes "hub_reachable w h0 s" and "fresh_hub h0" and "fmlookup (conns (hub s)) c = Some ac"
  shows "panic (hub s) \<noteq> Some CloseOfClosedChannel \<and>
    (ac_closed ac \<longleftrightarrow> c \<notin> waiting s \<and> fmlookup (clients (hub s)) (ac_agentID ac) \<noteq> Some c)"
proof -
  have inv: "hub_inv s" by (rule hub_reachable_inv [OF assms(1,2)])
  then have t: "conn_table (clients (hub s)) (conns (hub s)) (waiting s)" by (simp add: hub_inv_def)
  show ?thesis
    using inv conn_tableD(2,3,4) [OF t] assms(3) by (fastforce simp: hub_inv_def)
qed

text \<open>
  A command can crash the supervisor: in every reachable state in which a command may be sent
  to a connected agent whose read pump runs, the interleaving where the agent disconnects between
  the look-up and the send reaches a panic, a send on a closed channel.
\<close>
theorem command_send_can_panic:
  assumes "hub_reachable w h0 s" and "fresh_hub h0" and "panic (hub s) = None" and "running s"
    and "transport_lookup w now (Some (hub s)) a cmd = Inr (c, data)" and "c \<in> reading s" and "None \<in> w_outcomes w"
  shows "\<exists>s'. hub_reachable w h0 s' \<and> panic (hub s') = Some SendOnClosedChannel"
proof -
  have client: "fmlookup (clients (hub s)) a = Some c"
    using assms(5) by (auto simp: transport_lookup_def split: sum.splits option.splits)
  have t: "conn_table (clients (hub s)) (conns (hub s)) (waiting s)"
    using hub_reachable_inv [OF assms(1,2)] by (simp add: hub_inv_def)
  from conn_tableD(2) [OF t client] obtain ac where
    ac: "fmlookup (conns (hub s)) c = Some ac" "ac_agentID ac = a" "\<not> ac_closed ac" by blast
  let ?s1 = "s\<lparr>inflight := insert (a, c, data) (inflight s)\<rparr>"
  let ?s2 = "?s1\<lparr>reading := reading ?s1 - {c}, leaving := insert c (leaving ?s1)\<rparr>"
  let ?u = "run_unregister (w_codec w) now None None c ac (hub s)"
  let ?s3 = "?s2\<lparr>hub := unless_panic (\<lambda>h. close_ws h c) (run_unregister (w_codec w) now None None c ac (hub ?s2)),
      leaving := leaving ?s2 - {c}\<rparr>"
  let ?s4 = "?s3\<lparr>hub := snd (transport_send a c data (hub ?s3)), inflight := inflight ?s3 - {(a, c, data)}\<rparr>"
  have u: "panic ?u = None" "fmlookup (conns ?u) c = Some (ac\<lparr>ac_closed := True\<rparr>)"
    using unregister_table [OF t assms(3) ac(1)] client ac assms(3)
    by (simp_all add: run_unregister_def unless_panic_def close_send_open)
  have 1: "hub_step w s ?s1" by (rule hub_step.look_up [OF assms(5)])
  have 2: "hub_step w ?s1 ?s2" by (rule hub_step.read_end) (simp add: assms(6))
  have 3: "hub_step w ?s2 ?s3" by (rule hub_step.unregister) (simp_all add: assms(4,7) ac)
  have 4: "hub_step w ?s3 ?s4" by (rule hub_step.send) simp
  have "hub_reachable w h0 ?s1" by (rule hub_reachable.step [OF assms(1,3) 1])
  then have "hub_reachable w h0 ?s2" by (rule hub_reachable.step [OF _ _ 2]) (simp add: assms(3))
  then have "hub_reachable w h0 ?s3" by (rule hub_reachable.step [OF _ _ 3]) (simp add: assms(3))
  then have "hub_reachable w h0 ?s4" by (rule hub_reachable.step [OF _ _ 4]) (simp add: u unless_panic_def)
  moreover have "panic (hub ?s4) = Some SendOnClosedChannel" using u by (simp add: transport_send_def unless_panic_def)
  ultimately show ?thesis by blast
qed


lemma drop_timed_out_seen:
  assumes "online_inv tc h" and "has_nodeRegistry h" and "\<And>c. outs c = (None, None)"
  shows "seen_online tc (registry (drop_timed_out tc now outs cs h)) a \<longleftrightarrow>
    seen_online tc (registry h) a \<and> (\<forall>c \<in> set cs. \<forall>ac. fmlookup (conns h) c = Some ac \<longrightarrow> ac_agentID ac \<noteq> a)"
  using assms(1,2)
proof (induction cs arbitrary: h)
  case (Cons c cs)
  show ?case
  proof (cases "fmlookup (conns h) c")
    case (Some ac)
    let ?h = "close_ws (emit_event \<lparr>he_Type = ''node.offline'', he_AgentID = ac_agentID ac, he_Time = now\<rparr>
        (registerNodeOffline tc now (fst (outs c)) (snd (outs c)) (ac_agentID ac) h)) c"
    have o: "online_inv tc ?h"
      by (rule online_inv_cong [OF Cons(2)]) (use online_offline [OF Cons(2)] assms(3) in simp_all)
    have "seen_online tc (registry ?h) a \<longleftrightarrow> a \<noteq> ac_agentID ac \<and> seen_online tc (registry h) a"
      using online_offline [OF Cons(2)] assms(3) by simp
    moreover have "(\<forall>ac'. fmlookup (conns ?h) c' = Some ac' \<longrightarrow> ac_agentID ac' \<noteq> a) \<longleftrightarrow>
        (\<forall>ac'. fmlookup (conns h) c' = Some ac' \<longrightarrow> ac_agentID ac' \<noteq> a)" for c'
      using Some by (cases "c' = c") simp_all
    ultimately show ?thesis using Cons(1) [OF o] Cons(3) Some by auto
  qed (use Cons in simp)
qed simp

lemma drop_timed_out_clients: "clients (drop_timed_out tc now outs cs h) = clients h"
  by (induction cs arbitrary: h) (auto split: option.splits)

lemma timed_out_conns_iff:
  assumes "iteration_order (clients h) ks"
  shows "c \<in> set (timed_out_conns now ks h) \<longleftrightarrow>
    (\<exists>a ac. fmlookup (clients h) a = Some c \<and> fmlookup (conns h) c = Some ac \<and> timed_out now h ac)"
  using set_map_values [OF assms] by (auto simp: timed_out_conns_def split: option.splits)

text \<open>
  The heartbeat check is exact: with a working database it marks offline exactly those nodes
  whose current connection has been silent for longer than the interval times the allowed number
  of missed heartbeats; every other node keeps its status, and no connection leaves the table
  (its read pump does that when it notices the closed socket).
\<close>
theorem heartbeat_check_exact:
  assumes "hub_reachable w h0 s" and "fresh_hub h0" and "registry_inv (w_codec w) (registry h0)"
    and "\<And>a. \<not> seen_online (w_codec w) (registry h0) a"
    and "w_outcomes w = {None}" and "w_broadcasts w = {}" and "running s" and "has_nodeRegistry (hub s)"
    and "iteration_order (clients (hub s)) ks"
    and "h' = checkHeartbeats (w_codec w) now (\<lambda>_. (None, None)) ks (hub s)"
  shows "(seen_online (w_codec w) (registry h') a \<longleftrightarrow> seen_online (w_codec w) (registry (hub s)) a \<and>
      \<not> (\<exists>c ac. fmlookup (clients (hub s)) a = Some c \<and> fmlookup (conns (hub s)) c = Some ac \<and>
          timed_out now (hub s) ac)) \<and>
    clients h' = clients (hub s)"
proof -
  have inv: "online_inv (w_codec w) (hub s)"
    by (rule hub_reachable_online [OF assms(1,2) fresh_online_inv [OF assms(3,4)] assms(5-7)])
  have hi: "hub_inv s" by (rule hub_reachable_inv [OF assms(1,2)])
  then have t: "conn_table (clients (hub s)) (conns (hub s)) (waiting s)" by (simp add: hub_inv_def)
  let ?cs = "timed_out_conns now ks (hub s)"
  have "(\<forall>c \<in> set ?cs. \<forall>ac. fmlookup (conns (hub s)) c = Some ac \<longrightarrow> ac_agentID ac \<noteq> a) \<longleftrightarrow>
      \<not> (\<exists>c ac. fmlookup (clients (hub s)) a = Some c \<and> fmlookup (conns (hub s)) c = Some ac \<and> timed_out now (hub s) ac)"
    using conn_tableD(2) [OF t] timed_out_conns_iff [OF assms(9)] by fastforce
  moreover have "clients h' = clients (hub s)"
    by (simp add: assms(10) checkHeartbeats_def drop_timed_out_clients)
  ultimately show ?thesis
    using drop_timed_out_seen [OF inv assms(8), of "\<lambda>_. (None, None)" now ?cs a]
    by (simp add: assms(10) checkHeartbeats_def)
qed

section \<open>A concrete run\<close>

definition demo_world :: hub_world where
  "demo_world = \<lparr>w_codec = unary_codec,
     w_envelope = \<lparr>encode_envelope = (\<lambda>env. Inr ''m''), decode_envelope = (\<lambda>_. Inl (Errorf ''not json''))\<rparr>,
     w_command = (\<lambda>cmd. Inr ''{}''), w_sync = (\<lambda>_. Inl (Errorf ''not json'')), w_auth = (\<lambda>_. Inl (Errorf ''not json'')),
     w_result = (\<lambda>_. Inl (Errorf ''not json'')), w_outcomes = {None}, w_broadcasts = {}\<rparr>"

definition demo_hub :: Hub where
  "demo_hub = ConfigureNodeRegistry (NewHub (NewNodeRegistry fmempty) ''t'' [] (seconds 30) 3) True"

definition demo_conn :: AgentConn where
  "demo_conn = newAgentConn 9 ''n1''"

definition demo_connected :: hub_run where
  "demo_connected = \<lparr>hub = run_register unary_codec 9 None 0 demo_conn (set_conn demo_hub 0 demo_conn),
     waiting = {}, reading = {0}, leaving = {}, inflight = {}, running = True\<rparr>"

lemma demo_hub_fresh: "fresh_hub demo_hub" "registry_inv unary_codec (registry demo_hub)" "\<not> seen_online tc (registry demo_hub) a"
  by (simp_all add: fresh_hub_def demo_hub_def ConfigureNodeRegistry_def NewHub_def seen_online_iff node_or_row_Inr_iff
      NewNodeRegistry_def registry_inv_def keyed_def)

lemma demo_connected_reachable: "hub_reachable demo_world demo_hub demo_connected"
proof -
  let ?req = "\<lparr>rq_Authorization = ''Bearer t'', rq_token = [], rq_Origin = [], rq_NodeID = ''n1'', rq_handshake_ok = True,
      rq_uuid = ''u''\<rparr>"
  let ?s = "(hub_start demo_hub)\<lparr>hub := set_conn (hub (hub_start demo_hub)) 0 demo_conn,
      waiting := insert 0 (waiting (hub_start demo_hub))\<rparr>"
  have "ServeWS demo_hub 9 ?req = Some demo_conn" by code_simp
  then have 1: "hub_step demo_world (hub_start demo_hub) ?s"
    by (intro hub_step.serve [of _ 9 ?req]) (simp_all add: hub_start_def demo_hub_def ConfigureNodeRegistry_def NewHub_def)
  have "hub_step demo_world ?s (?s\<lparr>hub := run_register (w_codec demo_world) 9 None 0 demo_conn (hub ?s),
      waiting := waiting ?s - {0}, reading := insert 0 (reading ?s)\<rparr>)"
    by (rule hub_step.register) (simp_all add: hub_start_def set_conn_def demo_world_def)
  moreover have "?s\<lparr>hub := run_register (w_codec demo_world) 9 None 0 demo_conn (hub ?s),
      waiting := waiting ?s - {0}, reading := insert 0 (reading ?s)\<rparr> = demo_connected"
    by (simp add: hub_start_def demo_connected_def demo_world_def)
  ultimately have 2: "hub_step demo_world ?s demo_connected" by simp
  have "panic (hub (hub_start demo_hub)) = None" "panic (hub ?s) = None"
    using demo_hub_fresh(1) by (simp_all add: hub_start_def fresh_hub_def set_conn_def)
  then show ?thesis using hub_reachable.step [OF hub_reachable.step [OF hub_reachable.start _ 1] _ 2] by simp
qed

lemma demo_connected_facts:
  "panic (hub demo_connected) = None" "fmlookup (clients (hub demo_connected)) ''n1'' = Some 0"
  "fmlookup (conns (hub demo_connected)) 0 = Some demo_conn" "has_nodeRegistry (hub demo_connected)"
  "running demo_connected" "reading demo_connected = {0}" "waiting demo_connected = {}"
  "fmdom (clients (hub demo_connected)) = {|''n1''|}"
  by (simp_all add: demo_connected_def run_register_def demo_hub_def ConfigureNodeRegistry_def NewHub_def set_conn_def
      unless_panic_def demo_conn_def newAgentConn_def)

lemma send_channel_lifecycle_witness: "\<not> ac_closed demo_conn"
  using send_channel_lifecycle [OF demo_connected_reachable demo_hub_fresh(1) demo_connected_facts(3)]
    demo_connected_facts(2) by (simp add: demo_conn_def newAgentConn_def)

lemma command_send_can_panic_witness:
  "\<exists>s'. hub_reachable demo_world demo_hub s' \<and> panic (hub s') = Some SendOnClosedChannel"
proof (rule command_send_can_panic [OF demo_connected_reachable demo_hub_fresh(1) demo_connected_facts(1,5)])
  show "transport_lookup demo_world 9 (Some (hub demo_connected)) ''n1''
      \<lparr>cmd_CommandID = ''c'', cmd_Type = CommandTypeKillSession, cmd_IdempotencyKey = [],
       cmd_Target = \<lparr>tg_Project = [], tg_NodeID = ''n1''\<rparr>, cmd_Args = None, cmd_Timeout = 0\<rparr> = Inr (0, ''m'')"
    using demo_connected_facts(2)
    by (simp add: transport_lookup_def demo_world_def MarshalEnvelope_def validateEnvelope_def message_types time_unix_def second_def)
qed (simp_all add: demo_connected_facts demo_world_def)

lemma demo_node_online:
  "\<exists>e r'. GetNode unary_codec None (registry (hub demo_connected)) ''n1'' = (Inr e, r') \<and> ne_Status e = NodeStatusOnline"
proof -
  have "map_option ne_Status (fmlookup (nodes (registry (hub demo_connected))) ''n1'') = Some NodeStatusOnline"
    by code_simp
  then show ?thesis by (auto simp: GetNode_def split: option.splits)
qed


lemma heartbeat_check_exact_witness:
  "\<not> seen_online unary_codec (registry (checkHeartbeats unary_codec 100000000000 (\<lambda>_. (None, None)) [''n1''] (hub demo_connected))) ''n1''"
proof -
  have "timed_out 100000000000 (hub demo_connected) demo_conn" by code_simp
  moreover have "iteration_order (clients (hub demo_connected)) [''n1'']"
    by (simp add: iteration_order_def demo_connected_facts)
  ultimately show ?thesis
    using heartbeat_check_exact [OF demo_connected_reachable demo_hub_fresh(1), of "[''n1'']" _ 100000000000 "''n1''"]
      demo_hub_fresh(2,3) demo_connected_facts(2-5) by (simp add: demo_world_def)
qed

end
