(* ===== verification/Backoff.thy ===== *)
theory Backoff
  imports Go_Lib
begin

text \<open>
  \<open>internal/agent/backoff.go\<close>: jittered exponential backoff. \<open>float64\<close> arithmetic is exact
  rational arithmetic here; the random number of a call, between 0 and 1, is an argument.
\<close>

section \<open>Definitions\<close>

record Backoff =
  bo_Min :: duration
  bo_Max :: duration
  bo_Factor :: rat
  bo_Jitter :: rat
  bo_attempt :: nat

definition DefaultBackoff :: Backoff where
  "DefaultBackoff = \<lparr>bo_Min = 100 * millisecond, bo_Max = 60 * second, bo_Factor = 2, bo_Jitter = 1 / 4, bo_attempt = 0\<rparr>"

definition base_delay :: "Backoff \<Rightarrow> rat" where
  "base_delay b =
     (let d = of_int (bo_Min b) * bo_Factor b ^ bo_attempt b
      in if d > of_int (bo_Max b) then of_int (bo_Max b) else d)"

definition clamp_delay :: "Backoff \<Rightarrow> rat \<Rightarrow> rat" where
  "clamp_delay b d =
     (let d1 = (if d < of_int (bo_Min b) then of_int (bo_Min b) else d)
      in if d1 > of_int (bo_Max b) then of_int (bo_Max b) else d1)"

text \<open>\<open>time.Duration(d)\<close> truncates towards zero.\<close>

definition truncate_duration :: "rat \<Rightarrow> duration" where
  "truncate_duration d = (if d < 0 then \<lceil>d\<rceil> else \<lfloor>d\<rfloor>)"

definition Duration :: "rat \<Rightarrow> Backoff \<Rightarrow> duration \<times> Backoff" where
  "Duration rnd b =
     (let d = base_delay b;
          d1 = (if bo_Jitter b > 0 then d + d * bo_Jitter b * (2 * rnd - 1) else d)
      in (truncate_duration (clamp_delay b d1), b\<lparr>bo_attempt := bo_attempt b + 1\<rparr>))"

definition Reset :: "Backoff \<Rightarrow> Backoff" where
  "Reset b = b\<lparr>bo_attempt := 0\<rparr>"

definition Attempt :: "Backoff \<Rightarrow> nat" where
  "Attempt b = bo_attempt b"

section \<open>Bounds\<close>

lemma clamp_bounds:
  assumes "bo_Min b \<le> bo_Max b"
  shows "of_int (bo_Min b) \<le> clamp_delay b d" and "clamp_delay b d \<le> of_int (bo_Max b)"
  using assms by (auto simp: clamp_delay_def Let_def)

lemma truncate_bounds:
  assumes "0 \<le> lo" and "of_int lo \<le> d" and "d \<le> of_int hi"
  shows "lo \<le> truncate_duration d" and "truncate_duration d \<le> hi"
proof -
  have "0 \<le> d" using assms(1,2) by (meson of_int_0_le_iff order_trans)
  then show "lo \<le> truncate_duration d" "truncate_duration d \<le> hi"
    using assms(2,3) by (simp_all add: truncate_duration_def le_floor_iff floor_le_iff)
qed

lemma Duration_bounds:
  assumes "0 \<le> bo_Min b" and "bo_Min b \<le> bo_Max b"
  shows "bo_Min b \<le> fst (Duration rnd b)" and "fst (Duration rnd b) \<le> bo_Max b"
  using truncate_bounds [OF assms(1) clamp_bounds [OF assms(2)]] by (simp_all add: Duration_def Let_def)

lemma Duration_fields [simp]:
  "bo_Min (snd (Duration rnd b)) = bo_Min b" "bo_Max (snd (Duration rnd b)) = bo_Max b"
  "bo_Factor (snd (Duration rnd b)) = bo_Factor b" "bo_Jitter (snd (Duration rnd b)) = bo_Jitter b"
  "bo_attempt (snd (Duration rnd b)) = Suc (bo_attempt b)"
  by (simp_all add: Duration_def Let_def)

text \<open>The delays of consecutive failed attempts.\<close>

fun delays :: "rat list \<Rightarrow> Backoff \<Rightarrow> duration list" where
  "delays [] b = []"
| "delays (rnd # rnds) b = fst (Duration rnd b) # delays rnds (snd (Duration rnd b))"

lemma delays_bounds:
  assumes "0 \<le> bo_Min b" and "bo_Min b \<le> bo_Max b" and "d \<in> set (delays rnds b)"
  shows "bo_Min b \<le> d \<and> d \<le> bo_Max b"
  using assms
proof (induction rnds arbitrary: b)
  case (Cons rnd rnds)
  then show ?case using Duration_bounds [OF Cons(2,3), of rnd] Cons(1) [of "snd (Duration rnd b)"] by auto
qed simp

lemma base_delay_doubles:
  assumes "bo_Factor b = 2" and "0 < bo_Min b" and "bo_Max b \<le> bo_Min b * 2 ^ bo_attempt b"
  shows "base_delay b = of_int (bo_Max b)"
proof -
  have "(of_int (bo_Max b) :: rat) \<le> of_int (bo_Min b) * 2 ^ bo_attempt b"
    using assms(3) by (metis of_int_le_iff of_int_mult of_int_numeral of_int_power)
  then show ?thesis by (simp add: base_delay_def assms(1) Let_def)
qed

text \<open>
  Reconnect delays stay within the configured bounds whatever the random numbers and however
  many attempts have failed, and once doubling has reached the maximum (after 10 failures with the
  default settings) a delay is never below the maximum less the jitter fraction.
\<close>
theorem backoff_bounds:
  assumes "0 < bo_Min b" and "bo_Min b \<le> bo_Max b" and "bo_Factor b = 2" and "0 \<le> bo_Jitter b" and "0 \<le> rnd" and "rnd \<le> 1"
  shows "bo_Min b \<le> fst (Duration rnd b) \<and> fst (Duration rnd b) \<le> bo_Max b \<and>
    (bo_Max b \<le> bo_Min b * 2 ^ Attempt b \<longrightarrow>
       \<lfloor>(1 - bo_Jitter b) * of_int (bo_Max b)\<rfloor> \<le> fst (Duration rnd b))"
proof (intro conjI impI)
  show "bo_Min b \<le> fst (Duration rnd b)" "fst (Duration rnd b) \<le> bo_Max b"
    using Duration_bounds [of b rnd] assms(1,2) by simp_all
next
  let ?m = "of_int (bo_Max b) :: rat" and ?j = "bo_Jitter b"
  assume "bo_Max b \<le> bo_Min b * 2 ^ Attempt b"
  then have base: "base_delay b = ?m" by (intro base_delay_doubles) (use assms in \<open>simp_all add: Attempt_def\<close>)
  let ?d = "if ?j > 0 then ?m + ?m * ?j * (2 * rnd - 1) else ?m"
  have m: "0 \<le> ?m" using assms(1,2) by simp
  have "?m * ?j * (- 1) \<le> ?m * ?j * (2 * rnd - 1)"
    by (rule mult_left_mono) (use m assms(4,5) in simp_all)
  then have low: "(1 - ?j) * ?m \<le> ?d" using assms(4) by (auto simp: algebra_simps)
  have le: "(1 - ?j) * ?m \<le> ?m" using m assms(4) by (simp add: algebra_simps)
  have clamp: "(1 - ?j) * ?m \<le> clamp_delay b ?d" using low le by (auto simp: clamp_delay_def Let_def)
  have pos: "0 \<le> clamp_delay b ?d" using clamp_bounds(1) [OF assms(2), of ?d] assms(1) by (simp add: order_trans [OF _ clamp_bounds(1) [OF assms(2)]])
  have "fst (Duration rnd b) = \<lfloor>clamp_delay b ?d\<rfloor>" using pos by (simp add: Duration_def Let_def base truncate_duration_def)
  then show "\<lfloor>(1 - ?j) * ?m\<rfloor> \<le> fst (Duration rnd b)" using clamp by (simp add: floor_mono)
qed

lemma backoff_bounds_witness:
  "bo_Min DefaultBackoff \<le> fst (Duration (1 / 2) (DefaultBackoff\<lparr>bo_attempt := 10\<rparr>)) \<and>
   45 * second \<le> fst (Duration (1 / 2) (DefaultBackoff\<lparr>bo_attempt := 10\<rparr>))"
proof -
  have "\<lfloor>(1 - 1 / 4) * of_int 60000000000 :: rat\<rfloor> = 45000000000" by simp
  then show ?thesis
    using backoff_bounds [of "DefaultBackoff\<lparr>bo_attempt := 10\<rparr>" "1 / 2"]
    by (simp add: DefaultBackoff_def second_def millisecond_def Attempt_def)
qed

end
