(* ===== verification/WS_Client.thy ===== *)
theory WS_Client
  imports Protocol Backoff
begin

text \<open>
  \<open>internal/agent/wsclient.go\<close>: the agent's side of the connection. Events are numbered, kept until
  they are acknowledged and sent again after every reconnect; commands go to registered handlers.

  The web socket is the list of messages written to the current connection, and each write has
  its outcome as an argument. \<open>'a\<close> is the state of the agent that the handlers work on. A handler
  returns its error, the envelopes it passes to \<open>SendEnvelope\<close> and the new state; an on-connect hook
  builds one envelope, as the only hook of the sources does (\<open>RegisterCredentialSyncOnReconnect\<close>).
\<close>

section \<open>Data\<close>

record SessionSnapshot =
  ss_SessionID :: string
  ss_Project :: string
  ss_Status :: string
  ss_Tokens :: int
  ss_Cost :: rat
  ss_StartedAt :: int

record StateSnapshot =
  sn_Sessions :: "SessionSnapshot list"
  sn_LastSeq :: int

record pendingEvent =
  pe_seq :: int
  pe_env :: Envelope

type_synonym 'a command_handler = "Envelope \<Rightarrow> 'a \<Rightarrow> go_error option \<times> Envelope list \<times> 'a"
type_synonym 'a message_handler = "Envelope \<Rightarrow> 'a \<Rightarrow> go_error option \<times> 'a"
type_synonym 'a connect_hook = "'a \<Rightarrow> Envelope go_result"

record 'a WSClient =
  ws_url :: string
  ws_authToken :: string
  ws_nodeID :: string
  ws_backoff :: Backoff
  has_snapshotProvider :: bool
  messageHandler :: "'a message_handler option"
  onConnectHooks :: "'a connect_hook list"
  commandHandlers :: "(string, 'a command_handler) fmap"
  ws_connected :: bool
  wire :: "string list"
  lastAckedSeq :: int
  nextSeq :: int
  pendingEvents :: "pendingEvent list"

definition NewWSClient :: "string \<Rightarrow> string \<Rightarrow> ('a WSClient \<Rightarrow> 'a WSClient) list \<Rightarrow> 'a WSClient" where
  "NewWSClient url token opts =
     fold (\<lambda>opt c. opt c) opts
       \<lparr>ws_url = url, ws_authToken = token, ws_nodeID = [], ws_backoff = DefaultBackoff, has_snapshotProvider = False,
        messageHandler = None, onConnectHooks = [], commandHandlers = fmempty, ws_connected = False, wire = [],
        lastAckedSeq = 0, nextSeq = 1, pendingEvents = []\<rparr>"

definition WithSnapshotProvider :: "'a WSClient \<Rightarrow> 'a WSClient" where
  "WithSnapshotProvider c = c\<lparr>has_snapshotProvider := True\<rparr>"

definition WithMessageHandler :: "'a message_handler \<Rightarrow> 'a WSClient \<Rightarrow> 'a WSClient" where
  "WithMessageHandler mh c = c\<lparr>messageHandler := Some mh\<rparr>"

text \<open>A nil hook is \<open>None\<close>.\<close>

definition WithOnConnectHook :: "'a connect_hook option \<Rightarrow> 'a WSClient \<Rightarrow> 'a WSClient" where
  "WithOnConnectHook hook c =
     (case hook of None \<Rightarrow> c | Some h \<Rightarrow> c\<lparr>onConnectHooks := onConnectHooks c @ [h]\<rparr>)"

definition WithBackoff :: "Backoff \<Rightarrow> 'a WSClient \<Rightarrow> 'a WSClient" where
  "WithBackoff b c = c\<lparr>ws_backoff := b\<rparr>"

definition WithNodeID :: "string \<Rightarrow> 'a WSClient \<Rightarrow> 'a WSClient" where
  "WithNodeID nodeID c = c\<lparr>ws_nodeID := nodeID\<rparr>"

definition RegisterCommandHandler :: "'a WSClient \<Rightarrow> string \<Rightarrow> 'a command_handler \<Rightarrow> 'a WSClient" where
  "RegisterCommandHandler c cmdType handler = c\<lparr>commandHandlers := fmupd cmdType handler (commandHandlers c)\<rparr>"

section \<open>Sending\<close>

definition SendEnvelope :: "envelope_codec \<Rightarrow> go_error option \<Rightarrow> Envelope \<Rightarrow> 'a WSClient \<Rightarrow> go_error option \<times> 'a WSClient" where
  "SendEnvelope ec out env c =
     (case MarshalEnvelope ec env of
        Inl err \<Rightarrow> (Some (Wrapf ''marshal envelope: '' err), c)
      | Inr data \<Rightarrow>
          if \<not> ws_connected c then (Some (Errorf ''not connected''), c)
          else case out of
              Some err \<Rightarrow> (Some err, c)
            | None \<Rightarrow> (None, c\<lparr>wire := wire c @ [data]\<rparr>))"

definition SendEvent :: "envelope_codec \<Rightarrow> go_error option \<Rightarrow> Envelope \<Rightarrow> 'a WSClient \<Rightarrow> (int \<times> go_error option) \<times> 'a WSClient" where
  "SendEvent ec out env c =
     (let seq = nextSeq c;
          c1 = c\<lparr>nextSeq := wrap64 (nextSeq c + 1)\<rparr>;
          c2 = c1\<lparr>pendingEvents := pendingEvents c1 @ [\<lparr>pe_seq = seq, pe_env = env\<rparr>]\<rparr>
      in case SendEnvelope ec out env c2 of (err, c3) \<Rightarrow> ((seq, err), c3))"

definition AcknowledgeSeq :: "int \<Rightarrow> 'a WSClient \<Rightarrow> 'a WSClient" where
  "AcknowledgeSeq seq c =
     c\<lparr>lastAckedSeq := seq, pendingEvents := filter (\<lambda>pe. pe_seq pe > seq) (pendingEvents c)\<rparr>"

text \<open>\<open>outs\<close> gives the outcome of the write of each event, by its number.\<close>

fun resend_events :: "envelope_codec \<Rightarrow> (int \<Rightarrow> go_error option) \<Rightarrow> pendingEvent list \<Rightarrow> 'a WSClient \<Rightarrow> go_error option \<times> 'a WSClient" where
  "resend_events ec outs [] c = (None, c)"
| "resend_events ec outs (pe # pes) c =
     (case SendEnvelope ec (outs (pe_seq pe)) (pe_env pe) c of
        (Some err, c') \<Rightarrow> (Some (Wrapf (''resend event seq='' @ int_text (pe_seq pe) @ '': '') err), c')
      | (None, c') \<Rightarrow> resend_events ec outs pes c')"

definition resendPendingEvents :: "envelope_codec \<Rightarrow> (int \<Rightarrow> go_error option) \<Rightarrow> 'a WSClient \<Rightarrow> go_error option \<times> 'a WSClient" where
  "resendPendingEvents ec outs c = resend_events ec outs (pendingEvents c) c"

definition closeConn :: "'a WSClient \<Rightarrow> 'a WSClient" where
  "closeConn c = c\<lparr>ws_connected := False\<rparr>"

definition LastAckedSeq :: "'a WSClient \<Rightarrow> int" where
  "LastAckedSeq c = lastAckedSeq c"

definition IsConnected :: "'a WSClient \<Rightarrow> bool" where
  "IsConnected c = ws_connected c"

section \<open>Connecting\<close>

text \<open>The surroundings of one connection: the outcome of the dial, the snapshot and its encoding, the
  outcome of each write, the clock, the messages read and the error that ends the reading.\<close>

record dial_env =
  de_codec :: envelope_codec
  de_dial :: "go_error option"
  de_snapshot :: StateSnapshot
  de_marshal_snapshot :: "StateSnapshot \<Rightarrow> string go_result"
  de_snapshot_out :: "go_error option"
  de_resend_outs :: "int \<Rightarrow> go_error option"
  de_hook_outs :: "nat \<Rightarrow> go_error option"
  de_reply_outs :: "Envelope \<Rightarrow> go_error option"
  de_command_type :: "string \<Rightarrow> string go_result"
  de_now :: go_time
  de_messages :: "string list"
  de_read_error :: go_error

definition sendSnapshot :: "dial_env \<Rightarrow> 'a WSClient \<Rightarrow> go_error option \<times> 'a WSClient" where
  "sendSnapshot de c =
     (if \<not> has_snapshotProvider c then (None, c)
      else case de_marshal_snapshot de (de_snapshot de) of
          Inl err \<Rightarrow> (Some (Wrapf ''marshal snapshot: '' err), c)
        | Inr payload \<Rightarrow>
            SendEnvelope (de_codec de) (de_snapshot_out de)
              \<lparr>env_Version = ProtocolVersion, env_Type = MessageTypeRegister, env_RequestID = [],
               env_Timestamp = time_unix (de_now de), env_Payload = payload\<rparr> c)"

fun run_hooks :: "dial_env \<Rightarrow> nat \<Rightarrow> 'a \<Rightarrow> 'a connect_hook list \<Rightarrow> 'a WSClient \<Rightarrow> go_error option \<times> 'a WSClient" where
  "run_hooks de i a [] c = (None, c)"
| "run_hooks de i a (hook # hooks) c =
     (case hook a of
        Inl err \<Rightarrow> (Some err, c)
      | Inr env \<Rightarrow>
          (case SendEnvelope (de_codec de) (de_hook_outs de i) env c of
             (Some err, c') \<Rightarrow> (Some err, c')
           | (None, c') \<Rightarrow> run_hooks de (Suc i) a hooks c'))"

definition runOnConnectHooks :: "dial_env \<Rightarrow> 'a \<Rightarrow> 'a WSClient \<Rightarrow> go_error option \<times> 'a WSClient" where
  "runOnConnectHooks de a c = run_hooks de 0 a (onConnectHooks c) c"

text \<open>The envelopes a handler sends; an error of a send only reaches the log.\<close>

definition send_replies :: "dial_env \<Rightarrow> Envelope list \<Rightarrow> 'a WSClient \<Rightarrow> 'a WSClient" where
  "send_replies de envs c = fold (\<lambda>env c. snd (SendEnvelope (de_codec de) (de_reply_outs de env) env c)) envs c"

definition handleCommand :: "dial_env \<Rightarrow> Envelope \<Rightarrow> 'a WSClient \<times> 'a \<Rightarrow> 'a WSClient \<times> 'a" where
  "handleCommand de env ca =
     (case de_command_type de (env_Payload env) of
        Inl _ \<Rightarrow> ca
      | Inr cmdType \<Rightarrow>
          (case fmlookup (commandHandlers (fst ca)) cmdType of
             None \<Rightarrow> ca
           | Some handler \<Rightarrow>
               (case handler env (snd ca) of
                  (_, replies, a') \<Rightarrow> (send_replies de replies (fst ca), a'))))"

fun read_messages :: "dial_env \<Rightarrow> string list \<Rightarrow> 'a WSClient \<times> 'a \<Rightarrow> 'a WSClient \<times> 'a" where
  "read_messages de [] ca = ca"
| "read_messages de (msg # msgs) ca =
     read_messages de msgs
       (case UnmarshalEnvelope (de_codec de) msg of
          Inl _ \<Rightarrow> ca
        | Inr env \<Rightarrow>
            if env_Type env = MessageTypeCommand then handleCommand de env ca
            else case messageHandler (fst ca) of
                None \<Rightarrow> ca
              | Some mh \<Rightarrow> (fst ca, snd (mh env (snd ca))))"

definition readLoop :: "dial_env \<Rightarrow> 'a WSClient \<times> 'a \<Rightarrow> go_error \<times> 'a WSClient \<times> 'a" where
  "readLoop de ca = (Wrapf ''read: '' (de_read_error de), read_messages de (de_messages de) ca)"

text \<open>The part of \<open>dialAndServe\<close> before the read loop: every unacknowledged event is sent again.\<close>

definition handshake :: "dial_env \<Rightarrow> 'a \<Rightarrow> 'a WSClient \<Rightarrow> go_error option \<times> 'a WSClient" where
  "handshake de a c =
     (case de_dial de of
        Some err \<Rightarrow> (Some (Wrapf ''dial: '' err), c)
      | None \<Rightarrow>
          let c1 = c\<lparr>ws_connected := True, wire := [], ws_backoff := Reset (ws_backoff c)\<rparr>
          in case sendSnapshot de c1 of
               (Some err, c2) \<Rightarrow> (Some (Wrapf ''send snapshot: '' err), closeConn c2)
             | (None, c2) \<Rightarrow>
                 (case resendPendingEvents (de_codec de) (de_resend_outs de) c2 of
                    (Some err, c3) \<Rightarrow> (Some (Wrapf ''resend events: '' err), closeConn c3)
                  | (None, c3) \<Rightarrow>
                      (case runOnConnectHooks de a c3 of
                         (Some err, c4) \<Rightarrow> (Some (Wrapf ''run on-connect hooks: '' err), closeConn c4)
                       | (None, c4) \<Rightarrow> (None, c4))))"

definition dialAndServe :: "dial_env \<Rightarrow> 'a WSClient \<times> 'a \<Rightarrow> go_error \<times> 'a WSClient \<times> 'a" where
  "dialAndServe de ca =
     (case handshake de (snd ca) (fst ca) of
        (Some err, c') \<Rightarrow> (err, c', snd ca)
      | (None, c') \<Rightarrow> readLoop de (c', snd ca))"

text \<open>\<open>connectLoop\<close> over the connections made before the context ends, with the random number of each
  backoff.\<close>

fun connectLoop :: "(dial_env \<times> rat) list \<Rightarrow> 'a WSClient \<times> 'a \<Rightarrow> 'a WSClient \<times> 'a" where
  "connectLoop [] ca = ca"
| "connectLoop ((de, rnd) # des) ca =
     (case dialAndServe de ca of
        (_, c', a') \<Rightarrow> connectLoop des (c'\<lparr>ws_backoff := snd (Duration rnd (ws_backoff c'))\<rparr>, a'))"

section \<open>The event log the client implements\<close>

text \<open>
  Specification: a log of all events with the number of acknowledged ones; an acknowledgement is
  cumulative, never goes back and never runs ahead of the log.
\<close>

record event_log =
  log_events :: "Envelope list"
  log_acked :: int

definition log_start :: event_log where
  "log_start = \<lparr>log_events = [], log_acked = 0\<rparr>"

definition log_send :: "Envelope \<Rightarrow> event_log \<Rightarrow> event_log" where
  "log_send env l = l\<lparr>log_events := log_events l @ [env]\<rparr>"

definition log_ack :: "int \<Rightarrow> event_log \<Rightarrow> event_log" where
  "log_ack seq l = l\<lparr>log_acked := max (log_acked l) (min seq (int (length (log_events l))))\<rparr>"

definition outstanding :: "event_log \<Rightarrow> Envelope list" where
  "outstanding l = drop (nat (log_acked l)) (log_events l)"

text \<open>The numbered events of a suffix of the log, the first one having index \<open>i\<close>.\<close>

fun numbered :: "int \<Rightarrow> Envelope list \<Rightarrow> pendingEvent list" where
  "numbered i [] = []"
| "numbered i (env # envs) = \<lparr>pe_seq = i + 1, pe_env = env\<rparr> # numbered (i + 1) envs"

definition implements_log :: "event_log \<Rightarrow> 'a WSClient \<Rightarrow> bool" where
  "implements_log l c \<longleftrightarrow> 0 \<le> log_acked l \<and> log_acked l \<le> int (length (log_events l)) \<and>
     nextSeq c = int (length (log_events l)) + 1 \<and>
     pendingEvents c = numbered (log_acked l) (outstanding l)"

lemma numbered_snoc: "numbered i (envs @ [env]) = numbered i envs @ [\<lparr>pe_seq = i + int (length envs) + 1, pe_env = env\<rparr>]"
  by (induction envs arbitrary: i) (simp_all add: algebra_simps)

lemma numbered_envs: "map pe_env (numbered i envs) = envs"
  by (induction envs arbitrary: i) simp_all

lemma numbered_seq: "pe \<in> set (numbered i envs) \<Longrightarrow> i < pe_seq pe \<and> pe_seq pe \<le> i + int (length envs)"
  by (induction envs arbitrary: i) fastforce+

lemma numbered_ack:
  assumes "i \<le> j" and "j \<le> i + int (length envs)"
  shows "filter (\<lambda>pe. pe_seq pe > j) (numbered i envs) = numbered j (drop (nat (j - i)) envs)"
  using assms
proof (induction envs arbitrary: i)
  case (Cons env envs)
  show ?case
  proof (cases "i = j")
    case True
    have "filter (\<lambda>pe. pe_seq pe > j) (numbered i (env # envs)) = numbered i (env # envs)"
      by (rule filter_True) (use numbered_seq [of _ i "env # envs"] True in auto)
    then show ?thesis using True by simp
  next
    case False
    then have "nat (j - i) = Suc (nat (j - (i + 1)))" using Cons(2) by simp
    then show ?thesis using Cons False by simp
  qed
qed simp

lemma SendEnvelope_keeps [simp]:
  "pendingEvents (snd (SendEnvelope ec out env c)) = pendingEvents c"
  "nextSeq (snd (SendEnvelope ec out env c)) = nextSeq c"
  by (auto simp: SendEnvelope_def split: sum.splits option.splits)

lemma implements_new: "implements_log log_start (NewWSClient url token [])"
  by (simp add: implements_log_def log_start_def NewWSClient_def outstanding_def)

lemma implements_send:
  assumes "implements_log l c" and "int (length (log_events l)) + 2 \<le> max_int64"
  shows "implements_log (log_send env l) (snd (SendEvent ec out env c))"
proof -
  let ?c = "snd (SendEvent ec out env c)" and ?n = "int (length (log_events l))"
  have f: "nextSeq ?c = wrap64 (nextSeq c + 1)"
      "pendingEvents ?c = pendingEvents c @ [\<lparr>pe_seq = nextSeq c, pe_env = env\<rparr>]"
    by (simp_all add: SendEvent_def Let_def split_def)
  have w: "wrap64 (nextSeq c + 1) = ?n + 2"
    using assms by (subst wrap64_id) (auto simp: implements_log_def min_int64_def)
  have len: "log_acked l + int (length (outstanding l)) = ?n"
    using assms(1) by (auto simp: implements_log_def outstanding_def)
  have "nat (log_acked l) \<le> length (log_events l)" using assms(1) by (simp add: implements_log_def nat_le_iff)
  then have out: "outstanding (log_send env l) = outstanding l @ [env]"
    by (simp add: outstanding_def log_send_def)
  show ?thesis
    unfolding implements_log_def out numbered_snoc
    using assms(1) f w len by (simp add: implements_log_def log_send_def numbered_snoc)
qed

lemma implements_ack:
  assumes "implements_log l c"
  shows "implements_log (log_ack seq l) (AcknowledgeSeq seq c)"
proof -
  let ?n = "int (length (log_events l))" and ?i = "log_acked l"
  let ?j = "max ?i (min seq ?n)"
  have i: "0 \<le> ?i" "?i \<le> ?n" and pend: "pendingEvents c = numbered ?i (outstanding l)"
    using assms by (auto simp: implements_log_def)
  have len: "?i + int (length (outstanding l)) = ?n" using i by (simp add: outstanding_def)
  have "filter (\<lambda>pe. pe_seq pe > seq) (numbered ?i (outstanding l)) = filter (\<lambda>pe. pe_seq pe > ?j) (numbered ?i (outstanding l))"
    by (rule filter_cong) (use numbered_seq [of _ ?i "outstanding l"] len in fastforce)+
  also have "\<dots> = numbered ?j (drop (nat (?j - ?i)) (outstanding l))"
    by (rule numbered_ack) (use i len in auto)
  also have "drop (nat (?j - ?i)) (outstanding l) = outstanding (log_ack seq l)"
    using i by (simp add: outstanding_def log_ack_def nat_add_distrib [symmetric])
  finally show ?thesis
    using assms i pend by (auto simp: implements_log_def log_ack_def AcknowledgeSeq_def outstanding_def)
qed

text \<open>Runs of a client: events sent, acknowledgements, connections.\<close>

datatype client_op = OpSend "go_error option" Envelope | OpAck int | OpServe dial_env rat

fun client_step :: "envelope_codec \<Rightarrow> client_op \<Rightarrow> 'a WSClient \<times> 'a \<Rightarrow> 'a WSClient \<times> 'a" where
  "client_step ec (OpSend out env) ca = (snd (SendEvent ec out env (fst ca)), snd ca)"
| "client_step ec (OpAck seq) ca = (AcknowledgeSeq seq (fst ca), snd ca)"
| "client_step ec (OpServe de rnd) ca = connectLoop [(de, rnd)] ca"

fun log_step :: "client_op \<Rightarrow> event_log \<Rightarrow> event_log" where
  "log_step (OpSend out env) l = log_send env l"
| "log_step (OpAck seq) l = log_ack seq l"
| "log_step (OpServe de rnd) l = l"

lemma implements_same:
  "implements_log l c \<Longrightarrow> pendingEvents c' = pendingEvents c \<Longrightarrow> nextSeq c' = nextSeq c \<Longrightarrow> implements_log l c'"
  by (simp add: implements_log_def)

definition keeps_events :: "'a WSClient \<Rightarrow> 'a WSClient \<Rightarrow> bool" where
  "keeps_events c c' \<longleftrightarrow> pendingEvents c' = pendingEvents c \<and> nextSeq c' = nextSeq c"

lemma keeps_events_refl [simp]: "keeps_events c c"
  by (simp add: keeps_events_def)

lemma keeps_events_trans: "keeps_events c c' \<Longrightarrow> keeps_events c' c'' \<Longrightarrow> keeps_events c c''"
  by (simp add: keeps_events_def)

lemma keeps_send [simp]: "keeps_events c (snd (SendEnvelope ec out env c))"
  by (simp add: keeps_events_def)

lemma keeps_close [simp]: "keeps_events c (closeConn c') = keeps_events c c'"
  by (simp add: keeps_events_def closeConn_def)

lemma keeps_resend: "keeps_events c (snd (resend_events ec outs pes c))"
proof (induction pes arbitrary: c)
  case (Cons pe pes)
  obtain err c' where s: "SendEnvelope ec (outs (pe_seq pe)) (pe_env pe) c = (err, c')"
    by (cases "SendEnvelope ec (outs (pe_seq pe)) (pe_env pe) c")
  then have "keeps_events c c'" using keeps_send [of c ec "outs (pe_seq pe)" "pe_env pe"] by simp
  then show ?case using Cons [of c'] s by (auto split: option.splits intro: keeps_events_trans)
qed simp

lemma keeps_hooks: "keeps_events c (snd (run_hooks de i a hooks c))"
proof (induction hooks arbitrary: i c)
  case (Cons hook hooks)
  show ?case
  proof (cases "hook a")
    case (Inr env)
    obtain err c' where s: "SendEnvelope (de_codec de) (de_hook_outs de i) env c = (err, c')"
      by (cases "SendEnvelope (de_codec de) (de_hook_outs de i) env c")
    then have "keeps_events c c'" using keeps_send [of c "de_codec de" "de_hook_outs de i" env] by simp
    then show ?thesis using Cons [of c'] s Inr by (auto split: option.splits intro: keeps_events_trans)
  qed simp
qed simp

lemma keeps_snapshot: "keeps_events c (snd (sendSnapshot de c))"
  by (auto simp: sendSnapshot_def split: sum.splits)

lemma keeps_handshake: "keeps_events c (snd (handshake de a c))"
proof (cases "de_dial de")
  case None
  let ?c1 = "c\<lparr>ws_connected := True, wire := [], ws_backoff := Reset (ws_backoff c)\<rparr>"
  obtain e2 c2 where 2: "sendSnapshot de ?c1 = (e2, c2)" by (cases "sendSnapshot de ?c1")
  obtain e3 c3 where 3: "resendPendingEvents (de_codec de) (de_resend_outs de) c2 = (e3, c3)"
    by (cases "resendPendingEvents (de_codec de) (de_resend_outs de) c2")
  obtain e4 c4 where 4: "runOnConnectHooks de a c3 = (e4, c4)" by (cases "runOnConnectHooks de a c3")
  have "keeps_events c ?c1" by (simp add: keeps_events_def)
  also have "keeps_events ?c1 c2" using keeps_snapshot [of ?c1 de] 2 by simp
  finally (keeps_events_trans) have k2: "keeps_events c c2" .
  have k3: "keeps_events c c3"
    using keeps_events_trans [OF k2] keeps_resend [of c2 "de_codec de" "de_resend_outs de" "pendingEvents c2"] 3
    by (simp add: resendPendingEvents_def)
  have "keeps_events c c4"
    using keeps_events_trans [OF k3] keeps_hooks [of c3 de 0 a "onConnectHooks c3"] 4 by (simp add: runOnConnectHooks_def)
  then show ?thesis using None 2 3 4 k2 k3 by (auto simp: handshake_def Let_def split: option.splits)
qed (simp add: handshake_def)

lemma keeps_replies: "keeps_events c (send_replies de envs c)"
  unfolding send_replies_def
proof (induction envs arbitrary: c)
  case (Cons env envs)
  show ?case using keeps_events_trans [OF keeps_send Cons] by simp
qed simp

lemma keeps_read: "keeps_events (fst ca) (fst (read_messages de msgs ca))"
proof (induction msgs arbitrary: ca)
  case (Cons msg msgs)
  have cmd: "keeps_events (fst ca) (fst (handleCommand de env ca))" for env
    using keeps_replies by (auto simp: handleCommand_def split: sum.splits option.splits prod.splits)
  show ?case
    using Cons.IH keeps_events_trans [OF cmd Cons.IH] by (auto split: sum.splits option.splits; metis fst_conv)
qed simp

lemma keeps_serve: "keeps_events (fst ca) (fst (snd (dialAndServe de ca)))"
proof -
  obtain e c' where h: "handshake de (snd ca) (fst ca) = (e, c')" by (cases "handshake de (snd ca) (fst ca)")
  have k: "keeps_events (fst ca) c'" using keeps_handshake [of "fst ca" de "snd ca"] h by simp
  show ?thesis
    using k keeps_events_trans [OF k] keeps_read [of "(c', snd ca)" de "de_messages de"] h
    by (auto simp: dialAndServe_def readLoop_def split: option.splits)
qed

lemma implements_step:
  assumes "implements_log l (fst ca)" and "int (length (log_events l)) + 2 \<le> max_int64"
  shows "implements_log (log_step op l) (fst (client_step ec op ca))"
proof (cases op)
  case (OpServe de rnd)
  obtain e c' a' where d: "dialAndServe de ca = (e, c', a')" by (cases "dialAndServe de ca")
  have "keeps_events (fst ca) c'" using keeps_serve [of ca de] d by simp
  then have "implements_log l (c'\<lparr>ws_backoff := snd (Duration rnd (ws_backoff c'))\<rparr>)"
    by (intro implements_same [OF assms(1)]) (simp_all add: keeps_events_def)
  then show ?thesis using OpServe d by simp
qed (use assms in \<open>simp_all add: implements_send implements_ack\<close>)

lemma log_step_length: "length (log_events (log_step op l)) \<le> Suc (length (log_events l))"
  by (cases op) (simp_all add: log_send_def log_ack_def)

lemma implements_run:
  assumes "implements_log l (fst ca)" and "int (length (log_events l)) + int (length ops) + 2 \<le> max_int64"
  shows "implements_log (fold log_step ops l) (fst (fold (client_step ec) ops ca))"
  using assms
proof (induction ops arbitrary: l ca)
  case (Cons op ops)
  have "implements_log (log_step op l) (fst (client_step ec op ca))"
    by (rule implements_step) (use Cons(2,3) in simp_all)
  moreover have "int (length (log_events (log_step op l))) + int (length ops) + 2 \<le> max_int64"
    using log_step_length [of op l] Cons(3) by simp
  ultimately show ?case using Cons(1) by simp
qed simp

lemma implements_reached:
  assumes "c = fst (fold (client_step ec) ops (NewWSClient url token [], a))"
    and "l = fold log_step ops log_start" and "int (length ops) + 2 \<le> max_int64"
  shows "implements_log l c"
proof -
  have "implements_log log_start (fst (NewWSClient url token [], a))" by (simp add: implements_new)
  from implements_run [OF this, of ops ec] assms show ?thesis by (simp add: log_start_def)
qed

text \<open>
  C19. The client implements the event log: after any sequence of sent events (delivered or not),
  acknowledgements in any order, and connections with any failures and any handlers, the buffer holds
  exactly the events that no acknowledgement has covered, in the order they were sent and
  with their own consecutive numbers.
\<close>
theorem client_implements_event_log:
  assumes "c = fst (fold (client_step ec) ops (NewWSClient url token [], a))"
    and "l = fold log_step ops log_start" and "int (length ops) + 2 \<le> max_int64"
  shows "pendingEvents c = numbered (log_acked l) (outstanding l) \<and> nextSeq c = int (length (log_events l)) + 1"
  using implements_reached [OF assms] by (simp add: implements_log_def)

definition demo_event_envelope :: "int \<Rightarrow> Envelope" where
  "demo_event_envelope t = \<lparr>env_Version = 1, env_Type = ''event'', env_RequestID = [], env_Timestamp = t, env_Payload = []\<rparr>"

definition demo_codec :: envelope_codec where
  "demo_codec = \<lparr>encode_envelope = (\<lambda>env. Inr (int_text (env_Timestamp env))), decode_envelope = (\<lambda>_. Inl (Errorf ''not json''))\<rparr>"

definition demo_ops :: "client_op list" where
  "demo_ops = [OpSend None (demo_event_envelope 5), OpSend (Some (Errorf ''closed'')) (demo_event_envelope 6), OpAck 1,
     OpSend None (demo_event_envelope 7), OpAck 0]"

definition demo_client :: "unit WSClient" where
  "demo_client = fst (fold (client_step demo_codec) demo_ops (NewWSClient [] [] [], ()))"

lemma demo_ops_log: "fold log_step demo_ops log_start =
    \<lparr>log_events = [demo_event_envelope 5, demo_event_envelope 6, demo_event_envelope 7], log_acked = 1\<rparr>"
  by (simp add: demo_ops_def log_send_def log_ack_def log_start_def)

lemma demo_ops_length: "int (length demo_ops) + 2 \<le> max_int64"
  by (simp add: demo_ops_def max_int64_def)

lemma client_implements_event_log_witness:
  "map pe_seq (pendingEvents demo_client) = [2, 3]"
  using client_implements_event_log [OF demo_client_def refl demo_ops_length]
  by (simp add: demo_ops_log outstanding_def)

section \<open>Reconnecting\<close>

lemma SendEnvelope_wire:
  "SendEnvelope ec out env c = (None, c') \<Longrightarrow> \<exists>d. MarshalEnvelope ec env = Inr d \<and> wire c' = wire c @ [d]"
  by (auto simp: SendEnvelope_def split: sum.splits option.splits if_splits)

lemma SendEnvelope_invalid: "validateEnvelope env \<noteq> None \<Longrightarrow> fst (SendEnvelope ec out env c) \<noteq> None"
  by (auto simp: SendEnvelope_def MarshalEnvelope_def)

definition encodes :: "envelope_codec \<Rightarrow> Envelope list \<Rightarrow> string list \<Rightarrow> bool" where
  "encodes ec envs ds \<longleftrightarrow> list_all2 (\<lambda>env d. MarshalEnvelope ec env = Inr d) envs ds"

lemma resend_wire:
  "resend_events ec outs pes c = (None, c') \<Longrightarrow> \<exists>ds. encodes ec (map pe_env pes) ds \<and> wire c' = wire c @ ds"
proof (induction pes arbitrary: c)
  case (Cons pe pes)
  obtain err c1 where s: "SendEnvelope ec (outs (pe_seq pe)) (pe_env pe) c = (err, c1)"
    by (cases "SendEnvelope ec (outs (pe_seq pe)) (pe_env pe) c")
  then have ok: "err = None" "resend_events ec outs pes c1 = (None, c')" using Cons(2) by (auto split: option.splits)
  obtain d where d: "MarshalEnvelope ec (pe_env pe) = Inr d" "wire c1 = wire c @ [d]"
    using SendEnvelope_wire s ok(1) by blast
  obtain ds where "encodes ec (map pe_env pes) ds" "wire c' = wire c1 @ ds" using Cons(1) [OF ok(2)] by blast
  with d have "encodes ec (map pe_env (pe # pes)) (d # ds) \<and> wire c' = wire c @ d # ds" by (simp add: encodes_def)
  then show ?case by blast
qed (simp add: encodes_def)

lemma hooks_wire: "run_hooks de i a hooks c = (None, c') \<Longrightarrow> \<exists>post. wire c' = wire c @ post"
proof (induction hooks arbitrary: i c)
  case (Cons hook hooks)
  then obtain env c1 where "hook a = Inr env" "SendEnvelope (de_codec de) (de_hook_outs de i) env c = (None, c1)"
      "run_hooks de (Suc i) a hooks c1 = (None, c')"
    by (auto split: sum.splits prod.splits option.splits)
  then show ?case using Cons(1) SendEnvelope_wire by fastforce
qed simp

lemma handshake_resends:
  assumes "handshake de a c = (None, c')"
  shows "\<exists>pre ds post. wire c' = pre @ ds @ post \<and> encodes (de_codec de) (map pe_env (pendingEvents c)) ds"
proof -
  let ?c1 = "c\<lparr>ws_connected := True, wire := [], ws_backoff := Reset (ws_backoff c)\<rparr>"
  obtain c2 c3 where c: "sendSnapshot de ?c1 = (None, c2)"
      "resendPendingEvents (de_codec de) (de_resend_outs de) c2 = (None, c3)" "runOnConnectHooks de a c3 = (None, c')"
    using assms by (auto simp: handshake_def Let_def split: option.splits prod.splits)
  have "pendingEvents c2 = pendingEvents c" using keeps_snapshot [of ?c1 de] c(1) by (simp add: keeps_events_def)
  then show ?thesis
    using resend_wire [of "de_codec de" "de_resend_outs de" "pendingEvents c2" c2 c3] hooks_wire [of de 0 a "onConnectHooks c3" c3 c'] c
    by (fastforce simp: resendPendingEvents_def runOnConnectHooks_def)
qed


definition demo_dial :: dial_env where
  "demo_dial = \<lparr>de_codec = demo_codec, de_dial = None, de_snapshot = \<lparr>sn_Sessions = [], sn_LastSeq = 0\<rparr>,
     de_marshal_snapshot = (\<lambda>_. Inr []), de_snapshot_out = None, de_resend_outs = (\<lambda>_. None), de_hook_outs = (\<lambda>_. None),
     de_reply_outs = (\<lambda>_. None), de_command_type = (\<lambda>_. Inr []), de_now = 0, de_messages = [], de_read_error = Errorf ''EOF''\<rparr>"


lemma resend_invalid:
  assumes "pe \<in> set pes" and "validateEnvelope (pe_env pe) \<noteq> None"
  shows "fst (resend_events ec outs pes c) \<noteq> None"
  using assms(1)
proof (induction pes arbitrary: c)
  case (Cons pe' pes)
  then show ?case using SendEnvelope_invalid [OF assms(2), of ec "outs (pe_seq pe')" c]
    by (auto split: prod.splits option.splits)
qed simp

text \<open>
  One bad event disables the agent: \<open>SendEvent\<close> buffers an event before it is validated, so an
  event whose envelope is rejected by the protocol stays outstanding (an acknowledgement can not
  come), and from then on every attempt to connect fails.
\<close>
theorem invalid_event_blocks_every_reconnect:
  assumes "c = fst (fold (client_step ec) ops (NewWSClient url token [], a))"
    and "l = fold log_step ops log_start" and "int (length ops) + 2 \<le> max_int64"
    and "env \<in> set (outstanding l)" and "validateEnvelope env \<noteq> None"
  shows "fst (handshake de a' c) \<noteq> None"
proof -
  have "map pe_env (pendingEvents c) = outstanding l"
    using implements_reached [OF assms(1-3)] by (simp add: implements_log_def numbered_envs)
  with assms(4) obtain pe where pe: "pe \<in> set (pendingEvents c)" "pe_env pe = env"
    by (metis image_iff list.set_map)
  let ?c1 = "c\<lparr>ws_connected := True, wire := [], ws_backoff := Reset (ws_backoff c)\<rparr>"
  obtain e2 c2 where s: "sendSnapshot de ?c1 = (e2, c2)" by (cases "sendSnapshot de ?c1")
  have "pendingEvents c2 = pendingEvents c" using keeps_snapshot [of ?c1 de] s by (simp add: keeps_events_def)
  then have "fst (resendPendingEvents (de_codec de) (de_resend_outs de) c2) \<noteq> None"
    using resend_invalid [of pe] pe assms(5) by (simp add: resendPendingEvents_def)
  then show ?thesis using s by (auto simp: handshake_def Let_def split: option.splits prod.splits)
qed

lemma invalid_event_blocks_every_reconnect_witness:
  "fst (handshake demo_dial () (fst (fold (client_step demo_codec) [OpSend None (demo_event_envelope 0)] (NewWSClient [] [] [], ())))) \<noteq> None"
  by (rule invalid_event_blocks_every_reconnect [OF refl refl, where env = "demo_event_envelope 0"])
    (simp_all add: max_int64_def outstanding_def log_send_def log_start_def demo_event_envelope_def validateEnvelope_def ProtocolVersion_def)

end
