(* ===== verification/Env_Manifest.thy ===== *)
theory Env_Manifest
  imports Supervisor_Config "HOL-Library.List_Lexorder" "HOL-Library.Char_ord"
begin

text \<open>
  The environment manifest of a project, \<open>internal/config/env_manifest.go\<close>: its structure and its
  validation with every error text. A nil map behaves as an empty one; a nil pointer is \<open>None\<close>.
  Each loop over a map takes the order from \<open>mo\<close>, which is given the label of the loop and the map.
\<close>

section \<open>The manifest\<close>

record AgentConfigRequirements =
  acr_Model :: string
  acr_Temperature :: rat

record ContextRequirements =
  ctx_Files :: "string list"
  ctx_Directories :: "string list"

record GitRequirements =
  git_Hooks :: "string list"
  git_Config :: "(string, string) fmap"

record DocsRequirements =
  docs_Required :: "string list"
  docs_Recommended :: "string list"

record ManifestRequirements =
  mr_Runtime :: "(string, string) fmap"
  mr_Tools :: "(string, string) fmap"
  mr_EnvVars :: "(string, string) fmap"
  mr_AgentConfig :: "AgentConfigRequirements option"
  mr_Context :: "ContextRequirements option"
  mr_Git :: "GitRequirements option"
  mr_Docs :: "DocsRequirements option"

record ManifestProject =
  mp_Requirements :: "ManifestRequirements option"

record EnvManifest =
  em_Version :: string
  em_Requirements :: "ManifestRequirements option"
  em_Projects :: "(string, ManifestProject option) fmap"

type_synonym map_order = "string \<Rightarrow> (string, string) fmap \<Rightarrow> string list"

section \<open>Formats\<close>

definition numeral_text :: "string \<Rightarrow> bool" where
  "numeral_text s \<longleftrightarrow> s \<noteq> [] \<and> list_all is_digit s"

definition isValidVersionFormat :: "string \<Rightarrow> bool" where
  "isValidVersionFormat version =
     (let parts = str_split version (CHR ''.'') in length parts = 2 \<and> list_all numeral_text parts)"

text \<open>The pattern \<open>^\d+(\.\d+)?(\.\d+)?$\<close>: one to three numbers between dots.\<close>

definition semver_pattern :: "string \<Rightarrow> bool" where
  "semver_pattern s = (let parts = str_split s (CHR ''.'') in length parts \<le> 3 \<and> list_all numeral_text parts)"

definition constraint_operators :: "string list" where
  "constraint_operators = [''>='', ''<='', ''>'', ''<'', ''^'', ''~'', ''='']"

definition isValidSemverConstraint :: "string \<Rightarrow> bool" where
  "isValidSemverConstraint version = semver_pattern (fold (\<lambda>op v. trim_prefix v op) constraint_operators version)"

definition isValidGitHook :: "string \<Rightarrow> bool" where
  "isValidGitHook hook \<longleftrightarrow> hook \<in> set [''pre-commit'', ''prepare-commit-msg'', ''commit-msg'', ''post-commit'',
     ''pre-rebase'', ''post-rewrite'', ''post-checkout'', ''post-merge'', ''pre-push'', ''pre-auto-gc'']"

section \<open>Validation\<close>

definition version_checks :: "string \<Rightarrow> string \<Rightarrow> string \<Rightarrow> (string, string) fmap \<Rightarrow> string \<Rightarrow> (bool \<times> string) list" where
  "version_checks example pre field m k =
     (let version = map_get m k [] in
      [(k = [], pre @ ''.'' @ field @ '' key must not be empty''),
       (version = [], pre @ ''.'' @ field @ ''.'' @ k @ '' version must not be empty''),
       (\<not> isValidSemverConstraint version,
        pre @ ''.'' @ field @ ''.'' @ k @ '' version must be valid semver constraint (e.g., '' @ example @ ''), got '' @ quoted version)])"

definition single_quoted :: "string \<Rightarrow> string" where
  "single_quoted s = [CHR 0x27] @ s @ [CHR 0x27]"

definition env_var_checks :: "string \<Rightarrow> (string, string) fmap \<Rightarrow> string \<Rightarrow> (bool \<times> string) list" where
  "env_var_checks pre m k =
     (let status = map_get m k [] in
      [(k = [], pre @ ''.env_vars key must not be empty''),
       (status \<noteq> ''required'' \<and> status \<noteq> ''optional'',
        pre @ ''.env_vars.'' @ k @ '' must be '' @ single_quoted ''required'' @ '' or '' @ single_quoted ''optional'' @ '', got '' @ quoted status)])"

definition not_empty_checks :: "string \<Rightarrow> string list \<Rightarrow> (bool \<times> string) list" where
  "not_empty_checks field xs =
     map (\<lambda>(i, x). (x = [], field @ ''['' @ nat_text i @ ''] must not be empty'')) (enumerate 0 xs)"

definition agent_config_checks :: "(rat \<Rightarrow> string) \<Rightarrow> string \<Rightarrow> AgentConfigRequirements \<Rightarrow> (bool \<times> string) list" where
  "agent_config_checks ft pre a =
     [(acr_Model a = [], pre @ ''.agent_config.model must not be empty''),
      (acr_Temperature a < 0 \<or> acr_Temperature a > 1,
       pre @ ''.agent_config.temperature must be between 0.0 and 1.0, got '' @ ft (acr_Temperature a))]"

definition context_checks :: "string \<Rightarrow> ContextRequirements \<Rightarrow> (bool \<times> string) list" where
  "context_checks pre c =
     (ctx_Files c = [] \<and> ctx_Directories c = [], pre @ ''.context must have at least one file or directory'') #
     not_empty_checks (pre @ ''.context.files'') (ctx_Files c) @
     not_empty_checks (pre @ ''.context.directories'') (ctx_Directories c)"

definition hook_checks :: "string \<Rightarrow> nat \<times> string \<Rightarrow> (bool \<times> string) list" where
  "hook_checks pre = (\<lambda>(i, hook).
     [(hook = [], pre @ ''.git.hooks['' @ nat_text i @ ''] must not be empty''),
      (\<not> isValidGitHook hook,
       pre @ ''.git.hooks['' @ nat_text i @ ''] must be a valid git hook name, got '' @ quoted hook)])"

definition git_config_checks :: "string \<Rightarrow> (string, string) fmap \<Rightarrow> string \<Rightarrow> (bool \<times> string) list" where
  "git_config_checks pre m k =
     [(k = [], pre @ ''.git.config key must not be empty''),
      (map_get m k [] = [], pre @ ''.git.config.'' @ k @ '' must not be empty'')]"

definition git_checks :: "map_order \<Rightarrow> string \<Rightarrow> GitRequirements \<Rightarrow> (bool \<times> string) list" where
  "git_checks mo pre g =
     concat (map (hook_checks pre) (enumerate 0 (git_Hooks g))) @
     concat (map (git_config_checks pre (git_Config g)) (mo (pre @ ''.git.config'') (git_Config g)))"

definition docs_checks :: "string \<Rightarrow> DocsRequirements \<Rightarrow> (bool \<times> string) list" where
  "docs_checks pre d =
     (docs_Required d = [] \<and> docs_Recommended d = [], pre @ ''.docs must have at least one required or recommended document'') #
     not_empty_checks (pre @ ''.docs.required'') (docs_Required d) @
     not_empty_checks (pre @ ''.docs.recommended'') (docs_Recommended d)"

definition validateRequirements :: "map_order \<Rightarrow> (rat \<Rightarrow> string) \<Rightarrow> string \<Rightarrow> ManifestRequirements \<Rightarrow> go_error option" where
  "validateRequirements mo ft pre reqs =
     first_error
       (concat (map (version_checks ''>=18.0.0'' pre ''runtime'' (mr_Runtime reqs)) (mo (pre @ ''.runtime'') (mr_Runtime reqs))) @
        concat (map (version_checks ''>=2.30'' pre ''tools'' (mr_Tools reqs)) (mo (pre @ ''.tools'') (mr_Tools reqs))) @
        concat (map (env_var_checks pre (mr_EnvVars reqs)) (mo (pre @ ''.env_vars'') (mr_EnvVars reqs))) @
        (case mr_AgentConfig reqs of None \<Rightarrow> [] | Some a \<Rightarrow> agent_config_checks ft pre a) @
        (case mr_Context reqs of None \<Rightarrow> [] | Some c \<Rightarrow> context_checks pre c) @
        (case mr_Git reqs of None \<Rightarrow> [] | Some g \<Rightarrow> git_checks mo pre g) @
        (case mr_Docs reqs of None \<Rightarrow> [] | Some d \<Rightarrow> docs_checks pre d))"

definition project_error :: "map_order \<Rightarrow> (rat \<Rightarrow> string) \<Rightarrow> (string, ManifestProject option) fmap \<Rightarrow> string \<Rightarrow> go_error option" where
  "project_error mo ft ps name =
     (if name = [] then Some (Errorf ''validation error: project name must not be empty'')
      else case map_get ps name None of
          None \<Rightarrow> Some (Errorf (''validation error: projects.'' @ name @ '' must not be null''))
        | Some cfg \<Rightarrow>
            (case mp_Requirements cfg of
               None \<Rightarrow> None
             | Some reqs \<Rightarrow> validateRequirements mo ft (''projects.'' @ name @ ''.requirements'') reqs))"

fun projects_error :: "map_order \<Rightarrow> (rat \<Rightarrow> string) \<Rightarrow> (string, ManifestProject option) fmap \<Rightarrow> string list \<Rightarrow> go_error option" where
  "projects_error mo ft ps [] = None"
| "projects_error mo ft ps (name # names) =
     (case project_error mo ft ps name of Some err \<Rightarrow> Some err | None \<Rightarrow> projects_error mo ft ps names)"

definition validateEnvManifest :: "map_order \<Rightarrow> string list \<Rightarrow> (rat \<Rightarrow> string) \<Rightarrow> EnvManifest \<Rightarrow> go_error option" where
  "validateEnvManifest mo names ft manifest =
     (if em_Version manifest = [] then Some (Errorf ''validation error: version is required'')
      else if \<not> isValidVersionFormat (em_Version manifest)
      then Some (Errorf (''validation error: version must be in format X.Y (e.g., 1.0), got '' @ quoted (em_Version manifest)))
      else case em_Requirements manifest of
          None \<Rightarrow> Some (Errorf ''validation error: requirements is required'')
        | Some reqs \<Rightarrow>
            (case validateRequirements mo ft ''requirements'' reqs of
               Some err \<Rightarrow> Some err
             | None \<Rightarrow> projects_error mo ft (em_Projects manifest) names))"

text \<open>The file's content comes from \<open>os.ReadFile\<close>, the manifest from \<open>json.Unmarshal\<close>.\<close>

definition LoadEnvManifest :: "map_order \<Rightarrow> (EnvManifest \<Rightarrow> string list) \<Rightarrow> (rat \<Rightarrow> string) \<Rightarrow> (string \<Rightarrow> EnvManifest go_result)
    \<Rightarrow> string go_result \<Rightarrow> EnvManifest go_result" where
  "LoadEnvManifest mo names ft unmarshal content =
     (case content of
        Inl err \<Rightarrow> Inl (Wrapf ''failed to read env manifest: '' err)
      | Inr data \<Rightarrow>
          (case unmarshal data of
             Inl err \<Rightarrow> Inl (Wrapf ''failed to parse env manifest: '' err)
           | Inr manifest \<Rightarrow>
               (case validateEnvManifest mo (names manifest) ft manifest of
                  Some err \<Rightarrow> Inl err
                | None \<Rightarrow> Inr manifest)))"

section \<open>What validation accepts\<close>

definition requirements_ok :: "ManifestRequirements \<Rightarrow> bool" where
  "requirements_ok r \<longleftrightarrow>
     (\<forall>m \<in> {mr_Runtime r, mr_Tools r}. \<forall>k v. fmlookup m k = Some v \<longrightarrow> k \<noteq> [] \<and> isValidSemverConstraint v) \<and>
     (\<forall>k v. fmlookup (mr_EnvVars r) k = Some v \<longrightarrow> k \<noteq> [] \<and> v \<in> {''required'', ''optional''}) \<and>
     (\<forall>a. mr_AgentConfig r = Some a \<longrightarrow> acr_Model a \<noteq> [] \<and> 0 \<le> acr_Temperature a \<and> acr_Temperature a \<le> 1) \<and>
     (\<forall>c. mr_Context r = Some c \<longrightarrow> ctx_Files c @ ctx_Directories c \<noteq> [] \<and> [] \<notin> set (ctx_Files c @ ctx_Directories c)) \<and>
     (\<forall>g. mr_Git r = Some g \<longrightarrow> (\<forall>h \<in> set (git_Hooks g). isValidGitHook h) \<and>
        (\<forall>k v. fmlookup (git_Config g) k = Some v \<longrightarrow> k \<noteq> [] \<and> v \<noteq> [])) \<and>
     (\<forall>d. mr_Docs r = Some d \<longrightarrow> docs_Required d @ docs_Recommended d \<noteq> [] \<and> [] \<notin> set (docs_Required d @ docs_Recommended d))"

definition manifest_ok :: "EnvManifest \<Rightarrow> bool" where
  "manifest_ok m \<longleftrightarrow> isValidVersionFormat (em_Version m) \<and>
     (\<exists>r. em_Requirements m = Some r \<and> requirements_ok r) \<and>
     (\<forall>k p. fmlookup (em_Projects m) k = Some p \<longrightarrow>
        k \<noteq> [] \<and> (\<exists>c. p = Some c \<and> (\<forall>r. mp_Requirements c = Some r \<longrightarrow> requirements_ok r)))"

lemma first_error_concat: "first_error (concat (map f xs)) = None \<longleftrightarrow> (\<forall>x \<in> set xs. first_error (f x) = None)"
  by (auto simp: first_error_None)

lemma first_error_append: "first_error (xs @ ys) = None \<longleftrightarrow> first_error xs = None \<and> first_error ys = None"
  by (auto simp: first_error_None)

lemma ball_order:
  assumes "iteration_order m ks"
  shows "(\<forall>k \<in> set ks. P k (map_get m k z)) \<longleftrightarrow> (\<forall>k v. fmlookup m k = Some v \<longrightarrow> P k v)"
proof -
  have "k \<in> set ks \<longleftrightarrow> (\<exists>v. fmlookup m k = Some v)" for k
    using assms by (auto simp: iteration_order_def fmlookup_dom_iff)
  then show ?thesis unfolding map_get_def by (metis option.simps(5))
qed

lemma ball_enumerate: "(\<forall>x \<in> set (enumerate n xs). P (snd x)) \<longleftrightarrow> (\<forall>x \<in> set xs. P x)"
proof -
  have "set xs = snd ` set (enumerate n xs)" by (metis list.set_map map_snd_enumerate)
  then show ?thesis by simp
qed

lemma not_empty_checks_None: "first_error (not_empty_checks f xs) = None \<longleftrightarrow> [] \<notin> set xs"
proof -
  have "first_error (not_empty_checks f xs) = None \<longleftrightarrow> (\<forall>x \<in> set (enumerate 0 xs). snd x \<noteq> [])"
    by (simp add: not_empty_checks_def first_error_None case_prod_beta)
  also have "\<dots> \<longleftrightarrow> [] \<notin> set xs" using ball_enumerate [of 0 xs "\<lambda>x. x \<noteq> []"] by auto
  finally show ?thesis .
qed

lemma not_valid_Nil [simp]: "\<not> isValidSemverConstraint []" "\<not> isValidGitHook []" "\<not> isValidVersionFormat []"
  by code_simp+

lemma validateRequirements_None:
  assumes "\<And>l m. iteration_order m (mo l m)"
  shows "validateRequirements mo ft pre r = None \<longleftrightarrow> requirements_ok r"
proof -
  have versions: "first_error (concat (map (version_checks ex p f m) (mo l m))) = None \<longleftrightarrow>
      (\<forall>k v. fmlookup m k = Some v \<longrightarrow> k \<noteq> [] \<and> isValidSemverConstraint v)" for ex p f m l
    unfolding first_error_concat
    by (subst ball_order [OF assms, where z = "[]" and P = "\<lambda>k v. k \<noteq> [] \<and> isValidSemverConstraint v", symmetric])
      (auto simp: version_checks_def Let_def)
  have env: "first_error (concat (map (env_var_checks p m) (mo l m))) = None \<longleftrightarrow>
      (\<forall>k v. fmlookup m k = Some v \<longrightarrow> k \<noteq> [] \<and> v \<in> {''required'', ''optional''})" for p m l
    unfolding first_error_concat
    by (subst ball_order [OF assms, where z = "[]" and P = "\<lambda>k v. k \<noteq> [] \<and> v \<in> {''required'', ''optional''}", symmetric])
      (auto simp: env_var_checks_def Let_def)
  have config: "first_error (concat (map (git_config_checks p m) (mo l m))) = None \<longleftrightarrow>
      (\<forall>k v. fmlookup m k = Some v \<longrightarrow> k \<noteq> [] \<and> v \<noteq> [])" for p m l
    unfolding first_error_concat
    by (subst ball_order [OF assms, where z = "[]" and P = "\<lambda>k v. k \<noteq> [] \<and> v \<noteq> []", symmetric])
      (auto simp: git_config_checks_def)
  have hooks: "first_error (concat (map (hook_checks p) (enumerate 0 xs))) = None \<longleftrightarrow> (\<forall>h \<in> set xs. isValidGitHook h)" for p xs
  proof -
    have "first_error (hook_checks p x) = None \<longleftrightarrow> isValidGitHook (snd x)" for x
      by (cases "snd x = []") (simp_all add: hook_checks_def case_prod_beta)
    then show ?thesis by (simp only: first_error_concat ball_enumerate)
  qed
  have parts: "first_error (agent_config_checks ft p a) = None \<longleftrightarrow> acr_Model a \<noteq> [] \<and> 0 \<le> acr_Temperature a \<and> acr_Temperature a \<le> 1"
    "first_error (context_checks p c) = None \<longleftrightarrow> ctx_Files c @ ctx_Directories c \<noteq> [] \<and> [] \<notin> set (ctx_Files c @ ctx_Directories c)"
    "first_error (git_checks mo p g) = None \<longleftrightarrow> (\<forall>h \<in> set (git_Hooks g). isValidGitHook h) \<and>
        (\<forall>k v. fmlookup (git_Config g) k = Some v \<longrightarrow> k \<noteq> [] \<and> v \<noteq> [])"
    "first_error (docs_checks p d) = None \<longleftrightarrow> docs_Required d @ docs_Recommended d \<noteq> [] \<and> [] \<notin> set (docs_Required d @ docs_Recommended d)"
    for p a c g d
    by (auto simp: agent_config_checks_def context_checks_def git_checks_def docs_checks_def first_error_append
        not_empty_checks_None config hooks)
  show ?thesis
    unfolding validateRequirements_def first_error_append versions env requirements_ok_def
    by (simp add: parts split: option.splits)
qed

lemma projects_error_None: "projects_error mo ft ps names = None \<longleftrightarrow> (\<forall>n \<in> set names. project_error mo ft ps n = None)"
  by (induction names) (auto split: option.splits)

text \<open>
  Manifest validation is exact: whatever the visiting orders of its maps, it accepts a manifest if
  and only if the version is \<open>X.Y\<close>, the requirements are present and sound, and every project entry is
  named, present and sound; so a manifest that loads needs no further checks.
\<close>
theorem manifest_validation_exact:
  assumes "\<And>l m. iteration_order m (mo l m)" and "iteration_order (em_Projects m) names"
  shows "validateEnvManifest mo names ft m = None \<longleftrightarrow> manifest_ok m"
proof -
  have "projects_error mo ft (em_Projects m) names = None \<longleftrightarrow>
      (\<forall>k p. fmlookup (em_Projects m) k = Some p \<longrightarrow>
        k \<noteq> [] \<and> (\<exists>c. p = Some c \<and> (\<forall>r. mp_Requirements c = Some r \<longrightarrow> requirements_ok r)))"
    unfolding projects_error_None
    by (subst ball_order [OF assms(2), where z = None and P = "\<lambda>k p. k \<noteq> [] \<and>
          (\<exists>c. p = Some c \<and> (\<forall>r. mp_Requirements c = Some r \<longrightarrow> requirements_ok r))", symmetric])
      (auto simp: project_error_def validateRequirements_None [OF assms(1)] split: option.splits)
  moreover have "validateEnvManifest mo names ft m = None \<longleftrightarrow> isValidVersionFormat (em_Version m) \<and>
      (\<exists>r. em_Requirements m = Some r \<and> requirements_ok r) \<and> projects_error mo ft (em_Projects m) names = None"
    using validateRequirements_None [OF assms(1), where ft = ft and pre = "''requirements''"]
    by (cases "em_Version m = []") (auto simp: validateEnvManifest_def simp flip: not_None_eq split: option.splits)
  ultimately show ?thesis by (simp add: manifest_ok_def)
qed

definition demo_requirements :: ManifestRequirements where
  "demo_requirements = \<lparr>mr_Runtime = fmupd ''node'' ''>=18.0'' fmempty, mr_Tools = fmempty,
     mr_EnvVars = fmupd ''API_KEY'' ''required'' fmempty, mr_AgentConfig = Some \<lparr>acr_Model = ''m'', acr_Temperature = 1 / 2\<rparr>,
     mr_Context = Some \<lparr>ctx_Files = [''a.txt''], ctx_Directories = [''docs'']\<rparr>, mr_Git = None, mr_Docs = None\<rparr>"

definition demo_manifest :: EnvManifest where
  "demo_manifest = \<lparr>em_Version = ''1.0'', em_Requirements = Some demo_requirements, em_Projects = fmempty\<rparr>"

definition sorted_order :: map_order where
  "sorted_order l m = sorted_list_of_fset (fmdom m)"

lemma sorted_order: "iteration_order m (sorted_order l m)"
  by (simp add: iteration_order_def sorted_order_def sorted_list_of_fset.rep_eq)

lemma manifest_validation_exact_witness: "manifest_ok demo_manifest"
proof -
  have "validateEnvManifest sorted_order [] (\<lambda>_. []) demo_manifest = None \<longleftrightarrow> manifest_ok demo_manifest"
    by (rule manifest_validation_exact [OF sorted_order]) (simp add: iteration_order_def demo_manifest_def)
  moreover have "validateEnvManifest sorted_order [] (\<lambda>_. []) demo_manifest = None" by code_simp
  ultimately show ?thesis by simp
qed

end
