(* ===== verification/File_System.thy ===== *)
theory File_System
  imports Go_Lib
begin

text \<open>
  The part of packages \<open>path/filepath\<close> and \<open>os\<close> that the agent uses, on Unix: the lexical path
  functions and a tree of directories and files.

  \<^item> A node of the tree is addressed by the list of names that leads to it from the root. A file has
    a content and an executable bit; a directory is searchable. Symbolic links, owners and other
    permission bits are not part of the model.
  \<^item> A path is resolved name by name as the kernel does it: every name but the last must be a
    directory, \<open>.\<close> and empty names stay, \<open>..\<close> goes up.
  \<^item> Any operation may also fail for a reason outside the tree (permissions, full disk); these
    failures are arguments. A write that fails may have written a prefix.
\<close>

section \<open>Paths\<close>

text \<open>One name in \<open>filepath.Clean\<close>; the end of the list is the innermost name.\<close>

definition clean_step :: "bool \<Rightarrow> string \<Rightarrow> string list \<Rightarrow> string list" where
  "clean_step rooted e stack =
     (if e = [] \<or> e = ''.'' then stack
      else if e = ''..'' then
        if stack \<noteq> [] \<and> last stack \<noteq> ''..'' then butlast stack
        else if rooted then stack else stack @ [''..'']
      else stack @ [e])"

definition clean_elems :: "bool \<Rightarrow> string \<Rightarrow> string list" where
  "clean_elems rooted p = fold (clean_step rooted) (str_split p (CHR ''/'')) []"

definition is_abs :: "string \<Rightarrow> bool" where
  "is_abs p = has_prefix p ''/''"

definition path_clean :: "string \<Rightarrow> string" where
  "path_clean p =
     (if p = [] then ''.''
      else if is_abs p then CHR ''/'' # str_join ''/'' (clean_elems True p)
      else case clean_elems False p of [] \<Rightarrow> ''.'' | e # es \<Rightarrow> str_join ''/'' (e # es))"

text \<open>\<open>filepath.Join\<close>, \<open>filepath.Dir\<close> and \<open>filepath.Ext\<close>.\<close>

definition path_join :: "string list \<Rightarrow> string" where
  "path_join elems =
     (case dropWhile (\<lambda>e. e = []) elems of [] \<Rightarrow> [] | e # es \<Rightarrow> path_clean (str_join ''/'' (e # es)))"

definition path_dir :: "string \<Rightarrow> string" where
  "path_dir p = path_clean (case str_last_index p ''/'' of None \<Rightarrow> [] | Some i \<Rightarrow> take (Suc i) p)"

fun path_ext_rev :: "string \<Rightarrow> string option" where
  "path_ext_rev [] = None"
| "path_ext_rev (c # cs) =
     (if c = CHR ''/'' then None else if c = CHR ''.'' then Some [c] else map_option ((#) c) (path_ext_rev cs))"

definition path_ext :: "string \<Rightarrow> string" where
  "path_ext p = (case path_ext_rev (rev p) of None \<Rightarrow> [] | Some e \<Rightarrow> rev e)"

section \<open>The tree\<close>

datatype fs_entry = FDir | FFile (file_content: string) (file_exec: bool)

record file_system =
  fs_nodes :: "(string list, fs_entry) fmap"
  fs_cwd :: "string list"

definition fs_lookup :: "file_system \<Rightarrow> string list \<Rightarrow> fs_entry option" where
  "fs_lookup fs k = (if k = [] then Some FDir else fmlookup (fs_nodes fs) k)"

definition set_node :: "string list \<Rightarrow> fs_entry \<Rightarrow> file_system \<Rightarrow> file_system" where
  "set_node k e fs = fs\<lparr>fs_nodes := fmupd k e (fs_nodes fs)\<rparr>"

text \<open>The working directory exists, and every entry lies in a directory.\<close>

definition fs_wf :: "file_system \<Rightarrow> bool" where
  "fs_wf fs \<longleftrightarrow> fs_lookup fs (fs_cwd fs) = Some FDir \<and> (\<forall>k n. fs_lookup fs (k @ [n]) \<noteq> None \<longrightarrow> fs_lookup fs k = Some FDir)"

text \<open>\<open>os.Stat\<close>: the node and its entry, or the kind of error. \<open>os.IsNotExist\<close> holds of the first
  error only.\<close>

datatype stat_result = StatFound "string list" fs_entry | StatNotExist | StatNotDir

definition enter :: "string list \<Rightarrow> string \<Rightarrow> string list" where
  "enter k e = (if e = [] \<or> e = ''.'' then k else if e = ''..'' then butlast k else k @ [e])"

fun walk :: "file_system \<Rightarrow> string list \<Rightarrow> string list \<Rightarrow> stat_result" where
  "walk fs k [] = (case fs_lookup fs k of None \<Rightarrow> StatNotExist | Some e \<Rightarrow> StatFound k e)"
| "walk fs k (e # es) =
     (case fs_lookup fs k of
        None \<Rightarrow> StatNotExist
      | Some (FFile _ _) \<Rightarrow> StatNotDir
      | Some FDir \<Rightarrow> walk fs (enter k e) es)"

definition start_of :: "file_system \<Rightarrow> string \<Rightarrow> string list" where
  "start_of fs p = (if is_abs p then [] else fs_cwd fs)"

definition os_Stat :: "file_system \<Rightarrow> string \<Rightarrow> stat_result" where
  "os_Stat fs p = (if p = [] then StatNotExist else walk fs (start_of fs p) (str_split p (CHR ''/'')))"

definition is_found :: "stat_result \<Rightarrow> bool" where
  "is_found r \<longleftrightarrow> (case r of StatFound _ _ \<Rightarrow> True | _ \<Rightarrow> False)"

text \<open>The node a path stands for, if it exists.\<close>

definition path_key :: "file_system \<Rightarrow> string \<Rightarrow> string list" where
  "path_key fs p = foldl enter (start_of fs p) (str_split p (CHR ''/''))"

text \<open>The node that a call creates for a path that does not exist: a new name in a directory.\<close>

definition create_key :: "file_system \<Rightarrow> string \<Rightarrow> string list option" where
  "create_key fs p =
     (let es = str_split p (CHR ''/'')
      in if p = [] \<or> last es \<in> {[], ''.'', ''..''} then None
         else case walk fs (start_of fs p) (butlast es) of
             StatFound k FDir \<Rightarrow> if fs_lookup fs (k @ [last es]) = None then Some (k @ [last es]) else None
           | _ \<Rightarrow> None)"

definition os_ReadFile :: "go_error option \<Rightarrow> file_system \<Rightarrow> string \<Rightarrow> string go_result" where
  "os_ReadFile out fs p =
     (case os_Stat fs p of
        StatNotExist \<Rightarrow> Inl (Errorf (''open '' @ p @ '': no such file or directory''))
      | StatNotDir \<Rightarrow> Inl (Errorf (''open '' @ p @ '': not a directory''))
      | StatFound _ FDir \<Rightarrow> Inl (Errorf (''read '' @ p @ '': is a directory''))
      | StatFound _ (FFile c _) \<Rightarrow> (case out of Some err \<Rightarrow> Inl err | None \<Rightarrow> Inr c))"

text \<open>Opening a file for writing, creating it if it is not there.\<close>

definition open_target :: "file_system \<Rightarrow> string \<Rightarrow> string list go_result" where
  "open_target fs p =
     (case os_Stat fs p of
        StatFound k (FFile _ _) \<Rightarrow> Inr k
      | StatFound _ FDir \<Rightarrow> Inl (Errorf (''open '' @ p @ '': is a directory''))
      | StatNotDir \<Rightarrow> Inl (Errorf (''open '' @ p @ '': not a directory''))
      | StatNotExist \<Rightarrow>
          (case create_key fs p of
             Some k \<Rightarrow> Inr k
           | None \<Rightarrow> Inl (Errorf (''open '' @ p @ '': no such file or directory''))))"

datatype io_outcome = IoDone | OpenFails go_error | WriteFails go_error nat

text \<open>Opening \<open>p\<close> and writing: \<open>old\<close> is what opening leaves of the content of a file.\<close>

definition write_file :: "(string \<Rightarrow> string) \<Rightarrow> io_outcome \<Rightarrow> string \<Rightarrow> string \<Rightarrow> bool \<Rightarrow> file_system
    \<Rightarrow> go_error option \<times> file_system" where
  "write_file old out p content exec fs =
     (case open_target fs p of
        Inl err \<Rightarrow> (Some err, fs)
      | Inr k \<Rightarrow>
          (let store = (\<lambda>written. set_node k
                 (case fs_lookup fs k of Some (FFile c x) \<Rightarrow> FFile (old c @ written) x | _ \<Rightarrow> FFile written exec) fs)
           in case out of
                OpenFails err \<Rightarrow> (Some err, fs)
              | WriteFails err n \<Rightarrow> (Some err, store (take n content))
              | IoDone \<Rightarrow> (None, store content)))"

definition os_WriteFile :: "io_outcome \<Rightarrow> string \<Rightarrow> string \<Rightarrow> bool \<Rightarrow> file_system \<Rightarrow> go_error option \<times> file_system" where
  "os_WriteFile = write_file (\<lambda>_. [])"

definition os_AppendFile :: "io_outcome \<Rightarrow> string \<Rightarrow> string \<Rightarrow> bool \<Rightarrow> file_system \<Rightarrow> go_error option \<times> file_system" where
  "os_AppendFile = write_file (\<lambda>c. c)"

text \<open>\<open>os.MkdirAll\<close>: every directory on the way, from the outermost.\<close>

definition path_prefixes :: "string \<Rightarrow> string list" where
  "path_prefixes p = filter (\<lambda>q. q \<noteq> []) (map (str_join ''/'') (tl (prefixes (str_split p (CHR ''/'')))))"

fun mkdir_all :: "(string \<Rightarrow> go_error option) \<Rightarrow> string list \<Rightarrow> file_system \<Rightarrow> go_error option \<times> file_system" where
  "mkdir_all out [] fs = (None, fs)"
| "mkdir_all out (q # qs) fs =
     (case os_Stat fs q of
        StatFound _ FDir \<Rightarrow> mkdir_all out qs fs
      | StatNotExist \<Rightarrow>
          (case out q of
             Some err \<Rightarrow> (Some err, fs)
           | None \<Rightarrow>
               (case create_key fs q of
                  None \<Rightarrow> (Some (Errorf (''mkdir '' @ q @ '': no such file or directory'')), fs)
                | Some k \<Rightarrow> mkdir_all out qs (set_node k FDir fs)))
      | _ \<Rightarrow> (Some (Errorf (''mkdir '' @ q @ '': not a directory'')), fs))"

definition os_MkdirAll :: "(string \<Rightarrow> go_error option) \<Rightarrow> string \<Rightarrow> file_system \<Rightarrow> go_error option \<times> file_system" where
  "os_MkdirAll out p fs =
     (if p = [] then (Some (Errorf ''mkdir : no such file or directory''), fs) else mkdir_all out (path_prefixes p) fs)"

section \<open>Growth of a tree\<close>

text \<open>\<open>fs'\<close> has every entry of \<open>fs\<close>, unchanged outside \<open>R\<close>; files of \<open>R\<close> may have become longer.\<close>

definition grows :: "fs_entry \<Rightarrow> fs_entry \<Rightarrow> bool" where
  "grows e e' \<longleftrightarrow> (case e of FDir \<Rightarrow> e' = FDir | FFile c x \<Rightarrow> \<exists>d. e' = FFile (c @ d) x)"

definition extends :: "string list set \<Rightarrow> file_system \<Rightarrow> file_system \<Rightarrow> bool" where
  "extends R fs fs' \<longleftrightarrow> fs_cwd fs' = fs_cwd fs \<and>
     (\<forall>k e. fs_lookup fs k = Some e \<longrightarrow> (\<exists>e'. fs_lookup fs' k = Some e' \<and> grows e e' \<and> (k \<notin> R \<longrightarrow> e' = e)))"

lemma grows_refl [simp]: "grows e e"
  by (cases e) (auto simp: grows_def)

lemma grows_trans: "grows a b \<Longrightarrow> grows b c \<Longrightarrow> grows a c"
  by (cases a) (auto simp: grows_def)

lemma grows_simps [simp]: "grows FDir e \<longleftrightarrow> e = FDir" "grows (FFile c x) e \<longleftrightarrow> (\<exists>d. e = FFile (c @ d) x)"
  by (auto simp: grows_def)

lemma extends_refl [simp]: "extends R fs fs"
  by (simp add: extends_def)

lemma extends_trans: "extends R a b \<Longrightarrow> extends R b c \<Longrightarrow> extends R a c"
  unfolding extends_def by (metis grows_trans)

lemma extends_mono: "extends R fs fs' \<Longrightarrow> R \<subseteq> R' \<Longrightarrow> extends R' fs fs'"
  unfolding extends_def by (metis subsetD)

lemma extends_lookup:
  assumes "extends R fs fs'" and "fs_lookup fs k = Some e"
  obtains e' where "fs_lookup fs' k = Some e'" and "grows e e'" and "k \<notin> R \<Longrightarrow> e' = e"
  using assms unfolding extends_def by blast

lemma extends_dir: "extends R fs fs' \<Longrightarrow> fs_lookup fs k = Some FDir \<Longrightarrow> fs_lookup fs' k = Some FDir"
  by (erule (1) extends_lookup) auto

lemma extends_start [simp]: "extends R fs fs' \<Longrightarrow> start_of fs' p = start_of fs p"
  by (simp add: extends_def start_of_def)

lemma lookup_set_node [simp]: "k \<noteq> [] \<Longrightarrow> fs_lookup (set_node k e fs) j = (if j = k then Some e else fs_lookup fs j)"
  by (simp add: fs_lookup_def set_node_def)

lemma cwd_set_node [simp]: "fs_cwd (set_node k e fs) = fs_cwd fs"
  by (simp add: set_node_def)

text \<open>What was found stays found, and what lies below a file stays below it.\<close>

lemma walk_extends:
  assumes "extends R fs fs'"
  shows "walk fs k es = StatFound j e \<Longrightarrow> \<exists>e'. walk fs' k es = StatFound j e' \<and> grows e e' \<and> (j \<notin> R \<longrightarrow> e' = e)"
    and "walk fs k es = StatNotDir \<Longrightarrow> walk fs' k es = StatNotDir"
proof -
  show "walk fs k es = StatFound j e \<Longrightarrow> \<exists>e'. walk fs' k es = StatFound j e' \<and> grows e e' \<and> (j \<notin> R \<longrightarrow> e' = e)"
  proof (induction es arbitrary: k)
    case Nil
    then show ?case by (auto split: option.splits elim: extends_lookup [OF assms])
  next
    case (Cons a es)
    then show ?case by (auto split: option.splits fs_entry.splits dest: extends_dir [OF assms])
  qed
  show "walk fs k es = StatNotDir \<Longrightarrow> walk fs' k es = StatNotDir"
  proof (induction es arbitrary: k)
    case (Cons a es)
    then consider "fs_lookup fs k = Some FDir" | c x where "fs_lookup fs k = Some (FFile c x)"
      by (auto split: option.splits fs_entry.splits)
    then show ?case
    proof cases
      case 1
      with Cons extends_dir [OF assms 1] show ?thesis by simp
    next
      case 2
      obtain e' where "fs_lookup fs' k = Some e'" "grows (FFile c x) e'" by (rule extends_lookup [OF assms 2])
      then show ?thesis by auto
    qed
  qed (auto split: option.splits)
qed

lemma os_Stat_extends:
  assumes "extends R fs fs'"
  shows "os_Stat fs p = StatFound j e \<Longrightarrow> \<exists>e'. os_Stat fs' p = StatFound j e' \<and> grows e e' \<and> (j \<notin> R \<longrightarrow> e' = e)"
    and "os_Stat fs p = StatNotDir \<Longrightarrow> os_Stat fs' p = StatNotDir"
    and "is_found (os_Stat fs p) \<Longrightarrow> is_found (os_Stat fs' p)"
proof -
  show found: "os_Stat fs p = StatFound j e \<Longrightarrow> \<exists>e'. os_Stat fs' p = StatFound j e' \<and> grows e e' \<and> (j \<notin> R \<longrightarrow> e' = e)" for j e
    by (cases "p = []") (simp_all add: os_Stat_def extends_start [OF assms] walk_extends(1) [OF assms])
  show "os_Stat fs p = StatNotDir \<Longrightarrow> os_Stat fs' p = StatNotDir"
    by (cases "p = []") (simp_all add: os_Stat_def extends_start [OF assms] walk_extends(2) [OF assms])
  show "is_found (os_Stat fs p) \<Longrightarrow> is_found (os_Stat fs' p)"
  proof (cases "os_Stat fs p")
    case (StatFound j e)
    from found [OF this] show ?thesis by (auto simp: is_found_def)
  qed (simp_all add: is_found_def)
qed

section \<open>Creating entries\<close>

lemma path_walk_snoc:
  "walk fs k (es @ [a]) =
     (case walk fs k es of
        StatFound j FDir \<Rightarrow> walk fs (enter j a) []
      | StatFound j (FFile _ _) \<Rightarrow> StatNotDir
      | r \<Rightarrow> r)"
  by (induction es arbitrary: k) (auto split: option.splits fs_entry.splits)

lemma walk_found_lookup: "walk fs k es = StatFound j e \<Longrightarrow> fs_lookup fs j = Some e"
  by (induction es arbitrary: k) (auto split: option.splits fs_entry.splits)

lemma os_Stat_found_lookup: "os_Stat fs p = StatFound j e \<Longrightarrow> fs_lookup fs j = Some e"
  by (auto simp: os_Stat_def split: if_splits dest: walk_found_lookup)

lemma extends_new_node: "fs_lookup fs k = None \<Longrightarrow> extends R fs (set_node k e fs)"
  by (cases "k = []") (auto simp: extends_def fs_lookup_def set_node_def)

lemma create_keyD:
  assumes "create_key fs p = Some k"
  obtains j n where "k = j @ [n]" and "fs_lookup fs j = Some FDir" and "fs_lookup fs k = None"
    and "\<And>e. os_Stat (set_node k e fs) p = StatFound k e"
proof -
  let ?es = "str_split p (CHR ''/'')"
  from assms obtain j where j: "p \<noteq> []" "last ?es \<notin> {[], ''.'', ''..''}" "walk fs (start_of fs p) (butlast ?es) = StatFound j FDir"
      "k = j @ [last ?es]" "fs_lookup fs k = None"
    by (auto simp: create_key_def Let_def split: if_splits stat_result.splits fs_entry.splits)
  have "os_Stat (set_node k e fs) p = StatFound k e" for e
  proof -
    have "extends {} fs (set_node k e fs)" by (rule extends_new_node [OF j(5)])
    from walk_extends(1) [OF this j(3)] have "walk (set_node k e fs) (start_of fs p) (butlast ?es) = StatFound j FDir" by auto
    then have "walk (set_node k e fs) (start_of fs p) (butlast ?es @ [last ?es]) = StatFound k e"
      using j(2,4) unfolding path_walk_snoc by (simp add: enter_def)
    then show ?thesis using j(1) by (simp add: os_Stat_def start_of_def split: if_splits)
  qed
  then show thesis using j walk_found_lookup that by blast
qed

text \<open>Opening for writing gives an existing file or a new name in a directory.\<close>

lemma open_target_cases:
  assumes "open_target fs p = Inr k"
  obtains c x where "os_Stat fs p = StatFound k (FFile c x)" and "fs_lookup fs k = Some (FFile c x)"
  | "os_Stat fs p = StatNotExist" and "create_key fs p = Some k"
  using assms unfolding open_target_def
  by (auto split: stat_result.splits fs_entry.splits option.splits dest: os_Stat_found_lookup)

lemma fs_wf_set_node:
  assumes "fs_wf fs" and "fs_lookup fs j = Some FDir" and "fs_lookup fs (j @ [n]) \<noteq> Some FDir"
  shows "fs_wf (set_node (j @ [n]) e fs)"
  unfolding fs_wf_def
proof (intro conjI allI impI)
  show "fs_lookup (set_node (j @ [n]) e fs) (fs_cwd (set_node (j @ [n]) e fs)) = Some FDir"
    using assms by (auto simp: fs_wf_def)
next
  fix k m assume "fs_lookup (set_node (j @ [n]) e fs) (k @ [m]) \<noteq> None"
  then have "k @ [m] = j @ [n] \<or> fs_lookup fs (k @ [m]) \<noteq> None" by (auto split: if_splits)
  then have k: "fs_lookup fs k = Some FDir" using assms(1,2) by (auto simp: fs_wf_def)
  with assms(3) have "k \<noteq> j @ [n]" by auto
  with k show "fs_lookup (set_node (j @ [n]) e fs) k = Some FDir" by simp
qed

lemma create_key_wf: "fs_wf fs \<Longrightarrow> create_key fs p = Some k \<Longrightarrow> fs_wf (set_node k e fs)"
  by (elim create_keyD) (auto intro: fs_wf_set_node)

lemma file_parent:
  assumes "fs_wf fs" and "fs_lookup fs k = Some (FFile c x)"
  obtains j n where "k = j @ [n]" and "fs_lookup fs j = Some FDir"
proof -
  have "k \<noteq> []" using assms(2) by (auto simp: fs_lookup_def)
  then obtain j n where k: "k = j @ [n]" by (metis rev_exhaust)
  with assms have "fs_lookup fs j = Some FDir" by (auto simp: fs_wf_def)
  with k that show thesis by blast
qed

section \<open>Writing files and making directories\<close>

text \<open>Both ways of writing leave every entry but the target, and a well-formed tree. If there was no
  file before, the target is new; and appending only adds to it.\<close>

definition no_file :: "file_system \<Rightarrow> string \<Rightarrow> bool" where
  "no_file fs p \<longleftrightarrow> (\<forall>k c x. os_Stat fs p \<noteq> StatFound k (FFile c x))"

lemma not_found_no_file: "\<not> is_found (os_Stat fs p) \<Longrightarrow> no_file fs p"
  by (auto simp: no_file_def is_found_def)

lemma write_file_cases:
  assumes "write_file old out p content exec fs = (err, fs')"
  obtains err' where "err = Some err'" and "fs' = fs"
  | k e where "open_target fs p = Inr k" and "fs' = set_node k e fs" and "\<exists>c x. e = FFile c x"
      and "\<And>c x. fs_lookup fs k = Some (FFile c x) \<Longrightarrow> \<exists>w. e = FFile (old c @ w) x \<and> (err = None \<longrightarrow> w = content)"
      and "fs_lookup fs k = None \<Longrightarrow> err = None \<Longrightarrow> e = FFile content exec"
proof (cases "open_target fs p")
  case (Inl a)
  then show thesis using assms that(1) by (auto simp: write_file_def)
next
  case (Inr k)
  define e where "e w = (case fs_lookup fs k of Some (FFile c x) \<Rightarrow> FFile (old c @ w) x | _ \<Rightarrow> FFile w exec)" for w
  have e: "\<exists>c x. e w = FFile c x" "fs_lookup fs k = Some (FFile c x) \<Longrightarrow> e w = FFile (old c @ w) x"
    "fs_lookup fs k = None \<Longrightarrow> e w = FFile w exec" for w c x
    by (auto simp: e_def split: option.splits fs_entry.splits)
  have out: "write_file old out p content exec fs =
      (case out of OpenFails err \<Rightarrow> (Some err, fs) | WriteFails err n \<Rightarrow> (Some err, set_node k (e (take n content)) fs)
       | IoDone \<Rightarrow> (None, set_node k (e content) fs))"
    by (cases out) (simp_all add: write_file_def Inr Let_def e_def)
  show thesis
  proof (cases out)
    case IoDone
    with assms out have "err = None" "fs' = set_node k (e content) fs" by auto
    then show thesis using that(2) [OF Inr _ e(1), of content] e(2,3) by simp
  next
    case (OpenFails a)
    with assms out that(1) show thesis by auto
  next
    case (WriteFails a n)
    with assms out have "err = Some a" "fs' = set_node k (e (take n content)) fs" by auto
    then show thesis using that(2) [OF Inr _ e(1), of "take n content"] e(2) by auto
  qed
qed

lemma write_file_wf:
  assumes "write_file old out p content exec fs = (err, fs')" and "fs_wf fs"
  shows "fs_wf fs'"
  using assms(1)
proof (cases rule: write_file_cases)
  case (2 k e)
  from 2(1) show ?thesis
  proof (cases rule: open_target_cases)
    case (1 c x)
    obtain j n where jn: "k = j @ [n]" "fs_lookup fs j = Some FDir" by (rule file_parent [OF assms(2) 1(2)])
    then show ?thesis using fs_wf_set_node [OF assms(2) jn(2), of n e] 1(2) 2(2) by simp
  qed (use 2(2) create_key_wf [OF assms(2)] in blast)
qed (simp add: assms(2))

lemma write_new_file:
  assumes "write_file old out p content exec fs = (err, fs')" and "no_file fs p"
  shows "extends R fs fs'" and "err = None \<Longrightarrow> \<exists>k. os_Stat fs' p = StatFound k (FFile content exec)"
proof -
  have "extends R fs fs' \<and> (err = None \<longrightarrow> (\<exists>k. os_Stat fs' p = StatFound k (FFile content exec)))"
    using assms(1)
  proof (cases rule: write_file_cases)
    case (2 k e)
    from 2(1) show ?thesis
    proof (cases rule: open_target_cases)
      case 2
      then have "fs_lookup fs k = None" "\<And>e. os_Stat (set_node k e fs) p = StatFound k e"
        by (auto elim: create_keyD)
      with \<open>fs' = set_node k e fs\<close> \<open>fs_lookup fs k = None \<Longrightarrow> err = None \<Longrightarrow> e = FFile content exec\<close>
      show ?thesis by (simp add: extends_new_node)
    qed (use assms(2) in \<open>unfold no_file_def, blast\<close>)
  qed simp
  then show "extends R fs fs'" and "err = None \<Longrightarrow> \<exists>k. os_Stat fs' p = StatFound k (FFile content exec)"
    by blast+
qed

lemma append_file:
  assumes "os_AppendFile out p content exec fs = (err, fs')"
  shows "extends {k. \<exists>e. os_Stat fs p = StatFound k e} fs fs'"
    and "err = None \<Longrightarrow> \<exists>k c x. os_Stat fs' p = StatFound k (FFile (c @ content) x)"
proof -
  let ?R = "{k. \<exists>e. os_Stat fs p = StatFound k e}"
  note w = assms [unfolded os_AppendFile_def]
  have "extends ?R fs fs' \<and> (err = None \<longrightarrow> (\<exists>k c x. os_Stat fs' p = StatFound k (FFile (c @ content) x)))"
  proof (cases "is_found (os_Stat fs p)")
    case False
    from write_new_file [OF w not_found_no_file [OF this]] show ?thesis by (metis append_Nil)
  next
    case True
    from w show ?thesis
    proof (cases rule: write_file_cases)
      case (2 k e)
      from 2(1) show ?thesis
      proof (cases rule: open_target_cases)
        case (1 c x)
        then obtain d where d: "e = FFile (c @ d) x" "err = None \<longrightarrow> d = content" using 2(4) by blast
        have "k \<noteq> []" using 1(2) by (auto simp: fs_lookup_def)
        with 1 d have ext: "extends ?R fs fs'" by (auto simp: 2(2) extends_def)
        from os_Stat_extends(1) [OF ext 1(1)] obtain e' where e': "os_Stat fs' p = StatFound k e'" by blast
        with \<open>k \<noteq> []\<close> have "e' = e" using os_Stat_found_lookup [OF e'] by (simp add: 2(2))
        with e' d ext show ?thesis by auto
      qed (use True in \<open>simp add: is_found_def\<close>)
    qed simp
  qed
  then show "extends ?R fs fs'" and "err = None \<Longrightarrow> \<exists>k c x. os_Stat fs' p = StatFound k (FFile (c @ content) x)"
    by blast+
qed

lemma mkdir_all_spec:
  assumes "mkdir_all out qs fs = (err, fs')"
  shows "extends R fs fs'" and "fs_wf fs \<Longrightarrow> fs_wf fs'"
    and "err = None \<Longrightarrow> q \<in> set qs \<Longrightarrow> \<exists>k. os_Stat fs' q = StatFound k FDir"
proof -
  have "extends R fs fs' \<and> (fs_wf fs \<longrightarrow> fs_wf fs') \<and> (err = None \<longrightarrow> (\<forall>q \<in> set qs. \<exists>k. os_Stat fs' q = StatFound k FDir))"
    using assms
  proof (induction out qs fs rule: mkdir_all.induct)
    case (2 out q qs fs)
    have keep: "\<exists>k. os_Stat fs' q = StatFound k FDir" if "os_Stat fs1 q = StatFound k FDir" "extends R fs1 fs'" for k fs1
      using os_Stat_extends(1) [OF that(2,1)] by auto
    show ?case
    proof (cases "os_Stat fs q")
      case (StatFound k e)
      then show ?thesis using 2 keep [of fs k] by (cases e) auto
    next
      case StatNotExist
      show ?thesis
      proof (cases "out q = None \<and> create_key fs q \<noteq> None")
        case True
        then obtain k where k: "create_key fs q = Some k" by auto
        let ?fs = "set_node k FDir fs"
        have new: "extends R fs ?fs" "os_Stat ?fs q = StatFound k FDir"
          using k by (auto elim: create_keyD intro: extends_new_node)
        have rest: "mkdir_all out qs ?fs = (err, fs')" using 2(3) StatNotExist True k by simp
        have IH: "extends R ?fs fs' \<and> (fs_wf ?fs \<longrightarrow> fs_wf fs') \<and>
            (err = None \<longrightarrow> (\<forall>q \<in> set qs. \<exists>k. os_Stat fs' q = StatFound k FDir))"
          by (rule 2(2) [OF StatNotExist _ k rest]) (use True in simp)
        with new show ?thesis using extends_trans keep [OF new(2)] create_key_wf [OF _ k] by auto
      next
        case False
        have "\<exists>a. err = Some a \<and> fs' = fs"
          using False 2(3) StatNotExist by (cases "out q"; cases "create_key fs q") (auto dest: sym)
        then show ?thesis by auto
      qed
    qed (use 2(3) in auto)
  qed simp
  then show "extends R fs fs'" and "fs_wf fs \<Longrightarrow> fs_wf fs'"
    and "err = None \<Longrightarrow> q \<in> set qs \<Longrightarrow> \<exists>k. os_Stat fs' q = StatFound k FDir"
    by auto
qed

lemma str_join_split [simp]: "str_join [c] (str_split p c) = p"
proof (induction p)
  case (Cons a p)
  then show ?case by (cases "str_split p c" rule: list.exhaust; cases "tl (str_split p c)") auto
qed simp

lemma path_in_prefixes: "p \<noteq> [] \<Longrightarrow> p \<in> set (path_prefixes p)"
proof -
  assume "p \<noteq> []"
  let ?es = "str_split p (CHR ''/'')"
  have "?es \<in> set (tl (prefixes ?es))" by (cases ?es) (auto simp: prefixes_snoc)
  then have "str_join ''/'' ?es \<in> str_join ''/'' ` set (tl (prefixes ?es))" by (rule imageI)
  with \<open>p \<noteq> []\<close> show ?thesis by (simp add: path_prefixes_def)
qed

lemma os_MkdirAll_spec:
  assumes "os_MkdirAll out p fs = (err, fs')"
  shows "extends R fs fs'" and "fs_wf fs \<Longrightarrow> fs_wf fs'" and "err = None \<Longrightarrow> \<exists>k. os_Stat fs' p = StatFound k FDir"
proof -
  have "extends R fs fs' \<and> (fs_wf fs \<longrightarrow> fs_wf fs') \<and> (err = None \<longrightarrow> (\<exists>k. os_Stat fs' p = StatFound k FDir))"
    using assms mkdir_all_spec [of out "path_prefixes p" fs err fs'] path_in_prefixes [of p]
    by (cases "p = []") (auto simp: os_MkdirAll_def)
  then show "extends R fs fs'" and "fs_wf fs \<Longrightarrow> fs_wf fs'" and "err = None \<Longrightarrow> \<exists>k. os_Stat fs' p = StatFound k FDir"
    by auto
qed

section \<open>Clean paths\<close>

text \<open>In a well-formed tree, a clean path finds exactly the entry under its key.\<close>

lemma walk_found_key: "walk fs k es = StatFound j e \<Longrightarrow> j = foldl enter k es"
  by (induction es arbitrary: k) (auto split: option.splits fs_entry.splits)

lemma os_Stat_found_key: "os_Stat fs p = StatFound j e \<Longrightarrow> j = path_key fs p"
  by (auto simp: os_Stat_def path_key_def split: if_splits dest: walk_found_key)

lemma path_key_cwd: "fs_cwd fs' = fs_cwd fs \<Longrightarrow> path_key fs' p = path_key fs p"
  by (simp add: path_key_def start_of_def)

definition plain :: "string \<Rightarrow> bool" where
  "plain e \<longleftrightarrow> e \<notin> {[], ''.'', ''..''}"

definition clean_path :: "string \<Rightarrow> bool" where
  "clean_path p \<longleftrightarrow> p \<noteq> [] \<and> (\<exists>us ns. str_split p (CHR ''/'') = us @ ns \<and> (\<forall>u \<in> set us. \<not> plain u) \<and> (\<forall>n \<in> set ns. plain n))"

lemma fs_wf_parent: "fs_wf fs \<Longrightarrow> fs_lookup fs (k @ [n]) \<noteq> None \<Longrightarrow> fs_lookup fs k = Some FDir"
  by (simp only: fs_wf_def)

lemma clean_pathI:
  "p \<noteq> [] \<Longrightarrow> str_split p (CHR ''/'') = us @ ns \<Longrightarrow> \<forall>u \<in> set us. \<not> plain u \<Longrightarrow> \<forall>n \<in> set ns. plain n \<Longrightarrow> clean_path p"
  unfolding clean_path_def by blast

lemma fs_wf_prefix:
  assumes "fs_wf fs" and "fs_lookup fs (k @ ns) \<noteq> None" and "ns \<noteq> []"
  shows "fs_lookup fs k = Some FDir"
  using assms(2,3)
proof (induction ns rule: rev_induct)
  case (snoc n ns)
  have "fs_lookup fs (k @ ns) = Some FDir" by (rule fs_wf_parent [OF assms(1), of _ n]) (use snoc.prems(1) in simp)
  with snoc.IH show ?case by (cases "ns = []") auto
qed simp

lemma walk_plain:
  assumes "fs_wf fs" and "\<forall>n \<in> set ns. plain n" and "fs_lookup fs (k @ ns) = Some e"
  shows "walk fs k ns = StatFound (k @ ns) e"
  using assms(2,3)
proof (induction ns arbitrary: k)
  case (Cons n ns)
  have "fs_lookup fs k = Some FDir" using fs_wf_prefix [OF assms(1), of k "n # ns"] Cons.prems by simp
  moreover have "enter k n = k @ [n]" using Cons.prems(1) by (simp add: enter_def plain_def)
  ultimately show ?case using Cons by simp
qed simp

lemma foldl_enter_plain: "\<forall>n \<in> set ns. plain n \<Longrightarrow> foldl enter k ns = k @ ns"
  by (induction ns arbitrary: k) (auto simp: enter_def plain_def)

lemma walk_up:
  assumes "fs_wf fs" and "\<forall>u \<in> set us. \<not> plain u" and "fs_lookup fs k = Some FDir"
  shows "walk fs k (us @ ns) = walk fs (foldl enter k us) ns"
  using assms(2,3)
proof (induction us arbitrary: k)
  case (Cons u us)
  have "fs_lookup fs (butlast k) = Some FDir"
    using fs_wf_prefix [OF assms(1), of "butlast k" "[last k]"] Cons.prems(2)
    by (cases "k = []") (simp_all add: fs_lookup_def)
  with Cons.prems have "fs_lookup fs (enter k u) = Some FDir" by (auto simp: enter_def plain_def)
  with Cons show ?case by simp
qed simp

lemma os_Stat_clean:
  assumes "fs_wf fs" and "clean_path p" and "fs_lookup fs (path_key fs p) = Some e"
  shows "os_Stat fs p = StatFound (path_key fs p) e"
proof -
  obtain us ns where u: "str_split p (CHR ''/'') = us @ ns" "\<forall>u \<in> set us. \<not> plain u" "\<forall>n \<in> set ns. plain n"
    using assms(2) by (auto simp: clean_path_def)
  have dir: "fs_lookup fs (start_of fs p) = Some FDir" using assms(1) by (auto simp: start_of_def fs_wf_def fs_lookup_def)
  let ?k = "foldl enter (start_of fs p) us"
  have key: "path_key fs p = ?k @ ns" by (simp add: path_key_def u(1) foldl_enter_plain [OF u(3)])
  have "walk fs (start_of fs p) (us @ ns) = walk fs ?k ns" by (rule walk_up [OF assms(1) u(2) dir])
  also have "\<dots> = StatFound (?k @ ns) e" by (rule walk_plain [OF assms(1) u(3)]) (use assms(3) key in simp)
  finally show ?thesis using assms(2) by (simp add: os_Stat_def u(1) key clean_path_def)
qed

text \<open>\<open>filepath.Clean\<close> gives clean paths.\<close>

lemma split_no_sep: "e \<in> set (str_split p c) \<Longrightarrow> c \<notin> set e"
proof (induction p arbitrary: e)
  case (Cons a p)
  then show ?case by (cases "str_split p c") (auto split: if_splits)
qed simp

lemma split_single: "c \<notin> set e \<Longrightarrow> str_split e c = [e]"
  by (induction e) auto

lemma split_append: "c \<notin> set e \<Longrightarrow> str_split (e @ c # s) c = e # str_split s c"
  by (induction e) auto

lemma split_join: "es \<noteq> [] \<Longrightarrow> \<forall>e \<in> set es. c \<notin> set e \<Longrightarrow> str_split (str_join [c] es) c = es"
  by (induction "[c]" es rule: str_join.induct) (auto simp: split_single split_append)

definition clean_stack :: "bool \<Rightarrow> string list \<Rightarrow> bool" where
  "clean_stack rooted es \<longleftrightarrow> (\<forall>e \<in> set es. CHR ''/'' \<notin> set e) \<and>
     (\<exists>us ns. es = us @ ns \<and> (\<forall>u \<in> set us. u = ''..'') \<and> (rooted \<longrightarrow> us = []) \<and> (\<forall>n \<in> set ns. plain n))"

lemma clean_stackI:
  "\<forall>e \<in> set (us @ ns). CHR ''/'' \<notin> set e \<Longrightarrow> \<forall>u \<in> set us. u = ''..'' \<Longrightarrow> rooted \<longrightarrow> us = [] \<Longrightarrow> \<forall>n \<in> set ns. plain n \<Longrightarrow>
   clean_stack rooted (us @ ns)"
  unfolding clean_stack_def by blast

lemma clean_step_stack:
  assumes "clean_stack rooted es" and "CHR ''/'' \<notin> set e"
  shows "clean_stack rooted (clean_step rooted e es)"
proof -
  obtain us ns where u: "es = us @ ns" "\<forall>u \<in> set us. u = ''..''" "rooted \<longrightarrow> us = []" "\<forall>n \<in> set ns. plain n"
    and sep: "\<forall>e \<in> set es. CHR ''/'' \<notin> set e"
    using assms(1) by (auto simp: clean_stack_def)
  consider "e = [] \<or> e = ''.''" | "e = ''..''" "ns \<noteq> []" | "e = ''..''" "ns = []" | "plain e"
    by (auto simp: plain_def)
  then show ?thesis
  proof cases
    case 1
    then show ?thesis using assms(1) by (simp add: clean_step_def)
  next
    case 2
    have "last ns \<noteq> ''..''" using u(4) 2(2) by (auto simp: plain_def dest: last_in_set)
    then have "clean_step rooted e es = us @ butlast ns" using 2 u(1) by (simp add: clean_step_def butlast_append)
    moreover have "clean_stack rooted (us @ butlast ns)"
      by (rule clean_stackI) (use u sep in \<open>auto dest: in_set_butlastD\<close>)
    ultimately show ?thesis by simp
  next
    case 3
    then have "clean_step rooted e es = (if rooted then es else es @ [''..''])"
      using u last_in_set [of us] by (auto simp: clean_step_def)
    moreover have "clean_stack rooted (es @ [''..''])" if "\<not> rooted"
      using clean_stackI [of "us @ [''..'']" "[]" rooted] that 3 u sep assms(2) by simp
    ultimately show ?thesis using assms(1) by (cases rooted) simp_all
  next
    case 4
    then have "clean_step rooted e es = us @ (ns @ [e])" using u(1) by (simp add: clean_step_def plain_def)
    moreover have "clean_stack rooted (us @ (ns @ [e]))"
      by (rule clean_stackI) (use 4 u sep assms(2) in auto)
    ultimately show ?thesis by simp
  qed
qed

lemma clean_elems_stack: "clean_stack rooted (clean_elems rooted p)"
proof -
  have "clean_stack rooted (fold (clean_step rooted) xs es)"
    if "clean_stack rooted es" "\<forall>x \<in> set xs. CHR ''/'' \<notin> set x" for xs es
    using that by (induction xs arbitrary: es) (auto intro: clean_step_stack)
  moreover have "clean_stack rooted []" by (simp add: clean_stack_def)
  ultimately show ?thesis unfolding clean_elems_def using split_no_sep by blast
qed

lemma clean_path_clean: "clean_path (path_clean p)"
proof -
  obtain us ns where u: "clean_elems (is_abs p) p = us @ ns" "\<forall>u \<in> set us. u = ''..''" "is_abs p \<longrightarrow> us = []"
      "\<forall>n \<in> set ns. plain n" and sep: "\<forall>e \<in> set (us @ ns). CHR ''/'' \<notin> set e"
    using clean_elems_stack [of "is_abs p" p] by (auto simp: clean_stack_def)
  have ups: "\<forall>u \<in> set us. \<not> plain u" using u(2) by (auto simp: plain_def)
  show ?thesis
  proof (cases "us @ ns = []")
    case True
    then have "path_clean p \<in> {''.'', ''/''}" using u(1) by (auto simp: path_clean_def)
    moreover have "clean_path ''.''" by (rule clean_pathI [of _ "[''.'']" "[]"]) (simp_all add: plain_def)
    moreover have "clean_path ''/''" by (rule clean_pathI [of _ "[[], []]" "[]"]) (simp_all add: plain_def)
    ultimately show ?thesis by auto
  next
    case False
    have split: "str_split (str_join ''/'' (us @ ns)) (CHR ''/'') = us @ ns" by (rule split_join [OF False sep])
    show ?thesis
    proof (cases "is_abs p")
      case True
      then have "path_clean p = CHR ''/'' # str_join ''/'' (us @ ns)"
        using u(1) by (auto simp: path_clean_def is_abs_def has_prefix_def)
      then show ?thesis using split u(3,4) True clean_pathI [of "path_clean p" "[[]]" ns] by (simp add: plain_def)
    next
      case False
      have join: "str_join ''/'' (us @ ns) \<noteq> []"
      proof
        assume "str_join ''/'' (us @ ns) = []"
        then have "us @ ns = [[]]" using split by simp
        then have "[] \<in> set (us @ ns)" by simp
        then show False using u(2,4) by (auto simp: plain_def)
      qed
      have "p \<noteq> []"
      proof
        assume "p = []"
        then have "us @ ns = []" using False u(1) by (simp add: clean_elems_def clean_step_def)
        with \<open>us @ ns \<noteq> []\<close> show False by simp
      qed
      then have "path_clean p = str_join ''/'' (us @ ns)"
        using False u(1) \<open>us @ ns \<noteq> []\<close> by (auto simp: path_clean_def split: list.splits)
      then show ?thesis using clean_pathI [OF join split ups u(4)] by simp
    qed
  qed
qed

lemma clean_path_join: "path_join es \<noteq> [] \<Longrightarrow> clean_path (path_join es)"
  unfolding path_join_def by (cases "dropWhile (\<lambda>e. e = []) es") (simp_all add: clean_path_clean)

lemma clean_path_dir: "clean_path (path_dir p)"
  by (simp add: path_dir_def clean_path_clean)

text \<open>Joining in two steps is joining in one.\<close>

lemma split_append_sep: "str_split (a @ c # b) c = str_split a c @ str_split b c"
proof (induction a)
  case (Cons x a)
  then show ?case by (cases "str_split a c") auto
qed simp

lemma clean_fold_stack:
  assumes "\<forall>u \<in> set us. u = ''..''" and "rooted \<longrightarrow> us = []" and "\<forall>n \<in> set ns. plain n"
  shows "fold (clean_step rooted) (us @ ns) [] = us @ ns"
proof -
  have "fold (clean_step rooted) us vs = vs @ us" if "\<forall>u \<in> set us. u = ''..''" "\<forall>u \<in> set vs. u = ''..''" "rooted \<longrightarrow> us = []" for us vs
    using that by (induction us arbitrary: vs) (auto simp: clean_step_def)
  moreover have "fold (clean_step rooted) ns vs = vs @ ns" if "\<forall>n \<in> set ns. plain n" for ns vs
    using that by (induction ns arbitrary: vs) (auto simp: clean_step_def plain_def)
  ultimately show ?thesis using assms by simp
qed

lemma clean_clean:
  "is_abs (path_clean p) = is_abs p" "clean_elems (is_abs p) (path_clean p) = clean_elems (is_abs p) p"
proof -
  obtain us ns where u: "clean_elems (is_abs p) p = us @ ns" "\<forall>u \<in> set us. u = ''..''" "is_abs p \<longrightarrow> us = []"
      "\<forall>n \<in> set ns. plain n" and sep: "\<forall>e \<in> set (us @ ns). CHR ''/'' \<notin> set e"
    using clean_elems_stack [of "is_abs p" p] by (auto simp: clean_stack_def)
  have nonempty: "\<forall>e \<in> set (us @ ns). e \<noteq> []" using u(2,4) by (auto simp: plain_def)
  have "is_abs (path_clean p) = is_abs p \<and> clean_elems (is_abs p) (path_clean p) = us @ ns"
  proof (cases "us @ ns = []")
    case True
    then have "path_clean p = (if is_abs p then ''/'' else ''.'')"
      using u(1) by (auto simp: path_clean_def is_abs_def has_prefix_def split: list.splits)
    then show ?thesis using True by (simp add: is_abs_def has_prefix_def clean_elems_def clean_step_def)
  next
    case False
    have split: "str_split (str_join ''/'' (us @ ns)) (CHR ''/'') = us @ ns" by (rule split_join [OF False sep])
    have "p \<noteq> []" using False u(1) by (auto simp: clean_elems_def clean_step_def)
    then have p: "path_clean p = (if is_abs p then CHR ''/'' # str_join ''/'' (us @ ns) else str_join ''/'' (us @ ns))"
      using u(1) False by (auto simp: path_clean_def split: list.splits)
    have "\<not> is_abs (str_join ''/'' (us @ ns))"
    proof
      assume "is_abs (str_join ''/'' (us @ ns))"
      then obtain s where "str_join ''/'' (us @ ns) = CHR ''/'' # s" by (auto simp: is_abs_def has_prefix_iff)
      then have "us @ ns = [] # str_split s (CHR ''/'')" using split by simp
      then have "[] \<in> set (us @ ns)" by simp
      with nonempty show False by blast
    qed
    moreover have "is_abs (CHR ''/'' # s)" for s by (simp add: is_abs_def has_prefix_def)
    ultimately show ?thesis
      using p split clean_fold_stack [OF u(2-4)] by (cases "is_abs p") (simp_all add: clean_elems_def clean_step_def)
  qed
  then show "is_abs (path_clean p) = is_abs p" "clean_elems (is_abs p) (path_clean p) = clean_elems (is_abs p) p"
    using u(1) by simp_all
qed

lemma path_clean_append: "p \<noteq> [] \<Longrightarrow> path_clean (path_clean p @ CHR ''/'' # q) = path_clean (p @ CHR ''/'' # q)"
proof -
  assume "p \<noteq> []"
  have abs: "is_abs (a @ CHR ''/'' # q) = is_abs a" if "a \<noteq> []" for a
    using that by (cases a) (auto simp: is_abs_def has_prefix_def)
  have "path_clean p \<noteq> []" using clean_path_clean [of p] by (simp add: clean_path_def)
  moreover have "clean_elems (is_abs p) (path_clean p @ CHR ''/'' # q) = clean_elems (is_abs p) (p @ CHR ''/'' # q)"
    using clean_clean(2) [of p] by (simp add: clean_elems_def split_append_sep)
  ultimately show ?thesis
    using abs [OF \<open>p \<noteq> []\<close>] abs [of "path_clean p"] clean_clean(1) [of p]
    unfolding path_clean_def [of "path_clean p @ CHR ''/'' # q"] path_clean_def [of "p @ CHR ''/'' # q"]
    by (cases "is_abs p") simp_all
qed

lemma str_join_snoc: "xs \<noteq> [] \<Longrightarrow> str_join sep (xs @ [x]) = str_join sep xs @ sep @ x"
  by (induction sep xs rule: str_join.induct) auto

lemma path_join_join:
  assumes "\<exists>e \<in> set es. e \<noteq> []"
  shows "path_join [path_join es, h] = path_join (es @ [h])"
proof -
  obtain e xs where d: "dropWhile (\<lambda>e. e = []) es = e # xs" using assms by (cases "dropWhile (\<lambda>e. e = []) es") auto
  then have "e \<noteq> []" by (metis (full_types) hd_dropWhile list.sel(1) list.distinct(1))
  then have ne: "str_join ''/'' (e # xs) \<noteq> []" by (cases xs) auto
  have "dropWhile (\<lambda>e. e = []) (es @ [h]) = e # xs @ [h]" using d assms by (simp add: dropWhile_append)
  then have "path_join (es @ [h]) = path_clean (str_join ''/'' (e # xs) @ ''/'' @ h)"
    using str_join_snoc [of "e # xs" "''/''" h] by (simp add: path_join_def)
  moreover have "path_clean (str_join ''/'' (e # xs)) \<noteq> []" using clean_path_clean by (simp add: clean_path_def)
  ultimately show ?thesis using path_clean_append [OF ne, of h] by (simp add: path_join_def d)
qed

section \<open>Creating a file with its directory\<close>

lemma mkdir_all_files:
  "fs_lookup (snd (mkdir_all out qs fs)) k = Some (FFile c x) \<Longrightarrow> fs_lookup fs k = Some (FFile c x)"
proof (induction out qs fs rule: mkdir_all.induct)
  case (2 out q qs fs)
  show ?case
  proof (cases "os_Stat fs q = StatNotExist \<and> out q = None \<and> create_key fs q \<noteq> None")
    case True
    then obtain j where j: "create_key fs q = Some j" by auto
    have "fs_lookup (set_node j FDir fs) k = Some (FFile c x)" using 2 True j by simp
    moreover have "j \<noteq> []" using j by (auto elim: create_keyD)
    ultimately show ?thesis by (simp split: if_splits)
  next
    case False
    have "(\<exists>j. os_Stat fs q = StatFound j FDir) \<or> snd (mkdir_all out (q # qs) fs) = fs"
    proof (cases "os_Stat fs q")
      case (StatFound j e)
      then show ?thesis by (cases e) simp_all
    qed (use False in \<open>auto split: option.splits\<close>)
    then show ?thesis using 2 by auto
  qed
qed simp

lemma no_file_mkdir:
  assumes "fs_wf fs" and "\<not> is_found (os_Stat fs (path_join es))" and "os_MkdirAll out d fs = (err, fs')"
  shows "no_file fs' (path_join es)"
  unfolding no_file_def
proof (intro allI notI)
  let ?p = "path_join es"
  fix k c x assume found: "os_Stat fs' ?p = StatFound k (FFile c x)"
  then have "?p \<noteq> []" by (auto simp: os_Stat_def)
  then have clean: "clean_path ?p" by (rule clean_path_join)
  have "fs_lookup fs' k = Some (FFile c x)" by (rule os_Stat_found_lookup [OF found])
  then have "fs_lookup fs k = Some (FFile c x)"
    using mkdir_all_files [of out "path_prefixes d" fs k c x] assms(3) by (cases "d = []") (simp_all add: os_MkdirAll_def)
  moreover have "fs_cwd fs' = fs_cwd fs" using os_MkdirAll_spec(1) [OF assms(3), of "{}"] unfolding extends_def by blast
  then have "k = path_key fs ?p" using os_Stat_found_key [OF found] path_key_cwd by metis
  ultimately have "os_Stat fs ?p = StatFound k (FFile c x)" using os_Stat_clean [OF assms(1) clean] by simp
  with assms(2) show False by (simp add: is_found_def)
qed

lemma make_file:
  assumes "fs_wf fs" and "\<not> is_found (os_Stat fs (path_join es))" and "os_MkdirAll out d fs = (err, fs1)"
    and "os_WriteFile out2 (path_join es) content exec fs1 = (err2, fs2)"
  shows "extends R fs fs2" and "fs_wf fs2" and "err2 = None \<Longrightarrow> \<exists>k. os_Stat fs2 (path_join es) = StatFound k (FFile content exec)"
proof -
  note w = assms(4) [unfolded os_WriteFile_def]
  note new = write_new_file [OF w no_file_mkdir [OF assms(1-3)]]
  show "extends R fs fs2" by (rule extends_trans [OF os_MkdirAll_spec(1) [OF assms(3)] new(1)])
  show "fs_wf fs2" by (rule write_file_wf [OF w os_MkdirAll_spec(2) [OF assms(3,1)]])
  show "err2 = None \<Longrightarrow> \<exists>k. os_Stat fs2 (path_join es) = StatFound k (FFile content exec)" by (rule new(2))
qed

end
