(* ===== verification/Provision.thy ===== *)
theory Provision
  imports Env_Manifest File_System
begin

text \<open>
  The environment provisioner of the agent, \<open>internal/agent/provision.go\<close>, with the types of
  \<open>internal/shared/envtypes.go\<close>: it compares a project directory with its manifest, creates what is
  missing and safe to create, and reports the rest. It runs on the file tree of \<open>File_System\<close>; the
  process environment, the failures of system calls, the order of loops over maps and the random bytes
  are those of a \<open>prov_world\<close>.
\<close>

section \<open>Types\<close>

type_synonym DriftCategory = string
type_synonym DriftStatus = string
type_synonym ProvisionStatus = string

definition DriftCategoryRuntime :: DriftCategory where "DriftCategoryRuntime = ''runtime''"
definition DriftCategoryTools :: DriftCategory where "DriftCategoryTools = ''tools''"
definition DriftCategoryEnvVars :: DriftCategory where "DriftCategoryEnvVars = ''env_vars''"
definition DriftCategoryAgentConfig :: DriftCategory where "DriftCategoryAgentConfig = ''agent_config''"
definition DriftCategoryContext :: DriftCategory where "DriftCategoryContext = ''context''"
definition DriftCategoryGit :: DriftCategory where "DriftCategoryGit = ''git''"
definition DriftCategoryDocs :: DriftCategory where "DriftCategoryDocs = ''docs''"

definition DriftStatusMissing :: DriftStatus where "DriftStatusMissing = ''missing''"
definition DriftStatusOK :: DriftStatus where "DriftStatusOK = ''ok''"

definition ProvisionStatusCompleted :: ProvisionStatus where "ProvisionStatusCompleted = ''completed''"
definition ProvisionStatusPartial :: ProvisionStatus where "ProvisionStatusPartial = ''partial''"
definition ProvisionStatusFailed :: ProvisionStatus where "ProvisionStatusFailed = ''failed''"

lemmas category_defs = DriftCategoryRuntime_def DriftCategoryTools_def DriftCategoryEnvVars_def
  DriftCategoryAgentConfig_def DriftCategoryContext_def DriftCategoryGit_def DriftCategoryDocs_def

record DriftItem =
  di_Category :: DriftCategory
  di_Item :: string
  di_Expected :: string
  di_Actual :: string
  di_Status :: DriftStatus

record ProvisionAction =
  pa_Category :: DriftCategory
  pa_Item :: string
  pa_Action :: string
  pa_Path :: string

record ProvisionPending =
  pp_Category :: DriftCategory
  pp_Item :: string
  pp_Reason :: string
  pp_Command :: string

record ProvisionResult =
  pr_Status :: ProvisionStatus
  pr_Applied :: "ProvisionAction list"
  pr_Pending :: "ProvisionPending list"
  pr_Timestamp :: go_time

record ProvisionEventData =
  ped_Category :: DriftCategory
  ped_Item :: string
  ped_Expected :: string
  ped_Actual :: string
  ped_SuggestedCmd :: string
  ped_ApprovalToken :: string

record ProvisionEvent =
  pe_Type :: string
  pe_Data :: ProvisionEventData

record Provisioner =
  prov_projectDir :: string
  prov_projectName :: string
  prov_manifest :: "EnvManifest option"
  prov_templateDir :: string
  prov_emitter :: bool

text \<open>The surroundings of a run. \<open>pw_random n\<close> are the bytes read for the \<open>n\<close>th token.\<close>

record prov_world =
  pw_getenv :: "string \<Rightarrow> string"
  pw_home :: "string go_result"
  pw_read_out :: "string \<Rightarrow> go_error option"
  pw_write_out :: "string \<Rightarrow> io_outcome"
  pw_mkdir_out :: "string \<Rightarrow> go_error option"
  pw_order :: map_order
  pw_random :: "nat \<Rightarrow> string option"
  pw_now :: go_time

text \<open>A nil emitter becomes one that does nothing.\<close>

definition NewProvisioner :: "string \<Rightarrow> string \<Rightarrow> EnvManifest option \<Rightarrow> string \<Rightarrow> bool \<Rightarrow> Provisioner" where
  "NewProvisioner projectDir projectName manifest templateDir has_emitter =
     \<lparr>prov_projectDir = projectDir, prov_projectName = projectName, prov_manifest = manifest,
      prov_templateDir = templateDir, prov_emitter = has_emitter\<rparr>"

section \<open>Texts\<close>

function replace_all :: "string \<Rightarrow> string \<Rightarrow> string \<Rightarrow> string" where
  "replace_all s old new =
     (if old = [] then s
      else if has_prefix s old then new @ replace_all (drop (length old) s) old new
      else case s of [] \<Rightarrow> [] | c # cs \<Rightarrow> c # replace_all cs old new)"
  by pat_completeness auto
termination
  by (relation "measure (\<lambda>(s, _, _). length s)") (auto simp: has_prefix_iff)

declare replace_all.simps [simp del]

definition text_lines :: "string list \<Rightarrow> string" where
  "text_lines ls = concat (map (\<lambda>l. l @ [CHR 0x0A]) ls)"

definition envMarkerComment :: string where
  "envMarkerComment = ''# hal-o-swarm managed''"

definition defaultAgentMD :: string where
  "defaultAgentMD = text_lines [''# AGENT.md'', [], ''## Project: {{PROJECT_NAME}}'', [], ''## Instructions'', [],
     ''_Configure agent instructions here._'']"

section \<open>Detecting drift\<close>

definition missing_item :: "DriftCategory \<Rightarrow> string \<Rightarrow> string \<Rightarrow> DriftItem" where
  "missing_item cat item expected =
     \<lparr>di_Category = cat, di_Item = item, di_Expected = expected, di_Actual = ''missing'', di_Status = DriftStatusMissing\<rparr>"

definition isSafeCategory :: "DriftCategory \<Rightarrow> bool" where
  "isSafeCategory cat \<longleftrightarrow> cat \<in> set [DriftCategoryAgentConfig, DriftCategoryContext, DriftCategoryDocs,
     DriftCategoryGit, DriftCategoryEnvVars]"

text \<open>The items of \<open>names\<close> that do not exist in the directory \<open>base\<close>.\<close>

definition missing_paths :: "file_system \<Rightarrow> string list \<Rightarrow> DriftCategory \<Rightarrow> string list \<Rightarrow> DriftItem list" where
  "missing_paths fs base cat names =
     [missing_item cat n ''exists''. n \<leftarrow> names, os_Stat fs (path_join (base @ [n])) = StatNotExist]"

definition missing_env_vars :: "prov_world \<Rightarrow> (string, string) fmap \<Rightarrow> DriftItem list" where
  "missing_env_vars w m =
     [missing_item DriftCategoryEnvVars v ''set''. v \<leftarrow> pw_order w ''env_vars'' m,
        map_get m v [] = ''required'' \<and> pw_getenv w v = []]"

definition missing_versions :: "prov_world \<Rightarrow> DriftCategory \<Rightarrow> (string, string) fmap \<Rightarrow> DriftItem list" where
  "missing_versions w cat m = [missing_item cat k (map_get m k []). k \<leftarrow> pw_order w cat m]"

definition detectDrift :: "prov_world \<Rightarrow> Provisioner \<Rightarrow> file_system \<Rightarrow> DriftItem list" where
  "detectDrift w p fs =
     (case prov_manifest p of
        None \<Rightarrow> []
      | Some m \<Rightarrow>
          (case em_Requirements m of
             None \<Rightarrow> []
           | Some reqs \<Rightarrow>
               let dir = prov_projectDir p in
               (if mr_AgentConfig reqs = None then [] else missing_paths fs [dir] DriftCategoryAgentConfig [''AGENT.md'']) @
               (case mr_Context reqs of
                  None \<Rightarrow> []
                | Some c \<Rightarrow> missing_paths fs [dir] DriftCategoryContext (ctx_Files c) @
                    missing_paths fs [dir] DriftCategoryContext (ctx_Directories c)) @
               (case mr_Docs reqs of None \<Rightarrow> [] | Some d \<Rightarrow> missing_paths fs [dir] DriftCategoryDocs (docs_Required d)) @
               (case mr_Git reqs of
                  None \<Rightarrow> []
                | Some g \<Rightarrow> missing_paths fs [dir, ''.git'', ''hooks''] DriftCategoryGit (git_Hooks g)) @
               missing_env_vars w (mr_EnvVars reqs) @
               missing_versions w DriftCategoryRuntime (mr_Runtime reqs) @
               missing_versions w DriftCategoryTools (mr_Tools reqs)))"

section \<open>Safe fixes\<close>

type_synonym fix_result = "ProvisionAction option go_result \<times> file_system"

definition action_on :: "DriftCategory \<Rightarrow> string \<Rightarrow> string \<Rightarrow> string \<Rightarrow> ProvisionAction option go_result" where
  "action_on cat item act path = Inr (Some \<lparr>pa_Category = cat, pa_Item = item, pa_Action = act, pa_Path = path\<rparr>)"

text \<open>The template of a file, or the given content.\<close>

definition template_or :: "prov_world \<Rightarrow> Provisioner \<Rightarrow> file_system \<Rightarrow> string list \<Rightarrow> (string \<Rightarrow> string) \<Rightarrow> string \<Rightarrow> string" where
  "template_or w p fs rel f content =
     (if prov_templateDir p = [] then content
      else let tmplPath = path_join (prov_templateDir p # rel)
           in case os_ReadFile (pw_read_out w tmplPath) fs tmplPath of Inr d \<Rightarrow> f d | Inl _ \<Rightarrow> content)"

definition createAgentMD :: "prov_world \<Rightarrow> Provisioner \<Rightarrow> file_system \<Rightarrow> fix_result" where
  "createAgentMD w p fs =
     (let target = path_join [prov_projectDir p, ''AGENT.md'']
      in if is_found (os_Stat fs target) then (Inr None, fs)
         else
           let fill = (\<lambda>s. replace_all s ''{{PROJECT_NAME}}'' (prov_projectName p));
               content = template_or w p fs [''AGENT.md''] fill (fill defaultAgentMD)
           in case os_WriteFile (pw_write_out w target) target content False fs of
                (Some err, fs') \<Rightarrow> (Inl (Wrapf ''failed to create AGENT.md: '' err), fs')
              | (None, fs') \<Rightarrow> (action_on DriftCategoryAgentConfig ''AGENT.md'' ''created'' target, fs'))"

definition createContextItem :: "prov_world \<Rightarrow> Provisioner \<Rightarrow> string \<Rightarrow> file_system \<Rightarrow> fix_result" where
  "createContextItem w p item fs =
     (let target = path_join [prov_projectDir p, item]
      in if is_found (os_Stat fs target) then (Inr None, fs)
         else if has_suffix item ''/'' then
           (case os_MkdirAll (pw_mkdir_out w) target fs of
              (Some err, fs') \<Rightarrow> (Inl (Wrapf (''failed to create directory '' @ item @ '': '') err), fs')
            | (None, fs') \<Rightarrow> (action_on DriftCategoryContext item ''created'' target, fs'))
         else
           (case os_MkdirAll (pw_mkdir_out w) (path_dir target) fs of
              (Some err, fs') \<Rightarrow> (Inl (Wrapf (''failed to create parent for '' @ item @ '': '') err), fs')
            | (None, fs') \<Rightarrow>
                (case os_WriteFile (pw_write_out w target) target [] False fs' of
                   (Some err, fs'') \<Rightarrow> (Inl (Wrapf (''failed to create file '' @ item @ '': '') err), fs'')
                 | (None, fs'') \<Rightarrow> (action_on DriftCategoryContext item ''created'' target, fs''))))"

definition createDoc :: "prov_world \<Rightarrow> Provisioner \<Rightarrow> string \<Rightarrow> file_system \<Rightarrow> fix_result" where
  "createDoc w p docName fs =
     (let target = path_join [prov_projectDir p, docName]
      in if is_found (os_Stat fs target) then (Inr None, fs)
         else
           let content = template_or w p fs [docName] (\<lambda>d. d) (text_lines [''# '' @ trim_suffix docName (path_ext docName)])
           in case os_MkdirAll (pw_mkdir_out w) (path_dir target) fs of
                (Some err, fs') \<Rightarrow> (Inl (Wrapf (''failed to create parent for '' @ docName @ '': '') err), fs')
              | (None, fs') \<Rightarrow>
                  (case os_WriteFile (pw_write_out w target) target content False fs' of
                     (Some err, fs'') \<Rightarrow> (Inl (Wrapf (''failed to create doc '' @ docName @ '': '') err), fs'')
                   | (None, fs'') \<Rightarrow> (action_on DriftCategoryDocs docName ''created'' target, fs'')))"

definition installGitHook :: "prov_world \<Rightarrow> Provisioner \<Rightarrow> string \<Rightarrow> file_system \<Rightarrow> fix_result" where
  "installGitHook w p hookName fs =
     (let hooksDir = path_join [prov_projectDir p, ''.git'', ''hooks''];
          target = path_join [hooksDir, hookName]
      in if is_found (os_Stat fs target) then (Inr None, fs)
         else case os_MkdirAll (pw_mkdir_out w) hooksDir fs of
             (Some err, fs') \<Rightarrow> (Inl (Wrapf ''failed to create hooks directory: '' err), fs')
           | (None, fs') \<Rightarrow>
               (let content = template_or w p fs' [''hooks'', hookName] (\<lambda>d. d)
                      (text_lines [''#!/bin/sh'', ''# '' @ hookName @ '' hook - hal-o-swarm managed'', ''exit 0''])
                in case os_WriteFile (pw_write_out w target) target content True fs' of
                     (Some err, fs'') \<Rightarrow> (Inl (Wrapf (''failed to install hook '' @ hookName @ '': '') err), fs'')
                   | (None, fs'') \<Rightarrow> (action_on DriftCategoryGit hookName ''created'' target, fs'')))"

text \<open>The start-up file of the user's shell.\<close>

definition rc_file :: "prov_world \<Rightarrow> string \<Rightarrow> string" where
  "rc_file w home = path_join [home, if str_contains (pw_getenv w ''SHELL'') ''zsh'' then ''.zshrc'' else ''.bashrc'']"

definition env_marker :: "string \<Rightarrow> string" where
  "env_marker envVar = envMarkerComment @ '' '' @ envVar"

definition injectEnvVar :: "prov_world \<Rightarrow> string \<Rightarrow> file_system \<Rightarrow> fix_result" where
  "injectEnvVar w envVar fs =
     (case pw_home w of
        Inl err \<Rightarrow> (Inl (Wrapf ''failed to get home directory: '' err), fs)
      | Inr home \<Rightarrow>
          (let rcFile = rc_file w home;
               marker = env_marker envVar;
               present = (case os_ReadFile (pw_read_out w rcFile) fs rcFile of
                   Inr d \<Rightarrow> str_contains d marker | Inl _ \<Rightarrow> False)
           in if present then (Inr None, fs)
              else
                let line = [CHR 0x0A] @ text_lines [marker, ''export '' @ envVar @ ''='']
                in case os_AppendFile (pw_write_out w rcFile) rcFile line False fs of
                     (None, fs') \<Rightarrow> (action_on DriftCategoryEnvVars envVar ''injected'' rcFile, fs')
                   | (Some err, fs') \<Rightarrow>
                       (Inl (Wrapf ((case (open_target fs rcFile, pw_write_out w rcFile) of
                            (Inr _, WriteFails _ _) \<Rightarrow> ''failed to write to '' | _ \<Rightarrow> ''failed to open '') @
                          rcFile @ '': '') err), fs')))"

definition applySafeFix :: "prov_world \<Rightarrow> Provisioner \<Rightarrow> DriftItem \<Rightarrow> file_system \<Rightarrow> fix_result" where
  "applySafeFix w p item fs =
     (if di_Category item = DriftCategoryAgentConfig then createAgentMD w p fs
      else if di_Category item = DriftCategoryContext then createContextItem w p (di_Item item) fs
      else if di_Category item = DriftCategoryDocs then createDoc w p (di_Item item) fs
      else if di_Category item = DriftCategoryGit then installGitHook w p (di_Item item) fs
      else if di_Category item = DriftCategoryEnvVars then injectEnvVar w (di_Item item) fs
      else (Inl (Errorf (''unknown safe category: '' @ di_Category item)), fs))"

section \<open>Risky fixes\<close>

definition suggestedCommand :: "DriftItem \<Rightarrow> string" where
  "suggestedCommand item =
     (if di_Category item = DriftCategoryRuntime then
        if di_Item item = ''node'' then ''apt-get install nodejs''
        else if di_Item item = ''python'' then ''apt-get install python3''
        else if di_Item item = ''java'' then ''apt-get install openjdk-17-jdk''
        else ''apt-get install '' @ di_Item item
      else if di_Category item = DriftCategoryTools then ''apt-get install '' @ di_Item item
      else ''install '' @ di_Item item)"

definition hex_digit :: "nat \<Rightarrow> char" where
  "hex_digit d = (if d < 10 then char_of (48 + d) else char_of (87 + d))"

definition hex_text :: "string \<Rightarrow> string" where
  "hex_text bytes = concat (map (\<lambda>b. let n = of_char b :: nat in [hex_digit (n div 16), hex_digit (n mod 16)]) bytes)"

definition generateApprovalToken :: "string option \<Rightarrow> string" where
  "generateApprovalToken bytes = (case bytes of None \<Rightarrow> ''prov_fallback'' | Some b \<Rightarrow> ''prov_'' @ hex_text b)"

definition emitRiskyFix :: "string option \<Rightarrow> DriftItem \<Rightarrow> ProvisionEvent \<times> ProvisionPending" where
  "emitRiskyFix random item =
     (let cmd = suggestedCommand item in
      (\<lparr>pe_Type = ''provision.manual_required'',
        pe_Data = \<lparr>ped_Category = di_Category item, ped_Item = di_Item item, ped_Expected = di_Expected item,
          ped_Actual = di_Actual item, ped_SuggestedCmd = cmd, ped_ApprovalToken = generateApprovalToken random\<rparr>\<rparr>,
       \<lparr>pp_Category = di_Category item, pp_Item = di_Item item, pp_Reason = ''manual_approval_required'', pp_Command = cmd\<rparr>))"

section \<open>A run\<close>

record prov_run =
  run_applied :: "ProvisionAction list"
  run_pending :: "ProvisionPending list"
  run_events :: "ProvisionEvent list"
  run_fs :: file_system

fun provision_items :: "prov_world \<Rightarrow> Provisioner \<Rightarrow> DriftItem list \<Rightarrow> prov_run \<Rightarrow> go_error option \<times> prov_run" where
  "provision_items w p [] run = (None, run)"
| "provision_items w p (item # items) run =
     (if di_Status item = DriftStatusOK then provision_items w p items run
      else if isSafeCategory (di_Category item) then
        (case applySafeFix w p item (run_fs run) of
           (Inl err, fs') \<Rightarrow>
             (Some (Wrapf (''safe fix failed for '' @ di_Category item @ ''/'' @ di_Item item @ '': '') err), run\<lparr>run_fs := fs'\<rparr>)
         | (Inr None, fs') \<Rightarrow> provision_items w p items (run\<lparr>run_fs := fs'\<rparr>)
         | (Inr (Some action), fs') \<Rightarrow>
             provision_items w p items (run\<lparr>run_fs := fs', run_applied := run_applied run @ [action]\<rparr>))
      else
        (case emitRiskyFix (pw_random w (length (run_pending run))) item of
           (event, pending) \<Rightarrow>
             provision_items w p items
               (run\<lparr>run_events := run_events run @ (if prov_emitter p then [event] else []),
                    run_pending := run_pending run @ [pending]\<rparr>)))"

definition Provision :: "prov_world \<Rightarrow> Provisioner \<Rightarrow> file_system
    \<Rightarrow> ProvisionResult \<times> go_error option \<times> ProvisionEvent list \<times> file_system" where
  "Provision w p fs =
     (case provision_items w p (detectDrift w p fs) \<lparr>run_applied = [], run_pending = [], run_events = [], run_fs = fs\<rparr> of
        (err, run) \<Rightarrow>
          (\<lparr>pr_Status = (if err \<noteq> None then ProvisionStatusFailed
                         else if run_pending run \<noteq> [] then ProvisionStatusPartial else ProvisionStatusCompleted),
            pr_Applied = run_applied run, pr_Pending = run_pending run, pr_Timestamp = pw_now w\<rparr>,
           err, run_events run, run_fs run))"

section \<open>What a fix does to the tree\<close>

text \<open>The start-up file is the only file a run changes; it only becomes longer.\<close>

definition rc_keys :: "prov_world \<Rightarrow> file_system \<Rightarrow> string list set" where
  "rc_keys w fs = (case pw_home w of Inl _ \<Rightarrow> {} | Inr home \<Rightarrow> {path_key fs (rc_file w home)})"

definition fix_ok :: "string list set \<Rightarrow> file_system \<Rightarrow> string \<Rightarrow> fix_result \<Rightarrow> bool" where
  "fix_ok R fs target res \<longleftrightarrow> extends R fs (snd res) \<and> fs_wf (snd res) \<and>
     (\<forall>a. fst res = Inr a \<longrightarrow> is_found (os_Stat (snd res) target))"

lemma fix_okI:
  assumes "extends R fs fs'" and "fs_wf fs'" and "\<And>a. r = Inr a \<Longrightarrow> is_found (os_Stat fs' target)"
  shows "fix_ok R fs target (r, fs')"
  using assms by (simp add: fix_ok_def)

lemma action_on_Inr [simp]: "action_on c i a p \<noteq> Inl e"
  by (simp add: action_on_def)

text \<open>The three shapes that the fixes of files have.\<close>

lemma fix_ok_write:
  assumes "fs_wf fs" and "\<not> is_found (os_Stat fs p)"
  shows "fix_ok R fs p (case os_WriteFile out p content exec fs of
     (Some err, fs') \<Rightarrow> (Inl (f err), fs') | (None, fs') \<Rightarrow> (action_on c i a q, fs'))"
proof -
  obtain err fs' where w: "os_WriteFile out p content exec fs = (err, fs')" by fastforce
  note w' = w [unfolded os_WriteFile_def]
  from write_new_file [OF w' not_found_no_file [OF assms(2)]] write_file_wf [OF w' assms(1)] show ?thesis
    by (cases err) (auto simp: w is_found_def intro!: fix_okI)
qed

lemma fix_ok_mkdir:
  assumes "fs_wf fs"
  shows "fix_ok R fs p (case os_MkdirAll out p fs of
     (Some err, fs') \<Rightarrow> (Inl (f err), fs') | (None, fs') \<Rightarrow> (action_on c i a q, fs'))"
proof -
  obtain err fs' where m: "os_MkdirAll out p fs = (err, fs')" by fastforce
  from os_MkdirAll_spec [OF this] assms show ?thesis
    by (cases err) (auto simp: m is_found_def intro!: fix_okI)
qed

lemma fix_ok_make:
  assumes "fs_wf fs" and "\<not> is_found (os_Stat fs (path_join es))"
  shows "fix_ok R fs (path_join es) (case os_MkdirAll out d fs of
     (Some err, fs') \<Rightarrow> (Inl (f err), fs')
   | (None, fs') \<Rightarrow>
       (case os_WriteFile out2 (path_join es) (content fs') exec fs' of
          (Some err, fs'') \<Rightarrow> (Inl (g err), fs'') | (None, fs'') \<Rightarrow> (action_on c i a q, fs'')))"
proof -
  obtain err fs1 where m: "os_MkdirAll out d fs = (err, fs1)" by fastforce
  obtain err2 fs2 where w: "os_WriteFile out2 (path_join es) (content fs1) exec fs1 = (err2, fs2)" by fastforce
  show ?thesis
  proof (cases err)
    case (Some e)
    then show ?thesis using os_MkdirAll_spec [OF m] assms(1) by (auto simp: m intro!: fix_okI)
  next
    case None
    from make_file [OF assms m w] show ?thesis
      by (cases err2) (auto simp: m w None is_found_def intro!: fix_okI)
  qed
qed

lemma fix_ok_found: "fs_wf fs \<Longrightarrow> is_found (os_Stat fs p) \<Longrightarrow> fix_ok R fs p (Inr None, fs)"
  by (simp add: fix_ok_def)

lemma createAgentMD_ok:
  "fs_wf fs \<Longrightarrow> fix_ok R fs (path_join [prov_projectDir p, ''AGENT.md'']) (createAgentMD w p fs)"
  unfolding createAgentMD_def Let_def by (auto intro: fix_ok_found fix_ok_write)

lemma createContextItem_ok:
  "fs_wf fs \<Longrightarrow> fix_ok R fs (path_join [prov_projectDir p, item]) (createContextItem w p item fs)"
  unfolding createContextItem_def Let_def by (auto intro: fix_ok_found fix_ok_mkdir fix_ok_make)

lemma createDoc_ok:
  "fs_wf fs \<Longrightarrow> fix_ok R fs (path_join [prov_projectDir p, doc]) (createDoc w p doc fs)"
  unfolding createDoc_def Let_def by (auto intro: fix_ok_found fix_ok_make)

lemma installGitHook_ok:
  "fs_wf fs \<Longrightarrow> fix_ok R fs (path_join [prov_projectDir p, ''.git'', ''hooks'', hook]) (installGitHook w p hook fs)"
proof -
  assume "fs_wf fs"
  then have "fix_ok R fs (path_join [path_join [prov_projectDir p, ''.git'', ''hooks''], hook]) (installGitHook w p hook fs)"
    unfolding installGitHook_def Let_def by (auto intro: fix_ok_found fix_ok_make)
  then show ?thesis using path_join_join [of "[prov_projectDir p, ''.git'', ''hooks'']" hook] by simp
qed

text \<open>After a successful injection the start-up file has the marker of the variable, if it can be read.\<close>

definition has_marker :: "prov_world \<Rightarrow> file_system \<Rightarrow> string \<Rightarrow> bool" where
  "has_marker w fs v \<longleftrightarrow> (\<exists>home k c x. pw_home w = Inr home \<and>
     os_Stat fs (rc_file w home) = StatFound k (FFile c x) \<and> sublist (env_marker v) c)"

lemma has_marker_extends:
  assumes "has_marker w fs v" and "extends R fs fs'"
  shows "has_marker w fs' v"
proof -
  obtain home k c x where h: "pw_home w = Inr home" "os_Stat fs (rc_file w home) = StatFound k (FFile c x)" "sublist (env_marker v) c"
    using assms(1) by (auto simp: has_marker_def)
  from os_Stat_extends(1) [OF assms(2) h(2)] obtain d where "os_Stat fs' (rc_file w home) = StatFound k (FFile (c @ d) x)" by auto
  moreover have "sublist (env_marker v) (c @ d)" using h(3) by (simp add: sublist_append)
  ultimately show ?thesis using h(1) unfolding has_marker_def by blast
qed

lemma rc_keys_cwd: "fs_cwd fs' = fs_cwd fs \<Longrightarrow> rc_keys w fs' = rc_keys w fs"
  unfolding rc_keys_def by (cases "pw_home w") (simp_all add: path_key_cwd [of fs' fs])

lemma injectEnvVar_ok:
  assumes "injectEnvVar w v fs = (r, fs')" and "fs_wf fs"
  shows "extends (rc_keys w fs) fs fs' \<and> fs_wf fs' \<and> (r \<in> range Inr \<longrightarrow> has_marker w fs' v)"
proof (cases "pw_home w")
  case (Inl e)
  then show ?thesis using assms by (auto simp: injectEnvVar_def)
next
  case (Inr home)
  let ?rc = "rc_file w home"
  let ?line = "[CHR 0x0A] @ text_lines [env_marker v, ''export '' @ v @ ''='']"
  have keys: "{k. \<exists>e. os_Stat fs ?rc = StatFound k e} \<subseteq> rc_keys w fs"
    by (auto simp: rc_keys_def Inr dest: os_Stat_found_key)
  have "(\<exists>c. os_ReadFile (pw_read_out w ?rc) fs ?rc = Inr c \<and> sublist (env_marker v) c \<and> fs' = fs) \<or>
      (\<exists>err. os_AppendFile (pw_write_out w ?rc) ?rc ?line False fs = (err, fs') \<and> (r \<in> range Inr \<longrightarrow> err = None))"
  proof (cases "\<exists>c. os_ReadFile (pw_read_out w ?rc) fs ?rc = Inr c \<and> str_contains c (env_marker v)")
    case True
    then show ?thesis using assms(1) by (auto simp: injectEnvVar_def Inr str_contains_iff)
  next
    case False
    obtain err fs1 where app: "os_AppendFile (pw_write_out w ?rc) ?rc ?line False fs = (err, fs1)" by fastforce
    have "\<not> (case os_ReadFile (pw_read_out w ?rc) fs ?rc of Inr d \<Rightarrow> str_contains d (env_marker v) | Inl _ \<Rightarrow> False)"
      using False by (auto split: sum.splits)
    with assms(1) app have "fs' = fs1" "r \<in> range Inr \<Longrightarrow> err = None"
      unfolding injectEnvVar_def Inr sum.case Let_def by (cases err; auto)+
    with app show ?thesis by blast
  qed
  then consider c where "os_ReadFile (pw_read_out w ?rc) fs ?rc = Inr c" "sublist (env_marker v) c" "fs' = fs"
    | err where "os_AppendFile (pw_write_out w ?rc) ?rc ?line False fs = (err, fs')" "r \<in> range Inr \<longrightarrow> err = None"
    by blast
  then show ?thesis
  proof cases
    case 1
    from 1(1) obtain k x where "os_Stat fs ?rc = StatFound k (FFile c x)"
      by (auto simp: os_ReadFile_def split: stat_result.splits fs_entry.splits option.splits)
    then have "has_marker w fs v" unfolding has_marker_def using Inr 1(2) by blast
    then show ?thesis using 1(3) assms(2) by simp
  next
    case 2
    note app = append_file [OF 2(1)]
    have "sublist (env_marker v) (c @ ?line)" for c
    proof -
      have "?line = [CHR 0x0A] @ env_marker v @ ([CHR 0x0A] @ text_lines [''export '' @ v @ ''=''])" by (simp add: text_lines_def)
      then show ?thesis by (metis append.assoc sublist_appendI)
    qed
    then have "err = None \<Longrightarrow> has_marker w fs' v"
      using app(2) Inr unfolding has_marker_def by blast
    then show ?thesis
      using extends_mono [OF app(1) keys] write_file_wf [OF 2(1) [unfolded os_AppendFile_def] assms(2)] 2(2) by blast
  qed
qed

section \<open>What a run does\<close>

definition item_path :: "Provisioner \<Rightarrow> DriftItem \<Rightarrow> string" where
  "item_path p item =
     path_join ((if di_Category item = DriftCategoryGit then [prov_projectDir p, ''.git'', ''hooks''] else [prov_projectDir p]) @ [di_Item item])"

definition fixed :: "prov_world \<Rightarrow> Provisioner \<Rightarrow> file_system \<Rightarrow> DriftItem \<Rightarrow> bool" where
  "fixed w p fs item \<longleftrightarrow>
     (if di_Category item = DriftCategoryEnvVars then has_marker w fs (di_Item item) else is_found (os_Stat fs (item_path p item)))"

text \<open>The only item of the category \<open>agent_config\<close>.\<close>

definition item_sound :: "DriftItem \<Rightarrow> bool" where
  "item_sound item \<longleftrightarrow> (di_Category item = DriftCategoryAgentConfig \<longrightarrow> di_Item item = ''AGENT.md'')"

lemma fixed_extends: "fixed w p fs item \<Longrightarrow> extends R fs fs' \<Longrightarrow> fixed w p fs' item"
  unfolding fixed_def by (auto intro: has_marker_extends os_Stat_extends(3))

lemma applySafeFix_ok:
  assumes "applySafeFix w p item fs = (r, fs')" and "fs_wf fs" and "isSafeCategory (di_Category item)" and "item_sound item"
  shows "extends (rc_keys w fs) fs fs' \<and> fs_wf fs' \<and> (r \<in> range Inr \<longrightarrow> fixed w p fs' item)"
proof -
  have files: ?thesis
    if "fix_ok (rc_keys w fs) fs (item_path p item) (r, fs')" and "di_Category item \<noteq> DriftCategoryEnvVars"
    using that by (auto simp: fix_ok_def fixed_def)
  consider "di_Category item = DriftCategoryAgentConfig" | "di_Category item = DriftCategoryContext"
    | "di_Category item = DriftCategoryDocs" | "di_Category item = DriftCategoryGit" | "di_Category item = DriftCategoryEnvVars"
    using assms(3) by (auto simp: isSafeCategory_def)
  then show ?thesis
  proof cases
    case 5
    then have "injectEnvVar w (di_Item item) fs = (r, fs')" using assms(1) by (simp add: applySafeFix_def category_defs)
    from injectEnvVar_ok [OF this assms(2)] show ?thesis by (simp add: fixed_def 5)
  next
    case 1
    with assms files createAgentMD_ok [OF assms(2), of "rc_keys w fs" p w] show ?thesis
      by (simp add: applySafeFix_def item_path_def item_sound_def category_defs)
  next
    case 2
    with assms files createContextItem_ok [OF assms(2), of "rc_keys w fs" p "di_Item item" w] show ?thesis
      by (simp add: applySafeFix_def item_path_def category_defs)
  next
    case 3
    with assms files createDoc_ok [OF assms(2), of "rc_keys w fs" p "di_Item item" w] show ?thesis
      by (simp add: applySafeFix_def item_path_def category_defs)
  next
    case 4
    with assms files installGitHook_ok [OF assms(2), of "rc_keys w fs" p "di_Item item" w] show ?thesis
      by (simp add: applySafeFix_def item_path_def category_defs)
  qed
qed

lemma provision_items_ok:
  assumes "provision_items w p items run = (err, run')" and "fs_wf (run_fs run)" and "\<forall>item \<in> set items. item_sound item"
  shows "extends (rc_keys w (run_fs run)) (run_fs run) (run_fs run') \<and> fs_wf (run_fs run') \<and>
    (err = None \<longrightarrow> (\<forall>item \<in> set items. di_Status item \<noteq> DriftStatusOK \<longrightarrow> isSafeCategory (di_Category item) \<longrightarrow>
       fixed w p (run_fs run') item))"
  using assms
proof (induction items arbitrary: run)
  case (Cons item items)
  show ?case
  proof (cases "di_Status item \<noteq> DriftStatusOK \<and> isSafeCategory (di_Category item)")
    case False
    then have "\<exists>run1. provision_items w p items run1 = (err, run') \<and> run_fs run1 = run_fs run"
      using Cons.prems(1) by (auto split: if_splits prod.splits)
    then show ?thesis using Cons False by fastforce
  next
    case True
    obtain r fs1 where afix: "applySafeFix w p item (run_fs run) = (r, fs1)" by fastforce
    from Cons.prems(3) have "item_sound item" by simp
    from applySafeFix_ok [OF afix Cons.prems(2) _ this] True
    have ok: "extends (rc_keys w (run_fs run)) (run_fs run) fs1" "fs_wf fs1" "r \<in> range Inr \<longrightarrow> fixed w p fs1 item" by auto
    show ?thesis
    proof (cases r)
      case (Inl e)
      then have "err \<noteq> None" "run_fs run' = fs1" using Cons.prems(1) True afix by auto
      then show ?thesis using ok by auto
    next
      case (Inr a)
      then obtain run1 where run1: "provision_items w p items run1 = (err, run')" "run_fs run1 = fs1"
        using Cons.prems(1) True afix by (cases a) auto
      have "rc_keys w fs1 = rc_keys w (run_fs run)" using ok(1) by (intro rc_keys_cwd) (simp add: extends_def)
      with Cons.IH [OF run1(1)] run1(2) ok(2) Cons.prems(3)
      have IH: "extends (rc_keys w (run_fs run)) fs1 (run_fs run')" "fs_wf (run_fs run')"
        "err = None \<longrightarrow> (\<forall>item \<in> set items. di_Status item \<noteq> DriftStatusOK \<longrightarrow> isSafeCategory (di_Category item) \<longrightarrow>
           fixed w p (run_fs run') item)" by auto
      with ok Inr fixed_extends [OF _ IH(1)] extends_trans [OF ok(1) IH(1)] show ?thesis by auto
    qed
  qed
qed simp

lemma detectDrift_sound: "\<forall>item \<in> set (detectDrift w p fs). item_sound item \<and> di_Status item \<noteq> DriftStatusOK"
  by (auto simp: detectDrift_def missing_paths_def missing_env_vars_def missing_versions_def missing_item_def item_sound_def
      category_defs DriftStatusMissing_def DriftStatusOK_def Let_def split: option.splits if_splits)

lemma Provision_ok:
  assumes "Provision w p fs = (res, err, ev, fs')" and "fs_wf fs"
  shows "extends (rc_keys w fs) fs fs'" and "fs_wf fs'"
    and "err = None \<Longrightarrow> item \<in> set (detectDrift w p fs) \<Longrightarrow> isSafeCategory (di_Category item) \<Longrightarrow> fixed w p fs' item"
proof -
  let ?run = "\<lparr>run_applied = [], run_pending = [], run_events = [], run_fs = fs\<rparr>"
  obtain run' where run': "provision_items w p (detectDrift w p fs) ?run = (err, run')" "fs' = run_fs run'"
    using assms(1) by (auto simp: Provision_def split: prod.splits)
  from provision_items_ok [OF run'(1)] assms(2) detectDrift_sound run'(2)
  show "extends (rc_keys w fs) fs fs'" and "fs_wf fs'"
    and "err = None \<Longrightarrow> item \<in> set (detectDrift w p fs) \<Longrightarrow> isSafeCategory (di_Category item) \<Longrightarrow> fixed w p fs' item"
    by auto
qed

text \<open>
  C23. Provisioning only adds: however the system calls of a run fail, and whether or not the run
  succeeds, every directory and every file that was there is there afterwards with the same content
  and mode; the one exception is the start-up file of the shell, which can only have become longer.
  The tree stays well-formed.
\<close>
theorem provision_only_adds:
  assumes "Provision w p fs = (res, err, ev, fs')" and "fs_wf fs" and "fs_lookup fs k = Some e"
  shows "fs_wf fs' \<and> (\<exists>e'. fs_lookup fs' k = Some e' \<and>
    (e' = e \<or> (\<exists>home c x d. pw_home w = Inr home \<and> k = path_key fs (rc_file w home) \<and> e = FFile c x \<and> e' = FFile (c @ d) x)))"
proof -
  from Provision_ok(1) [OF assms(1,2)] assms(3) obtain e' where e': "fs_lookup fs' k = Some e'" "grows e e'" "k \<notin> rc_keys w fs \<Longrightarrow> e' = e"
    by (blast elim: extends_lookup)
  have "e' = e \<or> (\<exists>home c x d. pw_home w = Inr home \<and> k = path_key fs (rc_file w home) \<and> e = FFile c x \<and> e' = FFile (c @ d) x)"
  proof (cases "k \<in> rc_keys w fs")
    case True
    then obtain home where "pw_home w = Inr home" "k = path_key fs (rc_file w home)"
      by (auto simp: rc_keys_def split: sum.splits)
    then show ?thesis using e'(2) by (cases e) auto
  qed (use e'(3) in blast)
  with e'(1) Provision_ok(2) [OF assms(1,2)] show ?thesis by blast
qed

section \<open>A second run\<close>

lemma provision_items_quiet:
  assumes "\<forall>item \<in> set items. isSafeCategory (di_Category item) \<longrightarrow> applySafeFix w p item (run_fs run) = (Inr None, run_fs run)"
    and "provision_items w p items run = (err, run')"
  shows "err = None \<and> run_applied run' = run_applied run \<and> run_fs run' = run_fs run"
  using assms
proof (induction items arbitrary: run)
  case (Cons item items)
  then have "\<exists>run1. provision_items w p items run1 = (err, run') \<and> run_fs run1 = run_fs run \<and> run_applied run1 = run_applied run"
    by (auto split: if_splits prod.splits)
  then obtain run1 where run1: "provision_items w p items run1 = (err, run')" "run_fs run1 = run_fs run" "run_applied run1 = run_applied run"
    by blast
  from Cons.IH [OF _ run1(1)] run1(2,3) Cons.prems(1) show ?case by simp
qed simp

lemma missing_paths_gone:
  assumes "extends R fs fs'" and "\<And>n. n \<in> set names \<Longrightarrow> os_Stat fs (path_join (base @ [n])) = StatNotExist \<Longrightarrow>
      is_found (os_Stat fs' (path_join (base @ [n])))"
  shows "missing_paths fs' base cat names = []"
proof -
  have "os_Stat fs' (path_join (base @ [n])) \<noteq> StatNotExist" if "n \<in> set names" for n
  proof (cases "os_Stat fs (path_join (base @ [n]))")
    case (StatFound k e)
    from os_Stat_extends(1) [OF assms(1) this] show ?thesis by auto
  next
    case StatNotExist
    from assms(2) [OF that this] show ?thesis by (auto simp: is_found_def)
  next
    case StatNotDir
    from os_Stat_extends(2) [OF assms(1) this] show ?thesis by simp
  qed
  then show ?thesis by (auto simp: missing_paths_def)
qed

lemma drift_parts:
  assumes "prov_manifest p = Some m" and "em_Requirements m = Some r"
  shows "mr_AgentConfig r = Some a \<Longrightarrow> set (missing_paths fs [prov_projectDir p] DriftCategoryAgentConfig [''AGENT.md'']) \<subseteq> set (detectDrift w p fs)"
    and "mr_Context r = Some c \<Longrightarrow> set (missing_paths fs [prov_projectDir p] DriftCategoryContext (ctx_Files c)) \<subseteq> set (detectDrift w p fs)"
    and "mr_Context r = Some c \<Longrightarrow> set (missing_paths fs [prov_projectDir p] DriftCategoryContext (ctx_Directories c)) \<subseteq> set (detectDrift w p fs)"
    and "mr_Docs r = Some d \<Longrightarrow> set (missing_paths fs [prov_projectDir p] DriftCategoryDocs (docs_Required d)) \<subseteq> set (detectDrift w p fs)"
    and "mr_Git r = Some g \<Longrightarrow> set (missing_paths fs [prov_projectDir p, ''.git'', ''hooks''] DriftCategoryGit (git_Hooks g)) \<subseteq> set (detectDrift w p fs)"
  by (auto simp: detectDrift_def assms Let_def)

lemma safe_categories [simp]:
  "isSafeCategory DriftCategoryAgentConfig" "isSafeCategory DriftCategoryContext" "isSafeCategory DriftCategoryDocs"
  "isSafeCategory DriftCategoryGit" "isSafeCategory DriftCategoryEnvVars"
  by (simp_all add: isSafeCategory_def)

lemma detectDrift_again:
  assumes "Provision w p fs = (res, None, ev, fs')" and "fs_wf fs" and "item \<in> set (detectDrift w2 p fs')"
    and "isSafeCategory (di_Category item)"
  obtains m r v where "prov_manifest p = Some m" and "em_Requirements m = Some r"
    and "item = missing_item DriftCategoryEnvVars v ''set''" and "v \<in> set (pw_order w2 ''env_vars'' (mr_EnvVars r))"
    and "map_get (mr_EnvVars r) v [] = ''required''" and "pw_getenv w2 v = []"
proof -
  note ext = Provision_ok(1) [OF assms(1,2)]
  obtain m r where mr: "prov_manifest p = Some m" "em_Requirements m = Some r"
    using assms(3) by (cases "prov_manifest p"; cases "em_Requirements (the (prov_manifest p))") (auto simp: detectDrift_def)
  let ?dir = "prov_projectDir p"
  have gone: "missing_paths fs' base cat names = []"
    if "set (missing_paths fs base cat names) \<subseteq> set (detectDrift w p fs)" "isSafeCategory cat" "cat \<noteq> DriftCategoryEnvVars"
      "base = (if cat = DriftCategoryGit then [?dir, ''.git'', ''hooks''] else [?dir])" for base cat names
  proof (rule missing_paths_gone [OF ext])
    fix n assume "n \<in> set names" "os_Stat fs (path_join (base @ [n])) = StatNotExist"
    then have "missing_item cat n ''exists'' \<in> set (detectDrift w p fs)" using that(1) by (auto simp: missing_paths_def)
    from Provision_ok(3) [OF assms(1,2) _ this] that(2-4) show "is_found (os_Stat fs' (path_join (base @ [n])))"
      by (simp add: fixed_def missing_item_def item_path_def)
  qed
  have "item \<in> set (missing_env_vars w2 (mr_EnvVars r))"
  proof (rule ccontr)
    assume no: "item \<notin> set (missing_env_vars w2 (mr_EnvVars r))"
    note part = drift_parts [OF mr, where fs = fs and w = w]
    have "mr_AgentConfig r = Some a \<Longrightarrow> missing_paths fs' [?dir] DriftCategoryAgentConfig [''AGENT.md''] = []" for a
      by (rule gone [OF part(1)]) (simp_all add: category_defs isSafeCategory_def)
    moreover have "mr_Context r = Some c \<Longrightarrow> missing_paths fs' [?dir] DriftCategoryContext (ctx_Files c) = []" for c
      by (rule gone [OF part(2)]) (simp_all add: category_defs isSafeCategory_def)
    moreover have "mr_Context r = Some c \<Longrightarrow> missing_paths fs' [?dir] DriftCategoryContext (ctx_Directories c) = []" for c
      by (rule gone [OF part(3)]) (simp_all add: category_defs isSafeCategory_def)
    moreover have "mr_Docs r = Some d \<Longrightarrow> missing_paths fs' [?dir] DriftCategoryDocs (docs_Required d) = []" for d
      by (rule gone [OF part(4)]) (simp_all add: category_defs isSafeCategory_def)
    moreover have "mr_Git r = Some g \<Longrightarrow> missing_paths fs' [?dir, ''.git'', ''hooks''] DriftCategoryGit (git_Hooks g) = []" for g
      by (rule gone [OF part(5)]) (simp_all add: category_defs isSafeCategory_def)
    ultimately have "item \<in> set (missing_versions w2 DriftCategoryRuntime (mr_Runtime r)) \<union>
        set (missing_versions w2 DriftCategoryTools (mr_Tools r))"
      using assms(3) no by (auto simp: detectDrift_def mr Let_def split: if_splits)
    with assms(4) show False by (auto simp: missing_versions_def missing_item_def isSafeCategory_def category_defs)
  qed
  then show thesis using that [OF mr] by (auto simp: missing_env_vars_def)
qed

text \<open>
  C22. Provisioning is idempotent: after a run that succeeded, another run over the same manifest in the
  same process environment - whatever then happens to writes - succeeds, applies nothing and leaves
  the tree as it is, provided the start-up file can be read.
\<close>
theorem provision_idempotent:
  assumes "Provision w p fs = (res, None, ev, fs')" and "fs_wf fs" and "Provision w2 p fs' = (res2, err2, ev2, fs2)"
    and "pw_getenv w2 = pw_getenv w" and "pw_home w2 = pw_home w" and "pw_read_out w2 = (\<lambda>_. None)"
    and "\<And>l m. iteration_order m (pw_order w l m)" and "\<And>l m. iteration_order m (pw_order w2 l m)"
  shows "err2 = None \<and> pr_Applied res2 = [] \<and> fs2 = fs'"
proof -
  have quiet: "applySafeFix w2 p item fs' = (Inr None, fs')"
    if item: "item \<in> set (detectDrift w2 p fs')" "isSafeCategory (di_Category item)" for item
    using assms(1,2) item
  proof (rule detectDrift_again)
    fix m r v assume mr: "prov_manifest p = Some m" "em_Requirements m = Some r"
      and v: "item = missing_item DriftCategoryEnvVars v ''set''" "v \<in> set (pw_order w2 ''env_vars'' (mr_EnvVars r))"
        "map_get (mr_EnvVars r) v [] = ''required''" "pw_getenv w2 v = []"
    have "v \<in> set (pw_order w ''env_vars'' (mr_EnvVars r))" using v(2) assms(7,8) by (simp add: iteration_order_def)
    then have "item \<in> set (detectDrift w p fs)"
      using v assms(4) mr by (auto simp: detectDrift_def Let_def missing_env_vars_def)
    from Provision_ok(3) [OF assms(1,2) _ this] item(2) have "has_marker w fs' v"
      by (simp add: fixed_def v(1) missing_item_def)
    then obtain home k c x where h: "pw_home w2 = Inr home" "os_Stat fs' (rc_file w2 home) = StatFound k (FFile c x)" "sublist (env_marker v) c"
      unfolding has_marker_def rc_file_def assms(4,5) by blast
    then have "os_ReadFile (pw_read_out w2 (rc_file w2 home)) fs' (rc_file w2 home) = Inr c" by (simp add: os_ReadFile_def assms(6))
    with h have "injectEnvVar w2 v fs' = (Inr None, fs')" by (simp add: injectEnvVar_def Let_def str_contains_iff)
    then show ?thesis by (simp add: applySafeFix_def v(1) missing_item_def category_defs)
  qed
  let ?run = "\<lparr>run_applied = [], run_pending = [], run_events = [], run_fs = fs'\<rparr>"
  obtain run' where run': "provision_items w2 p (detectDrift w2 p fs') ?run = (err2, run')" "fs2 = run_fs run'"
      "pr_Applied res2 = run_applied run'"
    using assms(3) by (auto simp: Provision_def split: prod.splits)
  have "\<forall>item \<in> set (detectDrift w2 p fs'). isSafeCategory (di_Category item) \<longrightarrow> applySafeFix w2 p item (run_fs ?run) = (Inr None, run_fs ?run)"
    using quiet by simp
  from provision_items_quiet [OF this run'(1)] run'(2,3) show ?thesis by simp
qed

section \<open>An example run\<close>

definition demo_fs :: file_system where
  "demo_fs = \<lparr>fs_nodes = fmupd [''p''] FDir (fmupd [''h''] FDir (fmupd [''h'', ''.bashrc''] (FFile ''x'' False) fmempty)), fs_cwd = []\<rparr>"

definition demo_prov_world :: prov_world where
  "demo_prov_world = \<lparr>pw_getenv = (\<lambda>_. []), pw_home = Inr ''/h'', pw_read_out = (\<lambda>_. None), pw_write_out = (\<lambda>_. IoDone),
     pw_mkdir_out = (\<lambda>_. None), pw_order = sorted_order, pw_random = (\<lambda>_. None), pw_now = 1\<rparr>"

definition demo_provisioner :: Provisioner where
  "demo_provisioner = NewProvisioner ''/p'' ''demo'' (Some demo_manifest) [] True"

definition demo_provisioned :: "ProvisionResult \<times> go_error option \<times> ProvisionEvent list \<times> file_system" where
  "demo_provisioned = Provision demo_prov_world demo_provisioner demo_fs"

lemma demo_fs_wf: "fs_wf demo_fs"
  by (auto simp: fs_wf_def fs_lookup_def demo_fs_def split: if_splits)

lemma demo_provisioned_ok: "fst (snd demo_provisioned) = None"
  by code_simp

lemma demo_provisioned_applied: "map pa_Item (pr_Applied (fst demo_provisioned)) = [''AGENT.md'', ''a.txt'', ''docs'', ''API_KEY'']"
  by code_simp

lemma demo_run: "Provision demo_prov_world demo_provisioner demo_fs = (fst demo_provisioned, None, fst (snd (snd demo_provisioned)), snd (snd (snd demo_provisioned)))"
  unfolding demo_provisioned_ok [symmetric] by (simp add: demo_provisioned_def)

lemma provision_idempotent_witness:
  "pr_Applied (fst demo_provisioned) \<noteq> [] \<and>
   pr_Applied (fst (Provision demo_prov_world demo_provisioner (snd (snd (snd demo_provisioned))))) = []"
  using provision_idempotent [OF demo_run demo_fs_wf, of demo_prov_world] demo_provisioned_applied
  by (cases "Provision demo_prov_world demo_provisioner (snd (snd (snd demo_provisioned)))")
    (auto simp: demo_prov_world_def sorted_order)

lemma provision_only_adds_witness: "fs_lookup (snd (snd (snd demo_provisioned))) [''p''] = Some FDir"
  using provision_only_adds [OF demo_run demo_fs_wf, of "[''p'']" FDir] by (auto simp: demo_fs_def fs_lookup_def)

end
