(* ===== verification/Go_Regexp.thy ===== *)
theory Go_Regexp
  imports Go_Lib
begin

text \<open>
  The part of package \<open>regexp\<close> that the sources use: sequences, alternatives, greedy repetition and one
  capturing group, with the leftmost-first choice of Go. \<open>matches\<close> lists the ways to match a prefix of
  the text in the order of preference; a repetition does not go round on an empty match.
\<close>

datatype rx = RChar "char \<Rightarrow> bool" | REmpty | RSeq rx rx | RAlt rx rx | RStar rx | RGroup rx

text \<open>A way to match: the matched text, the group's text, the rest.\<close>

type_synonym rx_match = "string \<times> string option \<times> string"

definition later_group :: "string option \<Rightarrow> string option \<Rightarrow> string option" where
  "later_group g1 g2 = (case g2 of None \<Rightarrow> g1 | Some _ \<Rightarrow> g2)"

function matches :: "rx \<Rightarrow> string \<Rightarrow> rx_match list" where
  "matches (RChar p) s = (case s of [] \<Rightarrow> [] | c # cs \<Rightarrow> if p c then [([c], None, cs)] else [])"
| "matches REmpty s = [([], None, s)]"
| "matches (RSeq a b) s =
     concat (map (\<lambda>(m1, g1, r1). map (\<lambda>(m2, g2, r2). (m1 @ m2, later_group g1 g2, r2)) (matches b r1)) (matches a s))"
| "matches (RAlt a b) s = matches a s @ matches b s"
| "matches (RStar a) s =
     concat (map (\<lambda>(m1, g1, r1).
       if length r1 < length s then map (\<lambda>(m2, g2, r2). (m1 @ m2, later_group g1 g2, r2)) (matches (RStar a) r1) else [])
       (matches a s)) @ [([], None, s)]"
| "matches (RGroup a) s = map (\<lambda>(m, _, r). (m, Some m, r)) (matches a s)"
  by pat_completeness auto
termination
  by (relation "measures [\<lambda>(r, _). size r, \<lambda>(_, s). length s]") auto

declare matches.simps(5) [simp del]

text \<open>\<open>FindStringSubmatch\<close>: the match and the group of the leftmost match.\<close>

fun rx_find :: "rx \<Rightarrow> string \<Rightarrow> (string \<times> string option) option" where
  "rx_find r s =
     (case matches r s of
        (m, g, _) # _ \<Rightarrow> Some (m, g)
      | [] \<Rightarrow> (case s of [] \<Rightarrow> None | _ # cs \<Rightarrow> rx_find r cs))"

declare rx_find.simps [simp del]

section \<open>Shorthands\<close>

definition rx_lit :: "string \<Rightarrow> rx" where
  "rx_lit s = foldr (\<lambda>c r. RSeq (RChar (\<lambda>d. d = c)) r) s REmpty"

text \<open>Text under \<open>(?i)\<close>, for a lower case literal.\<close>

definition rx_fold :: "string \<Rightarrow> rx" where
  "rx_fold s = foldr (\<lambda>c r. RSeq (RChar (\<lambda>d. lower_char d = c)) r) s REmpty"

definition rx_plus :: "rx \<Rightarrow> rx" where
  "rx_plus a = RSeq a (RStar a)"

definition rx_space :: "char \<Rightarrow> bool" where
  "rx_space c \<longleftrightarrow> c \<in> {CHR 0x09, CHR 0x0A, CHR 0x0C, CHR 0x0D, CHR 0x20}"

section \<open>Laws\<close>

text \<open>A match is a prefix of the text, and a find is a part of it.\<close>

lemma matches_prefix: "(m, g, r) \<in> set (matches a s) \<Longrightarrow> s = m @ r"
proof (induction a s arbitrary: m g r rule: matches.induct)
  case (3 a b s)
  from 3(3) obtain m1 g1 r1 m2 g2 where a: "(m1, g1, r1) \<in> set (matches a s)" "(m2, g2, r) \<in> set (matches b r1)" "m = m1 @ m2"
    by auto
  from 3(1) [OF a(1)] 3(2) [OF a(1) refl refl a(2)] a(3) show ?case by simp
next
  case (5 a s)
  show ?case
  proof (cases "(m, g, r) = ([], None, s)")
    case False
    with 5(3) have "\<exists>m1 g1 r1 m2 g2. (m1, g1, r1) \<in> set (matches a s) \<and> length r1 < length s \<and>
        (m2, g2, r) \<in> set (matches (RStar a) r1) \<and> m = m1 @ m2"
      by (auto simp: matches.simps(5) [of a s] split: if_splits) blast+
    then obtain m1 g1 r1 m2 g2 where a: "(m1, g1, r1) \<in> set (matches a s)" "length r1 < length s"
        "(m2, g2, r) \<in> set (matches (RStar a) r1)" "m = m1 @ m2"
      by blast
    from 5(1) [OF a(1)] 5(2) [OF a(1) refl refl a(2,3)] a(4) show ?thesis by simp
  qed simp
qed (auto split: list.splits if_splits)

lemma rx_find_sublist: "rx_find a s = Some (m, g) \<Longrightarrow> sublist m s"
proof (induction a s rule: rx_find.induct)
  case (1 a s)
  show ?case
  proof (cases "matches a s")
    case (Cons x xs)
    with 1(2) obtain r where "(m, g, r) \<in> set (matches a s)" by (cases x) (auto simp: rx_find.simps [of a s])
    from matches_prefix [OF this] show ?thesis by simp
  next
    case Nil
    with 1 show ?thesis by (cases s) (auto simp: rx_find.simps [of a] sublist_Cons_right)
  qed
qed

end
