(* ===== verification/Env_Check.thy ===== *)
theory Env_Check
  imports Provision Go_Regexp
begin

text \<open>
  The environment check of the agent, \<open>internal/agent/envcheck.go\<close>: a read-only comparison of the
  machine with a manifest. The commands it runs, the process environment and the semver library
  (Masterminds/semver) belong to the surroundings, a \<open>check_world\<close>.
\<close>

section \<open>Types\<close>

type_synonym EnvCheckStatus = string
type_synonym CheckDriftStatus = string

definition StatusReady :: EnvCheckStatus where "StatusReady = ''ready''"
definition StatusDegraded :: EnvCheckStatus where "StatusDegraded = ''degraded''"
definition StatusMissing :: EnvCheckStatus where "StatusMissing = ''missing''"

definition DriftPass :: CheckDriftStatus where "DriftPass = ''pass''"
definition DriftFail :: CheckDriftStatus where "DriftFail = ''fail''"
definition DriftWarn :: CheckDriftStatus where "DriftWarn = ''warn''"

lemmas check_status_defs = DriftPass_def DriftFail_def DriftWarn_def

record CheckItem =
  ci_Category :: string
  ci_Item :: string
  ci_Expected :: string
  ci_Actual :: string
  ci_Status :: CheckDriftStatus

record CheckResult =
  cr_Status :: EnvCheckStatus
  cr_Drift :: "CheckItem list"
  cr_Timestamp :: go_time

text \<open>\<open>NewVersion\<close>, \<open>NewConstraint\<close> and \<open>Check\<close> of the semver library, on texts: whether a version
  text parses, whether a constraint text parses, and whether the version satisfies the constraint.\<close>

record check_world =
  cw_run :: "string \<Rightarrow> string list \<Rightarrow> string \<times> go_error option"
  cw_getenv :: "string \<Rightarrow> string"
  cw_fs :: file_system
  cw_order :: map_order
  cw_version_ok :: "string \<Rightarrow> bool"
  cw_constraint_ok :: "string \<Rightarrow> bool"
  cw_satisfies :: "string \<Rightarrow> string \<Rightarrow> bool"
  cw_now :: go_time

record EnvChecker =
  ec_baseDir :: string

definition NewEnvChecker :: "string \<Rightarrow> EnvChecker" where
  "NewEnvChecker baseDir = \<lparr>ec_baseDir = baseDir\<rparr>"

definition check_item :: "string \<Rightarrow> string \<Rightarrow> string \<Rightarrow> string \<Rightarrow> CheckDriftStatus \<Rightarrow> CheckItem" where
  "check_item cat item expected actual status =
     \<lparr>ci_Category = cat, ci_Item = item, ci_Expected = expected, ci_Actual = actual, ci_Status = status\<rparr>"

section \<open>Versions\<close>

text \<open>The pattern \<open>v?(\d+\.\d+(?:\.\d+)?)\<close>.\<close>

definition version_rx :: rx where
  "version_rx =
     (let digits = rx_plus (RChar is_digit) in
      RSeq (RAlt (rx_lit ''v'') REmpty)
        (RGroup (RSeq digits (RSeq (rx_lit ''.'') (RSeq digits (RAlt (RSeq (rx_lit ''.'') digits) REmpty))))))"

definition parseVersionString :: "string \<Rightarrow> string" where
  "parseVersionString output = (case rx_find version_rx output of Some (_, Some v) \<Rightarrow> v | _ \<Rightarrow> trim_space output)"

definition normalizeVersion :: "string \<Rightarrow> string" where
  "normalizeVersion v0 =
     (let v = trim_prefix v0 ''v''; n = length (str_split v (CHR ''.''))
      in if n = 1 then v @ ''.0.0'' else if n = 2 then v @ ''.0'' else v)"

definition checkVersionConstraint :: "check_world \<Rightarrow> string \<Rightarrow> string \<Rightarrow> CheckDriftStatus" where
  "checkVersionConstraint w version constr =
     (let normalized = normalizeVersion version
      in if \<not> cw_version_ok w normalized then DriftFail
         else if \<not> cw_constraint_ok w constr then DriftFail
         else if cw_satisfies w constr normalized then DriftPass else DriftFail)"

text \<open>The runner that a nil \<open>runner\<close> stands for.\<close>

definition ExecCommandRunner_Run :: "check_world \<Rightarrow> string \<Rightarrow> string list \<Rightarrow> string \<times> go_error option" where
  "ExecCommandRunner_Run w name args = (case cw_run w name args of (out, err) \<Rightarrow> (trim_space out, err))"

definition getVersion :: "check_world \<Rightarrow> string \<Rightarrow> string go_result" where
  "getVersion w name =
     (case ExecCommandRunner_Run w name [''--version''] of
        (out, Some err) \<Rightarrow> Inl (Wrapf (''command '' @ quoted (name @ '' --version'') @ '' failed: '') err)
      | (out, None) \<Rightarrow> Inr (parseVersionString out))"

section \<open>Checks\<close>

definition version_item :: "check_world \<Rightarrow> string \<Rightarrow> (string, string) fmap \<Rightarrow> string \<Rightarrow> CheckItem" where
  "version_item w cat m name =
     (let constr = map_get m name [] in
      case getVersion w name of
        Inl err \<Rightarrow> check_item cat name constr (''not found: '' @ error_text err) DriftFail
      | Inr actual \<Rightarrow> check_item cat name constr actual (checkVersionConstraint w actual constr))"

definition checkRuntime :: "check_world \<Rightarrow> (string, string) fmap \<Rightarrow> CheckItem list" where
  "checkRuntime w runtimes = map (version_item w ''runtime'' runtimes) (cw_order w ''runtime'' runtimes)"

definition checkTools :: "check_world \<Rightarrow> (string, string) fmap \<Rightarrow> CheckItem list" where
  "checkTools w tools = map (version_item w ''tools'' tools) (cw_order w ''tools'' tools)"

definition env_var_item :: "check_world \<Rightarrow> (string, string) fmap \<Rightarrow> string \<Rightarrow> CheckItem" where
  "env_var_item w m name =
     (let requirement = map_get m name [] in
      if cw_getenv w name = []
      then check_item ''env_vars'' name requirement [] (if requirement = ''optional'' then DriftWarn else DriftFail)
      else check_item ''env_vars'' name requirement ''set'' DriftPass)"

definition checkEnvVars :: "check_world \<Rightarrow> (string, string) fmap \<Rightarrow> CheckItem list" where
  "checkEnvVars w envVars = map (env_var_item w envVars) (cw_order w ''env_vars'' envVars)"

definition checkAgentConfig :: "check_world \<Rightarrow> EnvChecker \<Rightarrow> AgentConfigRequirements option \<Rightarrow> CheckItem list" where
  "checkAgentConfig w c agentCfg =
     (case agentCfg of
        None \<Rightarrow> []
      | Some _ \<Rightarrow>
          if is_found (os_Stat (cw_fs w) (path_join [ec_baseDir c, ''AGENT.md'']))
          then [check_item ''agent_config'' ''AGENT.md'' ''exists'' ''exists'' DriftPass]
          else [check_item ''agent_config'' ''AGENT.md'' ''exists'' ''missing'' DriftFail])"

definition resolvePath :: "EnvChecker \<Rightarrow> string \<Rightarrow> string" where
  "resolvePath c path = (if is_abs path then path else path_join [ec_baseDir c, path])"

text \<open>An item that must exist; \<open>status\<close> is its status if it does not.\<close>

definition exists_item :: "check_world \<Rightarrow> EnvChecker \<Rightarrow> string \<Rightarrow> string \<Rightarrow> CheckDriftStatus \<Rightarrow> string \<Rightarrow> CheckItem" where
  "exists_item w c cat expected status item =
     (if is_found (os_Stat (cw_fs w) (resolvePath c item)) then check_item cat item expected ''exists'' DriftPass
      else check_item cat item expected ''missing'' status)"

definition directory_item :: "check_world \<Rightarrow> EnvChecker \<Rightarrow> string \<Rightarrow> CheckItem" where
  "directory_item w c dir =
     (case os_Stat (cw_fs w) (resolvePath c dir) of
        StatFound _ FDir \<Rightarrow> check_item ''context'' dir ''directory'' ''directory'' DriftPass
      | StatFound _ (FFile _ _) \<Rightarrow> check_item ''context'' dir ''directory'' ''not a directory'' DriftFail
      | _ \<Rightarrow> check_item ''context'' dir ''directory'' ''missing'' DriftFail)"

definition checkContext :: "check_world \<Rightarrow> EnvChecker \<Rightarrow> ContextRequirements option \<Rightarrow> CheckItem list" where
  "checkContext w c ctxReqs =
     (case ctxReqs of
        None \<Rightarrow> []
      | Some r \<Rightarrow> map (exists_item w c ''context'' ''exists'' DriftFail) (ctx_Files r) @ map (directory_item w c) (ctx_Directories r))"

text \<open>The permission bits of a directory have an executable one.\<close>

definition hook_item :: "check_world \<Rightarrow> EnvChecker \<Rightarrow> string \<Rightarrow> CheckItem" where
  "hook_item w c hook =
     (case os_Stat (cw_fs w) (path_join [ec_baseDir c, ''.git'', ''hooks'', hook]) of
        StatFound _ e \<Rightarrow>
          if (case e of FDir \<Rightarrow> True | FFile _ x \<Rightarrow> x)
          then check_item ''git'' (''hook:'' @ hook) ''installed'' ''installed'' DriftPass
          else check_item ''git'' (''hook:'' @ hook) ''installed'' ''not executable'' DriftFail
      | _ \<Rightarrow> check_item ''git'' (''hook:'' @ hook) ''installed'' ''missing'' DriftFail)"

definition git_config_item :: "check_world \<Rightarrow> (string, string) fmap \<Rightarrow> string \<Rightarrow> CheckItem" where
  "git_config_item w m key =
     (let expected = map_get m key [] in
      case ExecCommandRunner_Run w ''git'' [''config'', ''--get'', key] of
        (actual, err) \<Rightarrow>
          if err \<noteq> None \<or> actual = [] then check_item ''git'' (''config:'' @ key) expected [] DriftFail
          else if actual \<noteq> expected then check_item ''git'' (''config:'' @ key) expected actual DriftFail
          else check_item ''git'' (''config:'' @ key) expected actual DriftPass)"

definition checkGit :: "check_world \<Rightarrow> EnvChecker \<Rightarrow> GitRequirements option \<Rightarrow> CheckItem list" where
  "checkGit w c gitReqs =
     (case gitReqs of
        None \<Rightarrow> []
      | Some g \<Rightarrow> map (hook_item w c) (git_Hooks g) @ map (git_config_item w (git_Config g)) (cw_order w ''git.config'' (git_Config g)))"

definition checkDocs :: "check_world \<Rightarrow> EnvChecker \<Rightarrow> DocsRequirements option \<Rightarrow> CheckItem list" where
  "checkDocs w c docsReqs =
     (case docsReqs of
        None \<Rightarrow> []
      | Some d \<Rightarrow> map (exists_item w c ''docs'' ''exists'' DriftFail) (docs_Required d) @
          map (exists_item w c ''docs'' ''recommended'' DriftWarn) (docs_Recommended d))"

definition determineStatus :: "CheckItem list \<Rightarrow> EnvCheckStatus" where
  "determineStatus items =
     (let hasFailure = list_ex (\<lambda>i. ci_Status i = DriftFail) items;
          hasWarning = list_ex (\<lambda>i. ci_Status i = DriftWarn) items
      in if hasFailure then StatusMissing else if hasWarning then StatusDegraded else StatusReady)"

definition Check :: "check_world \<Rightarrow> EnvChecker \<Rightarrow> ManifestRequirements option \<Rightarrow> CheckResult" where
  "Check w c reqs =
     (case reqs of
        None \<Rightarrow> \<lparr>cr_Status = StatusReady, cr_Drift = [], cr_Timestamp = cw_now w\<rparr>
      | Some r \<Rightarrow>
          let drift = checkRuntime w (mr_Runtime r) @ checkTools w (mr_Tools r) @ checkEnvVars w (mr_EnvVars r) @
                checkAgentConfig w c (mr_AgentConfig r) @ checkContext w c (mr_Context r) @ checkGit w c (mr_Git r) @
                checkDocs w c (mr_Docs r)
          in \<lparr>cr_Status = determineStatus drift, cr_Drift = drift, cr_Timestamp = cw_now w\<rparr>)"

section \<open>The status\<close>

text \<open>What the machine must have, and what it should have.\<close>

definition version_met :: "check_world \<Rightarrow> string \<Rightarrow> string \<Rightarrow> bool" where
  "version_met w name constr \<longleftrightarrow>
     (\<exists>out. cw_run w name [''--version''] = (out, None) \<and>
        checkVersionConstraint w (parseVersionString (trim_space out)) constr = DriftPass)"

definition exists_at :: "check_world \<Rightarrow> EnvChecker \<Rightarrow> string \<Rightarrow> bool" where
  "exists_at w c item \<longleftrightarrow> is_found (os_Stat (cw_fs w) (resolvePath c item))"

definition mandatory_met :: "check_world \<Rightarrow> EnvChecker \<Rightarrow> ManifestRequirements \<Rightarrow> bool" where
  "mandatory_met w c r \<longleftrightarrow>
     (\<forall>m \<in> {mr_Runtime r, mr_Tools r}. \<forall>k v. fmlookup m k = Some v \<longrightarrow> version_met w k v) \<and>
     (\<forall>k v. fmlookup (mr_EnvVars r) k = Some v \<longrightarrow> v \<noteq> ''optional'' \<longrightarrow> cw_getenv w k \<noteq> []) \<and>
     (mr_AgentConfig r \<noteq> None \<longrightarrow> is_found (os_Stat (cw_fs w) (path_join [ec_baseDir c, ''AGENT.md'']))) \<and>
     (\<forall>x. mr_Context r = Some x \<longrightarrow> (\<forall>f \<in> set (ctx_Files x). exists_at w c f) \<and>
        (\<forall>d \<in> set (ctx_Directories x). \<exists>k. os_Stat (cw_fs w) (resolvePath c d) = StatFound k FDir)) \<and>
     (\<forall>g. mr_Git r = Some g \<longrightarrow>
        (\<forall>h \<in> set (git_Hooks g). \<exists>k e. os_Stat (cw_fs w) (path_join [ec_baseDir c, ''.git'', ''hooks'', h]) = StatFound k e \<and>
           (case e of FDir \<Rightarrow> True | FFile _ x \<Rightarrow> x)) \<and>
        (\<forall>k v. fmlookup (git_Config g) k = Some v \<longrightarrow> v \<noteq> [] \<and> (\<exists>out. cw_run w ''git'' [''config'', ''--get'', k] = (out, None) \<and> trim_space out = v))) \<and>
     (\<forall>d. mr_Docs r = Some d \<longrightarrow> (\<forall>x \<in> set (docs_Required d). exists_at w c x))"

definition recommended_met :: "check_world \<Rightarrow> EnvChecker \<Rightarrow> ManifestRequirements \<Rightarrow> bool" where
  "recommended_met w c r \<longleftrightarrow>
     (\<forall>k v. fmlookup (mr_EnvVars r) k = Some v \<longrightarrow> v = ''optional'' \<longrightarrow> cw_getenv w k \<noteq> []) \<and>
     (\<forall>d. mr_Docs r = Some d \<longrightarrow> (\<forall>x \<in> set (docs_Recommended d). exists_at w c x))"

definition none_with :: "CheckDriftStatus \<Rightarrow> CheckItem list \<Rightarrow> bool" where
  "none_with s items \<longleftrightarrow> (\<forall>i \<in> set items. ci_Status i \<noteq> s)"

lemma none_with_append [simp]: "none_with s (xs @ ys) \<longleftrightarrow> none_with s xs \<and> none_with s ys"
  by (auto simp: none_with_def)

lemma none_with_simps [simp]: "none_with s []" "none_with s (i # is) \<longleftrightarrow> ci_Status i \<noteq> s \<and> none_with s is"
  by (simp_all add: none_with_def)

lemma none_with_map: "none_with s (map f xs) \<longleftrightarrow> (\<forall>x \<in> set xs. ci_Status (f x) \<noteq> s)"
  by (simp add: none_with_def)

lemma determineStatus_eq:
  "determineStatus items = (if \<not> none_with DriftFail items then StatusMissing
     else if \<not> none_with DriftWarn items then StatusDegraded else StatusReady)"
  by (simp add: determineStatus_def none_with_def list_ex_iff Let_def)

lemma ci_Status_check_item [simp]: "ci_Status (check_item a b c d s) = s"
  by (simp add: check_item_def)

lemma checkVersionConstraint_values: "checkVersionConstraint w v c \<in> {DriftPass, DriftFail}"
  by (simp add: checkVersionConstraint_def Let_def)

lemma version_item_status:
  "ci_Status (version_item w cat m k) = (if version_met w k (map_get m k []) then DriftPass else DriftFail)"
proof (cases "cw_run w k [''--version'']")
  case (Pair out err)
  then show ?thesis
    using checkVersionConstraint_values [of w "parseVersionString (trim_space out)" "map_get m k []"]
    by (cases err) (auto simp: version_item_def getVersion_def ExecCommandRunner_Run_def version_met_def Let_def check_status_defs)
qed

lemma exists_item_status: "ci_Status (exists_item w c cat ex s i) = (if exists_at w c i then DriftPass else s)"
  by (simp add: exists_item_def exists_at_def)

lemma check_statuses_distinct [simp]:
  "DriftPass \<noteq> DriftFail" "DriftFail \<noteq> DriftPass" "DriftPass \<noteq> DriftWarn" "DriftWarn \<noteq> DriftPass"
  "DriftFail \<noteq> DriftWarn" "DriftWarn \<noteq> DriftFail"
  by (simp_all add: check_status_defs)

lemma directory_item_status:
  "ci_Status (directory_item w c d) = (if \<exists>k. os_Stat (cw_fs w) (resolvePath c d) = StatFound k FDir then DriftPass else DriftFail)"
  by (auto simp: directory_item_def split: stat_result.splits fs_entry.splits)

lemma hook_item_status:
  "ci_Status (hook_item w c h) =
     (if \<exists>k e. os_Stat (cw_fs w) (path_join [ec_baseDir c, ''.git'', ''hooks'', h]) = StatFound k e \<and>
        (case e of FDir \<Rightarrow> True | FFile _ x \<Rightarrow> x) then DriftPass else DriftFail)"
  by (cases "os_Stat (cw_fs w) (path_join [ec_baseDir c, ''.git'', ''hooks'', h])") (auto simp: hook_item_def)

lemma git_config_item_status:
  "ci_Status (git_config_item w m k) =
     (if map_get m k [] \<noteq> [] \<and> (\<exists>out. cw_run w ''git'' [''config'', ''--get'', k] = (out, None) \<and> trim_space out = map_get m k [])
      then DriftPass else DriftFail)"
  by (cases "cw_run w ''git'' [''config'', ''--get'', k]") (auto simp: git_config_item_def ExecCommandRunner_Run_def Let_def)

lemma env_var_item_status:
  "ci_Status (env_var_item w m k) =
     (if cw_getenv w k \<noteq> [] then DriftPass else if map_get m k [] = ''optional'' then DriftWarn else DriftFail)"
  by (simp add: env_var_item_def Let_def)

lemmas item_statuses = version_item_status exists_item_status directory_item_status hook_item_status git_config_item_status
  env_var_item_status

text \<open>Quantifying over the order of a loop is quantifying over the map.\<close>

lemma none_with_order:
  assumes "iteration_order m ks" and "\<And>k. ci_Status (f k) \<noteq> s \<longleftrightarrow> P k (map_get m k [])"
  shows "none_with s (map f ks) \<longleftrightarrow> (\<forall>k v. fmlookup m k = Some v \<longrightarrow> P k v)"
  unfolding none_with_map assms(2) by (rule ball_order [OF assms(1)])

lemma no_failure:
  assumes "\<And>l m. iteration_order m (cw_order w l m)"
  shows "none_with DriftFail (cr_Drift (Check w c (Some r))) \<longleftrightarrow> mandatory_met w c r"
proof -
  have "none_with DriftFail (checkRuntime w m) \<longleftrightarrow> (\<forall>k v. fmlookup m k = Some v \<longrightarrow> version_met w k v)"
    "none_with DriftFail (checkTools w m) \<longleftrightarrow> (\<forall>k v. fmlookup m k = Some v \<longrightarrow> version_met w k v)"
    "none_with DriftFail (checkEnvVars w m) \<longleftrightarrow> (\<forall>k v. fmlookup m k = Some v \<longrightarrow> (v \<noteq> ''optional'' \<longrightarrow> cw_getenv w k \<noteq> []))" for m
    unfolding checkRuntime_def checkTools_def checkEnvVars_def
    by (rule none_with_order [OF assms], simp add: item_statuses)+
  moreover have "none_with DriftFail (map (git_config_item w m) (cw_order w l m)) \<longleftrightarrow>
      (\<forall>k v. fmlookup m k = Some v \<longrightarrow> v \<noteq> [] \<and> (\<exists>out. cw_run w ''git'' [''config'', ''--get'', k] = (out, None) \<and> trim_space out = v))" for m l
    by (rule none_with_order [OF assms]) (simp add: item_statuses)
  ultimately show ?thesis
    by (simp add: Check_def Let_def mandatory_met_def checkAgentConfig_def checkContext_def checkGit_def checkDocs_def
        none_with_map item_statuses split: option.splits)
qed

lemma no_warning:
  assumes "\<And>l m. iteration_order m (cw_order w l m)"
  shows "none_with DriftWarn (cr_Drift (Check w c (Some r))) \<longleftrightarrow> recommended_met w c r"
proof -
  have "none_with DriftWarn (checkRuntime w m)" "none_with DriftWarn (checkTools w m)"
    "none_with DriftWarn (checkEnvVars w m) \<longleftrightarrow> (\<forall>k v. fmlookup m k = Some v \<longrightarrow> (v = ''optional'' \<longrightarrow> cw_getenv w k \<noteq> []))" for m
    unfolding checkRuntime_def checkTools_def checkEnvVars_def
    by (simp add: none_with_map item_statuses, simp add: none_with_map item_statuses,
        rule none_with_order [OF assms], simp add: item_statuses)
  then show ?thesis
    by (simp add: Check_def Let_def recommended_met_def checkAgentConfig_def checkContext_def checkGit_def checkDocs_def
        none_with_map item_statuses split: option.splits)
qed

text \<open>
  The environment check reports the state of the machine: whatever the visiting order of the maps,
  the status is \<open>missing\<close> exactly when a mandatory requirement is not met, \<open>degraded\<close> exactly when all
  mandatory ones are met but a recommended one is not, and \<open>ready\<close> otherwise.
\<close>
theorem env_check_exact:
  assumes "\<And>l m. iteration_order m (cw_order w l m)"
  shows "cr_Status (Check w c (Some r)) =
    (if \<not> mandatory_met w c r then StatusMissing
     else if \<not> recommended_met w c r then StatusDegraded else StatusReady)"
proof -
  have "cr_Status (Check w c (Some r)) = determineStatus (cr_Drift (Check w c (Some r)))"
    by (simp add: Check_def Let_def)
  then show ?thesis by (simp only: determineStatus_eq no_failure [OF assms] no_warning [OF assms])
qed

section \<open>Check and provisioning disagree on directories\<close>

text \<open>
  A required directory whose name does not end in a slash is provisioned as an empty file, and from
  then on the project can not become ready: in every tree that later runs can produce, the
  provisioner sees no drift for the item and the check reports \<open>not a directory\<close> and \<open>missing\<close>.
\<close>
theorem provisioned_directory_fails_check:
  assumes "createContextItem pw p dir fs = (Inr a, fs1)" and "fs_wf fs"
    and "\<not> is_found (os_Stat fs (path_join [prov_projectDir p, dir]))" and "\<not> has_suffix dir ''/''" and "\<not> is_abs dir"
    and "extends R fs1 fs2" and "cw_fs w = fs2" and "ec_baseDir c = prov_projectDir p"
    and "mr_Context r = Some x" and "dir \<in> set (ctx_Directories x)"
  shows "missing_paths fs2 [prov_projectDir p] DriftCategoryContext [dir] = [] \<and>
    check_item ''context'' dir ''directory'' ''not a directory'' DriftFail \<in> set (cr_Drift (Check w c (Some r))) \<and>
    cr_Status (Check w c (Some r)) = StatusMissing"
proof -
  let ?p = "path_join [prov_projectDir p, dir]"
  obtain e1 f1 where m: "os_MkdirAll (pw_mkdir_out pw) (path_dir ?p) fs = (e1, f1)" by fastforce
  obtain e2 f2 where wr: "os_WriteFile (pw_write_out pw ?p) ?p [] False f1 = (e2, f2)" by fastforce
  have "e1 = None" "e2 = None" "fs1 = f2"
    using assms(1,3,4) m wr by (auto simp: createContextItem_def Let_def split: option.splits)
  with make_file(3) [OF assms(2,3) m wr] obtain k where "os_Stat fs1 ?p = StatFound k (FFile [] False)" by auto
  from os_Stat_extends(1) [OF assms(6) this] obtain d where is_file: "os_Stat fs2 ?p = StatFound k (FFile d False)" by auto
  then have "directory_item w c dir = check_item ''context'' dir ''directory'' ''not a directory'' DriftFail"
    by (simp add: directory_item_def resolvePath_def assms(5,7,8))
  then have item: "check_item ''context'' dir ''directory'' ''not a directory'' DriftFail \<in> set (cr_Drift (Check w c (Some r)))"
    using assms(9,10) by (force simp: Check_def Let_def checkContext_def)
  then have "\<not> none_with DriftFail (cr_Drift (Check w c (Some r)))" by (force simp: none_with_def)
  then have "cr_Status (Check w c (Some r)) = StatusMissing" by (simp add: Check_def Let_def determineStatus_eq)
  with item is_file show ?thesis by (simp add: missing_paths_def)
qed

section \<open>Examples\<close>

definition demo_check_world :: check_world where
  "demo_check_world = \<lparr>cw_run = (\<lambda>_ _. (''v18.14.0'', None)), cw_getenv = (\<lambda>_. ''x''), cw_fs = snd (snd (snd demo_provisioned)),
     cw_order = sorted_order, cw_version_ok = (\<lambda>_. True), cw_constraint_ok = (\<lambda>_. True), cw_satisfies = (\<lambda>_ _. True), cw_now = 1\<rparr>"

lemma env_check_exact_witness:
  "mandatory_met demo_check_world (NewEnvChecker ''/p'') (demo_requirements\<lparr>mr_Context := None\<rparr>)"
proof -
  let ?c = "Check demo_check_world (NewEnvChecker ''/p'') (Some (demo_requirements\<lparr>mr_Context := None\<rparr>))"
  have "cr_Status ?c = StatusReady" by code_simp
  moreover have "StatusReady \<noteq> StatusMissing" by code_simp
  ultimately show ?thesis
    using env_check_exact [of demo_check_world "NewEnvChecker ''/p''" "demo_requirements\<lparr>mr_Context := None\<rparr>"]
    by (auto simp: demo_check_world_def sorted_order split: if_splits)
qed

lemma provisioned_directory_fails_check_witness:
  "cr_Status (Check (demo_check_world\<lparr>cw_fs := snd (createContextItem demo_prov_world demo_provisioner ''docs'' demo_fs)\<rparr>)
     (NewEnvChecker ''/p'') (Some demo_requirements)) = StatusMissing"
proof -
  obtain r fs1 where c: "createContextItem demo_prov_world demo_provisioner ''docs'' demo_fs = (r, fs1)" by fastforce
  have "isl (fst (createContextItem demo_prov_world demo_provisioner ''docs'' demo_fs)) = False" by code_simp
  then obtain a where a: "createContextItem demo_prov_world demo_provisioner ''docs'' demo_fs = (Inr a, fs1)"
    using c by (cases r) auto
  have "\<not> is_found (os_Stat demo_fs (path_join [prov_projectDir demo_provisioner, ''docs'']))"
    "\<not> has_suffix ''docs'' ''/''" "\<not> is_abs ''docs''" by code_simp+
  from provisioned_directory_fails_check [OF a demo_fs_wf this extends_refl, of "demo_check_world\<lparr>cw_fs := fs1\<rparr>" "NewEnvChecker ''/p''"
      demo_requirements "\<lparr>ctx_Files = [''a.txt''], ctx_Directories = [''docs'']\<rparr>"]
  have "cr_Status (Check (demo_check_world\<lparr>cw_fs := fs1\<rparr>) (NewEnvChecker ''/p'') (Some demo_requirements)) = StatusMissing"
    by (simp add: NewEnvChecker_def demo_provisioner_def NewProvisioner_def demo_requirements_def)
  then show ?thesis by (simp only: a snd_conv)
qed

end
