(* ===== verification/Session_Commands.thy ===== *)
theory Session_Commands
  imports WS_Client Env_Check Security
begin

text \<open>
  The agent's command handler for sessions and environments, \<open>internal/agent/session_commands.go\<close>,
  and its project table, \<open>internal/agent/projects.go\<close>.

  The adapter to the coding tool (\<open>OpencodeAdapter\<close>) is an interface: a record of its operations on a
  state of their own. Everything the handler decodes or encodes as JSON, the clock and the surroundings of
  the environment commands are in a \<open>session_env\<close>.
\<close>

section \<open>Projects\<close>

record ProjectInfo =
  pi_Name :: string
  pi_Directory :: string

record ProjectRegistry =
  reg_projects :: "(string, ProjectInfo) fmap"

definition project_entry_error :: "file_system \<Rightarrow> nat \<Rightarrow> ProjectInfo \<Rightarrow> (string, ProjectInfo) fmap \<Rightarrow> go_error option" where
  "project_entry_error fs i proj known =
     (if pi_Name proj = [] then Some (Errorf (''project registry: projects['' @ nat_text i @ ''].name is empty''))
      else if pi_Directory proj = [] then Some (Errorf (''project registry: projects['' @ nat_text i @ ''].directory is empty''))
      else case os_Stat fs (pi_Directory proj) of
          StatNotExist \<Rightarrow> Some (Errorf (''project registry: projects['' @ nat_text i @ ''] ('' @ pi_Name proj @
            '') directory does not exist: '' @ pi_Directory proj))
        | StatNotDir \<Rightarrow> Some (Wrapf (''project registry: failed to stat projects['' @ nat_text i @ ''] ('' @ pi_Name proj @
            '') directory: '') (Errorf (''stat '' @ pi_Directory proj @ '': not a directory'')))
        | StatFound _ (FFile _ _) \<Rightarrow> Some (Errorf (''project registry: projects['' @ nat_text i @ ''] ('' @ pi_Name proj @
            '') path is not a directory: '' @ pi_Directory proj))
        | StatFound _ FDir \<Rightarrow>
            if fmlookup known (pi_Name proj) \<noteq> None
            then Some (Errorf (''project registry: duplicate project name: '' @ pi_Name proj)) else None)"

fun add_projects :: "file_system \<Rightarrow> nat \<Rightarrow> ProjectInfo list \<Rightarrow> (string, ProjectInfo) fmap \<Rightarrow> (string, ProjectInfo) fmap go_result" where
  "add_projects fs i [] known = Inr known"
| "add_projects fs i (proj # projs) known =
     (case project_entry_error fs i proj known of
        Some err \<Rightarrow> Inl err
      | None \<Rightarrow> add_projects fs (Suc i) projs (fmupd (pi_Name proj) proj known))"

definition NewProjectRegistry :: "file_system \<Rightarrow> ProjectInfo list \<Rightarrow> ProjectRegistry go_result" where
  "NewProjectRegistry fs projects =
     (case add_projects fs 0 projects fmempty of Inl err \<Rightarrow> Inl err | Inr m \<Rightarrow> Inr \<lparr>reg_projects = m\<rparr>)"

definition GetProject :: "ProjectRegistry \<Rightarrow> string \<Rightarrow> ProjectInfo option" where
  "GetProject r name = fmlookup (reg_projects r) name"

definition ListProjects :: "string list \<Rightarrow> ProjectRegistry \<Rightarrow> ProjectInfo list" where
  "ListProjects ks r = map_values (reg_projects r) ks"

definition ProjectCount :: "ProjectRegistry \<Rightarrow> nat" where
  "ProjectCount r = fcard (fmdom (reg_projects r))"

section \<open>Commands\<close>

record sessionCommand =
  sc_CommandID :: string
  sc_Type :: string
  sc_Project :: string
  sc_Args :: "(string, go_value) fmap"

record sessionCommandResult =
  scr_CommandID :: string
  scr_Status :: string
  scr_Output :: string
  scr_Error :: string
  scr_Timestamp :: go_time

definition commandStatusSuccess :: string where "commandStatusSuccess = ''success''"
definition commandStatusFailure :: string where "commandStatusFailure = ''failure''"

text \<open>\<open>ad_projectDirs\<close> is the table of directories if the adapter is the real one, and \<open>ad_type_name\<close>
  what \<open>%T\<close> prints.\<close>

record 'a OpencodeAdapter =
  ad_CreateSession :: "string \<Rightarrow> string \<Rightarrow> 'a \<Rightarrow> string go_result \<times> 'a"
  ad_PromptSession :: "string \<Rightarrow> string \<Rightarrow> 'a \<Rightarrow> go_error option \<times> 'a"
  ad_KillSession :: "string \<Rightarrow> 'a \<Rightarrow> go_error option \<times> 'a"
  ad_SessionStatus :: "string \<Rightarrow> 'a \<Rightarrow> string go_result \<times> 'a"
  ad_projectDirs :: "'a \<Rightarrow> (string, string) fmap option"
  ad_type_name :: string

record 'a agent_state =
  as_adapter :: 'a
  as_fs :: file_system

text \<open>\<open>se_unmarshal\<close> fills in what it can before an error.\<close>

record session_env =
  se_now :: go_time
  se_prov :: prov_world
  se_check :: check_world
  se_unmarshal :: "string \<Rightarrow> sessionCommand \<times> go_error option"
  se_manifest :: "string go_result \<Rightarrow> EnvManifest go_result"
  se_marshal_check :: "string \<Rightarrow> CheckResult \<Rightarrow> string go_result"
  se_marshal_provision :: "string \<Rightarrow> string list \<Rightarrow> ProvisionResult \<Rightarrow> string go_result"
  se_marshal_diff :: "string \<Rightarrow> string \<Rightarrow> string \<Rightarrow> string \<Rightarrow> string go_result"
  se_marshal_sync :: "string \<Rightarrow> string \<Rightarrow> string \<Rightarrow> string go_result"
  se_marshal_result :: "sessionCommandResult \<Rightarrow> string go_result"

definition readStringArg :: "(string, go_value) fmap \<Rightarrow> string \<Rightarrow> string" where
  "readStringArg args key = (case fmlookup args key of Some (JString s) \<Rightarrow> s | _ \<Rightarrow> [])"

definition resolveCommandID :: "string \<Rightarrow> string \<Rightarrow> string" where
  "resolveCommandID payloadCommandID requestID = (if payloadCommandID \<noteq> [] then payloadCommandID else requestID)"

definition projectDirectoryForCommand :: "'a OpencodeAdapter \<Rightarrow> 'a \<Rightarrow> string \<Rightarrow> string go_result" where
  "projectDirectoryForCommand ad a project =
     (case ad_projectDirs ad a of
        None \<Rightarrow> Inl (Errorf (''env command unsupported for adapter '' @ ad_type_name ad))
      | Some dirs \<Rightarrow>
          (case fmlookup dirs project of
             None \<Rightarrow> Inl (Errorf (''project directory not found for '' @ project))
           | Some directory \<Rightarrow>
               if directory = [] then Inl (Errorf (''project directory not found for '' @ project)) else Inr directory))"

definition loadProjectManifest :: "session_env \<Rightarrow> file_system \<Rightarrow> string \<Rightarrow> EnvManifest option" where
  "loadProjectManifest se fs projectDir =
     (let path = path_join [projectDir, ''env-manifest.json'']
      in case se_manifest se (os_ReadFile (pw_read_out (se_prov se) path) fs path) of Inl _ \<Rightarrow> None | Inr m \<Rightarrow> Some m)"

text \<open>The result of a command: its output or its error, and the new state.\<close>

type_synonym 'a exec_result = "string go_result \<times> 'a agent_state"

text \<open>The four environment commands, after their common start.\<close>

definition env_check_command :: "session_env \<Rightarrow> string \<Rightarrow> string \<Rightarrow> file_system \<Rightarrow> string go_result" where
  "env_check_command se project directory fs =
     (let reqs = (case loadProjectManifest se fs directory of None \<Rightarrow> None | Some m \<Rightarrow> em_Requirements m);
          check = Check ((se_check se)\<lparr>cw_fs := fs\<rparr>) (NewEnvChecker directory) reqs
      in case se_marshal_check se project check of
           Inl err \<Rightarrow> Inl (Wrapf ''marshal env_check result: '' err)
         | Inr payload \<Rightarrow> Inr payload)"

definition env_provision_command :: "session_env \<Rightarrow> string \<Rightarrow> string \<Rightarrow> file_system \<Rightarrow> string go_result \<times> file_system" where
  "env_provision_command se project directory fs =
     (case Provision (se_prov se) (NewProvisioner directory project (loadProjectManifest se fs directory) [] False) fs of
        (provision, Some err, _, fs') \<Rightarrow> (Inl err, fs')
      | (provision, None, _, fs') \<Rightarrow>
          (let changes = map (\<lambda>a. pa_Category a @ '':'' @ pa_Item a @ '':'' @ pa_Action a) (pr_Applied provision)
           in case se_marshal_provision se project changes provision of
                Inl err \<Rightarrow> (Inl (Wrapf ''marshal env_provision result: '' err), fs')
              | Inr payload \<Rightarrow> (Inr payload, fs')))"

definition agentmd_template :: "string \<Rightarrow> string" where
  "agentmd_template project = replace_all defaultAgentMD ''{{PROJECT_NAME}}'' project"

definition agentmd_diff_command :: "session_env \<Rightarrow> string \<Rightarrow> string \<Rightarrow> file_system \<Rightarrow> string go_result" where
  "agentmd_diff_command se project directory fs =
     (let localPath = path_join [directory, ''AGENT.md''];
          local = (case os_ReadFile (pw_read_out (se_prov se) localPath) fs localPath of Inr d \<Rightarrow> d | Inl _ \<Rightarrow> []);
          delta = (if local \<noteq> agentmd_template project then ''content differs'' else [])
      in case se_marshal_diff se project local (agentmd_template project) delta of
           Inl err \<Rightarrow> Inl (Wrapf ''marshal agentmd_diff result: '' err)
         | Inr payload \<Rightarrow> Inr payload)"

definition agentmd_requirements :: ManifestRequirements where
  "agentmd_requirements = \<lparr>mr_Runtime = fmempty, mr_Tools = fmempty, mr_EnvVars = fmempty,
     mr_AgentConfig = Some \<lparr>acr_Model = ''default'', acr_Temperature = 0\<rparr>, mr_Context = None, mr_Git = None, mr_Docs = None\<rparr>"

definition agentmd_sync_command :: "session_env \<Rightarrow> string \<Rightarrow> string \<Rightarrow> file_system \<Rightarrow> string go_result \<times> file_system" where
  "agentmd_sync_command se project directory fs =
     (let target = path_join [directory, ''AGENT.md''];
          answer = (\<lambda>status message fs'.
            (case se_marshal_sync se project status message of
               Inl err \<Rightarrow> (Inl (Wrapf ''marshal agentmd_sync result: '' err), fs')
             | Inr payload \<Rightarrow> (Inr payload, fs')))
      in if os_Stat fs target = StatNotExist then
           (case Provision (se_prov se) (NewProvisioner directory project
                   (Some \<lparr>em_Version = [], em_Requirements = Some agentmd_requirements, em_Projects = fmempty\<rparr>) [] False) fs of
              (_, Some err, _, fs') \<Rightarrow> (Inl err, fs')
            | (_, None, _, fs') \<Rightarrow> answer ''synced'' ''AGENT.md created'' fs')
         else answer ''already_synced'' ''AGENT.md already exists'' fs)"

definition environment_command :: "session_env \<Rightarrow> 'a OpencodeAdapter \<Rightarrow> sessionCommand \<Rightarrow> 'a agent_state
    \<Rightarrow> (string \<Rightarrow> string \<Rightarrow> file_system \<Rightarrow> string go_result \<times> file_system) \<Rightarrow> 'a exec_result" where
  "environment_command se ad cmd st run =
     (let project = trim_space (sc_Project cmd)
      in if project = [] then (Inl (Errorf ''project is required''), st)
         else case projectDirectoryForCommand ad (as_adapter st) project of
             Inl err \<Rightarrow> (Inl err, st)
           | Inr directory \<Rightarrow> (case run project directory (as_fs st) of (r, fs') \<Rightarrow> (r, st\<lparr>as_fs := fs'\<rparr>)))"

definition with_session :: "sessionCommand \<Rightarrow> 'a agent_state \<Rightarrow> (string \<Rightarrow> 'a \<Rightarrow> string go_result \<times> 'a) \<Rightarrow> 'a exec_result" where
  "with_session cmd st run =
     (let sessionID = readStringArg (sc_Args cmd) ''session_id''
      in if sessionID = [] then (Inl (Errorf ''session_id is required''), st)
         else case run sessionID (as_adapter st) of (r, a') \<Rightarrow> (r, st\<lparr>as_adapter := a'\<rparr>))"

definition no_output :: "go_error option \<times> 'a \<Rightarrow> string go_result \<times> 'a" where
  "no_output = (\<lambda>(err, a). (case err of Some e \<Rightarrow> Inl e | None \<Rightarrow> Inr [], a))"

definition executeSessionCommand :: "session_env \<Rightarrow> 'a OpencodeAdapter \<Rightarrow> sessionCommand \<Rightarrow> 'a agent_state \<Rightarrow> 'a exec_result" where
  "executeSessionCommand se ad cmd st =
     (let args = sc_Args cmd in
      if sc_Type cmd = ''create_session'' then
        (case ad_CreateSession ad (sc_Project cmd) (readStringArg args ''prompt'') (as_adapter st) of (r, a') \<Rightarrow> (r, st\<lparr>as_adapter := a'\<rparr>))
      else if sc_Type cmd = ''prompt_session'' then
        with_session cmd st (\<lambda>sid a.
          let message = readStringArg args ''message''
          in no_output (ad_PromptSession ad sid (if message = [] then readStringArg args ''prompt'' else message) a))
      else if sc_Type cmd = ''kill_session'' then with_session cmd st (\<lambda>sid a. no_output (ad_KillSession ad sid a))
      else if sc_Type cmd = ''session_status'' then with_session cmd st (ad_SessionStatus ad)
      else if sc_Type cmd = ''restart_session'' then
        (let sessionID = readStringArg args ''session_id'';
             a1 = (if sessionID = [] then as_adapter st else snd (ad_KillSession ad sessionID (as_adapter st)))
         in case ad_CreateSession ad (sc_Project cmd) ''restart'' a1 of (r, a') \<Rightarrow> (r, st\<lparr>as_adapter := a'\<rparr>))
      else if sc_Type cmd = ''env_check'' then
        environment_command se ad cmd st (\<lambda>project dir fs. (env_check_command se project dir fs, fs))
      else if sc_Type cmd = ''env_provision'' then environment_command se ad cmd st (env_provision_command se)
      else if sc_Type cmd = ''agentmd_diff'' then
        environment_command se ad cmd st (\<lambda>project dir fs. (agentmd_diff_command se project dir fs, fs))
      else if sc_Type cmd = ''agentmd_sync'' then environment_command se ad cmd st (agentmd_sync_command se)
      else (Inl (Errorf (''unsupported command type '' @ sc_Type cmd)), st))"

section \<open>The handler\<close>

definition sendSessionCommandResult :: "session_env \<Rightarrow> string \<Rightarrow> sessionCommandResult \<Rightarrow> Envelope go_result" where
  "sendSessionCommandResult se fallbackRequestID result =
     (case se_marshal_result se result of
        Inl err \<Rightarrow> Inl (Wrapf ''marshal command result payload: '' err)
      | Inr payload \<Rightarrow>
          Inr \<lparr>env_Version = ProtocolVersion, env_Type = MessageTypeCommandResult,
               env_RequestID = (if scr_CommandID result = [] then fallbackRequestID else scr_CommandID result),
               env_Timestamp = time_unix (se_now se), env_Payload = payload\<rparr>)"

text \<open>The error of \<open>json.Unmarshal\<close> is reported to the supervisor. An error of the send itself only reaches
  the log of the caller.\<close>

definition command_result :: "session_env \<Rightarrow> string \<Rightarrow> string go_result \<Rightarrow> sessionCommandResult" where
  "command_result se commandID r =
     (case r of
        Inr output \<Rightarrow> \<lparr>scr_CommandID = commandID, scr_Status = commandStatusSuccess, scr_Output = output, scr_Error = [],
          scr_Timestamp = se_now se\<rparr>
      | Inl err \<Rightarrow> \<lparr>scr_CommandID = commandID, scr_Status = commandStatusFailure, scr_Output = [], scr_Error = error_text err,
          scr_Timestamp = se_now se\<rparr>)"

text \<open>A nil adapter or envelope is \<open>None\<close>; \<open>has_sender\<close> is false for a nil sender.\<close>

definition HandleSessionCommand :: "session_env \<Rightarrow> 'a OpencodeAdapter option \<Rightarrow> bool \<Rightarrow> Envelope option \<Rightarrow> 'a agent_state
    \<Rightarrow> go_error option \<times> Envelope list \<times> 'a agent_state" where
  "HandleSessionCommand se adapter has_sender envelope st =
     (case adapter of
        None \<Rightarrow> (Some (Errorf ''opencode adapter is required''), [], st)
      | Some ad \<Rightarrow>
          if \<not> has_sender then (Some (Errorf ''command result sender is required''), [], st)
          else case envelope of
              None \<Rightarrow> (Some (Errorf ''command envelope is required''), [], st)
            | Some env \<Rightarrow>
                (case se_unmarshal se (env_Payload env) of
                   (cmd, Some err) \<Rightarrow>
                     (case sendSessionCommandResult se (env_RequestID env)
                             (command_result se (resolveCommandID (sc_CommandID cmd) (env_RequestID env))
                                (Inl (Wrapf ''unmarshal session command payload: '' err))) of
                        Inl e \<Rightarrow> (Some (Suffixf (Wrapf ''unmarshal session command payload: '' err)
                            (''; send command result: '' @ error_text e)), [], st)
                      | Inr reply \<Rightarrow> (None, [reply], st))
                 | (cmd, None) \<Rightarrow>
                     (case executeSessionCommand se ad cmd st of
                        (r, st') \<Rightarrow>
                          (case sendSessionCommandResult se (env_RequestID env)
                                  (command_result se (resolveCommandID (sc_CommandID cmd) (env_RequestID env)) r) of
                             Inl e \<Rightarrow> (Some (Wrapf ''send session command result: '' e), [], st')
                           | Inr reply \<Rightarrow> (None, [reply], st')))))"

definition session_command_handler :: "session_env \<Rightarrow> 'a OpencodeAdapter \<Rightarrow> 'a agent_state command_handler" where
  "session_command_handler se ad env = HandleSessionCommand se (Some ad) True (Some env)"

definition session_command_types :: "string list" where
  "session_command_types = [''create_session'', ''prompt_session'', ''kill_session'', ''restart_session'', ''session_status'',
     ''env_check'', ''env_provision'', ''agentmd_diff'', ''agentmd_sync'']"

definition RegisterSessionCommandHandlers :: "'s command_handler \<Rightarrow> bool \<Rightarrow> 's WSClient option
    \<Rightarrow> go_error option \<times> 's WSClient option" where
  "RegisterSessionCommandHandlers handler has_adapter client =
     (case client of
        None \<Rightarrow> (Some (Errorf ''ws client is required''), client)
      | Some c \<Rightarrow>
          if \<not> has_adapter then (Some (Errorf ''opencode adapter is required''), client)
          else (None, Some (fold (\<lambda>t c. RegisterCommandHandler c t handler) session_command_types c)))"

text \<open>The session handler answers every command with one result that carries its id.\<close>

lemma session_command_handler_answers:
  assumes "se_unmarshal se (env_Payload env) = (sc, None)" and "sc_CommandID sc \<noteq> []"
    and "\<And>r. \<exists>p. se_marshal_result se r = Inr p"
  obtains reply st' r p where "session_command_handler se ad env st = (None, [reply], st')"
    and "reply = \<lparr>env_Version = ProtocolVersion, env_Type = MessageTypeCommandResult, env_RequestID = sc_CommandID sc,
      env_Timestamp = time_unix (se_now se), env_Payload = p\<rparr>"
    and "se_marshal_result se r = Inr p" and "scr_CommandID r = sc_CommandID sc"
    and "scr_Status r = (if isl (fst (executeSessionCommand se ad sc st)) then commandStatusFailure else commandStatusSuccess)"
proof -
  obtain x st' where ex: "executeSessionCommand se ad sc st = (x, st')" by fastforce
  let ?r = "command_result se (sc_CommandID sc) x"
  obtain p where p: "se_marshal_result se ?r = Inr p" using assms(3) by blast
  have r: "scr_CommandID ?r = sc_CommandID sc" "scr_Status ?r = (if isl x then commandStatusFailure else commandStatusSuccess)"
    by (simp_all add: command_result_def split: sum.splits)
  show thesis
    by (rule that [OF _ refl p r(1)])
      (use assms(1,2) ex p r in \<open>simp_all add: session_command_handler_def HandleSessionCommand_def sendSessionCommandResult_def resolveCommandID_def\<close>)
qed

end
