(* ===== verification/Bounded_Memo.thy ===== *)
theory Bounded_Memo
  imports Go_Lib
begin

text \<open>
  The contract of two bounded memories of the sources: the command ids a \<open>CredentialApplier\<close> has
  applied, and the results an \<open>HTTPAPI\<close> has returned for idempotency keys. Both are a map next to a list of
  its keys in order of arrival; a new key beyond the capacity evicts the oldest.

  The contract speaks of the entries from oldest to newest; the derived lemmas say for how long
  an entry is remembered.
\<close>

definition keep_newest :: "nat \<Rightarrow> 'a list \<Rightarrow> 'a list" where
  "keep_newest n xs = drop (length xs - n) xs"

lemma keep_newest_length [simp]: "length (keep_newest n xs) = min n (length xs)"
  by (auto simp: keep_newest_def)

lemma keep_newest_small: "length xs \<le> n \<Longrightarrow> keep_newest n xs = xs"
  by (simp add: keep_newest_def)

lemma keep_newest_rev: "keep_newest n xs = rev (take n (rev xs))"
  by (simp add: keep_newest_def take_rev)

lemma keep_newest_append: "keep_newest n (keep_newest n xs @ ys) = keep_newest n (xs @ ys)"
  by (simp add: keep_newest_rev min_def)

lemma keep_newest_map: "keep_newest n (map f xs) = map f (keep_newest n xs)"
  by (simp add: keep_newest_def drop_map)

lemma set_keep_newest: "set (keep_newest n xs) \<subseteq> set xs"
  by (simp add: keep_newest_def set_drop_subset)

lemma distinct_keep_newest: "distinct (map fst xs) \<Longrightarrow> distinct (map fst (keep_newest n xs))"
  by (simp add: keep_newest_def distinct_drop flip: drop_map)

text \<open>An entry stays among the newest \<open>n\<close> until \<open>n\<close> entries have followed it.\<close>

lemma keep_newest_recent: "length ys < n \<Longrightarrow> x \<in> set (keep_newest n (xs @ x # ys))"
proof -
  assume "length ys < n"
  then have "keep_newest n (xs @ x # ys) = drop (length xs + Suc (length ys) - n) xs @ x # ys"
    by (simp add: keep_newest_def)
  then show ?thesis by simp
qed

locale bounded_memo =
  fixes recall :: "'s \<Rightarrow> string \<Rightarrow> 'v option"
    and remember :: "string \<Rightarrow> 'v \<Rightarrow> 's \<Rightarrow> 's"
    and entries :: "'s \<Rightarrow> (string \<times> 'v) list"
    and inv :: "'s \<Rightarrow> bool"
    and usable :: "string \<Rightarrow> bool"
    and cap :: nat
  assumes cap_pos: "0 < cap"
    and inv_distinct: "inv s \<Longrightarrow> distinct (map fst (entries s))"
    and inv_length: "inv s \<Longrightarrow> length (entries s) \<le> cap"
    and recall_entries: "inv s \<Longrightarrow> usable k \<Longrightarrow> recall s k = map_of (entries s) k"
    and remember_new: "inv s \<Longrightarrow> usable k \<Longrightarrow> recall s k = None \<Longrightarrow>
      inv (remember k v s) \<and> entries (remember k v s) = keep_newest cap (entries s @ [(k, v)])"
begin

lemma recall_iff:
  assumes "inv s" and "usable k"
  shows "recall s k = Some v \<longleftrightarrow> (k, v) \<in> set (entries s)"
  using recall_entries [OF assms] inv_distinct [OF assms(1)] by (simp add: map_of_eq_Some_iff)

text \<open>A run of a client that consults the memory first and stores what it did not find.\<close>

fun memo_run :: "(string \<times> 'v) list \<Rightarrow> 's \<Rightarrow> 's" where
  "memo_run [] s = s"
| "memo_run ((k, v) # kvs) s = memo_run kvs (if recall s k = None then remember k v s else s)"

lemma memo_run_inv: "inv s \<Longrightarrow> \<forall>(k, v) \<in> set kvs. usable k \<Longrightarrow> inv (memo_run kvs s)"
  by (induction kvs arbitrary: s) (auto simp: remember_new)

lemma memo_run_entries:
  assumes "inv s" and "\<forall>(k, v) \<in> set kvs. usable k"
  shows "\<exists>news. set news \<subseteq> set kvs \<and> length news \<le> length kvs \<and> entries (memo_run kvs s) = keep_newest cap (entries s @ news)"
  using assms
proof (induction kvs arbitrary: s)
  case Nil
  then show ?case using inv_length by (intro exI [of _ "[]"]) (simp add: keep_newest_small)
next
  case (Cons kv kvs)
  obtain k v where kv: "kv = (k, v)" by (cases kv)
  let ?s = "if recall s k = None then remember k v s else s"
  have u: "usable k" "\<forall>(k, v) \<in> set kvs. usable k" using Cons(3) kv by auto
  have inv: "inv ?s" using remember_new [OF Cons(2) u(1)] Cons(2) by simp
  obtain news where news: "set news \<subseteq> set kvs" "length news \<le> length kvs" "entries (memo_run kvs ?s) = keep_newest cap (entries ?s @ news)"
    using Cons(1) [OF inv u(2)] by blast
  show ?case
  proof (cases "recall s k = None")
    case True
    have "keep_newest cap (keep_newest cap (entries s @ [(k, v)]) @ news) = keep_newest cap (entries s @ (k, v) # news)"
      using keep_newest_append [of cap "entries s @ [(k, v)]" news] by simp
    then show ?thesis using news True remember_new [OF Cons(2) u(1) True] kv
      by (intro exI [of _ "(k, v) # news"]) auto
  next
    case False
    then show ?thesis using news kv by (intro exI [of _ news]) auto
  qed
qed

text \<open>What was just stored is recalled while fewer than \<open>cap\<close> further keys arrive.\<close>

lemma remembered_for_a_while:
  assumes "inv s" and "usable k" and "recall s k = None"
    and "\<forall>(k, v) \<in> set kvs. usable k" and "length kvs < cap"
  shows "recall (memo_run kvs (remember k v s)) k = Some v"
proof -
  let ?s = "remember k v s"
  have s: "inv ?s" "entries ?s = keep_newest cap (entries s @ [(k, v)])" using remember_new [OF assms(1-3)] by auto
  obtain news where news: "length news \<le> length kvs" "entries (memo_run kvs ?s) = keep_newest cap (entries ?s @ news)"
    using memo_run_entries [OF s(1) assms(4)] by blast
  obtain xs where "entries ?s = xs @ [(k, v)]" using s(2) cap_pos by (auto simp: keep_newest_def Suc_diff_le)
  then have "(k, v) \<in> set (entries (memo_run kvs ?s))"
    using keep_newest_recent [of news cap "(k, v)" xs] news assms(5) by simp
  then show ?thesis using recall_iff [OF memo_run_inv [OF s(1) assms(4)] assms(2)] by simp
qed

end

end
