(* ===== verification/Credential_Apply.thy ===== *)
theory Credential_Apply
  imports WS_Client Bounded_Memo
begin

text \<open>
  \<open>internal/agent/credential_apply.go\<close> and the payload of \<open>internal/shared/auth_types.go\<close>: credentials
  pushed to an agent, applied once per command id, and the version report sent on every connect.

  \<open>ord\<close> is the visiting order of the environment variables in the validation loop.
\<close>

section \<open>Payload\<close>

record CredentialPushPayload =
  cpp_TargetNode :: string
  cpp_EnvVars :: "(string, string) fmap"
  cpp_Version :: int

definition first_empty :: "string list \<Rightarrow> (string, string) fmap \<Rightarrow> string option" where
  "first_empty ord m = find (\<lambda>k. fmlookup m k = Some []) ord"

definition ValidatePush :: "string list \<Rightarrow> CredentialPushPayload \<Rightarrow> go_error option" where
  "ValidatePush ord p =
     (if trim_space (cpp_TargetNode p) = []
      then Some (Errorf ''validation error: credential_push.target_node must not be empty'')
      else if cpp_EnvVars p = fmempty
      then Some (Errorf ''validation error: credential_push.env_vars must not be empty'')
      else map_option (\<lambda>k. Errorf (''validation error: credential_push.env_vars.'' @ k @ '' must not be empty''))
        (first_empty ord (cpp_EnvVars p)))"

section \<open>The applier\<close>

record CredentialApplier =
  envVars :: "(string, string) fmap"
  cred_version :: int
  appliedCommandIDs :: "string fset"
  appliedCommandOrder :: "string list"

definition maxAppliedCredentialCommandIDs :: nat where
  "maxAppliedCredentialCommandIDs = 1000"

definition NewCredentialApplier :: CredentialApplier where
  "NewCredentialApplier = \<lparr>envVars = fmempty, cred_version = 0, appliedCommandIDs = {||}, appliedCommandOrder = []\<rparr>"

definition applyLocked :: "CredentialPushPayload \<Rightarrow> CredentialApplier \<Rightarrow> CredentialApplier" where
  "applyLocked payload a = a\<lparr>envVars := cpp_EnvVars payload, cred_version := cpp_Version payload\<rparr>"

definition rememberCommandIDLocked :: "string \<Rightarrow> CredentialApplier \<Rightarrow> CredentialApplier" where
  "rememberCommandIDLocked commandID a =
     (let a1 = a\<lparr>appliedCommandIDs := finsert commandID (appliedCommandIDs a),
                 appliedCommandOrder := appliedCommandOrder a @ [commandID]\<rparr>
      in if length (appliedCommandOrder a1) \<le> maxAppliedCredentialCommandIDs then a1
         else a1\<lparr>appliedCommandOrder := tl (appliedCommandOrder a1),
                 appliedCommandIDs := appliedCommandIDs a1 |-| {|hd (appliedCommandOrder a1)|}\<rparr>)"

definition ApplyIfNew :: "string list \<Rightarrow> string \<Rightarrow> CredentialPushPayload \<Rightarrow> CredentialApplier
    \<Rightarrow> bool go_result \<times> CredentialApplier" where
  "ApplyIfNew ord commandID payload a =
     (case ValidatePush ord payload of
        Some err \<Rightarrow> (Inl err, a)
      | None \<Rightarrow>
          if cpp_Version payload < 0
          then (Inl (Errorf ''validation error: credential_push.version must be >= 0''), a)
          else if commandID \<noteq> [] \<and> commandID |\<in>| appliedCommandIDs a then (Inr False, a)
          else
            let a1 = applyLocked payload a
            in (Inr True, if commandID \<noteq> [] then rememberCommandIDLocked commandID a1 else a1))"

definition Apply :: "string list \<Rightarrow> CredentialPushPayload \<Rightarrow> CredentialApplier \<Rightarrow> go_error option \<times> CredentialApplier" where
  "Apply ord payload a =
     (case ApplyIfNew ord [] payload a of
        (Inl err, a') \<Rightarrow> (Some err, a')
      | (Inr _, a') \<Rightarrow> (None, a'))"

definition GetEnv :: "CredentialApplier \<Rightarrow> (string, string) fmap" where
  "GetEnv a = envVars a"

definition GetVersion :: "CredentialApplier \<Rightarrow> int" where
  "GetVersion a = cred_version a"

record CredentialVersionReport =
  cvr_NodeID :: string
  cvr_CredentialVersion :: int

definition BuildVersionReport :: "CredentialApplier \<Rightarrow> string \<Rightarrow> CredentialVersionReport" where
  "BuildVersionReport a nodeID = \<lparr>cvr_NodeID = nodeID, cvr_CredentialVersion = GetVersion a\<rparr>"

definition MaskValue :: "string \<Rightarrow> CredentialApplier \<Rightarrow> string" where
  "MaskValue value a =
     (if value = [] then value
      else if value |\<in>| fmran (envVars a) then ''[REDACTED]'' else value)"

section \<open>Handlers\<close>

record push_command =
  pc_CommandID :: string
  pc_Type :: string
  pc_NodeID :: string
  pc_EnvVars :: "(string, string) fmap"
  pc_Version :: int

text \<open>\<open>unmarshal\<close> is \<open>json.Unmarshal\<close> into the command; a nil applier or envelope is \<open>None\<close>. The handler
  sends nothing.\<close>

definition HandleCredentialPush :: "(string \<Rightarrow> push_command go_result) \<Rightarrow> string list \<Rightarrow> CredentialApplier option
    \<Rightarrow> Envelope option \<Rightarrow> go_error option \<times> CredentialApplier option" where
  "HandleCredentialPush unmarshal ord applier envelope =
     (case applier of
        None \<Rightarrow> (Some (Errorf ''credential applier is required''), applier)
      | Some a \<Rightarrow>
          (case envelope of
             None \<Rightarrow> (Some (Errorf ''command envelope is required''), applier)
           | Some env \<Rightarrow>
               (case unmarshal (env_Payload env) of
                  Inl err \<Rightarrow> (Some (Wrapf ''unmarshal credential_push command: '' err), applier)
                | Inr command \<Rightarrow>
                    if pc_Type command \<noteq> ''credential_push''
                    then (Some (Errorf (''unexpected command type '' @ quoted (pc_Type command))), applier)
                    else
                      let commandID = (if pc_CommandID command = [] then env_RequestID env else pc_CommandID command);
                          payload = \<lparr>cpp_TargetNode = pc_NodeID command, cpp_EnvVars = pc_EnvVars command,
                            cpp_Version = pc_Version command\<rparr>
                      in case ApplyIfNew ord commandID payload a of
                           (Inl err, a') \<Rightarrow> (Some (Wrapf ''apply credential payload: '' err), Some a')
                         | (Inr _, a') \<Rightarrow> (None, Some a'))))"

definition credential_push_handler :: "(string \<Rightarrow> push_command go_result) \<Rightarrow> string list \<Rightarrow> CredentialApplier command_handler" where
  "credential_push_handler unmarshal ord env a =
     (case HandleCredentialPush unmarshal ord (Some a) (Some env) of
        (err, a') \<Rightarrow> (err, [], case a' of None \<Rightarrow> a | Some a' \<Rightarrow> a'))"

text \<open>A nil client or applier is the flag being false.\<close>

definition RegisterCredentialPushHandler :: "'a command_handler \<Rightarrow> bool \<Rightarrow> 'a WSClient option \<Rightarrow> go_error option \<times> 'a WSClient option" where
  "RegisterCredentialPushHandler handler has_applier client =
     (case client of
        None \<Rightarrow> (Some (Errorf ''ws client is required''), client)
      | Some c \<Rightarrow>
          if \<not> has_applier then (Some (Errorf ''credential applier is required''), client)
          else (None, Some (RegisterCommandHandler c ''credential_push'' handler)))"

definition credential_sync_hook :: "(CredentialVersionReport \<Rightarrow> string go_result) \<Rightarrow> go_time \<Rightarrow> string \<Rightarrow> CredentialApplier connect_hook" where
  "credential_sync_hook marshal now nodeID a =
     (case marshal (BuildVersionReport a nodeID) of
        Inl err \<Rightarrow> Inl (Wrapf ''marshal credential version report: '' err)
      | Inr payload \<Rightarrow>
          Inr \<lparr>env_Version = ProtocolVersion, env_Type = MessageTypeCredentialSync, env_RequestID = [],
               env_Timestamp = time_unix now, env_Payload = payload\<rparr>)"

definition RegisterCredentialSyncOnReconnect :: "'a connect_hook \<Rightarrow> bool \<Rightarrow> string \<Rightarrow> 'a WSClient option \<Rightarrow> go_error option \<times> 'a WSClient option" where
  "RegisterCredentialSyncOnReconnect hook has_applier nodeID client =
     (case client of
        None \<Rightarrow> (Some (Errorf ''ws client is required''), client)
      | Some c \<Rightarrow>
          if \<not> has_applier then (Some (Errorf ''credential applier is required''), client)
          else if nodeID = [] then (Some (Errorf ''node id is required''), client)
          else (None, Some (WithOnConnectHook (Some hook) c)))"

section \<open>The applier's memory\<close>

definition applied_id :: "CredentialApplier \<Rightarrow> string \<Rightarrow> unit option" where
  "applied_id a k = (if k |\<in>| appliedCommandIDs a then Some () else None)"

definition applied_entries :: "CredentialApplier \<Rightarrow> (string \<times> unit) list" where
  "applied_entries a = map (\<lambda>k. (k, ())) (appliedCommandOrder a)"

definition applier_inv :: "CredentialApplier \<Rightarrow> bool" where
  "applier_inv a \<longleftrightarrow> distinct (appliedCommandOrder a) \<and> fset (appliedCommandIDs a) = set (appliedCommandOrder a) \<and>
     length (appliedCommandOrder a) \<le> maxAppliedCredentialCommandIDs"

lemma map_of_units: "map_of (map (\<lambda>k. (k, ())) ks) k = (if k \<in> set ks then Some () else None)"
  by (induction ks) auto

lemma rememberCommandID_spec:
  assumes "applier_inv a" and "k |\<notin>| appliedCommandIDs a"
  shows "applier_inv (rememberCommandIDLocked k a) \<and>
    appliedCommandOrder (rememberCommandIDLocked k a) = keep_newest maxAppliedCredentialCommandIDs (appliedCommandOrder a @ [k])"
proof -
  let ?o = "appliedCommandOrder a" and ?m = maxAppliedCredentialCommandIDs
  have a: "distinct ?o" "fset (appliedCommandIDs a) = set ?o" "length ?o \<le> ?m" "k \<notin> set ?o"
    using assms by (auto simp: applier_inv_def)
  show ?thesis
  proof (cases "length ?o < ?m")
    case True
    then show ?thesis using a by (auto simp: rememberCommandIDLocked_def applier_inv_def keep_newest_small)
  next
    case False
    then have len: "length ?o = ?m" "?o \<noteq> []" using a(3) by (auto simp: maxAppliedCredentialCommandIDs_def)
    then obtain x xs where o: "?o = x # xs" by (cases ?o) auto
    have "keep_newest ?m (?o @ [k]) = xs @ [k]" using len o by (simp add: keep_newest_def)
    then show ?thesis using a len o by (auto simp: rememberCommandIDLocked_def applier_inv_def Let_def)
  qed
qed

interpretation applied: bounded_memo applied_id "\<lambda>k _. rememberCommandIDLocked k" applied_entries applier_inv "\<lambda>k. k \<noteq> []"
  maxAppliedCredentialCommandIDs
proof
  show "0 < maxAppliedCredentialCommandIDs" by (simp add: maxAppliedCredentialCommandIDs_def)
  show "distinct (map fst (applied_entries s))" "length (applied_entries s) \<le> maxAppliedCredentialCommandIDs"
    "applied_id s k = map_of (applied_entries s) k" if "applier_inv s" for s k
    using that by (auto simp: applier_inv_def applied_entries_def applied_id_def map_of_units comp_def)
  show "applier_inv (rememberCommandIDLocked k s) \<and> applied_entries (rememberCommandIDLocked k s) =
      keep_newest maxAppliedCredentialCommandIDs (applied_entries s @ [(k, v)])"
    if "applier_inv s" "applied_id s k = None" for s k v
    using rememberCommandID_spec [OF that(1), of k] that(2)
      keep_newest_map [of maxAppliedCredentialCommandIDs "\<lambda>k. (k, ())" "appliedCommandOrder s @ [k]"]
    by (simp add: applied_id_def applied_entries_def split: if_splits)
qed

section \<open>Properties\<close>

text \<open>A sequence of pushes, each with its order, command id and payload.\<close>

fun apply_all :: "(string list \<times> string \<times> CredentialPushPayload) list \<Rightarrow> CredentialApplier \<Rightarrow> CredentialApplier" where
  "apply_all [] a = a"
| "apply_all ((ord, i, p) # ps) a = apply_all ps (snd (ApplyIfNew ord i p a))"

definition acceptable_push :: "string list \<times> string \<times> CredentialPushPayload \<Rightarrow> bool" where
  "acceptable_push = (\<lambda>(ord, i, p). ValidatePush ord p = None \<and> 0 \<le> cpp_Version p)"

lemma memory_applyLocked [simp]:
  "appliedCommandIDs (applyLocked p a) = appliedCommandIDs a" "appliedCommandOrder (applyLocked p a) = appliedCommandOrder a"
  by (simp_all add: applyLocked_def)

text \<open>The memory after a sequence of pushes is that of a client of the contract.\<close>

definition same_memory :: "CredentialApplier \<Rightarrow> CredentialApplier \<Rightarrow> bool" where
  "same_memory a b \<longleftrightarrow> appliedCommandIDs a = appliedCommandIDs b \<and> appliedCommandOrder a = appliedCommandOrder b"

lemma same_memory_remember: "same_memory a b \<Longrightarrow> same_memory (rememberCommandIDLocked k a) (rememberCommandIDLocked k b)"
  by (simp add: same_memory_def rememberCommandIDLocked_def Let_def)

lemma ApplyIfNew_cases:
  obtains (same) "snd (ApplyIfNew ord i p a) = a"
  | (anonymous) "snd (ApplyIfNew ord i p a) = applyLocked p a"
  | (new) "i \<noteq> []" "i |\<notin>| appliedCommandIDs a" "snd (ApplyIfNew ord i p a) = rememberCommandIDLocked i (applyLocked p a)"
  by (cases "ValidatePush ord p"; cases "cpp_Version p < 0"; cases "i = []"; cases "i |\<in>| appliedCommandIDs a")
    (simp_all add: ApplyIfNew_def Let_def)

lemma apply_all_memory:
  "same_memory a b \<Longrightarrow> \<exists>ks. length ks \<le> length ps \<and> (\<forall>(k, v) \<in> set ks. k \<noteq> []) \<and>
     same_memory (apply_all ps a) (applied.memo_run ks b)"
proof (induction ps arbitrary: a b)
  case (Cons p ps)
  obtain ord i q where p: "p = (ord, i, q)" by (cases p)
  let ?a = "snd (ApplyIfNew ord i q a)"
  consider "same_memory ?a b" | "i \<noteq> []" "i |\<notin>| appliedCommandIDs b" "same_memory ?a (rememberCommandIDLocked i b)"
  proof (cases rule: ApplyIfNew_cases [of ord i q a])
    case new
    then show ?thesis using Cons(2) same_memory_remember [of "applyLocked q a" b i] that(2) by (simp add: same_memory_def)
  qed (use Cons(2) that(1) in \<open>simp_all add: same_memory_def\<close>)
  then show ?case
  proof cases
    case 1
    obtain ks where "length ks \<le> length ps" "\<forall>(k, v) \<in> set ks. k \<noteq> []" "same_memory (apply_all ps ?a) (applied.memo_run ks b)"
      using Cons(1) [OF 1] by blast
    then show ?thesis using p by (intro exI [of _ ks]) auto
  next
    case 2
    obtain ks where ks: "length ks \<le> length ps" "\<forall>(k, v) \<in> set ks. k \<noteq> []"
        "same_memory (apply_all ps ?a) (applied.memo_run ks (rememberCommandIDLocked i b))"
      using Cons(1) [OF 2(3)] by blast
    moreover have "applied_id b i = None" using 2(2) by (simp add: applied_id_def)
    ultimately show ?thesis using p 2(1) by (intro exI [of _ "(i, ()) # ks"]) auto
  qed
qed (auto intro: exI [of _ "[]"])

lemma apply_all_inv: "applier_inv a \<Longrightarrow> applier_inv (apply_all ps a)"
proof (induction ps arbitrary: a)
  case (Cons p ps)
  obtain ord i q where p: "p = (ord, i, q)" by (cases p)
  have al: "applier_inv (applyLocked q a)" using Cons(2) by (simp add: applier_inv_def)
  have "applier_inv (snd (ApplyIfNew ord i q a))"
    by (cases rule: ApplyIfNew_cases [of ord i q a]) (use Cons(2) al rememberCommandID_spec [OF al, of i] in simp_all)
  then show ?case using Cons(1) p by simp
qed simp

text \<open>
  C21. Credential pushes are idempotent in a window: once a push has been applied, a redelivery of
  its command id, whatever it now carries, is ignored and changes nothing, as long as fewer than
  1000 pushes came in between; and the memory never holds more than 1000 ids.
\<close>
theorem credential_push_applied_once:
  assumes "a0 = apply_all history NewCredentialApplier" and "ApplyIfNew ord i p a0 = (Inr True, a1)" and "i \<noteq> []"
    and "a2 = apply_all later a1" and "length later < maxAppliedCredentialCommandIDs"
    and "acceptable_push (ord', i, p')"
  shows "ApplyIfNew ord' i p' a2 = (Inr False, a2) \<and> length (appliedCommandOrder a2) \<le> maxAppliedCredentialCommandIDs"
proof -
  have "applier_inv NewCredentialApplier" by (simp add: applier_inv_def NewCredentialApplier_def)
  then have inv: "applier_inv a0" unfolding assms(1) by (rule apply_all_inv)
  let ?b = "applyLocked p a0"
  have b: "applier_inv ?b" "applied_id ?b i = None" and a1: "a1 = rememberCommandIDLocked i ?b"
    using inv assms(2,3) by (auto simp: ApplyIfNew_def Let_def applied_id_def applier_inv_def split: option.splits if_splits)
  obtain ks where ks: "length ks \<le> length later" "\<forall>(k, v) \<in> set ks. k \<noteq> []"
      "same_memory a2 (applied.memo_run ks (rememberCommandIDLocked i ?b))"
    using apply_all_memory [of a1 "rememberCommandIDLocked i ?b" later] a1 assms(4) by (auto simp: same_memory_def)
  have "applied_id (applied.memo_run ks (rememberCommandIDLocked i ?b)) i = Some ()"
    by (rule applied.remembered_for_a_while [OF b(1) assms(3) b(2) ks(2)]) (use ks(1) assms(5) in simp)
  then have "i |\<in>| appliedCommandIDs a2" using ks(3) by (auto simp: applied_id_def same_memory_def split: if_splits)
  moreover have "applier_inv a2"
    unfolding assms(4) by (rule apply_all_inv) (use rememberCommandID_spec b a1 in \<open>auto simp: applied_id_def split: if_splits\<close>)
  ultimately show ?thesis using assms(3,6) by (simp add: ApplyIfNew_def acceptable_push_def applier_inv_def)
qed

definition demo_push :: CredentialPushPayload where
  "demo_push = \<lparr>cpp_TargetNode = ''n1'', cpp_EnvVars = fmupd ''API_KEY'' ''x'' fmempty, cpp_Version = 2\<rparr>"

lemma credential_push_applied_once_witness:
  "ApplyIfNew [''API_KEY''] ''c1'' (demo_push\<lparr>cpp_Version := 1\<rparr>)
     (apply_all [([''API_KEY''], ''c2'', demo_push)] (snd (ApplyIfNew [''API_KEY''] ''c1'' demo_push NewCredentialApplier))) =
   (Inr False, apply_all [([''API_KEY''], ''c2'', demo_push)] (snd (ApplyIfNew [''API_KEY''] ''c1'' demo_push NewCredentialApplier)))"
proof -
  let ?r = "ApplyIfNew [''API_KEY''] ''c1'' demo_push NewCredentialApplier"
  have "fst ?r = Inr True" by code_simp
  then have r: "?r = (Inr True, snd ?r)" by (metis prod.collapse)
  have ok: "acceptable_push ([''API_KEY''], ''c1'', demo_push\<lparr>cpp_Version := 1\<rparr>)" by code_simp
  from credential_push_applied_once [OF _ r _ refl _ ok, of "[]" "[([''API_KEY''], ''c2'', demo_push)]"] show ?thesis
    by (simp add: maxAppliedCredentialCommandIDs_def)
qed

end
