(* ===== verification/Tool_Auth.thy ===== *)
theory Tool_Auth
  imports Go_Regexp File_System Security WS_Client Registry
begin

text \<open>
  Authentication of the coding tools on an agent: the table of tools (\<open>internal/agent/tool_capabilities.go\<close>),
  the command that tells the state of a tool (\<open>tool_command_resolution.go\<close>, \<open>auth_runner.go\<close>), its
  interpretation for each tool (\<open>auth_claude.go\<close>, \<open>auth_codex.go\<close>, \<open>auth_opencode.go\<close>), the periodic report
  (\<open>auth_reporter.go\<close>) and the remote login (\<open>oauth_trigger.go\<close>). The processes that are run, the search
  path, the environment, the files and the decoding of JSON belong to a \<open>tool_env\<close>.
\<close>

section \<open>Tools\<close>

type_synonym ToolID = string

definition ToolOpencode :: ToolID where "ToolOpencode = ''opencode''"
definition ToolClaudeCode :: ToolID where "ToolClaudeCode = ''claude_code''"
definition ToolCodex :: ToolID where "ToolCodex = ''codex''"

record ToolCapability =
  tc_ID :: ToolID
  tc_Name :: string
  tc_StatusCommand :: "string list"
  tc_StatusParser :: string
  tc_RemoteOAuth :: bool
  tc_OAuthFlows :: "string list"
  tc_ManualLoginHint :: string

definition GetToolCapabilities :: "(ToolID \<times> ToolCapability) list" where
  "GetToolCapabilities =
     [(ToolOpencode, \<lparr>tc_ID = ToolOpencode, tc_Name = ''opencode'', tc_StatusCommand = [''opencode'', ''auth'', ''list''],
         tc_StatusParser = ''output_parse'', tc_RemoteOAuth = True, tc_OAuthFlows = [''device_code''],
         tc_ManualLoginHint = ''SSH into agent and run: opencode auth login''\<rparr>),
      (ToolClaudeCode, \<lparr>tc_ID = ToolClaudeCode, tc_Name = ''claude_code'', tc_StatusCommand = [''claude'', ''auth'', ''status''],
         tc_StatusParser = ''exit_code'', tc_RemoteOAuth = False, tc_OAuthFlows = [],
         tc_ManualLoginHint = ''SSH into agent and run: claude auth login''\<rparr>),
      (ToolCodex, \<lparr>tc_ID = ToolCodex, tc_Name = ''codex'', tc_StatusCommand = [''codex'', ''login'', ''--status''],
         tc_StatusParser = ''exit_code'', tc_RemoteOAuth = True, tc_OAuthFlows = [''device_code''],
         tc_ManualLoginHint = ''SSH into agent and run: codex login --device-auth''\<rparr>)]"

definition GetToolCapability :: "ToolID \<Rightarrow> ToolCapability option" where
  "GetToolCapability tool = map_of GetToolCapabilities tool"

text \<open>How a process ended: its error, and the exit code if it ran to an exit.\<close>

record process_end =
  pe_stdout :: string
  pe_stderr :: string
  pe_err :: "go_error option"
  pe_exit :: "int option"
  pe_deadline :: bool

record tool_env =
  te_lookpath :: "string \<Rightarrow> bool"
  te_fs :: file_system
  te_getenv :: "string \<Rightarrow> string"
  te_home :: "string go_result"
  te_read_out :: "string \<Rightarrow> go_error option"
  te_exec :: "string list \<Rightarrow> process_end"
  te_decode :: "string \<Rightarrow> go_value go_result"
  te_now :: go_time

definition isExecutableFile :: "tool_env \<Rightarrow> string \<Rightarrow> bool" where
  "isExecutableFile te path = (case os_Stat (te_fs te) path of StatFound _ (FFile _ x) \<Rightarrow> x | _ \<Rightarrow> False)"

definition toolBinaryFallbacks :: "(ToolID \<times> string list) list" where
  "toolBinaryFallbacks =
     [(ToolOpencode, [''/usr/local/bin/opencode'', ''/usr/bin/opencode'', ''/snap/bin/opencode'']),
      (ToolClaudeCode, [''/usr/local/bin/claude'', ''/usr/bin/claude'', ''/snap/bin/claude'']),
      (ToolCodex, [''/usr/local/bin/codex'', ''/usr/bin/codex'', ''/snap/bin/codex''])]"

definition resolveStatusCommand :: "tool_env \<Rightarrow> ToolID \<Rightarrow> string \<Rightarrow> string list" where
  "resolveStatusCommand te tool configuredPath =
     (case GetToolCapability tool of
        None \<Rightarrow> []
      | Some cap \<Rightarrow>
          (case tc_StatusCommand cap of
             [] \<Rightarrow> []
           | binaryName # args \<Rightarrow>
               let configured = trim_space configuredPath
               in if configured \<noteq> [] then configured # args
                  else if te_lookpath te binaryName then binaryName # args
                  else case find (isExecutableFile te) (case map_of toolBinaryFallbacks tool of None \<Rightarrow> [] | Some ps \<Rightarrow> ps) of
                      Some candidate \<Rightarrow> candidate # args
                    | None \<Rightarrow> binaryName # args))"

section \<open>Running a status command\<close>

record AuthRunResult =
  ar_Stdout :: string
  ar_Stderr :: string
  ar_ExitCode :: int
  ar_Err :: "go_error option"
  ar_TimedOut :: bool

definition trimOutput :: "string \<Rightarrow> string" where
  "trimOutput s = trim_space s"

definition RunAuthCheck :: "tool_env \<Rightarrow> string list \<Rightarrow> AuthRunResult" where
  "RunAuthCheck te command =
     (if command = []
      then \<lparr>ar_Stdout = [], ar_Stderr = [], ar_ExitCode = -1, ar_Err = Some (Errorf ''empty command''), ar_TimedOut = False\<rparr>
      else
        let p = te_exec te command;
            out = trimOutput (pe_stdout p);
            err = trimOutput (pe_stderr p)
        in if pe_deadline p
           then \<lparr>ar_Stdout = out, ar_Stderr = err, ar_ExitCode = -1, ar_Err = Some (Errorf ''context deadline exceeded''), ar_TimedOut = True\<rparr>
           else case pe_err p of
               Some e \<Rightarrow> \<lparr>ar_Stdout = out, ar_Stderr = err, ar_ExitCode = (case pe_exit p of Some code \<Rightarrow> code | None \<Rightarrow> -1),
                  ar_Err = Some e, ar_TimedOut = False\<rparr>
             | None \<Rightarrow> \<lparr>ar_Stdout = out, ar_Stderr = err, ar_ExitCode = 0, ar_Err = None, ar_TimedOut = False\<rparr>)"

definition isCommandNotFound :: "AuthRunResult \<Rightarrow> bool" where
  "isCommandNotFound result =
     (case ar_Err result of
        None \<Rightarrow> False
      | Some e \<Rightarrow>
          let errMsg = to_lower (error_text e);
              combined = to_lower (ar_Stderr result @ '' '' @ ar_Stdout result)
          in list_ex (\<lambda>pat. str_contains errMsg pat \<or> str_contains combined pat)
               [''not found'', ''no such file'', ''executable file not found'', ''command not found''])"

definition truncate_text :: "string \<Rightarrow> nat \<Rightarrow> string" where
  "truncate_text s maxLen = (if length s \<le> maxLen then s else take maxLen s @ ''...'')"

definition extractLine :: "string \<Rightarrow> nat \<Rightarrow> string" where
  "extractLine s idx =
     (let start = (case str_last_index (take idx s) [CHR 0x0A] of None \<Rightarrow> 0 | Some i \<Rightarrow> i + 1)
      in case str_index (drop idx s) [CHR 0x0A] of
           None \<Rightarrow> drop start s
         | Some e \<Rightarrow> drop start (take (idx + e) s))"

definition context_line :: "string \<Rightarrow> string list \<Rightarrow> string" where
  "context_line output patterns =
     (let lower = to_lower output in
      case List.map_filter (str_index lower) patterns of
        [] \<Rightarrow> []
      | idx # _ \<Rightarrow> truncate_text (trim_space (extractLine output idx)) 200)"

definition parseClaudeContext :: "string \<Rightarrow> string" where
  "parseClaudeContext output = context_line output [''logged in as'', ''account:'']"

definition parseCodexContext :: "string \<Rightarrow> string" where
  "parseCodexContext output = context_line output [''logged in as'', ''authenticated as'']"

section \<open>The state of a tool\<close>

definition AuthStatusAuthenticated :: string where "AuthStatusAuthenticated = ''authenticated''"
definition AuthStatusUnauthenticated :: string where "AuthStatusUnauthenticated = ''unauthenticated''"
definition AuthStatusNotInstalled :: string where "AuthStatusNotInstalled = ''not_installed''"
definition AuthStatusError :: string where "AuthStatusError = ''error''"

lemmas auth_statuses = AuthStatusAuthenticated_def AuthStatusUnauthenticated_def AuthStatusNotInstalled_def AuthStatusError_def

definition auth_report :: "tool_env \<Rightarrow> string \<Rightarrow> string \<Rightarrow> string \<Rightarrow> AuthStateReport" where
  "auth_report te tool status reason = \<lparr>rep_Tool = tool, rep_Status = status, rep_Reason = reason, rep_CheckedAt = te_now te\<rparr>"

text \<open>The adapter's constructor takes the default command if none is given.\<close>

definition status_command :: "ToolID \<Rightarrow> string list \<Rightarrow> string list" where
  "status_command tool cmd =
     (if cmd \<noteq> [] then cmd else case GetToolCapability tool of None \<Rightarrow> [] | Some cap \<Rightarrow> tc_StatusCommand cap)"

definition ClaudeCheckAuth :: "tool_env \<Rightarrow> string list \<Rightarrow> AuthStateReport" where
  "ClaudeCheckAuth te statusCommand =
     (if statusCommand = [] then auth_report te ToolClaudeCode AuthStatusError ''claude status command not configured''
      else
        let result = RunAuthCheck te statusCommand
        in if ar_TimedOut result then auth_report te ToolClaudeCode AuthStatusError ''command timed out''
           else if isCommandNotFound result then auth_report te ToolClaudeCode AuthStatusNotInstalled ''claude command not found''
           else if ar_ExitCode result = 0 then
             (let detail = parseClaudeContext (ar_Stdout result)
              in auth_report te ToolClaudeCode AuthStatusAuthenticated
                   (if detail \<noteq> [] then detail else ''authenticated via claude auth status''))
           else
             (let detail = parseClaudeContext (ar_Stdout result @ '' '' @ ar_Stderr result)
              in auth_report te ToolClaudeCode AuthStatusUnauthenticated (if detail \<noteq> [] then detail else ''not authenticated'')))"

definition CodexCheckAuth :: "tool_env \<Rightarrow> string list \<Rightarrow> AuthStateReport" where
  "CodexCheckAuth te statusCommand =
     (if statusCommand = [] then auth_report te ToolCodex AuthStatusError ''codex status command not configured''
      else
        let result = RunAuthCheck te statusCommand
        in if ar_TimedOut result then auth_report te ToolCodex AuthStatusError ''command timed out''
           else if isCommandNotFound result then auth_report te ToolCodex AuthStatusNotInstalled ''codex command not found''
           else if ar_ExitCode result = 0 then
             (let detail = parseCodexContext (ar_Stdout result)
              in auth_report te ToolCodex AuthStatusAuthenticated
                   (if detail \<noteq> [] then detail else ''authenticated via codex login --status''))
           else
             (let detail = parseCodexContext (ar_Stdout result @ '' '' @ ar_Stderr result)
              in auth_report te ToolCodex AuthStatusUnauthenticated (if detail \<noteq> [] then detail else ''not authenticated'')))"

definition commandAvailable :: "tool_env \<Rightarrow> string \<Rightarrow> bool" where
  "commandAvailable te binary =
     (if trim_space binary = [] then False
      else if is_abs binary then isExecutableFile te binary
      else te_lookpath te binary)"

definition opencodeAuthFilePath :: "tool_env \<Rightarrow> string go_result" where
  "opencodeAuthFilePath te =
     (let xdgDataHome = trim_space (te_getenv te ''XDG_DATA_HOME'')
      in if xdgDataHome \<noteq> [] then Inr (path_join [xdgDataHome, ''opencode'', ''auth.json''])
         else case te_home te of
             Inl err \<Rightarrow> Inl (Wrapf ''resolve user home: '' err)
           | Inr homeDir \<Rightarrow>
               if trim_space homeDir = [] then Inl (Errorf ''resolve user home: %!w(<nil>)'')
               else Inr (path_join [homeDir, ''.local'', ''share'', ''opencode'', ''auth.json'']))"

definition looksLikeCredential :: "(string \<times> go_value) list \<Rightarrow> bool" where
  "looksLikeCredential flds =
     list_ex (\<lambda>key.
       case map_of flds key of
         None \<Rightarrow> False
       | Some (JString text) \<Rightarrow> trim_space text \<noteq> []
       | Some value \<Rightarrow> value \<noteq> JNull)
       [''provider'', ''type'', ''token'', ''access_token'', ''refresh_token'', ''api_key'', ''kind'']"

fun countCredentialCollection :: "go_value \<Rightarrow> nat" where
  "countCredentialCollection (JArray v) =
     (let total = sum_list (map countCredentialCollection v) in if total > 0 then total else length v)"
| "countCredentialCollection (JObject v) =
     (if looksLikeCredential v then 1 else sum_list (map (\<lambda>(_, nested). countCredentialCollection nested) v))"
| "countCredentialCollection _ = 0"

definition countCredentialNodes :: "go_value \<Rightarrow> nat" where
  "countCredentialNodes value =
     (case value of
        JArray v \<Rightarrow> length v
      | JObject v \<Rightarrow>
          (case filter (\<lambda>n. n > 0) (map countCredentialCollection
                  (List.map_filter (map_of v) [''credentials'', ''providers'', ''accounts'', ''tokens'', ''auth''])) of
             n # _ \<Rightarrow> n
           | [] \<Rightarrow> countCredentialCollection (JObject v))
      | _ \<Rightarrow> 0)"

definition countCredentialsFromAuthFile :: "tool_env \<Rightarrow> string \<Rightarrow> nat go_result" where
  "countCredentialsFromAuthFile te content =
     (if trim_space content = [] then Inr 0
      else case te_decode te content of Inl err \<Rightarrow> Inl err | Inr v \<Rightarrow> Inr (countCredentialNodes v))"

definition OpencodeCheckAuth :: "tool_env \<Rightarrow> string list \<Rightarrow> AuthStateReport" where
  "OpencodeCheckAuth te statusCommand =
     (case statusCommand of
        [] \<Rightarrow> auth_report te ToolOpencode AuthStatusError ''opencode status command not configured''
      | binary # _ \<Rightarrow>
          if \<not> commandAvailable te binary then auth_report te ToolOpencode AuthStatusNotInstalled ''opencode command not found''
          else case opencodeAuthFilePath te of
              Inl _ \<Rightarrow> auth_report te ToolOpencode AuthStatusError ''unable to resolve opencode auth file path''
            | Inr path \<Rightarrow>
                if os_Stat (te_fs te) path = StatNotExist
                then auth_report te ToolOpencode AuthStatusUnauthenticated ''no credentials found''
                else case os_ReadFile (te_read_out te path) (te_fs te) path of
                    Inl _ \<Rightarrow> auth_report te ToolOpencode AuthStatusError ''failed to read opencode auth file''
                  | Inr content \<Rightarrow>
                      (case countCredentialsFromAuthFile te content of
                         Inl _ \<Rightarrow> auth_report te ToolOpencode AuthStatusError ''invalid auth file format''
                       | Inr credentials \<Rightarrow>
                           if credentials > 0
                           then auth_report te ToolOpencode AuthStatusAuthenticated (nat_text credentials @ '' credentials found'')
                           else auth_report te ToolOpencode AuthStatusUnauthenticated ''no credentials found''))"

section \<open>Reporting\<close>

text \<open>An adapter is called in some surroundings; it may panic, and it may be nil.\<close>

datatype check_outcome = Reported AuthStateReport | Panicked string

record auth_adapter =
  aa_tool :: "string option"
  aa_check :: "tool_env \<Rightarrow> check_outcome"

definition report_of_tool :: "(tool_env \<Rightarrow> AuthStateReport) \<Rightarrow> auth_adapter" where
  "report_of_tool f = \<lparr>aa_tool = None, aa_check = (\<lambda>te. Reported (f te))\<rparr>"

record AuthReporter =
  rp_adapters :: "auth_adapter option list"
  rp_interval :: duration
  rp_lastState :: "(string, string) fmap"

definition defaultAuthReportInterval :: duration where
  "defaultAuthReportInterval = 30 * second"

definition NewAuthReporter :: "auth_adapter option list \<Rightarrow> duration \<Rightarrow> AuthReporter" where
  "NewAuthReporter adapters interval =
     \<lparr>rp_adapters = adapters, rp_interval = (if interval \<le> 0 then defaultAuthReportInterval else interval), rp_lastState = fmempty\<rparr>"

definition checkAdapter :: "tool_env \<Rightarrow> nat \<Rightarrow> auth_adapter option \<Rightarrow> AuthStateReport" where
  "checkAdapter te idx adapter =
     (let named = (case adapter of None \<Rightarrow> [] | Some a \<Rightarrow> (case aa_tool a of None \<Rightarrow> [] | Some t \<Rightarrow> t));
          defaultTool = (if named \<noteq> [] then named else ''adapter_'' @ nat_text idx)
      in case adapter of
           None \<Rightarrow> auth_report te defaultTool AuthStatusError ''auth adapter is nil''
         | Some a \<Rightarrow>
             (case aa_check a te of
                Panicked m \<Rightarrow> auth_report te defaultTool AuthStatusError (''auth check panic: '' @ m)
              | Reported r \<Rightarrow>
                  let r1 = (if rep_Tool r = [] then r\<lparr>rep_Tool := defaultTool\<rparr> else r);
                      r2 = (if rep_Status r1 = []
                            then r1\<lparr>rep_Status := AuthStatusError,
                                    rep_Reason := (if rep_Reason r1 = [] then ''adapter returned empty status'' else rep_Reason r1)\<rparr>
                            else r1)
                  in if time_is_zero (rep_CheckedAt r2) then r2\<lparr>rep_CheckedAt := te_now te\<rparr> else r2))"

definition runCheck :: "tool_env \<Rightarrow> AuthReporter \<Rightarrow> AuthStateReport list" where
  "runCheck te r = map (\<lambda>(i, a). checkAdapter te i a) (enumerate 0 (rp_adapters r))"

fun update_states :: "AuthStateReport list \<Rightarrow> bool \<times> (string, string) fmap \<Rightarrow> bool \<times> (string, string) fmap" where
  "update_states [] acc = acc"
| "update_states (report # reports) (changed, m) =
     update_states reports
       (changed \<or> fmlookup m (rep_Tool report) \<noteq> Some (rep_Status report), fmupd (rep_Tool report) (rep_Status report) m)"

definition updateLastState :: "AuthStateReport list \<Rightarrow> AuthReporter \<Rightarrow> bool \<times> AuthReporter" where
  "updateLastState reports r =
     (case update_states reports (False, rp_lastState r) of (changed, m) \<Rightarrow> (changed, r\<lparr>rp_lastState := m\<rparr>))"

text \<open>\<open>SendAuthState\<close>; \<open>marshal\<close> is \<open>json.Marshal\<close> at the list of reports.\<close>

definition SendAuthState :: "(AuthStateReport list \<Rightarrow> string go_result) \<Rightarrow> envelope_codec \<Rightarrow> go_error option \<Rightarrow> go_time
    \<Rightarrow> AuthStateReport list \<Rightarrow> 'a WSClient \<Rightarrow> go_error option \<times> 'a WSClient" where
  "SendAuthState marshal ec out now reports c =
     (case marshal reports of
        Inl err \<Rightarrow> (Some (Wrapf ''marshal auth state reports: '' err), c)
      | Inr payload \<Rightarrow>
          SendEnvelope ec out \<lparr>env_Version = ProtocolVersion, env_Type = MessageTypeAuthState, env_RequestID = [],
             env_Timestamp = time_unix now, env_Payload = payload\<rparr> c)"

text \<open>One round of \<open>Start\<close>: the first one and every tick. A failed send is only logged.\<close>

definition report_round :: "(AuthStateReport list \<Rightarrow> string go_result) \<Rightarrow> envelope_codec \<Rightarrow> go_error option \<Rightarrow> tool_env
    \<Rightarrow> AuthReporter \<times> 'a WSClient \<Rightarrow> AuthReporter \<times> 'a WSClient" where
  "report_round marshal ec out te rc =
     (let reports = runCheck te (fst rc)
      in (snd (updateLastState reports (fst rc)), snd (SendAuthState marshal ec out (te_now te) reports (snd rc))))"

section \<open>Remote login\<close>

record OAuthTriggerResult =
  ot_Status :: string
  ot_ChallengeURL :: string
  ot_UserCode :: string
  ot_Reason :: string

definition manual_required :: "string \<Rightarrow> OAuthTriggerResult" where
  "manual_required reason = \<lparr>ot_Status = ''manual_required'', ot_ChallengeURL = [], ot_UserCode = [], ot_Reason = reason\<rparr>"

definition oauth_failure :: "string \<Rightarrow> OAuthTriggerResult" where
  "oauth_failure reason = \<lparr>ot_Status = ''failure'', ot_ChallengeURL = [], ot_UserCode = [], ot_Reason = reason\<rparr>"

definition oauth_challenge :: "string \<Rightarrow> string \<Rightarrow> OAuthTriggerResult" where
  "oauth_challenge url code = \<lparr>ot_Status = ''challenge'', ot_ChallengeURL = url, ot_UserCode = code, ot_Reason = []\<rparr>"

definition oauthFlowSupported :: "string list \<Rightarrow> string \<Rightarrow> bool" where
  "oauthFlowSupported flows flow = list_ex (\<lambda>candidate. to_lower (trim_space candidate) = to_lower flow) flows"

definition oauthDeviceCommand :: "string \<Rightarrow> string list" where
  "oauthDeviceCommand tool =
     (if tool = ToolCodex then [''codex'', ''login'', ''--device-auth'']
      else if tool = ToolOpencode then [''opencode'', ''auth'', ''login'', ''--device-code'']
      else [])"

definition stubOAuthChallenge :: "string \<Rightarrow> OAuthTriggerResult" where
  "stubOAuthChallenge tool =
     (if tool = ToolCodex then oauth_challenge ''https://auth.openai.com/device'' ''CODEX-DEVICE-CODE''
      else if tool = ToolOpencode then oauth_challenge ''https://github.com/login/device'' ''OPENCODE-DEVICE-CODE''
      else manual_required (''tool '' @ quoted tool @ '' is not supported''))"

definition code_char :: "char \<Rightarrow> bool" where
  "code_char c \<longleftrightarrow> (let n = of_char (lower_char c) :: nat in 97 \<le> n \<and> n \<le> 122) \<or> is_digit c \<or> c = CHR ''-''"

definition user_code_rx :: rx where
  "user_code_rx = (let c = RChar code_char in RGroup (RSeq c (RSeq c (RSeq c (RSeq c (RStar c))))))"

definition deviceURLRegex :: rx where
  "deviceURLRegex = RSeq (rx_lit ''http'') (RSeq (RAlt (rx_lit ''s'') REmpty) (RSeq (rx_lit ''://'') (rx_plus (RChar (\<lambda>c. \<not> rx_space c)))))"

definition userCodeRegex :: rx where
  "userCodeRegex =
     (let sp = RStar (RChar rx_space) in
      RSeq (RAlt (RSeq (rx_fold ''user'') (RSeq sp (rx_fold ''code''))) (rx_fold ''code''))
        (RSeq sp (RSeq (RChar (\<lambda>c. c = CHR '':'' \<or> c = CHR ''='')) (RSeq sp user_code_rx))))"

definition userCodeRegexV2 :: rx where
  "userCodeRegexV2 =
     RSeq (rx_fold ''enter'') (RSeq (rx_plus (RChar rx_space)) (RSeq (rx_fold ''code'') (RSeq (rx_plus (RChar rx_space)) user_code_rx)))"

definition group_of :: "(string \<times> string option) option \<Rightarrow> string option" where
  "group_of m = Option.bind m snd"

definition parseOAuthChallenge :: "string \<Rightarrow> string \<times> string" where
  "parseOAuthChallenge output =
     (let url = (case rx_find deviceURLRegex output of Some (m, _) \<Rightarrow> m | None \<Rightarrow> []);
          code = (case group_of (rx_find userCodeRegex output) of
              Some c \<Rightarrow> c
            | None \<Rightarrow> (case group_of (rx_find userCodeRegexV2 output) of Some c \<Rightarrow> c | None \<Rightarrow> []))
      in (trim_space url, trim_space code))"

text \<open>\<open>has_runner\<close> is false for a nil runner.\<close>

definition Trigger :: "tool_env \<Rightarrow> bool \<Rightarrow> string \<Rightarrow> OAuthTriggerResult" where
  "Trigger te has_runner tool =
     (case GetToolCapability tool of
        None \<Rightarrow> manual_required (''tool '' @ quoted tool @ '' is not supported'')
      | Some capability \<Rightarrow>
          if \<not> tc_RemoteOAuth capability \<or> \<not> oauthFlowSupported (tc_OAuthFlows capability) ''device_code'' then
            manual_required (if trim_space (tc_ManualLoginHint capability) = []
              then ''tool '' @ quoted tool @ '' requires manual authentication'' else tc_ManualLoginHint capability)
          else if \<not> has_runner then stubOAuthChallenge tool
          else
            let run = RunAuthCheck te (oauthDeviceCommand tool)
            in if ar_TimedOut run then oauth_failure ''oauth command timed out''
               else if ar_Err run \<noteq> None \<and> ar_ExitCode run \<noteq> 0 then
                 oauth_failure (let reason = trim_space (ar_Stderr run)
                   in if reason = [] then (case ar_Err run of Some e \<Rightarrow> error_text e | None \<Rightarrow> []) else reason)
               else case parseOAuthChallenge (ar_Stdout run @ [CHR 0x0A] @ ar_Stderr run) of
                   (url, code) \<Rightarrow>
                     if url \<noteq> [] \<and> code \<noteq> [] then oauth_challenge url code
                     else if ar_ExitCode run = 0
                     then \<lparr>ot_Status = ''success'', ot_ChallengeURL = [], ot_UserCode = [], ot_Reason = []\<rparr>
                     else oauth_failure ''oauth command failed'')"

record oauth_command =
  oc_Type :: string
  oc_Tool :: string

text \<open>The executor is \<open>None\<close> if nil, and otherwise says whether it has a runner.\<close>

definition ExecuteOAuthTriggerCommand :: "(string \<Rightarrow> oauth_command go_result) \<Rightarrow> tool_env \<Rightarrow> Envelope option \<Rightarrow> bool option
    \<Rightarrow> OAuthTriggerResult go_result" where
  "ExecuteOAuthTriggerCommand unmarshal te envelope executor =
     (case executor of
        None \<Rightarrow> Inl (Errorf ''oauth trigger executor is required'')
      | Some has_runner \<Rightarrow>
          (case envelope of
             None \<Rightarrow> Inl (Errorf ''command envelope is required'')
           | Some env \<Rightarrow>
               (case unmarshal (env_Payload env) of
                  Inl err \<Rightarrow> Inl (Wrapf ''unmarshal oauth_trigger command: '' err)
                | Inr command \<Rightarrow>
                    if oc_Type command \<noteq> ''oauth_trigger''
                    then Inl (Errorf (''unexpected command type '' @ quoted (oc_Type command)))
                    else Inr (Trigger te has_runner (oc_Tool command)))))"

text \<open>The result of the command is written to the log and nowhere else.\<close>

definition HandleOAuthTrigger :: "(string \<Rightarrow> oauth_command go_result) \<Rightarrow> tool_env \<Rightarrow> bool option \<Rightarrow> Envelope option \<Rightarrow> go_error option" where
  "HandleOAuthTrigger unmarshal te executor envelope =
     (case ExecuteOAuthTriggerCommand unmarshal te envelope executor of Inl err \<Rightarrow> Some err | Inr _ \<Rightarrow> None)"

definition oauth_trigger_handler :: "(string \<Rightarrow> oauth_command go_result) \<Rightarrow> tool_env \<Rightarrow> bool \<Rightarrow> 'a command_handler" where
  "oauth_trigger_handler unmarshal te has_runner env a = (HandleOAuthTrigger unmarshal te (Some has_runner) (Some env), [], a)"

definition RegisterOAuthTriggerHandler :: "'a command_handler \<Rightarrow> bool \<Rightarrow> 'a WSClient option \<Rightarrow> go_error option \<times> 'a WSClient option" where
  "RegisterOAuthTriggerHandler handler has_executor client =
     (case client of
        None \<Rightarrow> (Some (Errorf ''ws client is required''), client)
      | Some c \<Rightarrow>
          if \<not> has_executor then (Some (Errorf ''oauth trigger executor is required''), client)
          else (None, Some (RegisterCommandHandler c ''oauth_trigger'' handler)))"

section \<open>Reports are complete\<close>

definition report_sound :: "AuthStateReport \<Rightarrow> bool" where
  "report_sound r \<longleftrightarrow> rep_Tool r \<noteq> [] \<and> rep_Status r \<noteq> [] \<and> rep_CheckedAt r \<noteq> 0"

lemma checkAdapter_sound: "te_now te \<noteq> 0 \<Longrightarrow> report_sound (checkAdapter te i a)"
  by (auto simp: checkAdapter_def report_sound_def auth_report_def auth_statuses time_is_zero_def Let_def
      split: option.splits check_outcome.splits)

lemma runCheck_sound: "te_now te \<noteq> 0 \<Longrightarrow> length (runCheck te r) = length (rp_adapters r) \<and> (\<forall>rep \<in> set (runCheck te r). report_sound rep)"
  by (auto simp: runCheck_def checkAdapter_sound)

end
