(* ===== verification/Agent.thy ===== *)
theory Agent
  imports Session_Commands Credential_Apply Tool_Auth
begin

text \<open>
  The agent process, \<open>internal/agent/agent.go\<close>: its projects, the set-up of its connection with all command
  handlers and hooks, and the environment operations it offers locally. The goroutines that \<open>Start\<close>
  launches are the connection loop (\<open>WS_Client\<close>) and the auth reporter (\<open>Tool_Auth\<close>).
\<close>

section \<open>State\<close>

text \<open>What the command handlers work on.\<close>

record 'a handler_state =
  hs_session :: "'a agent_state"
  hs_cred :: CredentialApplier

record 'a Agent =
  ag_cfg :: AgentConfig
  ag_registry :: ProjectRegistry
  ag_envCheckers :: "(string, EnvChecker) fmap"
  ag_lastEnvCheck :: "(string, CheckResult) fmap"
  ag_running :: bool
  ag_wsClient :: "'a handler_state WSClient option"
  ag_handlers :: "'a handler_state option"
  ag_reporter :: "AuthReporter option"

text \<open>The surroundings of \<open>Start\<close>: the host name, the adapter that the projects give, and what the handlers
  are made of.\<close>

record 'a start_env =
  st_hostname :: "string go_result"
  st_adapter :: "'a OpencodeAdapter"
  st_new_adapter :: "ProjectConfig list \<Rightarrow> 'a"
  st_session :: session_env
  st_unmarshal_push :: "string \<Rightarrow> push_command go_result"
  st_push_order :: "string list"
  st_marshal_report :: "CredentialVersionReport \<Rightarrow> string go_result"
  st_unmarshal_oauth :: "string \<Rightarrow> oauth_command go_result"
  st_tools :: tool_env

definition project_info :: "ProjectConfig \<Rightarrow> ProjectInfo" where
  "project_info p = \<lparr>pi_Name = proj_Name p, pi_Directory = proj_Directory p\<rparr>"

text \<open>A nil configuration is \<open>None\<close>.\<close>

definition NewAgent :: "file_system \<Rightarrow> string list \<Rightarrow> AgentConfig option \<Rightarrow> 'a Agent go_result" where
  "NewAgent fs ks cfg =
     (case cfg of
        None \<Rightarrow> Inl (Errorf ''config cannot be nil'')
      | Some c \<Rightarrow>
          (case NewProjectRegistry fs (map project_info (Projects c)) of
             Inl err \<Rightarrow> Inl (Wrapf ''failed to initialize project registry: '' err)
           | Inr reg \<Rightarrow>
               Inr \<lparr>ag_cfg = c, ag_registry = reg,
                    ag_envCheckers = fold (\<lambda>p m. fmupd (pi_Name p) (NewEnvChecker (pi_Directory p)) m) (ListProjects ks reg) fmempty,
                    ag_lastEnvCheck = fmempty, ag_running = False, ag_wsClient = None, ag_handlers = None, ag_reporter = None\<rparr>))"

definition nodeIdentifier :: "string go_result \<Rightarrow> string" where
  "nodeIdentifier hostname = (case hostname of Inl _ \<Rightarrow> ''unknown-node'' | Inr h \<Rightarrow> h)"

section \<open>Starting\<close>

definition on_session :: "'a agent_state command_handler \<Rightarrow> 'a handler_state command_handler" where
  "on_session h env s = (case h env (hs_session s) of (err, replies, st) \<Rightarrow> (err, replies, s\<lparr>hs_session := st\<rparr>))"

definition on_cred :: "CredentialApplier command_handler \<Rightarrow> 'a handler_state command_handler" where
  "on_cred h env s = (case h env (hs_cred s) of (err, replies, a) \<Rightarrow> (err, replies, s\<lparr>hs_cred := a\<rparr>))"

text \<open>The registrations in their order; after an error the rest is skipped.\<close>

type_synonym 's registration = "'s WSClient option \<Rightarrow> go_error option \<times> 's WSClient option"

fun register_all :: "(string \<times> 's registration) list \<Rightarrow> 's WSClient \<Rightarrow> go_error option \<times> 's WSClient" where
  "register_all [] c = (None, c)"
| "register_all ((what, f) # fs) c =
     (case f (Some c) of
        (Some err, _) \<Rightarrow> (Some (Wrapf (''register '' @ what @ '': '') err), c)
      | (None, None) \<Rightarrow> register_all fs c
      | (None, Some c') \<Rightarrow> register_all fs c')"

definition registrations :: "'a start_env \<Rightarrow> string \<Rightarrow> (string \<times> 'a handler_state registration) list" where
  "registrations e nodeID =
     [(''session command handlers'',
        RegisterSessionCommandHandlers (on_session (session_command_handler (st_session e) (st_adapter e))) True),
      (''credential push handler'',
        RegisterCredentialPushHandler (on_cred (credential_push_handler (st_unmarshal_push e) (st_push_order e))) True),
      (''credential sync on reconnect'',
        RegisterCredentialSyncOnReconnect
          (\<lambda>s. credential_sync_hook (st_marshal_report e) (te_now (st_tools e)) nodeID (hs_cred s)) True nodeID),
      (''oauth trigger handler'',
        RegisterOAuthTriggerHandler (oauth_trigger_handler (st_unmarshal_oauth e) (st_tools e) True) True)]"

definition auth_adapters :: "tool_env \<Rightarrow> ToolPathsConfig \<Rightarrow> auth_adapter option list" where
  "auth_adapters te paths =
     (let cmd = (\<lambda>tool path. status_command tool (resolveStatusCommand te tool path));
          opencode = cmd ToolOpencode (path_Opencode paths);
          claude = cmd ToolClaudeCode (path_Claude paths);
          codex = cmd ToolCodex (path_Codex paths)
      in [Some (report_of_tool (\<lambda>te. OpencodeCheckAuth te opencode)),
          Some (report_of_tool (\<lambda>te. ClaudeCheckAuth te claude)),
          Some (report_of_tool (\<lambda>te. CodexCheckAuth te codex))])"

definition Start :: "'a start_env \<Rightarrow> file_system \<Rightarrow> 'a Agent \<Rightarrow> go_error option \<times> 'a Agent" where
  "Start e fs a =
     (if ag_running a then (Some (Errorf ''agent is already running''), a)
      else
        let nodeID = nodeIdentifier (st_hostname e);
            cfg = ag_cfg a;
            handlers = \<lparr>hs_session = \<lparr>as_adapter = st_new_adapter e (Projects cfg), as_fs = fs\<rparr>, hs_cred = NewCredentialApplier\<rparr>;
            client = NewWSClient (SupervisorURL cfg) (agent_AuthToken cfg) [WithNodeID nodeID]
        in case register_all (registrations e nodeID) client of
             (Some err, c) \<Rightarrow> (Some err, a\<lparr>ag_wsClient := Some c, ag_handlers := Some handlers\<rparr>)
           | (None, c) \<Rightarrow>
               (None, a\<lparr>ag_wsClient := Some c, ag_handlers := Some handlers,
                  ag_reporter := Some (NewAuthReporter (auth_adapters (st_tools e) (ToolPaths cfg)) (seconds (AuthReportIntervalSec cfg))),
                  ag_running := True\<rparr>))"

section \<open>Local operations\<close>

definition CheckEnv :: "check_world \<Rightarrow> 'a Agent \<Rightarrow> string \<Rightarrow> ManifestRequirements option \<Rightarrow> CheckResult option \<times> 'a Agent" where
  "CheckEnv w a projectName reqs =
     (case fmlookup (ag_envCheckers a) projectName of
        None \<Rightarrow> (None, a)
      | Some checker \<Rightarrow>
          let result = Check w checker reqs
          in (Some result, a\<lparr>ag_lastEnvCheck := fmupd projectName result (ag_lastEnvCheck a)\<rparr>))"

definition GetLastEnvCheck :: "'a Agent \<Rightarrow> string \<Rightarrow> CheckResult option" where
  "GetLastEnvCheck a projectName = fmlookup (ag_lastEnvCheck a) projectName"

definition ProvisionProject :: "prov_world \<Rightarrow> 'a Agent \<Rightarrow> string \<Rightarrow> EnvManifest option \<Rightarrow> string \<Rightarrow> bool \<Rightarrow> file_system
    \<Rightarrow> (ProvisionResult \<times> go_error option \<times> ProvisionEvent list \<times> file_system) go_result" where
  "ProvisionProject w a projectName manifest templateDir has_emitter fs =
     (case GetProject (ag_registry a) projectName of
        None \<Rightarrow> Inl (Errorf (''project not found: '' @ projectName))
      | Some proj \<Rightarrow> Inr (Provision w (NewProvisioner (pi_Directory proj) (pi_Name proj) manifest templateDir has_emitter) fs))"

definition Stop :: "'a Agent \<Rightarrow> go_error option \<times> 'a Agent" where
  "Stop a =
     (if \<not> ag_running a then (Some (Errorf ''agent is not running''), a)
      else (None, a\<lparr>ag_wsClient := map_option closeConn (ag_wsClient a), ag_running := False\<rparr>))"

definition GetCredentialEnv :: "'a Agent \<Rightarrow> (string, string) fmap option" where
  "GetCredentialEnv a = map_option (\<lambda>s. GetEnv (hs_cred s)) (ag_handlers a)"

definition IsRunning :: "'a Agent \<Rightarrow> bool" where
  "IsRunning a = ag_running a"

section \<open>Which commands have a handler\<close>

lemma handlers_of_register [simp]: "commandHandlers (RegisterCommandHandler c t h) = fmupd t h (commandHandlers c)"
  by (simp add: RegisterCommandHandler_def)

lemma handlers_of_hook [simp]: "commandHandlers (WithOnConnectHook h c) = commandHandlers c"
  by (simp add: WithOnConnectHook_def split: option.splits)

lemma handlers_of_session:
  "commandHandlers (fold (\<lambda>t c. RegisterCommandHandler c t h) ts c) = fold (\<lambda>t m. fmupd t h m) ts (commandHandlers c)"
  by (induction ts arbitrary: c) simp_all

lemma fold_fmupd_lookup: "fmlookup (fold (\<lambda>t m. fmupd t h m) ts m) k = (if k \<in> set ts then Some h else fmlookup m k)"
  by (induction ts arbitrary: m) auto

lemma new_client_handlers: "commandHandlers (NewWSClient url token [WithNodeID n]) = fmempty"
  by (simp add: NewWSClient_def WithNodeID_def)

lemma registered_handlers:
  assumes "register_all (registrations e nodeID) c0 = (None, c)"
  shows "fmlookup (commandHandlers c) t =
      (if t = ''oauth_trigger'' then Some (oauth_trigger_handler (st_unmarshal_oauth e) (st_tools e) True)
       else if t = ''credential_push'' then Some (on_cred (credential_push_handler (st_unmarshal_push e) (st_push_order e)))
       else if t \<in> set session_command_types then Some (on_session (session_command_handler (st_session e) (st_adapter e)))
       else fmlookup (commandHandlers c0) t)"
  using assms
  by (auto simp: registrations_def RegisterSessionCommandHandlers_def RegisterCredentialPushHandler_def
      RegisterCredentialSyncOnReconnect_def RegisterOAuthTriggerHandler_def handlers_of_session fold_fmupd_lookup split: if_splits)

text \<open>What a started agent does with the command types of the supervisor.\<close>

lemma Start_handlers:
  assumes "Start e fs a = (None, a')"
  obtains c where "ag_wsClient a' = Some c"
    and "\<And>t. fmlookup (commandHandlers c) t =
      (if t = ''oauth_trigger'' then Some (oauth_trigger_handler (st_unmarshal_oauth e) (st_tools e) True)
       else if t = ''credential_push'' then Some (on_cred (credential_push_handler (st_unmarshal_push e) (st_push_order e)))
       else if t \<in> set session_command_types then Some (on_session (session_command_handler (st_session e) (st_adapter e)))
       else None)"
proof -
  let ?n = "nodeIdentifier (st_hostname e)"
  let ?c0 = "NewWSClient (SupervisorURL (ag_cfg a)) (agent_AuthToken (ag_cfg a)) [WithNodeID ?n]"
  obtain c where c: "register_all (registrations e ?n) ?c0 = (None, c)" "ag_wsClient a' = Some c"
    using assms by (auto simp: Start_def Let_def split: if_splits prod.splits option.splits)
  from that [OF c(2)] registered_handlers [OF c(1)] show thesis by (simp add: new_client_handlers)
qed

lemma Start_succeeds:
  assumes "\<not> ag_running a" and "nodeIdentifier (st_hostname e) \<noteq> []"
  shows "fst (Start e fs a) = None"
proof -
  have "fst (register_all (registrations e n) c) = None" if "n \<noteq> []" for n and c :: "'a handler_state WSClient"
    using that by (simp add: registrations_def RegisterSessionCommandHandlers_def RegisterCredentialPushHandler_def
        RegisterCredentialSyncOnReconnect_def RegisterOAuthTriggerHandler_def)
  from this [OF assms(2)] assms(1) show ?thesis
    by (auto simp: Start_def Let_def split: prod.splits option.splits) (metis fst_conv option.distinct(1))
qed

lemma hooks_of_session: "onConnectHooks (fold (\<lambda>t c. RegisterCommandHandler c t h) ts c) = onConnectHooks c"
  by (induction ts arbitrary: c) (simp_all add: RegisterCommandHandler_def)

text \<open>A started agent reports its credential version on every connection.\<close>

lemma Start_hooks:
  assumes "Start e fs a = (None, a')" and "ag_wsClient a' = Some c"
  shows "onConnectHooks c = [\<lambda>s. credential_sync_hook (st_marshal_report e) (te_now (st_tools e)) (nodeIdentifier (st_hostname e)) (hs_cred s)]"
proof -
  let ?n = "nodeIdentifier (st_hostname e)"
  have "register_all (registrations e ?n) (NewWSClient (SupervisorURL (ag_cfg a)) (agent_AuthToken (ag_cfg a)) [WithNodeID ?n]) = (None, c)"
    using assms by (auto simp: Start_def Let_def split: if_splits prod.splits option.splits)
  then show ?thesis
    by (auto simp: registrations_def RegisterSessionCommandHandlers_def RegisterCredentialPushHandler_def WithOnConnectHook_def
        RegisterCredentialSyncOnReconnect_def RegisterOAuthTriggerHandler_def RegisterCommandHandler_def
        hooks_of_session [unfolded RegisterCommandHandler_def] NewWSClient_def WithNodeID_def split: if_splits)
qed

end
