(* ===== verification/Go_Date.thy ===== *)
theory Go_Date
  imports Go_Lib "HOL-Library.List_Lexorder" "HOL-Library.Char_ord"
begin

text \<open>
  The part of package \<open>time\<close> that turns instants into dates: days of the proleptic Gregorian calendar in
  UTC, \<open>Format("2006-01-02")\<close>, \<open>Format(time.RFC3339Nano)\<close> and the test whether a text is such a date. Day 0
  is 1 January of year 1, where Go's zero time lies. Dates of the years 0 to 9999 are ordered as texts
  as they are in time, which the SQL comparisons of the sources rely on.
\<close>

section \<open>The calendar\<close>

definition day :: duration where "day = 86400 * second"

definition leap_year :: "int \<Rightarrow> bool" where
  "leap_year y \<longleftrightarrow> y mod 4 = 0 \<and> (y mod 100 \<noteq> 0 \<or> y mod 400 = 0)"

definition year_length :: "int \<Rightarrow> int" where
  "year_length y = (if leap_year y then 366 else 365)"

definition month_lengths :: "int \<Rightarrow> int list" where
  "month_lengths y = [31, if leap_year y then 29 else 28, 31, 30, 31, 30, 31, 31, 30, 31, 30, 31]"

text \<open>The index of the segment a position falls into, and the position in that segment.\<close>

fun locate :: "int list \<Rightarrow> int \<Rightarrow> nat \<times> int" where
  "locate [] d = (0, d)"
| "locate (n # ns) d = (if d < n then (0, d) else case locate ns (d - n) of (i, r) \<Rightarrow> (Suc i, r))"

definition cycle_lengths :: "int list" where
  "cycle_lengths = map (\<lambda>i. year_length (1 + int i)) [0..<400]"

text \<open>Year and day of the year, and from these month and day.\<close>

definition year_and_day :: "int \<Rightarrow> int \<times> int" where
  "year_and_day n = (case locate cycle_lengths (n mod 146097) of (i, r) \<Rightarrow> (400 * (n div 146097) + 1 + int i, r))"

definition civil :: "int \<Rightarrow> int \<times> nat \<times> nat" where
  "civil n = (case year_and_day n of (y, r) \<Rightarrow> case locate (month_lengths y) r of (m, d) \<Rightarrow> (y, Suc m, nat (d + 1)))"

section \<open>Texts\<close>

text \<open>Decimal text of at least the given width.\<close>

fun zero_pad :: "nat \<Rightarrow> nat \<Rightarrow> string" where
  "zero_pad 0 k = (if k = 0 then [] else nat_text k)"
| "zero_pad (Suc w) k = zero_pad w (k div 10) @ [digit_char (k mod 10)]"

definition year_text :: "int \<Rightarrow> string" where
  "year_text y = (if y < 0 then ''-'' @ zero_pad 4 (nat (- y)) else zero_pad 4 (nat y))"

text \<open>\<open>t.Format("2006-01-02")\<close> of an instant in UTC.\<close>

definition date_text :: "go_time \<Rightarrow> string" where
  "date_text t = (case civil (t div day) of (y, m, d) \<Rightarrow> year_text y @ ''-'' @ zero_pad 2 m @ ''-'' @ zero_pad 2 d)"

text \<open>The fraction of a second without trailing zeros, as layout \<open>.999999999\<close> prints it.\<close>

definition fraction_text :: "nat \<Rightarrow> string" where
  "fraction_text ns =
     (let ds = rev (dropWhile (\<lambda>c. c = CHR ''0'') (rev (zero_pad 9 ns))) in if ds = [] then [] else ''.'' @ ds)"

definition clock_text :: "go_time \<Rightarrow> string" where
  "clock_text t =
     (let s = nat (t mod day div second)
      in zero_pad 2 (s div 3600) @ '':'' @ zero_pad 2 (s div 60 mod 60) @ '':'' @ zero_pad 2 (s mod 60))"

definition rfc3339nano_text :: "go_time \<Rightarrow> string" where
  "rfc3339nano_text t = date_text t @ ''T'' @ clock_text t @ fraction_text (nat (t mod second)) @ ''Z''"

text \<open>\<open>t.Format(time.RFC3339)\<close>.\<close>

definition rfc3339_text :: "go_time \<Rightarrow> string" where
  "rfc3339_text t = date_text t @ ''T'' @ clock_text t @ ''Z''"

text \<open>The texts of ten bytes that \<open>time.Parse("2006-01-02", s)\<close> accepts.\<close>

definition valid_date :: "string \<Rightarrow> bool" where
  "valid_date s \<longleftrightarrow> length s = 10 \<and> list_all is_digit (take 4 s) \<and> s ! 4 = CHR ''-'' \<and>
     list_all is_digit (take 2 (drop 5 s)) \<and> s ! 7 = CHR ''-'' \<and> list_all is_digit (drop 8 s) \<and>
     (let y = text_value (take 4 s); m = text_value (take 2 (drop 5 s)); d = text_value (drop 8 s)
      in 1 \<le> m \<and> m \<le> 12 \<and> 1 \<le> d \<and> int d \<le> month_lengths (int y) ! (m - 1))"

text \<open>\<open>time.Date(t.Year(), t.Month(), t.Day(), 0, 0, 0, 0, time.UTC)\<close> and \<open>AddDate(0, 0, n)\<close>.\<close>

definition start_of_day :: "go_time \<Rightarrow> go_time" where
  "start_of_day t = t - t mod day"

definition add_days :: "int \<Rightarrow> go_time \<Rightarrow> go_time" where
  "add_days n t = t + n * day"

section \<open>Laws of the calendar\<close>

lemma locate_bounds:
  "0 \<le> d \<Longrightarrow> d < sum_list ns \<Longrightarrow> locate ns d = (i, r) \<Longrightarrow> i < length ns \<and> 0 \<le> r \<and> r < ns ! i"
  by (induction ns d arbitrary: i r rule: locate.induct) (fastforce split: if_splits prod.splits)+

text \<open>Later positions are located later, lexicographically.\<close>

lemma locate_mono:
  assumes "d < d'" and "d' < sum_list ns" and "locate ns d = (i, r)" and "locate ns d' = (i', r')"
  shows "i < i' \<or> i = i' \<and> r < r'"
  using assms
proof (induction ns d arbitrary: d' i r i' r' rule: locate.induct)
  case (2 n ns d)
  show ?case
  proof (cases "d < n")
    case True
    then show ?thesis using 2(2-5) by (auto split: if_splits prod.splits)
  next
    case False
    then have le: "n \<le> d'" "n \<le> d" using 2(2) by auto
    obtain j s where j: "locate ns (d - n) = (j, s)" by (cases "locate ns (d - n)")
    obtain j' s' where j': "locate ns (d' - n) = (j', s')" by (cases "locate ns (d' - n)")
    have "d - n < d' - n" "d' - n < sum_list ns" using le 2(2,3) by auto
    from 2(1) [OF False this j j'] show ?thesis using le 2(4,5) j j' by auto
  qed
qed simp

lemma leap_year_cycle: "leap_year (400 * c + y) = leap_year y"
proof -
  have "(400 * c + y) mod 4 = y mod 4" using mod_mult_self2 [of y 4 "100 * c"] by (simp add: ac_simps)
  moreover have "(400 * c + y) mod 100 = y mod 100" using mod_mult_self2 [of y 100 "4 * c"] by (simp add: ac_simps)
  moreover have "(400 * c + y) mod 400 = y mod 400" using mod_mult_self2 [of y 400 c] by (simp add: ac_simps)
  ultimately show ?thesis by (simp add: leap_year_def)
qed

lemma sum_month_lengths: "sum_list (month_lengths y) = year_length y"
  by (simp add: month_lengths_def year_length_def)

lemma length_cycle [simp]: "length cycle_lengths = 400"
  by (simp add: cycle_lengths_def)

lemma nth_cycle: "i < 400 \<Longrightarrow> cycle_lengths ! i = year_length (1 + int i)"
  by (simp add: cycle_lengths_def)

lemma sum_cycle: "sum_list cycle_lengths = 146097"
proof -
  have len: "year_length y = 365 + (if leap_year y then 1 else 0)" for y by (simp add: year_length_def)
  have "sum_list cycle_lengths = 365 * 400 + sum_list (map (\<lambda>i. if leap_year (1 + int i) then 1 else 0) [0..<400])"
    unfolding cycle_lengths_def len by (simp add: sum_list_addf sum_list_triv)
  also have "sum_list (map (\<lambda>i. if leap_year (1 + int i) then 1 else 0) [0..<400]) = (97 :: int)"
    by code_simp
  finally show ?thesis by simp
qed


lemma cycle_position: "0 \<le> n mod 146097" "n mod 146097 < sum_list cycle_lengths" for n :: int
  by (simp_all add: sum_cycle)

lemma year_and_day_bounds:
  assumes "year_and_day n = (y, r)"
  shows "0 \<le> r" and "r < year_length y" and "400 * (n div 146097) < y" and "y \<le> 400 * (n div 146097) + 400"
proof -
  obtain i where i: "locate cycle_lengths (n mod 146097) = (i, r)" "y = 400 * (n div 146097) + 1 + int i"
    using assms by (auto simp: year_and_day_def split: prod.splits)
  from locate_bounds [OF cycle_position i(1)] have "i < 400" "0 \<le> r" "r < year_length (1 + int i)" by (auto simp: nth_cycle)
  then show "0 \<le> r" "r < year_length y" "400 * (n div 146097) < y" "y \<le> 400 * (n div 146097) + 400"
    using leap_year_cycle [of "n div 146097" "1 + int i"] i(2) by (auto simp: year_length_def add.assoc)
qed

lemma year_and_day_mono:
  assumes "n < n'" and "year_and_day n = (y, r)" and "year_and_day n' = (y', r')"
  shows "y < y' \<or> y = y' \<and> r < r'"
proof (cases "n div 146097 = n' div 146097")
  case True
  obtain i where i: "locate cycle_lengths (n mod 146097) = (i, r)" "y = 400 * (n div 146097) + 1 + int i"
    using assms(2) by (auto simp: year_and_day_def split: prod.splits)
  obtain i' where i': "locate cycle_lengths (n' mod 146097) = (i', r')" "y' = 400 * (n' div 146097) + 1 + int i'"
    using assms(3) by (auto simp: year_and_day_def split: prod.splits)
  have "n mod 146097 < n' mod 146097"
    using assms(1) True div_mult_mod_eq [of n 146097] div_mult_mod_eq [of n' 146097] by linarith
  then show ?thesis using locate_mono [OF _ cycle_position(2) i(1) i'(1)] i(2) i'(2) True by auto
next
  case False
  then have "n div 146097 + 1 \<le> n' div 146097" using zdiv_mono1 [of n n' 146097] assms(1) by linarith
  then show ?thesis using year_and_day_bounds(4) [OF assms(2)] year_and_day_bounds(3) [OF assms(3)] by linarith
qed

lemma civil_parts:
  assumes "civil n = (y, m, d)"
  obtains r i e where "year_and_day n = (y, r)" and "locate (month_lengths y) r = (i, e)" and "m = Suc i" and "d = nat (e + 1)"
    and "i < 12" and "0 \<le> e" and "e < month_lengths y ! i"
proof -
  obtain r where r: "year_and_day n = (y, r)" using assms by (auto simp: civil_def split: prod.splits)
  then obtain i e where i: "locate (month_lengths y) r = (i, e)" "m = Suc i" "d = nat (e + 1)"
    using assms by (auto simp: civil_def split: prod.splits)
  have "r < sum_list (month_lengths y)" using year_and_day_bounds(2) [OF r] by (simp add: sum_month_lengths)
  from locate_bounds [OF year_and_day_bounds(1) [OF r] this i(1)]
  have "i < 12" "0 \<le> e" "e < month_lengths y ! i" by (auto simp: month_lengths_def)
  then show ?thesis using that r i by blast
qed

lemma civil_bounds:
  assumes "civil n = (y, m, d)"
  shows "1 \<le> m \<and> m \<le> 12 \<and> 1 \<le> d \<and> int d \<le> month_lengths y ! (m - 1)" and "d \<le> 31"
    and "400 * (n div 146097) < y" and "y \<le> 400 * (n div 146097) + 400"
proof -
  obtain r i e where p: "year_and_day n = (y, r)" "m = Suc i" "d = nat (e + 1)" "i < 12" "0 \<le> e" "e < month_lengths y ! i"
    using civil_parts [OF assms] by metis
  then show "1 \<le> m \<and> m \<le> 12 \<and> 1 \<le> d \<and> int d \<le> month_lengths y ! (m - 1)" by auto
  have "set (month_lengths y) \<subseteq> {..31}" by (auto simp: month_lengths_def)
  moreover have "month_lengths y ! i \<in> set (month_lengths y)" using p(4) by (intro nth_mem) (simp add: month_lengths_def)
  ultimately show "d \<le> 31" using p(3,6) by auto
  show "400 * (n div 146097) < y" "y \<le> 400 * (n div 146097) + 400" using year_and_day_bounds(3,4) [OF p(1)] by auto
qed

lemma civil_mono:
  assumes "n < n'" and "civil n = (y, m, d)" and "civil n' = (y', m', d')"
  shows "y < y' \<or> y = y' \<and> (m < m' \<or> m = m' \<and> d < d')"
proof -
  obtain r i e where p: "year_and_day n = (y, r)" "locate (month_lengths y) r = (i, e)" "m = Suc i" "d = nat (e + 1)" "0 \<le> e"
    using civil_parts [OF assms(2)] by metis
  obtain r' i' e' where p': "year_and_day n' = (y', r')" "locate (month_lengths y') r' = (i', e')" "m' = Suc i'" "d' = nat (e' + 1)"
    using civil_parts [OF assms(3)] by metis
  from year_and_day_mono [OF assms(1) p(1) p'(1)] show ?thesis
  proof
    assume yy: "y = y' \<and> r < r'"
    have "r' < sum_list (month_lengths y)" using yy year_and_day_bounds(2) [OF p'(1)] by (simp add: sum_month_lengths)
    from locate_mono [OF _ this p(2)] have "i < i' \<or> i = i' \<and> e < e'" using yy p'(2) by blast
    then show ?thesis using yy p p' by auto
  qed simp
qed

section \<open>Order of the texts\<close>

lemma length_zero_pad: "k < 10 ^ w \<Longrightarrow> length (zero_pad w k) = w"
  by (induction w arbitrary: k) (simp_all add: less_mult_imp_div_less mult.commute)

lemma less_append:
  fixes xs ys :: "'a :: linorder list"
  shows "length xs = length ys \<Longrightarrow> xs @ us < ys @ vs \<longleftrightarrow> xs < ys \<or> xs = ys \<and> us < vs"
  by (induction xs ys rule: list_induct2) auto

lemma digit_char_less: "a < 10 \<Longrightarrow> b < 10 \<Longrightarrow> digit_char a < digit_char b \<longleftrightarrow> a < b"
  by (simp add: digit_char_def less_char_def of_char_of)

lemma zero_pad_less: "a < 10 ^ w \<Longrightarrow> b < 10 ^ w \<Longrightarrow> zero_pad w a < zero_pad w b \<longleftrightarrow> a < b"
proof (induction w arbitrary: a b)
  case (Suc w)
  have ab: "a div 10 < 10 ^ w" "b div 10 < 10 ^ w" using Suc.prems by auto
  have eq: "zero_pad w (a div 10) = zero_pad w (b div 10) \<longleftrightarrow> a div 10 = b div 10"
    using Suc.IH [OF ab] Suc.IH [OF ab(2,1)] by (metis less_irrefl linorder_neqE_nat)
  have "zero_pad (Suc w) a < zero_pad (Suc w) b \<longleftrightarrow>
      a div 10 < b div 10 \<or> a div 10 = b div 10 \<and> a mod 10 < b mod 10"
    using ab by (simp add: less_append length_zero_pad Suc.IH eq digit_char_less)
  also have "\<dots> \<longleftrightarrow> a < b"
    using div_mult_mod_eq [of a 10] div_mult_mod_eq [of b 10] mod_less_divisor [of 10 a] mod_less_divisor [of 10 b] by linarith
  finally show ?case .
qed simp

text \<open>The instants whose year has at most four digits.\<close>

definition common_era :: "go_time \<Rightarrow> bool" where
  "common_era t \<longleftrightarrow> 0 \<le> t \<and> t < 3652059 * day"

lemma day_pos [simp]: "0 < day"
  by (simp add: day_def second_def)

lemma year_of_last_day: "fst (year_and_day 3652058) = 9999"
  by code_simp

lemma common_era_civil:
  assumes "common_era t" and "civil (t div day) = (y, m, d)"
  shows "0 \<le> y" and "nat y < 10 ^ 4" and "m < 10 ^ 2" and "d < 10 ^ 2"
proof -
  have "t div day \<le> (3652059 * day - 1) div day" using assms(1) by (intro zdiv_mono1) (auto simp: common_era_def)
  also have "(3652059 * day - 1) div day = 3652058" by (simp add: day_def second_def)
  finally have n: "0 \<le> t div day" "t div day \<le> 3652058"
    using assms(1) by (auto simp: common_era_def pos_imp_zdiv_nonneg_iff)
  obtain r where r: "year_and_day (t div day) = (y, r)" using assms(2) by (auto simp: civil_def split: prod.splits)
  have "y \<le> 9999"
  proof (cases "t div day = 3652058")
    case True
    then show ?thesis using year_of_last_day r by simp
  next
    case False
    then have "t div day < 3652058" using n(2) by simp
    from year_and_day_mono [OF this r prod.collapse [symmetric]] show ?thesis using year_of_last_day by auto
  qed
  moreover have "0 < y" using civil_bounds(3) [OF assms(2)] n(1) by (smt (verit) pos_imp_zdiv_nonneg_iff)
  ultimately show "0 \<le> y" "nat y < 10 ^ 4" by auto
  show "m < 10 ^ 2" "d < 10 ^ 2" using civil_bounds(1,2) [OF assms(2)] by auto
qed

text \<open>Within those years dates are ordered as texts as they are in time.\<close>

lemma date_text_less:
  assumes "common_era t" and "common_era t'" and "t div day < t' div day"
  shows "date_text t < date_text t'"
proof -
  obtain y m d where c: "civil (t div day) = (y, m, d)" by (cases "civil (t div day)") auto
  obtain y' m' d' where c': "civil (t' div day) = (y', m', d')" by (cases "civil (t' div day)") auto
  note b = common_era_civil [OF assms(1) c] common_era_civil [OF assms(2) c']
  have "nat y < nat y' \<or> y = y' \<and> (m < m' \<or> m = m' \<and> d < d')"
    using civil_mono [OF assms(3) c c'] b by auto
  then show ?thesis
    using b by (auto simp: date_text_def year_text_def c c' less_append length_zero_pad zero_pad_less)
qed

lemma date_text_le_iff:
  assumes "common_era t" and "common_era t'"
  shows "date_text t \<le> date_text t' \<longleftrightarrow> t div day \<le> t' div day"
proof -
  have "date_text t = date_text t'" if "t div day = t' div day" using that by (simp add: date_text_def)
  then show ?thesis
    using date_text_less [OF assms] date_text_less [OF assms(2,1)] by (metis less_le_not_le linorder_less_linear order.strict_implies_order order_refl)
qed

lemma text_value_append: "text_value (s @ [c]) = text_value s * 10 + (of_char c - 48)"
  by (simp add: text_value_def)

lemma text_value_zero_pad: "k < 10 ^ w \<Longrightarrow> text_value (zero_pad w k) = k"
  by (induction w arbitrary: k) (simp_all add: text_value_append of_digit_char less_mult_imp_div_less mult.commute text_value_def [of "[]"])

lemma digits_zero_pad: "k < 10 ^ w \<Longrightarrow> list_all is_digit (zero_pad w k)"
proof (induction w arbitrary: k)
  case (Suc w)
  have "is_digit (digit_char (k mod 10))" by (simp add: is_digit_def digit_char_def of_char_of Let_def)
  then show ?case using Suc by (simp add: less_mult_imp_div_less mult.commute)
qed simp

text \<open>Every date that is printed is accepted when read.\<close>

lemma valid_date_text:
  assumes "common_era t"
  shows "valid_date (date_text t)"
proof -
  obtain y m d where c: "civil (t div day) = (y, m, d)" by (cases "civil (t div day)") auto
  note b = common_era_civil [OF assms c]
  have [simp]: "length (zero_pad 4 (nat y)) = 4" "length (zero_pad 2 m) = 2" "length (zero_pad 2 d) = 2"
    using b by (auto simp: length_zero_pad)
  show ?thesis
    using b civil_bounds(1) [OF c]
    by (auto simp: valid_date_def date_text_def year_text_def c nth_append digits_zero_pad text_value_zero_pad Let_def
        simp del: zero_pad.simps)
qed

lemma length_date_text: "common_era t \<Longrightarrow> length (date_text t) = 10"
  using valid_date_text by (simp add: valid_date_def)

lemma start_of_day_div: "start_of_day t div day = t div day"
  by (simp add: start_of_day_def minus_mod_eq_mult_div)

lemma add_days_div: "add_days n t div day = t div day + n"
  using day_pos by (simp add: add_days_def div_mult_self1 less_imp_neq [THEN not_sym])

text \<open>Instants are not ordered as their \<open>RFC3339Nano\<close> texts are: trailing zeros are dropped, and a full stop
  comes before the final Z.\<close>

lemma rfc3339nano_order: "\<exists>t t'. common_era t \<and> common_era t' \<and> t < t' \<and> rfc3339nano_text t' < rfc3339nano_text t"
proof (intro exI conjI)
  show "rfc3339nano_text 1 < rfc3339nano_text 0" by code_simp
qed (simp_all add: common_era_def day_def second_def)

end
