(* ===== verification/Audit_Log.thy ===== *)
theory Audit_Log
  imports Command_Types Cached_Store Go_Date
begin

text \<open>
  \<open>internal/supervisor/audit.go\<close>: the audit log of commands. The table is keyed by its column \<open>id\<close>; columns
  that may be NULL are options. Clock, uuid, outcomes of the statements and the JSON encoding of
  arguments are given by the surroundings. Rows that agree in the sorted column come in the order of the
  argument \<open>ks\<close>, which may be any order of the table.
\<close>

section \<open>Data\<close>

record AuditEntry =
  ae_ID :: string
  ae_Timestamp :: go_time
  ae_Actor :: string
  ae_Action :: string
  ae_Target :: string
  ae_Args :: string
  ae_Result :: string
  ae_Error :: string
  ae_DurationMs :: int
  ae_IPAddress :: string

record audit_row =
  al_timestamp :: "string option"
  al_actor :: string
  al_action :: string
  al_target :: string
  al_args :: "string option"
  al_result :: string
  al_error :: "string option"
  al_duration_ms :: "int option"
  al_ip_address :: "string option"

type_synonym audit_table = "(string, audit_row) fmap"

text \<open>An \<open>AuditLogger\<close> is its table, \<open>None\<close> without a database.\<close>

record audit_env =
  au_codec :: time_codec
  au_uuid :: string
  au_now :: go_time
  au_marshal :: "go_value \<Rightarrow> string go_result"

section \<open>Writing\<close>

text \<open>\<open>duration.Milliseconds()\<close> truncates towards zero.\<close>

definition milliseconds :: "duration \<Rightarrow> int" where
  "milliseconds d = (if d < 0 then - ((- d) div millisecond) else d div millisecond)"

definition audit_target :: "CommandTarget \<Rightarrow> string" where
  "audit_target t =
     (let target = tg_Project t;
          target = (if tg_NodeID t \<noteq> [] \<and> target = [] then tg_NodeID t else target)
      in if target = [] then ''unknown'' else target)"

definition audit_entry :: "audit_env \<Rightarrow> Command \<Rightarrow> CommandResult option \<Rightarrow> string \<Rightarrow> string \<Rightarrow> duration \<Rightarrow> AuditEntry" where
  "audit_entry env cmd result actor ipAddr d =
     \<lparr>ae_ID = au_uuid env, ae_Timestamp = au_now env, ae_Actor = actor, ae_Action = cmd_Type cmd, ae_Target = audit_target (cmd_Target cmd),
      ae_Args = SanitizeArgs (au_marshal env) (cmd_Args cmd),
      ae_Result = (case result of Some r \<Rightarrow> res_Status r | None \<Rightarrow> ''failure''),
      ae_Error = (case result of Some r \<Rightarrow> res_Error r | None \<Rightarrow> []),
      ae_DurationMs = milliseconds d, ae_IPAddress = ipAddr\<rparr>"

definition audit_row_of :: "time_codec \<Rightarrow> AuditEntry \<Rightarrow> audit_row" where
  "audit_row_of tc e =
     \<lparr>al_timestamp = Some (format_nano tc (ae_Timestamp e)), al_actor = ae_Actor e, al_action = ae_Action e,
      al_target = ae_Target e, al_args = Some (ae_Args e), al_result = ae_Result e, al_error = Some (ae_Error e),
      al_duration_ms = Some (ae_DurationMs e), al_ip_address = Some (ae_IPAddress e)\<rparr>"

definition insertEntry :: "time_codec \<Rightarrow> exec_outcome \<Rightarrow> AuditEntry \<Rightarrow> audit_table \<Rightarrow> go_error option \<times> audit_table" where
  "insertEntry tc out e table =
     (case out of
        Some err \<Rightarrow> (Some err, table)
      | None \<Rightarrow>
          if ae_ID e |\<in>| fmdom table then (Some (Errorf ''UNIQUE constraint failed: audit_log.id''), table)
          else (None, fmupd (ae_ID e) (audit_row_of tc e) table))"

definition LogCommand :: "audit_env \<Rightarrow> exec_outcome \<Rightarrow> Command \<Rightarrow> CommandResult option \<Rightarrow> string \<Rightarrow> string \<Rightarrow> duration
    \<Rightarrow> audit_table option \<Rightarrow> audit_table option" where
  "LogCommand env out cmd result actor ipAddr d db =
     map_option (\<lambda>table. snd (insertEntry (au_codec env) out (audit_entry env cmd result actor ipAddr d) table)) db"

section \<open>Reading\<close>

definition scan_audit :: "time_codec \<Rightarrow> string \<Rightarrow> audit_row \<Rightarrow> AuditEntry go_result" where
  "scan_audit tc i row =
     (case al_duration_ms row of
        None \<Rightarrow> Inl (Errorf ''sql: Scan error, converting NULL in column duration_ms is unsupported'')
      | Some ms \<Rightarrow>
          Inr \<lparr>ae_ID = i,
            ae_Timestamp = (case al_timestamp row of
                None \<Rightarrow> 0
              | Some ts \<Rightarrow> (case parse_layout tc RFC3339Nano ts of Inr t \<Rightarrow> t | Inl _ \<Rightarrow> 0)),
            ae_Actor = al_actor row, ae_Action = al_action row, ae_Target = al_target row,
            ae_Args = (case al_args row of None \<Rightarrow> [] | Some s \<Rightarrow> s), ae_Result = al_result row,
            ae_Error = (case al_error row of None \<Rightarrow> [] | Some s \<Rightarrow> s), ae_DurationMs = ms,
            ae_IPAddress = (case al_ip_address row of None \<Rightarrow> [] | Some s \<Rightarrow> s)\<rparr>)"

text \<open>\<open>ORDER BY timestamp DESC\<close> compares texts, and NULL is the least value.\<close>

definition timestamp_key :: "string \<times> audit_row \<Rightarrow> string list" where
  "timestamp_key r = (case al_timestamp (snd r) of None \<Rightarrow> [] | Some ts \<Rightarrow> [ts])"

definition table_entries :: "audit_table \<Rightarrow> string list \<Rightarrow> (string \<times> audit_row) list" where
  "table_entries table ks = List.map_filter (\<lambda>k. map_option (Pair k) (fmlookup table k)) ks"

fun scan_all :: "time_codec \<Rightarrow> (string \<times> audit_row) list \<Rightarrow> AuditEntry list go_result" where
  "scan_all tc [] = Inr []"
| "scan_all tc ((i, row) # rows) =
     (case scan_audit tc i row of
        Inl err \<Rightarrow> Inl err
      | Inr e \<Rightarrow> (case scan_all tc rows of Inl err \<Rightarrow> Inl err | Inr es \<Rightarrow> Inr (e # es)))"

text \<open>\<open>out\<close> is the outcome of the query, \<open>iout\<close> that of stepping through its rows.\<close>

definition queryEntries :: "time_codec \<Rightarrow> exec_outcome \<Rightarrow> exec_outcome \<Rightarrow> string list \<Rightarrow> (audit_row \<Rightarrow> bool) \<Rightarrow> nat \<Rightarrow> audit_table
    \<Rightarrow> AuditEntry list go_result" where
  "queryEntries tc out iout ks cond limit table =
     (case out of
        Some err \<Rightarrow> Inl err
      | None \<Rightarrow>
          (case scan_all tc (take limit (rev (sort_key timestamp_key (filter (\<lambda>r. cond (snd r)) (table_entries table ks))))) of
             Inl err \<Rightarrow> Inl err
           | Inr es \<Rightarrow> (case iout of Some err \<Rightarrow> Inl err | None \<Rightarrow> Inr es)))"

definition query_limit :: "int \<Rightarrow> nat" where
  "query_limit limit = nat (if limit \<le> 0 then 100 else limit)"

definition QueryByActor :: "time_codec \<Rightarrow> exec_outcome \<Rightarrow> exec_outcome \<Rightarrow> string list \<Rightarrow> string \<Rightarrow> int \<Rightarrow> audit_table
    \<Rightarrow> AuditEntry list go_result" where
  "QueryByActor tc out iout ks actor limit table =
     queryEntries tc out iout ks (\<lambda>row. al_actor row = actor) (query_limit limit) table"

definition QueryByAction :: "time_codec \<Rightarrow> exec_outcome \<Rightarrow> exec_outcome \<Rightarrow> string list \<Rightarrow> string \<Rightarrow> int \<Rightarrow> audit_table
    \<Rightarrow> AuditEntry list go_result" where
  "QueryByAction tc out iout ks action limit table =
     queryEntries tc out iout ks (\<lambda>row. al_action row = action) (query_limit limit) table"

text \<open>\<open>timestamp < cutoff\<close>, which is not true of NULL.\<close>

definition older_than :: "string \<Rightarrow> audit_row \<Rightarrow> bool" where
  "older_than cutoff row = (case al_timestamp row of None \<Rightarrow> False | Some ts \<Rightarrow> ts < cutoff)"

definition PurgeOlderThan :: "time_codec \<Rightarrow> go_time \<Rightarrow> exec_outcome \<Rightarrow> int \<Rightarrow> audit_table option \<Rightarrow> nat go_result \<times> audit_table option" where
  "PurgeOlderThan tc now out retentionDays db =
     (case db of
        None \<Rightarrow> (Inr 0, db)
      | Some table \<Rightarrow>
          let cutoff = format_nano tc (add_days (- retentionDays) now)
          in case out of
               Some err \<Rightarrow> (Inl err, db)
             | None \<Rightarrow>
                 let kept = fmfilter (\<lambda>k. \<not> older_than cutoff (the (fmlookup table k))) table
                 in (Inr (fcard (fmdom table) - fcard (fmdom kept)), Some kept))"

section \<open>What is written is read\<close>

text \<open>Every row is one that \<open>insertEntry\<close> writes.\<close>

definition audit_inv :: "audit_table \<Rightarrow> bool" where
  "audit_inv table \<longleftrightarrow> (\<forall>k row. fmlookup table k = Some row \<longrightarrow> al_duration_ms row \<noteq> None)"

definition entries_of :: "time_codec \<Rightarrow> audit_table \<Rightarrow> AuditEntry set" where
  "entries_of tc table = {e. \<exists>k row. fmlookup table k = Some row \<and> scan_audit tc k row = Inr e}"

lemma scan_audit_row: "time_survives tc (ae_Timestamp e) \<Longrightarrow> scan_audit tc (ae_ID e) (audit_row_of tc e) = Inr e"
  by (simp add: scan_audit_def audit_row_of_def time_survives_def)

lemma entries_of_upd:
  assumes "k |\<notin>| fmdom table" and "scan_audit tc k row = Inr e"
  shows "entries_of tc (fmupd k row table) = insert e (entries_of tc table)"
proof -
  have "fmlookup table k = None" using assms(1) by (rule fmdom_notD)
  then have "fmlookup (fmupd k row table) k' = Some row' \<longleftrightarrow> k' = k \<and> row' = row \<or> fmlookup table k' = Some row'" for k' row' by auto
  then show ?thesis unfolding entries_of_def using assms(2) by (auto simp del: fmupd_lookup)
qed

lemma insertEntry_new:
  assumes "ae_ID e |\<notin>| fmdom table" and "time_survives tc (ae_Timestamp e)" and "audit_inv table"
    and "insertEntry tc None e table = (err, table')"
  shows "err = None" and "audit_inv table'" and "entries_of tc table' = insert e (entries_of tc table)"
  using assms entries_of_upd [OF assms(1) scan_audit_row [OF assms(2)]]
  by (auto simp: insertEntry_def audit_inv_def audit_row_of_def split: if_splits)

lemma scan_all_ok:
  "\<forall>(k, row) \<in> set rows. al_duration_ms row \<noteq> None \<Longrightarrow>
   \<exists>es. scan_all tc rows = Inr es \<and> set es = {e. \<exists>(k, row) \<in> set rows. scan_audit tc k row = Inr e}"
proof (induction rows)
  case (Cons r rows)
  obtain k row where r: "r = (k, row)" by (cases r)
  obtain es where es: "scan_all tc rows = Inr es" "set es = {e. \<exists>(k, row) \<in> set rows. scan_audit tc k row = Inr e}" using Cons by auto
  obtain e where "scan_audit tc k row = Inr e" using Cons.prems r by (auto simp: scan_audit_def)
  then show ?case using es r by auto
qed simp

lemma set_table_entries:
  assumes "iteration_order table ks"
  shows "set (table_entries table ks) = {(k, row). fmlookup table k = Some row}"
proof -
  have "k \<in> set ks" if "fmlookup table k = Some row" for k row
    using assms that by (auto simp: iteration_order_def intro: fmdomI)
  then show ?thesis by (force simp: table_entries_def List.map_filter_def)
qed

lemma length_table_entries: "length (table_entries table ks) \<le> length ks"
  by (simp add: table_entries_def List.map_filter_def)

lemma queryEntries_all:
  assumes "iteration_order table ks" and "audit_inv table" and "fcard (fmdom table) \<le> limit"
  shows "\<exists>es. queryEntries tc None None ks cond limit table = Inr es \<and>
    set es = {e. \<exists>k row. fmlookup table k = Some row \<and> cond row \<and> scan_audit tc k row = Inr e}"
proof -
  let ?rows = "rev (sort_key timestamp_key (filter (\<lambda>r. cond (snd r)) (table_entries table ks)))"
  have "length ks = fcard (fmdom table)" using assms(1) by (simp add: iteration_order_def distinct_card [symmetric] fcard.rep_eq)
  then have "length ?rows \<le> limit"
    using assms(3) length_table_entries [of table ks] length_filter_le [of "\<lambda>r. cond (snd r)" "table_entries table ks"] by (simp del: length_filter_le)
  then have take: "take limit ?rows = ?rows" by simp
  have rows: "set ?rows = {(k, row). fmlookup table k = Some row \<and> cond row}"
    using set_table_entries [OF assms(1)] by auto
  then have "\<forall>(k, row) \<in> set ?rows. al_duration_ms row \<noteq> None" using assms(2) by (auto simp: audit_inv_def)
  from scan_all_ok [OF this, of tc] show ?thesis unfolding queryEntries_def take rows by auto
qed

text \<open>
  C30. The audit log is faithful. With a working database and a fresh id, a command is logged as one new
  entry and all older entries are kept; the entry is what a query for its actor returns, together with
  exactly the older entries of that actor, as long as the limit is not smaller than the log; and the
  entry does not depend on anything below a secret key of the arguments.
\<close>
theorem audit_log_faithful:
  assumes "audit_inv table" and "au_uuid env |\<notin>| fmdom table" and "time_survives (au_codec env) (au_now env)"
    and "LogCommand env None cmd result actor ip d (Some table) = Some table'"
    and "iteration_order table' ks" and "0 < limit" and "fcard (fmdom table') \<le> nat limit"
    and "cmd_Args cmd = Some args" and "public_eq_map args args'"
  shows "audit_inv table' \<and>
    entries_of (au_codec env) table' = insert (audit_entry env cmd result actor ip d) (entries_of (au_codec env) table) \<and>
    (\<exists>es. QueryByActor (au_codec env) None None ks actor limit table' = Inr es \<and>
       set es = insert (audit_entry env cmd result actor ip d) {e \<in> entries_of (au_codec env) table. ae_Actor e = actor}) \<and>
    audit_entry env (cmd\<lparr>cmd_Args := Some args'\<rparr>) result actor ip d = audit_entry env cmd result actor ip d"
proof -
  let ?e = "audit_entry env cmd result actor ip d" and ?tc = "au_codec env"
  obtain err where ins: "insertEntry ?tc None ?e table = (err, table')"
    using assms(4) by (cases "insertEntry ?tc None ?e table") (auto simp: LogCommand_def)
  have e: "ae_ID ?e |\<notin>| fmdom table" "time_survives ?tc (ae_Timestamp ?e)" using assms(2,3) by (simp_all add: audit_entry_def)
  note new = insertEntry_new [OF e assms(1) ins]
  obtain es where es: "QueryByActor ?tc None None ks actor limit table' = Inr es"
    "set es = {e. \<exists>k row. fmlookup table' k = Some row \<and> al_actor row = actor \<and> scan_audit ?tc k row = Inr e}"
    using queryEntries_all [OF assms(5) new(2), of "query_limit limit" ?tc "\<lambda>row. al_actor row = actor"] assms(6,7)
    by (auto simp: QueryByActor_def query_limit_def)
  have actor: "ae_Actor x = al_actor row" if "scan_audit ?tc k row = Inr x" for k row x
    using that by (auto simp: scan_audit_def split: option.splits)
  have "set es = {e \<in> entries_of ?tc table'. ae_Actor e = actor}" unfolding es(2) entries_of_def using actor by fastforce
  then have "set es = insert ?e {e \<in> entries_of ?tc table. ae_Actor e = actor}" using new(3) by (auto simp: audit_entry_def)
  moreover have "audit_entry env (cmd\<lparr>cmd_Args := Some args'\<rparr>) result actor ip d = ?e"
    using sanitize_public_eq(2) [OF assms(9)] assms(8) by (simp add: audit_entry_def SanitizeArgs_def)
  ultimately show ?thesis using new es(1) by blast
qed

definition demo_audit_env :: audit_env where
  "demo_audit_env = \<lparr>au_codec = unary_codec, au_uuid = ''u'', au_now = 3, au_marshal = (\<lambda>_. Inr ''json'')\<rparr>"

definition demo_logged :: Command where
  "demo_logged = \<lparr>cmd_CommandID = ''c'', cmd_Type = CommandTypeCredentialPush, cmd_IdempotencyKey = [],
     cmd_Target = \<lparr>tg_Project = [], tg_NodeID = ''n''\<rparr>, cmd_Args = Some [(''token'', JString ''s'')], cmd_Timeout = 0\<rparr>"

lemma audit_log_faithful_witness:
  "\<exists>table' es. LogCommand demo_audit_env None demo_logged None ''api'' [] 0 (Some fmempty) = Some table' \<and>
     QueryByActor unary_codec None None [''u''] ''api'' 5 table' = Inr es \<and>
     set es = {audit_entry demo_audit_env demo_logged None ''api'' [] 0}"
proof -
  obtain table' where t: "LogCommand demo_audit_env None demo_logged None ''api'' [] 0 (Some fmempty) = Some table'"
    by (auto simp: LogCommand_def)
  have dom: "fmdom table' = {|''u''|}" using t by (auto simp: LogCommand_def insertEntry_def audit_entry_def demo_audit_env_def)
  have inv: "audit_inv fmempty" "au_uuid demo_audit_env |\<notin>| fmdom fmempty" "time_survives (au_codec demo_audit_env) (au_now demo_audit_env)"
    by (simp_all add: audit_inv_def demo_audit_env_def unary_codec_survives)
  have ord: "iteration_order table' [''u'']" using dom by (simp add: iteration_order_def)
  have args: "cmd_Args demo_logged = Some [(''token'', JString ''s'')]" by (simp add: demo_logged_def)
  have "public_eq_map [(''token'', JString ''s'')] [(''token'', JString ''s'')]"
    by (intro public_eq_public_eq_map_public_eq_list.intros)
  from audit_log_faithful [OF inv t ord _ _ args this, of 5]
  have "\<exists>es. QueryByActor unary_codec None None [''u''] ''api'' 5 table' = Inr es \<and>
      set es = insert (audit_entry demo_audit_env demo_logged None ''api'' [] 0) {e \<in> entries_of unary_codec fmempty. ae_Actor e = ''api''}"
    using dom by (simp add: demo_audit_env_def fcard.rep_eq)
  moreover have "entries_of unary_codec fmempty = {}" by (simp add: entries_of_def)
  ultimately show ?thesis using t by simp
qed

section \<open>Retention\<close>

lemma fmlookup_purged:
  assumes "PurgeOlderThan tc now None retentionDays (Some table) = (res, db')"
  shows "\<exists>kept. db' = Some kept \<and> (\<forall>k row. fmlookup kept k = Some row \<longleftrightarrow> fmlookup table k = Some row \<and>
     \<not> older_than (format_nano tc (add_days (- retentionDays) now)) row)"
  using assms by (auto simp: PurgeOlderThan_def Let_def)

text \<open>Purging compares texts. With a codec whose texts are ordered like the instants it removes exactly the
  entries older than the retention period.\<close>

lemma purge_exact:
  assumes "PurgeOlderThan tc now None retentionDays (Some table) = (res, Some kept)"
    and "\<And>t t'. t \<in> T \<Longrightarrow> t' \<in> T \<Longrightarrow> format_nano tc t < format_nano tc t' \<longleftrightarrow> t < t'" and "add_days (- retentionDays) now \<in> T"
    and "fmlookup table k = Some row" and "al_timestamp row = Some (format_nano tc t)" and "t \<in> T"
  shows "fmlookup kept k = Some row \<longleftrightarrow> add_days (- retentionDays) now \<le> t"
  using fmlookup_purged [OF assms(1)] assms(2) [OF assms(6,3)] assms(4,5) by (auto simp: older_than_def)

text \<open>The texts of \<open>RFC3339Nano\<close> are not ordered in this way: a later instant within the same second comes first.\<close>

lemma second_pos [simp]: "0 < second"
  by (simp add: second_def)

lemma fraction_text_nonzero:
  assumes "k mod 10 \<noteq> 0"
  shows "fraction_text k = ''.'' @ zero_pad 9 k"
proof -
  have pad: "zero_pad 9 k = zero_pad 8 (k div 10) @ [digit_char (k mod 10)]" using zero_pad.simps(2) [of 8 k] by simp
  have "of_char (digit_char (k mod 10)) = 48 + k mod 10" by (simp add: digit_char_def of_char_of)
  moreover have "of_char CHR ''0'' = (48 :: nat)" by simp
  ultimately have "digit_char (k mod 10) \<noteq> CHR ''0''" using assms by fastforce
  then show ?thesis by (simp add: fraction_text_def Let_def pad)
qed

lemma fraction_text_zero: "fraction_text 0 = []"
  by code_simp

lemma later_text_first:
  assumes "t mod second = 0" and "0 < d" and "d < second" and "d mod 10 \<noteq> 0"
  shows "rfc3339nano_text (t + d) < rfc3339nano_text t"
proof -
  obtain q where q: "t = second * q" using assms(1) by (auto simp: mod_eq_0_iff_dvd)
  have div: "(t + d) div second = t div second" using assms(2,3) q by simp
  have day: "(t + d) div day = t div day" "(t + d) mod day div second = t mod day div second"
  proof -
    have e: "x div day = x div second div 86400" "x mod day div second = x div second mod 86400" for x
    proof -
      show "x div day = x div second div 86400" unfolding day_def mult.commute [of 86400] by (simp add: zdiv_zmult2_eq)
      have "x mod day = second * (x div second mod 86400) + x mod second"
        unfolding day_def mult.commute [of 86400] by (simp add: zmod_zmult2_eq)
      moreover have "x mod second div second = 0" by (simp add: pos_mod_bound pos_mod_sign div_pos_pos_trivial)
      moreover have "(second * a + r) div second = a + r div second" for a r by (simp add: second_def)
      ultimately show "x mod day div second = x div second mod 86400" by simp
    qed
    show "(t + d) div day = t div day" "(t + d) mod day div second = t mod day div second" unfolding e div by simp_all
  qed
  have same: "date_text (t + d) = date_text t" "clock_text (t + d) = clock_text t"
    using day by (simp_all add: date_text_def clock_text_def)
  have "(t + d) mod second = d" using assms(2,3) q by simp
  moreover have "nat d mod 10 \<noteq> 0" using nat_mod_distrib [of d 10] pos_mod_sign [of 10 d] assms(2,4) by auto
  ultimately have frac: "fraction_text (nat ((t + d) mod second)) = ''.'' @ zero_pad 9 (nat d)" by (simp add: fraction_text_nonzero del: zero_pad.simps)
  have "fraction_text (nat (t mod second)) = []" using assms(1) by (simp add: fraction_text_zero)
  then show ?thesis unfolding rfc3339nano_text_def same frac by (simp add: less_append less_char_def)
qed

text \<open>
  Purging the audit log compares \<open>RFC3339Nano\<close> texts, which drop trailing zeros: when the end of the retention
  period falls on a full second, an entry written up to a second later, so within the period, is
  removed as well.
\<close>
theorem purge_removes_retained_entry:
  assumes "format_nano tc = rfc3339nano_text" and "add_days (- retentionDays) now mod second = 0"
    and "0 < d" and "d < second" and "d mod 10 \<noteq> 0"
    and "fmlookup table k = Some row" and "al_timestamp row = Some (format_nano tc (add_days (- retentionDays) now + d))"
    and "PurgeOlderThan tc now None retentionDays (Some table) = (res, Some kept)"
  shows "fmlookup kept k = None"
proof -
  have "older_than (format_nano tc (add_days (- retentionDays) now)) row"
    using later_text_first [OF assms(2-5)] assms(1,7) by (simp add: older_than_def)
  then have "fmlookup kept k \<noteq> Some row'" for row' using fmlookup_purged [OF assms(8)] assms(6) by fastforce
  then show ?thesis by (cases "fmlookup kept k") auto
qed

lemma purge_removes_retained_entry_witness:
  "\<exists>kept. PurgeOlderThan \<lparr>format_nano = rfc3339nano_text, parse_layout = (\<lambda>_ _. Inl (Errorf []))\<rparr> (90 * day) None 90
     (Some (fmupd ''k'' (audit_row_of \<lparr>format_nano = rfc3339nano_text, parse_layout = (\<lambda>_ _. Inl (Errorf []))\<rparr>
       (audit_entry (demo_audit_env\<lparr>au_now := 1\<rparr>) demo_logged None [] [] 0)) fmempty)) = (Inr 1, Some kept) \<and> fmlookup kept ''k'' = None"
proof -
  let ?tc = "\<lparr>format_nano = rfc3339nano_text, parse_layout = (\<lambda>_ _. Inl (Errorf []))\<rparr>"
  let ?row = "audit_row_of ?tc (audit_entry (demo_audit_env\<lparr>au_now := 1\<rparr>) demo_logged None [] [] 0)"
  have zero: "add_days (- 90) (90 * day) = 0" by (simp add: add_days_def)
  obtain kept where kept: "PurgeOlderThan ?tc (90 * day) None 90 (Some (fmupd ''k'' ?row fmempty)) =
      (Inr (fcard (fmdom (fmupd ''k'' ?row fmempty)) - fcard (fmdom kept)), Some kept)"
    by (simp add: PurgeOlderThan_def Let_def)
  have none: "fmlookup kept ''k'' = None"
    by (rule purge_removes_retained_entry [OF _ _ _ _ _ _ _ kept, of 1 _ ?row])
      (simp_all add: zero audit_row_of_def audit_entry_def second_def)
  have "kept = fmempty"
  proof (rule fmap_ext)
    fix x
    have "fmlookup kept x = Some row \<Longrightarrow> x = ''k''" for row using fmlookup_purged [OF kept] by (fastforce split: if_splits)
    then show "fmlookup kept x = fmlookup fmempty x" using none by (cases "fmlookup kept x") auto
  qed
  then show ?thesis using kept none by (intro exI [of _ kept]) (simp add: fcard.rep_eq)
qed

end
