(* ===== verification/OAuth_Orchestrator.thy ===== *)
theory OAuth_Orchestrator
  imports Dispatcher Tool_Auth
begin

text \<open>
  \<open>internal/supervisor/oauth_orchestrator.go\<close> and \<open>manual_auth_guidance.go\<close>: starting the remote login of a tool
  on a node, and the instructions for logging in by hand where that is not possible. The decoding of
  the output of the command is given by the surroundings.
\<close>

section \<open>Manual login\<close>

record ManualAuthGuidance =
  mg_Tool :: string
  mg_ReasonCode :: string
  mg_Reason :: string
  mg_Steps :: "string list"
  mg_LoginCommand :: string
  mg_NodeID :: string

text \<open>The loop of \<open>findSubstring\<close> from index \<open>i\<close> on; \<open>-1\<close> means not found.\<close>

function find_from :: "string \<Rightarrow> string \<Rightarrow> nat \<Rightarrow> int" where
  "find_from s substr i =
     (if int i \<le> int (length s) - int (length substr)
      then if take (length substr) (drop i s) = substr then int i else find_from s substr (Suc i)
      else -1)"
  by pat_completeness auto
termination
  by (relation "measure (\<lambda>(s, _, i). Suc (length s) - i)") auto

definition findSubstring :: "string \<Rightarrow> string \<Rightarrow> int" where
  "findSubstring s substr = find_from s substr 0"

definition extractLoginCommand :: "string \<Rightarrow> string" where
  "extractLoginCommand hint =
     (if hint = [] then []
      else let runPrefix = ''run: ''; runPrefixNoSpace = ''run:''; idx = findSubstring hint runPrefix
        in if idx \<ge> 0 then drop (nat idx + length runPrefix) hint
           else let idx = findSubstring hint runPrefixNoSpace
             in if idx \<ge> 0 then drop (nat idx + length runPrefixNoSpace) hint else hint)"

definition joinCommand :: "string list \<Rightarrow> string" where
  "joinCommand parts = (case parts of [] \<Rightarrow> [] | p # ps \<Rightarrow> foldl (\<lambda>result part. result @ '' '' @ part) p ps)"

definition GenerateManualGuidance :: "ToolID \<Rightarrow> string \<Rightarrow> ManualAuthGuidance" where
  "GenerateManualGuidance tool nodeID =
     (let capability = GetToolCapability tool;
          (code, reason, login) = (case capability of
              None \<Rightarrow> (''provider_unsupported'', ''Tool '' @ quoted tool @ '' is not supported for remote OAuth'', tool @ '' auth login'')
            | Some cap \<Rightarrow>
                if \<not> tc_RemoteOAuth cap
                then (''no_remote_oauth'', ''Tool '' @ quoted (tc_Name cap) @ '' does not support remote OAuth flows'',
                  extractLoginCommand (tc_ManualLoginHint cap))
                else (''no_remote_oauth'', ''Tool '' @ quoted tool @ '' requires manual authentication'',
                  extractLoginCommand (tc_ManualLoginHint cap)));
          sshTarget = (if nodeID = [] then ''the target agent server'' else ''user@'' @ nodeID);
          steps = [''SSH into the agent server: ssh '' @ sshTarget, ''Run the login command: '' @ login,
            ''Follow the browser-based authentication flow'']
      in \<lparr>mg_Tool = tool, mg_ReasonCode = code, mg_Reason = reason,
          mg_Steps = steps @ (case capability of
              None \<Rightarrow> []
            | Some cap \<Rightarrow> if tc_StatusCommand cap = [] then [] else [''Verify auth status: '' @ joinCommand (tc_StatusCommand cap)]),
          mg_LoginCommand = login, mg_NodeID = nodeID\<rparr>)"

section \<open>Remote login\<close>

record OAuthResult =
  oa_Status :: string
  oa_ChallengeURL :: string
  oa_UserCode :: string
  oa_Reason :: string
  oa_ManualGuidance :: "ManualAuthGuidance option"

definition oauth_result :: "string \<Rightarrow> string \<Rightarrow> ManualAuthGuidance option \<Rightarrow> OAuthResult" where
  "oauth_result status reason guidance =
     \<lparr>oa_Status = status, oa_ChallengeURL = [], oa_UserCode = [], oa_Reason = reason, oa_ManualGuidance = guidance\<rparr>"

definition parseOAuthCommandOutput :: "(string \<Rightarrow> OAuthResult go_result) \<Rightarrow> string \<Rightarrow> OAuthResult option" where
  "parseOAuthCommandOutput decode output =
     (let trimmed = trim_space output
      in if trimmed = [] then None else case decode trimmed of Inl _ \<Rightarrow> None | Inr result \<Rightarrow> Some result)"

definition supportsOAuthFlow :: "string list \<Rightarrow> string \<Rightarrow> bool" where
  "supportsOAuthFlow flows flow = list_ex (\<lambda>candidate. to_lower (trim_space candidate) = to_lower flow) flows"

definition oauth_trigger_request :: "string \<Rightarrow> ToolID \<Rightarrow> Command" where
  "oauth_trigger_request nodeID tool =
     \<lparr>cmd_CommandID = [], cmd_Type = CommandTypeOAuthTrigger, cmd_IdempotencyKey = [],
      cmd_Target = \<lparr>tg_Project = [], tg_NodeID = nodeID\<rparr>, cmd_Args = Some [(''tool'', JString tool)], cmd_Timeout = 0\<rparr>"

text \<open>How the result of the command is turned into the answer.\<close>

definition oauth_answer :: "(string \<Rightarrow> OAuthResult go_result) \<Rightarrow> CommandResult \<Rightarrow> OAuthResult" where
  "oauth_answer decode r =
     (case parseOAuthCommandOutput decode (res_Output r) of
        Some parsed0 \<Rightarrow>
          let parsed = (if oa_Status parsed0 = [] then parsed0\<lparr>oa_Status := res_Status r\<rparr> else parsed0)
          in if oa_Status parsed = ''failure'' \<and> oa_Reason parsed = [] then parsed\<lparr>oa_Reason := res_Error r\<rparr> else parsed
      | None \<Rightarrow>
          if res_Status r \<noteq> CommandStatusSuccess
          then oauth_result ''failure'' (if res_Error r = [] then res_Output r else res_Error r) None
          else oauth_result ''success'' (res_Output r) None)"

text \<open>\<open>None\<close> is an orchestrator without dispatcher; \<open>dispatch\<close> is \<open>DispatchCommand\<close> in its surroundings.\<close>

definition TriggerOAuth :: "(string \<Rightarrow> OAuthResult go_result) \<Rightarrow> (CommandDispatcher \<Rightarrow> Command \<Rightarrow> CommandResult go_result \<times> CommandDispatcher)
    \<Rightarrow> CommandDispatcher option \<Rightarrow> string \<Rightarrow> ToolID \<Rightarrow> OAuthResult go_result \<times> CommandDispatcher option" where
  "TriggerOAuth decode dispatch dispatcher nodeID tool =
     (case dispatcher of
        None \<Rightarrow> (Inl (Errorf ''command dispatcher unavailable''), dispatcher)
      | Some d \<Rightarrow>
          (case GetToolCapability tool of
             None \<Rightarrow> (Inr (oauth_result ''manual_required'' (''tool '' @ quoted tool @ '' is not supported for remote oauth'')
               (Some (GenerateManualGuidance tool nodeID))), dispatcher)
           | Some capability \<Rightarrow>
               if \<not> tc_RemoteOAuth capability \<or> \<not> supportsOAuthFlow (tc_OAuthFlows capability) ''device_code'' then
                 (Inr (oauth_result ''manual_required''
                   (if trim_space (tc_ManualLoginHint capability) = []
                    then ''tool '' @ quoted tool @ '' requires manual authentication'' else tc_ManualLoginHint capability)
                   (Some (GenerateManualGuidance tool nodeID))), dispatcher)
               else
                 (case dispatch d (oauth_trigger_request nodeID tool) of
                    (Inl err, d') \<Rightarrow> (Inl (Wrapf ''dispatch oauth trigger command: '' err), Some d')
                  | (Inr r, d') \<Rightarrow> (Inr (oauth_answer decode r), Some d'))))"

section \<open>Properties\<close>

text \<open>The hand-written search is \<open>strings.Index\<close>.\<close>

declare find_from.simps [simp del]

lemma find_from_index:
  "i \<le> length s \<Longrightarrow> find_from s substr i = (case str_index (drop i s) substr of None \<Rightarrow> -1 | Some j \<Rightarrow> int (i + j))"
proof (induction s substr i rule: find_from.induct)
  case (1 s substr i)
  show ?case
  proof (cases "take (length substr) (drop i s) = substr")
    case True
    then have "length substr \<le> length s - i" by (metis length_drop length_take min.cobounded1 min_def)
    with True 1(2) show ?thesis by (simp add: find_from.simps [of s] str_index.simps [of "drop i s"] has_prefix_def)
  next
    case False
    show ?thesis
    proof (cases "int i \<le> int (length s) - int (length substr)")
      case True
      then have "i < length s" using False by (cases substr) auto
      then obtain c where c: "drop i s = c # drop (Suc i) s" using Cons_nth_drop_Suc by metis
      show ?thesis
        using 1(1) [OF True False] False True \<open>i < length s\<close>
        by (simp add: find_from.simps [of s substr i] str_index.simps [of "c # drop (Suc i) s"] has_prefix_def c split: option.splits)
    next
      case short: False
      have "\<not> sublist substr (drop i s)" using short 1(2) sublist_length_le by fastforce
      then have "str_index (drop i s) substr = None" using str_index_iff [of "drop i s" substr] by auto
      then show ?thesis using short by (simp add: find_from.simps [of s substr i])
    qed
  qed
qed

lemma findSubstring_index: "findSubstring s substr = (case str_index s substr of None \<Rightarrow> -1 | Some j \<Rightarrow> int j)"
  unfolding findSubstring_def using find_from_index [of 0 s substr] by (simp split: option.split)

text \<open>The login command of every known tool is the part of its hint after \<open>run: \<close>.\<close>

lemma login_commands:
  "mg_LoginCommand (GenerateManualGuidance ToolOpencode n) = ''opencode auth login''"
  "mg_LoginCommand (GenerateManualGuidance ToolClaudeCode n) = ''claude auth login''"
  "mg_LoginCommand (GenerateManualGuidance ToolCodex n) = ''codex login --device-auth''"
  by (code_simp, code_simp, code_simp)

lemma supportsOAuthFlow_agrees: "supportsOAuthFlow = oauthFlowSupported"
  by (intro ext) (simp add: supportsOAuthFlow_def oauthFlowSupported_def)

text \<open>
  C29. Supervisor and agent agree on the tools that need a login by hand: where the agent would refuse a remote
  login, the supervisor answers at once with the instructions for that tool and node and dispatches
  nothing; for every other tool it dispatches exactly one command, addressed to that node and naming
  that tool, and answers from its result.
\<close>
theorem oauth_decisions_agree:
  "if ot_Status (Trigger te has_runner tool) = ''manual_required''
   then \<exists>reason. TriggerOAuth decode dispatch (Some d) nodeID tool =
      (Inr (oauth_result ''manual_required'' reason (Some (GenerateManualGuidance tool nodeID))), Some d)
   else TriggerOAuth decode dispatch (Some d) nodeID tool =
      (case dispatch d (oauth_trigger_request nodeID tool) of
         (Inl err, d') \<Rightarrow> (Inl (Wrapf ''dispatch oauth trigger command: '' err), Some d')
       | (Inr r, d') \<Rightarrow> (Inr (oauth_answer decode r), Some d'))"
proof (cases "GetToolCapability tool")
  case None
  then show ?thesis by (auto simp: Trigger_def TriggerOAuth_def manual_required_def)
next
  case (Some cap)
  show ?thesis
  proof (cases "\<not> tc_RemoteOAuth cap \<or> \<not> oauthFlowSupported (tc_OAuthFlows cap) ''device_code''")
    case True
    then show ?thesis using Some by (auto simp: Trigger_def TriggerOAuth_def manual_required_def supportsOAuthFlow_agrees)
  next
    case False
    have "tool = ToolOpencode \<or> tool = ToolCodex"
      using False Some by (auto simp: GetToolCapability_def GetToolCapabilities_def split: if_splits)
    then have stub: "ot_Status (stubOAuthChallenge tool) = ''challenge''"
      by (elim disjE) (simp_all add: stubOAuthChallenge_def oauth_challenge_def ToolOpencode_def ToolCodex_def ToolClaudeCode_def)
    have "ot_Status (Trigger te has_runner tool) \<in> {''challenge'', ''failure'', ''success''}"
      using False by (simp add: Trigger_def Some stub oauth_challenge_def oauth_failure_def Let_def split: prod.split)
    then have "ot_Status (Trigger te has_runner tool) \<noteq> ''manual_required''" by auto
    then show ?thesis using False Some by (simp add: TriggerOAuth_def supportsOAuthFlow_agrees)
  qed
qed

end
