(* ===== verification/Cost_Aggregator.thy ===== *)
theory Cost_Aggregator
  imports Supervisor_Config Tracker Go_Date "HOL-Library.Product_Lexorder"
begin

text \<open>
  \<open>internal/supervisor/cost.go\<close>: polling the usage reports of the two providers, storing daily sums in the
  table \<open>costs\<close>, estimating the costs of sessions when a provider does not answer, and the cost report.

  The requests, the decoding of JSON and the outcomes of the statements are given by the surroundings. An
  \<open>int64\<close> sum wraps; a sum that SQLite computes is exact, because its \<open>SUM\<close> fails instead of overflowing.
\<close>

section \<open>Data\<close>

definition providerAnthropic :: string where "providerAnthropic = ''anthropic''"
definition providerOpenAI :: string where "providerOpenAI = ''openai''"

record CostBreakdown =
  cb_Provider :: string
  cb_Model :: string
  cb_Tokens :: int
  cb_CostUSD :: rat

record ProjectCost =
  pc_Project :: string
  pc_Tokens :: int
  pc_CostUSD :: rat

record CostReport =
  rep_Period :: string
  rep_TotalTokens :: int
  rep_TotalCostUSD :: rat
  rep_ByProvider :: "CostBreakdown list"
  rep_ByModel :: "CostBreakdown list"
  rep_ByProject :: "ProjectCost list"
  rep_DegradedProviders :: "string list"

record usageRow =
  ur_Provider :: string
  ur_Model :: string
  ur_Project :: string
  ur_Date :: string
  ur_Tokens :: int
  ur_CostUSD :: rat

text \<open>A row of \<open>costs\<close>; the table is keyed by the column \<open>id\<close>.\<close>

record cost_row =
  cr_provider :: string
  cr_model :: string
  cr_date :: string
  cr_tokens :: int
  cr_cost_usd :: rat

type_synonym cost_table = "(string, cost_row) fmap"

record CostAggregator =
  ca_cfg :: CostConfig
  ca_db :: "cost_table option"
  ca_tracker :: "SessionTracker option"
  ca_running :: bool
  ca_degraded :: "(string, string) fmap"

definition NewCostAggregator :: "CostConfig \<Rightarrow> cost_table option \<Rightarrow> SessionTracker option \<Rightarrow> CostAggregator" where
  "NewCostAggregator cfg db tracker =
     \<lparr>ca_cfg = cfg\<lparr>PollIntervalMinutes := positive_or 60 (PollIntervalMinutes cfg),
        RequestTimeoutSec := positive_or 15 (RequestTimeoutSec cfg),
        cost_MaxRetries := positive_or 3 (cost_MaxRetries cfg),
        BackoffBaseMS := positive_or 500 (BackoffBaseMS cfg)\<rparr>,
      ca_db = db, ca_tracker = tracker, ca_running = False, ca_degraded = fmempty\<rparr>"

section \<open>Reading the answers of the providers\<close>

text \<open>An entry of the list \<open>usage\<close> of Anthropic's answer.\<close>

record anthropic_usage =
  au_Date :: string
  au_Model :: string
  au_Tokens :: int
  au_CostUSD :: rat

text \<open>
  What the surroundings provide: \<open>json.Unmarshal\<close> at the three types it is used with, reading
  \<open>RFC3339\<close>, and the machine's conversion of floats out of the range of \<open>int64\<close>.
\<close>

record cost_env =
  ce_object :: "string \<Rightarrow> (string, string) fmap go_result"
  ce_usage :: "string \<Rightarrow> anthropic_usage list go_result"
  ce_items :: "string \<Rightarrow> (string, go_value) fmap list go_result"
  ce_rfc3339 :: "string \<Rightarrow> go_time option"
  ce_float :: "rat \<Rightarrow> int"

definition item_get :: "(string, go_value) fmap \<Rightarrow> string \<Rightarrow> go_value" where
  "item_get item k = map_get item k JNull"

fun asString :: "go_value list \<Rightarrow> string" where
  "asString [] = []"
| "asString (JString s # vs) = (if s \<noteq> [] then s else asString vs)"
| "asString (v # vs) = asString vs"

text \<open>Numbers of a decoded JSON value are always \<open>float64\<close>; the other cases of the switch do not arise.\<close>

fun asInt64 :: "(rat \<Rightarrow> int) \<Rightarrow> go_value list \<Rightarrow> int" where
  "asInt64 conv [] = 0"
| "asInt64 conv (JNumber f # vs) = int64_of_float conv f"
| "asInt64 conv (v # vs) = asInt64 conv vs"

fun asFloat64 :: "go_value list \<Rightarrow> rat" where
  "asFloat64 [] = 0"
| "asFloat64 (JNumber f # vs) = f"
| "asFloat64 (v # vs) = asFloat64 vs"

text \<open>\<open>time.Unix(epoch, 0)\<close>; the sum of seconds is an \<open>int64\<close>.\<close>

definition unix_time :: "int \<Rightarrow> go_time" where
  "unix_time epoch = wrap64 (epoch + 62135596800) * second"

fun normalizeDate :: "(string \<Rightarrow> go_time option) \<Rightarrow> string list \<Rightarrow> string" where
  "normalizeDate rfc [] = []"
| "normalizeDate rfc (raw # vs) =
     (if raw = [] then normalizeDate rfc vs
      else if length raw \<ge> 10 \<and> valid_date (take 10 raw) then take 10 raw
      else case rfc raw of
          Some t \<Rightarrow> date_text t
        | None \<Rightarrow>
            (case parse_int64 raw of
               Some epoch \<Rightarrow> if epoch > 0 then date_text (unix_time epoch) else normalizeDate rfc vs
             | None \<Rightarrow> normalizeDate rfc vs))"

definition anthropic_row :: "cost_env \<Rightarrow> anthropic_usage \<Rightarrow> usageRow" where
  "anthropic_row env u = \<lparr>ur_Provider = providerAnthropic, ur_Model = au_Model u, ur_Project = [],
     ur_Date = normalizeDate (ce_rfc3339 env) [au_Date u], ur_Tokens = au_Tokens u, ur_CostUSD = au_CostUSD u\<rparr>"

definition anthropic_item :: "cost_env \<Rightarrow> (string, go_value) fmap \<Rightarrow> usageRow" where
  "anthropic_item env item =
     (let tokens0 = asInt64 (ce_float env) [item_get item ''tokens''];
          tokens = (if tokens0 = 0 then asInt64 (ce_float env) [item_get item ''total_tokens''] else tokens0);
          cost0 = asFloat64 [item_get item ''cost_usd''];
          cost = (if cost0 = 0 then asFloat64 [item_get item ''total_cost''] else cost0)
      in \<lparr>ur_Provider = providerAnthropic, ur_Model = asString [item_get item ''model''], ur_Project = [],
          ur_Date = normalizeDate (ce_rfc3339 env) [asString [item_get item ''date''], asString [item_get item ''time''],
            asString [item_get item ''timestamp''], asString [item_get item ''created_at'']],
          ur_Tokens = tokens, ur_CostUSD = cost\<rparr>)"

definition parseAnthropicUsage :: "cost_env \<Rightarrow> string \<Rightarrow> usageRow list go_result" where
  "parseAnthropicUsage env body =
     (case ce_object env body of
        Inl err \<Rightarrow> Inl (Wrapf ''decode anthropic response: '' err)
      | Inr raw \<Rightarrow>
          (case fmlookup raw ''usage'' of
             Some data \<Rightarrow>
               (case ce_usage env data of
                  Inl err \<Rightarrow> Inl (Wrapf ''decode anthropic usage: '' err)
                | Inr usage \<Rightarrow> Inr (map (anthropic_row env) usage))
           | None \<Rightarrow>
               (case fmlookup raw ''data'' of
                  None \<Rightarrow> Inr []
                | Some data \<Rightarrow>
                    (case ce_items env data of
                       Inl err \<Rightarrow> Inl (Wrapf ''decode anthropic data: '' err)
                     | Inr items \<Rightarrow> Inr (map (anthropic_item env) items)))))"

definition openai_item :: "cost_env \<Rightarrow> (string, go_value) fmap \<Rightarrow> usageRow" where
  "openai_item env item =
     (let tokens0 = asInt64 (ce_float env) [item_get item ''tokens''];
          tokens = (if tokens0 = 0
            then asInt64 (ce_float env) [item_get item ''total_tokens'', item_get item ''input_tokens''] else tokens0)
      in \<lparr>ur_Provider = providerOpenAI, ur_Model = asString [item_get item ''model''],
          ur_Project = asString [item_get item ''project'', item_get item ''project_id''],
          ur_Date = normalizeDate (ce_rfc3339 env) [asString [item_get item ''date''], asString [item_get item ''time''],
            asString [item_get item ''timestamp''], asString [item_get item ''start_time'']],
          ur_Tokens = tokens, ur_CostUSD = asFloat64 [item_get item ''cost_usd'', item_get item ''cost'']\<rparr>)"

definition parseOpenAIUsage :: "cost_env \<Rightarrow> string \<Rightarrow> usageRow list go_result" where
  "parseOpenAIUsage env body =
     (case ce_object env body of
        Inl err \<Rightarrow> Inl (Wrapf ''decode openai response: '' err)
      | Inr raw \<Rightarrow>
          (case fmlookup raw ''data'' of
             None \<Rightarrow> Inr []
           | Some data \<Rightarrow>
               (case ce_items env data of
                  Inl err \<Rightarrow> Inl (Wrapf ''decode openai data: '' err)
                | Inr items \<Rightarrow> Inr (map (openai_item env) items))))"

definition parseProviderUsage :: "cost_env \<Rightarrow> string \<Rightarrow> string \<Rightarrow> usageRow list go_result" where
  "parseProviderUsage env provider body =
     (if provider = providerAnthropic then parseAnthropicUsage env body
      else if provider = providerOpenAI then parseOpenAIUsage env body
      else Inl (Errorf (''unsupported provider '' @ quoted provider)))"

section \<open>Requests\<close>

text \<open>\<open>url.QueryEscape\<close>.\<close>

definition hex_digit :: "nat \<Rightarrow> char" where
  "hex_digit n = (if n < 10 then char_of (48 + n) else char_of (55 + n))"

definition query_escape_char :: "char \<Rightarrow> string" where
  "query_escape_char c =
     (let n = of_char c :: nat
      in if 65 \<le> n \<and> n \<le> 90 \<or> 97 \<le> n \<and> n \<le> 122 \<or> 48 \<le> n \<and> n \<le> 57 \<or> c \<in> set ''-_.~'' then [c]
         else if c = CHR '' '' then ''+''
         else [CHR 0x25, hex_digit (n div 16), hex_digit (n mod 16)])"

definition query_escape :: "string \<Rightarrow> string" where
  "query_escape s = concat (map query_escape_char s)"

text \<open>\<open>url.Values\<close> with its keys in order, and \<open>Encode\<close>.\<close>

type_synonym url_values = "(string \<times> string list) list"

definition values_Encode :: "url_values \<Rightarrow> string" where
  "values_Encode vs = str_join ''&'' (concat (map (\<lambda>(k, xs). map (\<lambda>x. query_escape k @ ''='' @ query_escape x) xs)
     (sort_key fst vs)))"

definition providerRequest :: "go_time \<Rightarrow> string \<Rightarrow> CostProviderConfig \<Rightarrow> string \<times> url_values" where
  "providerRequest now provider cfg =
     (let start = start_of_day now; end = start + day
      in if BaseURL cfg \<noteq> [] then (BaseURL cfg, [])
         else if provider = providerAnthropic then
           (''https://api.anthropic.com/v1/organizations/usage_report/messages'',
            [(''starting_at'', [rfc3339_text start]), (''ending_at'', [rfc3339_text end]), (''bucket_width'', [''1d'']),
             (''group_by[]'', [''model''])])
         else if provider = providerOpenAI then
           (''https://api.openai.com/v1/organization/usage/completions'',
            [(''start_date'', [date_text start]), (''end_date'', [date_text end]), (''bucket_width'', [''1d'']),
             (''group_by[]'', [''model'', ''project_id''])])
         else ([], []))"

record http_request =
  hr_url :: string
  hr_headers :: "(string \<times> string) list"

text \<open>The possible ends of a request: it can not be built, it fails, its body can not be read, or it is answered.\<close>

datatype http_outcome = RequestInvalid go_error | RequestFailed go_error | BodyUnreadable go_error | Response int string

definition usage_request :: "go_time \<Rightarrow> string \<Rightarrow> CostProviderConfig \<Rightarrow> http_request option" where
  "usage_request now provider cfg =
     (case providerRequest now provider cfg of
        (endpoint, query) \<Rightarrow>
          if endpoint = [] then None
          else Some \<lparr>hr_url = (if query = [] then endpoint
                  else if str_contains endpoint ''?'' then endpoint @ ''&'' @ values_Encode query
                  else endpoint @ ''?'' @ values_Encode query),
                hr_headers =
                  (if provider = providerAnthropic
                   then [(''x-api-key'', EffectiveAPIKey cfg), (''anthropic-version'', ''2023-06-01'')]
                   else if provider = providerOpenAI then [(''Authorization'', ''Bearer '' @ EffectiveAPIKey cfg)]
                   else [])\<rparr>)"

text \<open>The rows, or an error and whether to try again.\<close>

definition fetchProviderUsage :: "cost_env \<Rightarrow> (http_request \<Rightarrow> http_outcome) \<Rightarrow> go_time \<Rightarrow> string \<Rightarrow> CostProviderConfig
    \<Rightarrow> (bool \<times> go_error) + usageRow list" where
  "fetchProviderUsage env web now provider cfg =
     (case usage_request now provider cfg of
        None \<Rightarrow> Inl (False, Errorf ''provider endpoint is empty'')
      | Some req \<Rightarrow>
          (case web req of
             RequestInvalid err \<Rightarrow> Inl (False, Wrapf ''build request: '' err)
           | RequestFailed err \<Rightarrow> Inl (True, Wrapf ''request failed: '' err)
           | BodyUnreadable err \<Rightarrow> Inl (True, Wrapf ''read response: '' err)
           | Response status body \<Rightarrow>
               if status = 429 \<or> status \<ge> 500 then Inl (True, Errorf (''provider returned status '' @ int_text status))
               else if status < 200 \<or> status \<ge> 300
               then Inl (False, Errorf (''provider returned status '' @ int_text status))
               else (case parseProviderUsage env provider body of
                       Inl err \<Rightarrow> Inl (False, err)
                     | Inr rows \<Rightarrow> Inr rows)))"

definition retry_backoff :: "cost_env \<Rightarrow> int \<Rightarrow> nat \<Rightarrow> duration" where
  "retry_backoff env base attempt =
     wrap64 (int64_of_float (ce_float env) (of_int base * 2 ^ attempt) * millisecond)"

text \<open>
  The loop from a given attempt on. The \<open>n\<close>-th attempt meets the web in state \<open>web n\<close> at the instant \<open>clk n\<close>,
  and finds the context cancelled after it if \<open>ctx n\<close> is an error. The second result is the list of
  pauses made.
\<close>

function fetch_attempts :: "cost_env \<Rightarrow> (nat \<Rightarrow> http_request \<Rightarrow> http_outcome) \<Rightarrow> (nat \<Rightarrow> go_time) \<Rightarrow> (nat \<Rightarrow> go_error option)
    \<Rightarrow> CostConfig \<Rightarrow> string \<Rightarrow> CostProviderConfig \<Rightarrow> nat \<Rightarrow> usageRow list go_result \<times> duration list" where
  "fetch_attempts env web clk ctx cfg provider pcfg attempt =
     (case fetchProviderUsage env (web attempt) (clk attempt) provider pcfg of
        Inr rows \<Rightarrow> (Inr rows, [])
      | Inl (retryable, err) \<Rightarrow>
          if \<not> retryable \<or> int attempt \<ge> cost_MaxRetries cfg then (Inl err, [])
          else case ctx attempt of
              Some cancelled \<Rightarrow> (Inl cancelled, [])
            | None \<Rightarrow>
                (case fetch_attempts env web clk ctx cfg provider pcfg (Suc attempt) of
                   (res, pauses) \<Rightarrow> (res, retry_backoff env (BackoffBaseMS cfg) attempt # pauses)))"
  by pat_completeness auto
termination
  by (relation "measure (\<lambda>(_, _, _, _, cfg, _, _, attempt). nat (cost_MaxRetries cfg + 1 - int attempt))") auto

definition fetchProviderWithRetry :: "cost_env \<Rightarrow> (nat \<Rightarrow> http_request \<Rightarrow> http_outcome) \<Rightarrow> (nat \<Rightarrow> go_time) \<Rightarrow> (nat \<Rightarrow> go_error option)
    \<Rightarrow> CostAggregator \<Rightarrow> string \<Rightarrow> CostProviderConfig \<Rightarrow> usageRow list go_result \<times> duration list" where
  "fetchProviderWithRetry env web clk ctx c provider pcfg = fetch_attempts env web clk ctx (ca_cfg c) provider pcfg 0"

section \<open>Storing\<close>

definition bucket_id :: "string \<Rightarrow> string \<Rightarrow> string \<Rightarrow> string" where
  "bucket_id provider model date = provider @ ''|'' @ model @ ''|'' @ date"

definition zero_usage :: usageRow where
  "zero_usage = \<lparr>ur_Provider = [], ur_Model = [], ur_Project = [], ur_Date = [], ur_Tokens = 0, ur_CostUSD = 0\<rparr>"

text \<open>One iteration of the loop that sums up the rows, with the reading of the clock at that moment.\<close>

definition dated :: "go_time \<Rightarrow> usageRow \<Rightarrow> usageRow" where
  "dated now row =
     row\<lparr>ur_Date := (if ur_Date row = [] then date_text now else ur_Date row),
         ur_Model := (if ur_Model row = [] then ''unknown'' else ur_Model row)\<rparr>"

definition combine_row :: "go_time \<times> usageRow \<Rightarrow> (string, usageRow) fmap \<Rightarrow> (string, usageRow) fmap" where
  "combine_row now_row combined =
     (let row = case_prod dated now_row;
          key = bucket_id (ur_Provider row) (ur_Model row) (ur_Date row);
          current = map_get combined key zero_usage
      in fmupd key (current\<lparr>ur_Provider := ur_Provider row, ur_Model := ur_Model row, ur_Date := ur_Date row,
           ur_Tokens := wrap64 (ur_Tokens current + ur_Tokens row), ur_CostUSD := ur_CostUSD current + ur_CostUSD row\<rparr>) combined)"

definition combine_rows :: "(go_time \<times> usageRow) list \<Rightarrow> (string, usageRow) fmap" where
  "combine_rows rows = fold combine_row rows fmempty"

definition clocked :: "(nat \<Rightarrow> go_time) \<Rightarrow> usageRow list \<Rightarrow> (go_time \<times> usageRow) list" where
  "clocked clk rows = zip (map clk [0..<length rows]) rows"

definition cost_row_of :: "usageRow \<Rightarrow> cost_row" where
  "cost_row_of row = \<lparr>cr_provider = ur_Provider row, cr_model = ur_Model row, cr_date = ur_Date row,
     cr_tokens = ur_Tokens row, cr_cost_usd = ur_CostUSD row\<rparr>"

text \<open>The statements of the transaction, in the visiting order of the sums.\<close>

fun upsert_buckets :: "(string \<Rightarrow> exec_outcome) \<Rightarrow> usageRow list \<Rightarrow> cost_table \<Rightarrow> cost_table go_result" where
  "upsert_buckets out [] table = Inr table"
| "upsert_buckets out (row # rows) table =
     (let i = bucket_id (ur_Provider row) (ur_Model row) (ur_Date row)
      in case out i of
           Some err \<Rightarrow> Inl (Wrapf (''upsert cost row '' @ i @ '': '') err)
         | None \<Rightarrow> upsert_buckets out rows (fmupd i (cost_row_of row) table))"

record tx_outcomes =
  tx_begin :: exec_outcome
  tx_prepare :: exec_outcome
  tx_upsert :: "string \<Rightarrow> exec_outcome"
  tx_commit :: exec_outcome

definition persistDailyBuckets :: "tx_outcomes \<Rightarrow> (nat \<Rightarrow> go_time) \<Rightarrow> ((string, usageRow) fmap \<Rightarrow> string list) \<Rightarrow> CostAggregator
    \<Rightarrow> usageRow list \<Rightarrow> go_error option \<times> CostAggregator" where
  "persistDailyBuckets tx clk ord c rows =
     (case ca_db c of
        None \<Rightarrow> (None, c)
      | Some table \<Rightarrow>
          if rows = [] then (None, c)
          else let combined = combine_rows (clocked clk rows)
          in case tx_begin tx of
               Some err \<Rightarrow> (Some (Wrapf ''begin costs transaction: '' err), c)
             | None \<Rightarrow>
                 (case tx_prepare tx of
                    Some err \<Rightarrow> (Some (Wrapf ''prepare cost upsert: '' err), c)
                  | None \<Rightarrow>
                      (case upsert_buckets (tx_upsert tx) (map_values combined (ord combined)) table of
                         Inl err \<Rightarrow> (Some err, c)
                       | Inr table' \<Rightarrow>
                           (case tx_commit tx of
                              Some err \<Rightarrow> (Some (Wrapf ''commit costs transaction: '' err), c)
                            | None \<Rightarrow> (None, c\<lparr>ca_db := Some table'\<rparr>)))))"

section \<open>Estimates for sessions\<close>

definition providerForModel :: "CostAggregator \<Rightarrow> string \<Rightarrow> string option" where
  "providerForModel c model =
     (if model = [] then None
      else if fmlookup (ModelRates (Anthropic (ca_cfg c))) model \<noteq> None then Some providerAnthropic
      else if fmlookup (ModelRates (OpenAI (ca_cfg c))) model \<noteq> None then Some providerOpenAI
      else None)"

definition zero_rate :: ModelRate where "zero_rate = \<lparr>rate_Input = 0, rate_Output = 0\<rparr>"

definition modelRate :: "CostAggregator \<Rightarrow> string \<Rightarrow> string \<Rightarrow> ModelRate" where
  "modelRate c provider model =
     (if provider = providerAnthropic then map_get (ModelRates (Anthropic (ca_cfg c))) model zero_rate
      else if provider = providerOpenAI then map_get (ModelRates (OpenAI (ca_cfg c))) model zero_rate
      else zero_rate)"

definition rate_per_k :: "ModelRate \<Rightarrow> rat" where
  "rate_per_k rate =
     (if rate_Output rate > 0
      then if rate_Input rate > 0 then (rate_Input rate + rate_Output rate) / 2 else rate_Output rate
      else rate_Input rate)"

text \<open>What the loop body decides for a session: no update, or its new cost.\<close>

definition session_estimate :: "CostAggregator \<Rightarrow> string \<Rightarrow> TrackedSession \<Rightarrow> rat option" where
  "session_estimate c provider s =
     (if providerForModel c (ts_Model s) \<noteq> Some provider then None
      else let rate = modelRate c provider (ts_Model s)
        in if rate_Input rate = 0 \<and> rate_Output rate = 0 then None
           else let estimate = of_int (tu_Total (ts_TokenUsage s)) / 1000 * rate_per_k rate
             in if estimate \<le> 0 then None else Some estimate)"

text \<open>\<open>outs\<close> gives the outcomes of the two statements of each update.\<close>

fun apply_estimates :: "time_codec \<Rightarrow> (string \<Rightarrow> exec_outcome \<times> exec_outcome) \<Rightarrow> CostAggregator \<Rightarrow> string \<Rightarrow> TrackedSession list
    \<Rightarrow> SessionTracker \<Rightarrow> SessionTracker" where
  "apply_estimates tc outs c provider [] t = t"
| "apply_estimates tc outs c provider (s # ss) t =
     apply_estimates tc outs c provider ss
       (case session_estimate c provider s of
          None \<Rightarrow> t
        | Some estimate \<Rightarrow>
            snd (UpdateSession tc (fst (outs (ts_SessionID s))) (snd (outs (ts_SessionID s))) t (ts_SessionID s)
              [(''session_cost'', VFloat64 estimate)]))"

definition applySessionEstimateFallback :: "time_codec \<Rightarrow> (string \<Rightarrow> exec_outcome \<times> exec_outcome) \<Rightarrow> string list \<Rightarrow> string
    \<Rightarrow> CostAggregator \<Rightarrow> CostAggregator" where
  "applySessionEstimateFallback tc outs ks provider c =
     (case ca_tracker c of
        None \<Rightarrow> c
      | Some t \<Rightarrow> c\<lparr>ca_tracker := Some (apply_estimates tc outs c provider (GetAllSessions t ks) t)\<rparr>)"

section \<open>Polling\<close>

definition setDegraded :: "string \<Rightarrow> string \<Rightarrow> CostAggregator \<Rightarrow> CostAggregator" where
  "setDegraded provider reason c = c\<lparr>ca_degraded := fmupd provider reason (ca_degraded c)\<rparr>"

definition clearDegraded :: "string \<Rightarrow> CostAggregator \<Rightarrow> CostAggregator" where
  "clearDegraded provider c = c\<lparr>ca_degraded := fmdrop provider (ca_degraded c)\<rparr>"

text \<open>\<open>ks\<close> is the visiting order of the map.\<close>

definition DegradedProviders :: "CostAggregator \<Rightarrow> string list \<Rightarrow> string list" where
  "DegradedProviders c ks = filter (\<lambda>k. k |\<in>| fmdom (ca_degraded c)) ks"

text \<open>What one poll of a provider meets: web, clock and context of the attempts, outcomes of the
  statements, and the visiting orders of the two maps.\<close>

record poll_world =
  po_web :: "nat \<Rightarrow> http_request \<Rightarrow> http_outcome"
  po_clock :: "nat \<Rightarrow> go_time"
  po_ctx :: "nat \<Rightarrow> go_error option"
  po_row_clock :: "nat \<Rightarrow> go_time"
  po_tx :: tx_outcomes
  po_order :: "(string, usageRow) fmap \<Rightarrow> string list"
  po_update :: "string \<Rightarrow> exec_outcome \<times> exec_outcome"
  po_sessions :: "string list"

definition pollProvider :: "cost_env \<Rightarrow> time_codec \<Rightarrow> poll_world \<Rightarrow> string \<Rightarrow> CostProviderConfig \<Rightarrow> CostAggregator
    \<Rightarrow> CostAggregator" where
  "pollProvider env tc w provider pcfg c =
     (case fst (fetchProviderWithRetry env (po_web w) (po_clock w) (po_ctx w) c provider pcfg) of
        Inl err \<Rightarrow> applySessionEstimateFallback tc (po_update w) (po_sessions w) provider
          (setDegraded provider (error_text err) c)
      | Inr rows \<Rightarrow> snd (persistDailyBuckets (po_tx w) (po_row_clock w) (po_order w) (clearDegraded provider c) rows))"

text \<open>\<open>ord\<close> lists the two providers in the order in which their goroutines get their turn.\<close>

definition provider_config :: "CostAggregator \<Rightarrow> string \<Rightarrow> CostProviderConfig" where
  "provider_config c provider = (if provider = providerAnthropic then Anthropic (ca_cfg c) else OpenAI (ca_cfg c))"

definition pollCycle :: "cost_env \<Rightarrow> time_codec \<Rightarrow> (string \<Rightarrow> poll_world) \<Rightarrow> string list \<Rightarrow> CostAggregator \<Rightarrow> CostAggregator" where
  "pollCycle env tc w ord c =
     fold (\<lambda>provider c'. if IsEnabled (provider_config c' provider)
       then pollProvider env tc (w provider) provider (provider_config c' provider) c' else c') ord c"

definition PollOnce :: "cost_env \<Rightarrow> time_codec \<Rightarrow> (string \<Rightarrow> poll_world) \<Rightarrow> string list \<Rightarrow> CostAggregator \<Rightarrow> CostAggregator" where
  "PollOnce env tc w ord c = pollCycle env tc w ord c"

text \<open>\<open>Start\<close> (whether a goroutine is started) and \<open>Stop\<close>; the goroutine polls once at its start and once per tick.\<close>

definition StartCost :: "CostAggregator \<Rightarrow> bool \<times> CostAggregator" where
  "StartCost c = (if ca_running c then (False, c) else (True, c\<lparr>ca_running := True\<rparr>))"

definition StopCost :: "CostAggregator \<Rightarrow> CostAggregator" where
  "StopCost c = (if \<not> ca_running c then c else c\<lparr>ca_running := False\<rparr>)"

definition run_cost :: "cost_env \<Rightarrow> time_codec \<Rightarrow> ((string \<Rightarrow> poll_world) \<times> string list) list \<Rightarrow> CostAggregator \<Rightarrow> CostAggregator" where
  "run_cost env tc rounds c = fold (\<lambda>(w, ord). pollCycle env tc w ord) rounds c"

section \<open>Reports\<close>

definition periodStart :: "go_time \<Rightarrow> string \<Rightarrow> go_time \<times> string" where
  "periodStart now period =
     (let startOfDay = start_of_day now
      in if to_lower period = ''week'' then (add_days (-6) startOfDay, ''week'')
         else if to_lower period = ''month'' then (add_days (-29) startOfDay, ''month'')
         else (startOfDay, ''today''))"

text \<open>\<open>SELECT k, SUM(tokens), SUM(cost_usd) FROM costs WHERE date >= start GROUP BY k ORDER BY k\<close>; \<open>out\<close> is the
  outcome of the query, \<open>iout\<close> that of stepping through its rows.\<close>

definition table_rows :: "cost_table \<Rightarrow> cost_row list" where
  "table_rows table = map_values table (sorted_list_of_fset (fmdom table))"

definition sum_group :: "(cost_row \<Rightarrow> 'k) \<Rightarrow> ('k \<Rightarrow> string) \<Rightarrow> ('k \<Rightarrow> string) \<Rightarrow> cost_row list \<Rightarrow> 'k \<Rightarrow> CostBreakdown" where
  "sum_group key provider model rows k =
     (let group = filter (\<lambda>r. key r = k) rows
      in \<lparr>cb_Provider = provider k, cb_Model = model k,
          cb_Tokens = sum_list (map cr_tokens group), cb_CostUSD = sum_list (map cr_cost_usd group)\<rparr>)"

definition rows_since :: "cost_table \<Rightarrow> go_time \<Rightarrow> cost_row list" where
  "rows_since table start = filter (\<lambda>r. cr_date r \<ge> date_text start) (table_rows table)"

definition queryProviderTotals :: "exec_outcome \<Rightarrow> exec_outcome \<Rightarrow> cost_table \<Rightarrow> go_time \<Rightarrow> CostBreakdown list go_result" where
  "queryProviderTotals out iout table start =
     (case out of
        Some err \<Rightarrow> Inl (Wrapf ''query provider totals: '' err)
      | None \<Rightarrow>
          let rows = rows_since table start
          in require iout (Inr (map (sum_group cr_provider id (\<lambda>_. []) rows) (sort (remdups (map cr_provider rows))))))"

definition provider_model :: "cost_row \<Rightarrow> string \<times> string" where
  "provider_model r = (cr_provider r, cr_model r)"

definition queryModelTotals :: "exec_outcome \<Rightarrow> exec_outcome \<Rightarrow> cost_table \<Rightarrow> go_time \<Rightarrow> CostBreakdown list go_result" where
  "queryModelTotals out iout table start =
     (case out of
        Some err \<Rightarrow> Inl (Wrapf ''query model totals: '' err)
      | None \<Rightarrow>
          let rows = rows_since table start
          in require iout (Inr (map (sum_group provider_model fst snd rows) (sort (remdups (map provider_model rows))))))"

definition add_project :: "TrackedSession \<Rightarrow> (string, ProjectCost) fmap \<Rightarrow> (string, ProjectCost) fmap" where
  "add_project s totals =
     (let item = map_get totals (ts_Project s) \<lparr>pc_Project = [], pc_Tokens = 0, pc_CostUSD = 0\<rparr>
      in fmupd (ts_Project s) \<lparr>pc_Project = ts_Project s, pc_Tokens = wrap64 (pc_Tokens item + tu_Total (ts_TokenUsage s)),
           pc_CostUSD = pc_CostUSD item + ts_SessionCost s\<rparr> totals)"

text \<open>\<open>ks\<close> is the visiting order of the sessions, \<open>ord\<close> that of the sums.\<close>

definition projectTotals :: "SessionTracker \<Rightarrow> string list \<Rightarrow> ((string, ProjectCost) fmap \<Rightarrow> string list) \<Rightarrow> go_time
    \<Rightarrow> ProjectCost list" where
  "projectTotals t ks ord start =
     (let totals = fold add_project (filter (\<lambda>s. \<not> ts_StartedAt s < start) (GetAllSessions t ks)) fmempty
      in map_values totals (ord totals))"

record report_world =
  rw_provider_out :: "exec_outcome \<times> exec_outcome"
  rw_model_out :: "exec_outcome \<times> exec_outcome"
  rw_sessions :: "string list"
  rw_projects :: "(string, ProjectCost) fmap \<Rightarrow> string list"
  rw_degraded :: "string list"

definition Report :: "report_world \<Rightarrow> go_time \<Rightarrow> CostAggregator \<Rightarrow> string \<Rightarrow> CostReport go_result" where
  "Report w now c period =
     (case periodStart now period of
        (start, normalized) \<Rightarrow>
          let projects = (case ca_tracker c of None \<Rightarrow> [] | Some t \<Rightarrow> projectTotals t (rw_sessions w) (rw_projects w) start);
              base = \<lparr>rep_Period = normalized, rep_TotalTokens = 0, rep_TotalCostUSD = 0, rep_ByProvider = [], rep_ByModel = [],
                 rep_ByProject = projects, rep_DegradedProviders = DegradedProviders c (rw_degraded w)\<rparr>
          in case ca_db c of
               None \<Rightarrow> Inr base
             | Some table \<Rightarrow>
                 (case queryProviderTotals (fst (rw_provider_out w)) (snd (rw_provider_out w)) table start of
                    Inl err \<Rightarrow> Inl err
                  | Inr providerRows \<Rightarrow>
                      (case queryModelTotals (fst (rw_model_out w)) (snd (rw_model_out w)) table start of
                         Inl err \<Rightarrow> Inl err
                       | Inr modelRows \<Rightarrow>
                           Inr (base\<lparr>rep_ByProvider := providerRows, rep_ByModel := modelRows,
                             rep_TotalTokens := foldl (\<lambda>n row. wrap64 (n + cb_Tokens row)) 0 modelRows,
                             rep_TotalCostUSD := foldl (\<lambda>x row. x + cb_CostUSD row) 0 modelRows\<rparr>))))"

section \<open>Retries\<close>

declare fetch_attempts.simps [simp del]

text \<open>Whether attempt \<open>k\<close> leads to another one, and the result when attempt \<open>n\<close> is the last.\<close>

definition tried_again :: "cost_env \<Rightarrow> (nat \<Rightarrow> http_request \<Rightarrow> http_outcome) \<Rightarrow> (nat \<Rightarrow> go_time) \<Rightarrow> (nat \<Rightarrow> go_error option)
    \<Rightarrow> string \<Rightarrow> CostProviderConfig \<Rightarrow> nat \<Rightarrow> bool" where
  "tried_again env web clk ctx provider pcfg k \<longleftrightarrow>
     (\<exists>err. fetchProviderUsage env (web k) (clk k) provider pcfg = Inl (True, err)) \<and> ctx k = None"

definition result_after :: "cost_env \<Rightarrow> (nat \<Rightarrow> http_request \<Rightarrow> http_outcome) \<Rightarrow> (nat \<Rightarrow> go_time) \<Rightarrow> (nat \<Rightarrow> go_error option)
    \<Rightarrow> CostConfig \<Rightarrow> string \<Rightarrow> CostProviderConfig \<Rightarrow> nat \<Rightarrow> usageRow list go_result" where
  "result_after env web clk ctx cfg provider pcfg n =
     (case fetchProviderUsage env (web n) (clk n) provider pcfg of
        Inr rows \<Rightarrow> Inr rows
      | Inl (retryable, err) \<Rightarrow>
          Inl (case ctx n of Some cancelled \<Rightarrow> if retryable \<and> int n < cost_MaxRetries cfg then cancelled else err | None \<Rightarrow> err))"

lemma fetch_attempts_last:
  assumes "\<not> tried_again env web clk ctx provider pcfg a \<or> int a = cost_MaxRetries cfg" and "int a \<le> cost_MaxRetries cfg"
  shows "fetch_attempts env web clk ctx cfg provider pcfg a = (result_after env web clk ctx cfg provider pcfg a, [])"
proof (cases "fetchProviderUsage env (web a) (clk a) provider pcfg")
  case (Inl e)
  obtain retryable err where e: "e = (retryable, err)" by (cases e)
  show ?thesis
  proof (cases "\<not> retryable \<or> int a \<ge> cost_MaxRetries cfg")
    case True
    then show ?thesis by (subst fetch_attempts.simps) (auto simp: result_after_def Inl e split: option.split)
  next
    case False
    then obtain x where "ctx a = Some x" using assms(1) by (auto simp: tried_again_def Inl e)
    then show ?thesis using False by (subst fetch_attempts.simps) (simp add: result_after_def Inl e)
  qed
qed (subst fetch_attempts.simps, simp add: result_after_def)

lemma fetch_attempts_next:
  assumes "tried_again env web clk ctx provider pcfg a" and "int a < cost_MaxRetries cfg"
    and "fetch_attempts env web clk ctx cfg provider pcfg (Suc a) = (res, pauses)"
  shows "fetch_attempts env web clk ctx cfg provider pcfg a = (res, retry_backoff env (BackoffBaseMS cfg) a # pauses)"
  using assms by (subst fetch_attempts.simps) (auto simp: tried_again_def)

text \<open>The attempts are made from \<open>a\<close> on until one is not worth repeating or the last one allowed is made.\<close>

lemma fetch_attempts_run:
  assumes "a + k = n" and "int n \<le> cost_MaxRetries cfg" and "\<forall>i. a \<le> i \<and> i < n \<longrightarrow> tried_again env web clk ctx provider pcfg i"
    and "\<not> tried_again env web clk ctx provider pcfg n \<or> int n = cost_MaxRetries cfg"
  shows "fetch_attempts env web clk ctx cfg provider pcfg a =
    (result_after env web clk ctx cfg provider pcfg n, map (retry_backoff env (BackoffBaseMS cfg)) [a..<n])"
  using assms(1,3)
proof (induction k arbitrary: a)
  case 0
  then show ?case using fetch_attempts_last [of env web clk ctx provider pcfg n cfg] assms(2,4) by simp
next
  case (Suc k)
  have "fetch_attempts env web clk ctx cfg provider pcfg (Suc a) =
      (result_after env web clk ctx cfg provider pcfg n, map (retry_backoff env (BackoffBaseMS cfg)) [Suc a..<n])"
    by (rule Suc.IH) (use Suc.prems in auto)
  from fetch_attempts_next [OF _ _ this] show ?case using Suc.prems assms(2) by (auto simp: upt_conv_Cons)
qed

text \<open>
  C28. Polling a provider ends after at most \<open>MaxRetries + 1\<close> attempts: there is a last attempt \<open>n\<close> up to which every
  attempt failed in a way worth repeating, it decides the result, and the pauses between the
  attempts are the \<open>n\<close> first steps of the exponential backoff.
\<close>
theorem provider_retries_bounded:
  assumes "c = NewCostAggregator cfg db tracker" and "fetchProviderWithRetry env web clk ctx c provider pcfg = (res, pauses)"
  shows "\<exists>n. int n \<le> cost_MaxRetries (ca_cfg c) \<and> (\<forall>i < n. tried_again env web clk ctx provider pcfg i) \<and>
    (\<not> tried_again env web clk ctx provider pcfg n \<or> int n = cost_MaxRetries (ca_cfg c)) \<and>
    res = result_after env web clk ctx (ca_cfg c) provider pcfg n \<and>
    pauses = map (retry_backoff env (BackoffBaseMS (ca_cfg c))) [0..<n]"
proof -
  let ?P = "\<lambda>n. \<not> tried_again env web clk ctx provider pcfg n \<or> int n = cost_MaxRetries (ca_cfg c)"
  define n where "n = (LEAST n. ?P n)"
  have "0 \<le> cost_MaxRetries (ca_cfg c)" by (simp add: assms(1) NewCostAggregator_def positive_or_def)
  have P: "?P (nat (cost_MaxRetries (ca_cfg c)))" using \<open>0 \<le> cost_MaxRetries (ca_cfg c)\<close> by simp
  have n: "?P n" "n \<le> nat (cost_MaxRetries (ca_cfg c))" unfolding n_def by (rule LeastI [of ?P, OF P], rule Least_le [of ?P, OF P])
  have less: "\<forall>i < n. tried_again env web clk ctx provider pcfg i"
  proof (intro allI impI)
    fix i assume "i < n"
    then have "\<not> ?P i" unfolding n_def by (rule not_less_Least)
    then show "tried_again env web clk ctx provider pcfg i" by simp
  qed
  have le: "int n \<le> cost_MaxRetries (ca_cfg c)" using n(2) \<open>0 \<le> cost_MaxRetries (ca_cfg c)\<close> by (simp add: le_nat_iff)
  have "fetchProviderWithRetry env web clk ctx c provider pcfg =
      (result_after env web clk ctx (ca_cfg c) provider pcfg n, map (retry_backoff env (BackoffBaseMS (ca_cfg c))) [0..<n])"
    unfolding fetchProviderWithRetry_def by (rule fetch_attempts_run [of 0 n]) (use le less n(1) in auto)
  then show ?thesis using assms(2) le less n(1) by auto
qed

text \<open>A provider that is overloaded twice and then answers.\<close>

definition demo_cost_env :: cost_env where
  "demo_cost_env = \<lparr>ce_object = (\<lambda>_. Inr fmempty), ce_usage = (\<lambda>_. Inr []), ce_items = (\<lambda>_. Inr []),
     ce_rfc3339 = (\<lambda>_. None), ce_float = (\<lambda>_. min_int64)\<rparr>"

definition demo_cost_config :: CostConfig where
  "demo_cost_config = \<lparr>PollIntervalMinutes = 0, Anthropic = demo_provider, OpenAI = demo_provider, RequestTimeoutSec = 0,
     cost_MaxRetries = 0, BackoffBaseMS = 0\<rparr>"

definition demo_web :: "nat \<Rightarrow> http_request \<Rightarrow> http_outcome" where
  "demo_web k req = (if k < 2 then Response 503 [] else Response 200 [])"

lemma provider_retries_bounded_witness:
  "\<exists>n. snd (fetchProviderWithRetry demo_cost_env demo_web (\<lambda>_. 0) (\<lambda>_. None) (NewCostAggregator demo_cost_config None None)
     providerOpenAI (demo_provider\<lparr>BaseURL := ''http://h''\<rparr>)) = map (retry_backoff demo_cost_env 500) [0..<n]"
  using provider_retries_bounded [OF refl prod.collapse [symmetric], of demo_cost_config None None demo_cost_env demo_web "\<lambda>_. 0"
      "\<lambda>_. None" providerOpenAI "demo_provider\<lparr>BaseURL := ''http://h''\<rparr>"]
  by (auto simp: NewCostAggregator_def demo_cost_config_def positive_or_def)

section \<open>Buckets\<close>

definition bucket_of :: "usageRow \<Rightarrow> string" where
  "bucket_of row = bucket_id (ur_Provider row) (ur_Model row) (ur_Date row)"

definition in_bucket :: "string \<Rightarrow> (go_time \<times> usageRow) list \<Rightarrow> usageRow list" where
  "in_bucket k rows = filter (\<lambda>row. bucket_of row = k) (map (case_prod dated) rows)"

definition wrapped_sum :: "int list \<Rightarrow> int" where
  "wrapped_sum xs = wrap64 (sum_list xs)"

lemma wrap64_add: "wrap64 (wrap64 a + b) = wrap64 (a + b)"
proof -
  have "wrap64 a + b + 2 ^ 63 = (a + 2 ^ 63) mod 2 ^ 64 + b" by (simp add: wrap64_def)
  then have "(wrap64 a + b + 2 ^ 63) mod 2 ^ 64 = (a + 2 ^ 63 + b) mod 2 ^ 64" by (simp only: mod_add_left_eq)
  then show ?thesis unfolding wrap64_def [of "wrap64 a + b"] by (simp add: wrap64_def [of "a + b"] ac_simps)
qed

text \<open>A bucket holds the sums over its rows.\<close>

definition bucket_sums :: "usageRow list \<Rightarrow> usageRow option \<Rightarrow> bool" where
  "bucket_sums rows b \<longleftrightarrow> (case b of
      None \<Rightarrow> rows = []
    | Some row \<Rightarrow> rows \<noteq> [] \<and> ur_Provider row = ur_Provider (last rows) \<and> ur_Model row = ur_Model (last rows) \<and>
        ur_Date row = ur_Date (last rows) \<and> ur_Tokens row = wrapped_sum (map ur_Tokens rows) \<and>
        ur_CostUSD row = sum_list (map ur_CostUSD rows))"

lemma combine_row_sums:
  assumes "bucket_sums (in_bucket k rows) (fmlookup m k)"
  shows "bucket_sums (in_bucket k (rows @ [x])) (fmlookup (combine_row x m) k)"
proof (cases "bucket_of (case_prod dated x) = k")
  case True
  have [simp]: "wrap64 0 = 0" by (simp add: wrap64_def)
  have "in_bucket k (rows @ [x]) = in_bucket k rows @ [case_prod dated x]" using True by (simp add: in_bucket_def)
  then show ?thesis using assms True
    by (cases "fmlookup m k") (auto simp: bucket_sums_def combine_row_def bucket_of_def Let_def map_get_def zero_usage_def wrapped_sum_def wrap64_add)
next
  case False
  then have "in_bucket k (rows @ [x]) = in_bucket k rows" by (simp add: in_bucket_def)
  moreover have "fmlookup (combine_row x m) k = fmlookup m k" using False by (simp add: combine_row_def bucket_of_def Let_def)
  ultimately show ?thesis using assms by simp
qed

lemma combine_rows_sums: "bucket_sums (in_bucket k rows) (fmlookup (combine_rows rows) k)"
proof (induction rows rule: rev_induct)
  case Nil
  then show ?case by (simp add: combine_rows_def bucket_sums_def in_bucket_def)
next
  case (snoc x rows)
  then show ?case using combine_row_sums [of k rows "combine_rows rows" x] by (simp add: combine_rows_def)
qed

lemma combine_rows_key:
  assumes "fmlookup (combine_rows rows) k = Some row"
  shows "bucket_of row = k"
proof -
  have s: "in_bucket k rows \<noteq> []" "bucket_of row = bucket_of (last (in_bucket k rows))"
    using combine_rows_sums [of k rows] assms by (auto simp: bucket_sums_def bucket_of_def)
  then have "last (in_bucket k rows) \<in> set (in_bucket k rows)" by simp
  then show ?thesis using s(2) by (auto simp: in_bucket_def)
qed

lemma upsert_buckets_lookup:
  assumes "upsert_buckets out rows table = Inr table'" and "distinct (map bucket_of rows)"
  shows "fmlookup table' k = (case find (\<lambda>row. bucket_of row = k) rows of Some row \<Rightarrow> Some (cost_row_of row) | None \<Rightarrow> fmlookup table k)"
  using assms
proof (induction rows arbitrary: table)
  case (Cons row rows)
  have up: "upsert_buckets out rows (fmupd (bucket_of row) (cost_row_of row) table) = Inr table'"
    using Cons.prems(1) by (simp add: Let_def bucket_of_def split: option.splits)
  have IH: "fmlookup table' k = (case find (\<lambda>row. bucket_of row = k) rows of Some row \<Rightarrow> Some (cost_row_of row)
      | None \<Rightarrow> fmlookup (fmupd (bucket_of row) (cost_row_of row) table) k)"
    by (rule Cons.IH [OF up]) (use Cons.prems(2) in simp)
  show ?case
  proof (cases "bucket_of row = k")
    case True
    then have "find (\<lambda>row. bucket_of row = k) rows = None" using Cons.prems(2) by (auto simp: find_None_iff) (metis imageI)
    then show ?thesis using IH True by simp
  qed (use IH in \<open>simp split: option.splits\<close>)
qed simp

lemma map_values_lookup:
  assumes "iteration_order m ks" and "\<And>k v. fmlookup m k = Some v \<Longrightarrow> key v = k"
  shows "map key (map_values m ks) = ks" and "find (\<lambda>v. key v = k) (map_values m ks) = fmlookup m k"
proof -
  have dom: "k \<in> fset (fmdom m)" if "k \<in> set ks" for k using assms(1) that by (simp add: iteration_order_def)
  have keys: "map key (map_values m l) = l \<and> find (\<lambda>v. key v = k) (map_values m l) = (if k \<in> set l then fmlookup m k else None)"
    if "set l \<subseteq> set ks" for l
    using that
  proof (induction l)
    case (Cons x l)
    then obtain v where v: "fmlookup m x = Some v" using dom by (auto simp: fmlookup_dom_iff)
    then show ?case using Cons assms(2) [OF v] by (auto simp: map_values_def List.map_filter_simps)
  qed (simp add: map_values_def List.map_filter_def)
  from keys [of ks] show "map key (map_values m ks) = ks" by simp
  have "fmlookup m k = None" if "k \<notin> set ks"
    using assms(1) that by (metis iteration_order_def fmdom_notD)
  then show "find (\<lambda>v. key v = k) (map_values m ks) = fmlookup m k" using keys [of ks] by auto
qed

lemma map_values_combined:
  assumes "iteration_order (combine_rows rows) ks"
  shows "distinct (map bucket_of (map_values (combine_rows rows) ks))"
    and "find (\<lambda>row. bucket_of row = k) (map_values (combine_rows rows) ks) = fmlookup (combine_rows rows) k"
  using map_values_lookup [OF assms, of bucket_of] combine_rows_key assms by (auto simp: iteration_order_def)

text \<open>The new table, bucket by bucket.\<close>

definition updated_bucket :: "(go_time \<times> usageRow) list \<Rightarrow> cost_table \<Rightarrow> string \<Rightarrow> cost_row option" where
  "updated_bucket rows table k =
     (case fmlookup (combine_rows rows) k of Some row \<Rightarrow> Some (cost_row_of row) | None \<Rightarrow> fmlookup table k)"

lemma upsert_combined:
  assumes "upsert_buckets out (map_values (combine_rows rows) ks) table = Inr table'"
    and "iteration_order (combine_rows rows) ks"
  shows "fmlookup table' = updated_bucket rows table"
  using upsert_buckets_lookup [OF assms(1) map_values_combined(1) [OF assms(2)]] map_values_combined(2) [OF assms(2)]
  by (auto simp: updated_bucket_def)

lemma upsert_buckets_ok:
  "upsert_buckets out rows table = Inr table' \<Longrightarrow> \<exists>table1'. upsert_buckets out rows table1 = Inr table1'"
  by (induction rows arbitrary: table table1) (auto simp: Let_def split: option.splits)

lemma persist_cases:
  assumes "persistDailyBuckets tx clk ord c rows = (err, c')" and "ca_db c = Some table"
  obtains e where "err = Some e" "c' = c" | "err = None" "rows = []" "c' = c"
  | table' where "err = None" "rows \<noteq> []" "tx_begin tx = None" "tx_prepare tx = None" "tx_commit tx = None"
      "upsert_buckets (tx_upsert tx) (map_values (combine_rows (clocked clk rows)) (ord (combine_rows (clocked clk rows)))) table = Inr table'"
      "c' = c\<lparr>ca_db := Some table'\<rparr>"
  using assms by (auto simp: persistDailyBuckets_def Let_def split: if_splits option.splits sum.splits)

lemma fmlookup_inject_fun: "fmlookup m = fmlookup m' \<longleftrightarrow> m = m'"
  by (simp add: fmlookup_inject)

lemma persist_again:
  assumes "persistDailyBuckets tx clk ord c rows = (None, c')" and "ca_db c = Some table" and "\<And>m. iteration_order m (ord m)"
  shows "persistDailyBuckets tx clk ord c' rows = (None, c')"
  using persist_cases [OF assms(1,2)]
proof cases
  case (3 table')
  let ?m = "combine_rows (clocked clk rows)"
  obtain table2 where t2: "upsert_buckets (tx_upsert tx) (map_values ?m (ord ?m)) table' = Inr table2"
    using upsert_buckets_ok [OF 3(6)] by blast
  have "fmlookup table2 = fmlookup table'"
    unfolding upsert_combined [OF t2 assms(3)] upsert_combined [OF 3(6) assms(3)]
    by (auto simp: updated_bucket_def upsert_combined [OF 3(6) assms(3)] split: option.splits)
  then have "table2 = table'" by (simp add: fmlookup_inject_fun)
  then show ?thesis using 3 t2 by (simp add: persistDailyBuckets_def Let_def)
qed (use assms(1) in auto)

text \<open>
  C26. Storing a usage report is one transaction. If an error is returned, the table is as before. Otherwise
  each bucket (provider, model and date) that occurs among the rows holds the sums over exactly its
  rows, whatever it held before, and every other row of the table is kept; storing the same
  report once more changes nothing, so that polling many times a day does not count usage twice.
\<close>
theorem cost_buckets_exact:
  assumes "persistDailyBuckets tx clk ord c rows = (err, c')" and "ca_db c = Some table"
    and "\<And>m. iteration_order m (ord m)"
  shows "case err of
      Some _ \<Rightarrow> c' = c
    | None \<Rightarrow> persistDailyBuckets tx clk ord c' rows = (None, c') \<and>
        (\<exists>table'. c' = c\<lparr>ca_db := Some table'\<rparr> \<and>
          (\<forall>k. \<exists>b. bucket_sums (in_bucket k (clocked clk rows)) b \<and>
             fmlookup table' k = (case b of Some row \<Rightarrow> Some (cost_row_of row) | None \<Rightarrow> fmlookup table k)))"
  using persist_cases [OF assms(1,2)]
proof cases
  case 2
  then have "\<forall>k. bucket_sums (in_bucket k (clocked clk rows)) None" by (simp add: bucket_sums_def in_bucket_def clocked_def)
  moreover have "c = c\<lparr>ca_db := Some table\<rparr>" using assms(2) by simp
  ultimately show ?thesis using 2 persist_again [OF _ assms(2,3)] assms(1) by fastforce
next
  case (3 table')
  have "\<exists>b. bucket_sums (in_bucket k (clocked clk rows)) b \<and>
      fmlookup table' k = (case b of Some row \<Rightarrow> Some (cost_row_of row) | None \<Rightarrow> fmlookup table k)" for k
    using combine_rows_sums [of k "clocked clk rows"] upsert_combined [OF 3(6) assms(3)] by (auto simp: updated_bucket_def)
  then show ?thesis using 3 persist_again [OF _ assms(2,3)] assms(1) by auto
qed simp

definition demo_tx :: tx_outcomes where
  "demo_tx = \<lparr>tx_begin = None, tx_prepare = None, tx_upsert = (\<lambda>_. None), tx_commit = None\<rparr>"

definition demo_usage :: "usageRow list" where
  "demo_usage = [zero_usage\<lparr>ur_Provider := providerOpenAI, ur_Model := ''m'', ur_Date := ''2026-01-02'', ur_Tokens := 5\<rparr>,
     zero_usage\<lparr>ur_Provider := providerOpenAI, ur_Model := ''m'', ur_Date := ''2026-01-02'', ur_Tokens := 7\<rparr>]"

lemma cost_buckets_exact_witness:
  "\<exists>c'. persistDailyBuckets demo_tx (\<lambda>_. 0) (\<lambda>m. sorted_list_of_fset (fmdom m)) (NewCostAggregator demo_cost_config (Some fmempty) None)
     demo_usage = (None, c') \<and>
   persistDailyBuckets demo_tx (\<lambda>_. 0) (\<lambda>m. sorted_list_of_fset (fmdom m)) c' demo_usage = (None, c')"
proof -
  let ?c = "NewCostAggregator demo_cost_config (Some fmempty) None" and ?ord = "\<lambda>m. sorted_list_of_fset (fmdom m)"
  have "fst (persistDailyBuckets demo_tx (\<lambda>_. 0) ?ord ?c demo_usage) = None" by code_simp
  moreover have "iteration_order m (?ord m)" for m :: "(string, usageRow) fmap"
    by (simp add: iteration_order_def sorted_list_of_fset.rep_eq)
  ultimately show ?thesis
    using cost_buckets_exact [OF prod.collapse [symmetric], of ?c fmempty ?ord demo_tx "\<lambda>_. 0" demo_usage]
    by (cases "persistDailyBuckets demo_tx (\<lambda>_. 0) ?ord ?c demo_usage") (auto simp: NewCostAggregator_def)
qed

section \<open>Totals\<close>

lemma sum_list_single:
  "distinct ks \<Longrightarrow> k \<in> set ks \<Longrightarrow> sum_list (map (\<lambda>k'. if k = k' then x else 0) ks) = (x :: 'a :: comm_monoid_add)"
proof (induction ks)
  case (Cons k' ks)
  have "sum_list (map (\<lambda>k'. if k = k' then x else 0) l) = 0" if "k \<notin> set l" for l using that by (induction l) auto
  then show ?case using Cons by auto
qed simp

lemma sum_list_groups:
  fixes f :: "'r \<Rightarrow> 'a :: comm_monoid_add"
  assumes "distinct ks" and "set (map key rows) \<subseteq> set ks"
  shows "sum_list (map (\<lambda>k. sum_list (map f (filter (\<lambda>r. key r = k) rows))) ks) = sum_list (map f rows)"
  using assms(2)
proof (induction rows)
  case (Cons r rows)
  have "sum_list (map f (filter (\<lambda>r. key r = k) (r # rows))) =
      (if key r = k then f r else 0) + sum_list (map f (filter (\<lambda>r. key r = k) rows))" for k by simp
  then have "sum_list (map (\<lambda>k. sum_list (map f (filter (\<lambda>r. key r = k) (r # rows)))) ks) =
      sum_list (map (\<lambda>k. if key r = k then f r else 0) ks) + sum_list (map (\<lambda>k. sum_list (map f (filter (\<lambda>r. key r = k) rows))) ks)"
    by (simp add: sum_list_addf)
  then show ?case using Cons assms(1) by (simp add: sum_list_single)
qed simp

lemma sum_group_totals:
  assumes "ks = sort (remdups (map key rows))"
  shows "sum_list (map cb_Tokens (map (sum_group key p m rows) ks)) = sum_list (map cr_tokens rows)"
    and "sum_list (map cb_CostUSD (map (sum_group key p m rows) ks)) = sum_list (map cr_cost_usd rows)"
  using sum_list_groups [of ks key rows cr_tokens] sum_list_groups [of ks key rows cr_cost_usd] assms
  by (simp_all add: sum_group_def Let_def comp_def)

lemma foldl_wrapped: "foldl (\<lambda>n x. wrap64 (n + f x)) (wrap64 a) xs = wrap64 (a + sum_list (map f xs))"
  by (induction xs arbitrary: a) (simp_all add: wrap64_add add.assoc)

lemma foldl_sum: "foldl (\<lambda>y x. y + f x) a xs = a + sum_list (map f xs)" for a :: rat
  by (induction xs arbitrary: a) simp_all

text \<open>The days a period reaches back.\<close>

definition period_days :: "string \<Rightarrow> int" where
  "period_days period = (if to_lower period = ''week'' then 6 else if to_lower period = ''month'' then 29 else 0)"

lemma periodStart_div: "fst (periodStart now period) div day = now div day - period_days period"
  by (simp add: periodStart_def period_days_def Let_def add_days_div start_of_day_div)

lemma set_rows_since:
  "r \<in> set (rows_since table start) \<longleftrightarrow> (\<exists>k. fmlookup table k = Some r) \<and> cr_date r \<ge> date_text start"
proof -
  have "iteration_order table (sorted_list_of_fset (fmdom table))" by (simp add: iteration_order_def sorted_list_of_fset.rep_eq)
  from set_map_values [OF this] show ?thesis by (auto simp: rows_since_def table_rows_def)
qed

lemma add_projects_cost:
  "\<exists>f. (\<forall>p. fmlookup (fold add_project ss fmempty) p = (if p \<in> ts_Project ` set ss then Some (f p) else None)) \<and>
     (\<forall>p. pc_CostUSD (f p) = sum_list (map ts_SessionCost (filter (\<lambda>s. ts_Project s = p) ss)))"
proof (induction ss rule: rev_induct)
  case (snoc s ss)
  then obtain f where f: "\<And>p. fmlookup (fold add_project ss fmempty) p = (if p \<in> ts_Project ` set ss then Some (f p) else None)"
    "\<And>p. pc_CostUSD (f p) = sum_list (map ts_SessionCost (filter (\<lambda>s. ts_Project s = p) ss))" by auto
  have none: "ts_Project s \<notin> ts_Project ` set ss \<Longrightarrow> filter (\<lambda>x. ts_Project x = ts_Project s) ss = []" by (auto simp: filter_empty_conv) (metis imageI)
  let ?z = "\<lparr>pc_Project = [], pc_Tokens = 0, pc_CostUSD = 0\<rparr>"
  let ?i = "map_get (fold add_project ss fmempty) (ts_Project s) ?z"
  have i: "pc_CostUSD ?i = sum_list (map ts_SessionCost (filter (\<lambda>x. ts_Project x = ts_Project s) ss))"
    using f none by (auto simp: map_get_def)
  let ?f = "f(ts_Project s := \<lparr>pc_Project = ts_Project s, pc_Tokens = wrap64 (pc_Tokens ?i + tu_Total (ts_TokenUsage s)),
      pc_CostUSD = pc_CostUSD ?i + ts_SessionCost s\<rparr>)"
  have "\<forall>p. fmlookup (fold add_project (ss @ [s]) fmempty) p = (if p \<in> ts_Project ` set (ss @ [s]) then Some (?f p) else None)"
    using f(1) by (auto simp: add_project_def Let_def)
  moreover have "\<forall>p. pc_CostUSD (?f p) = sum_list (map ts_SessionCost (filter (\<lambda>s. ts_Project s = p) (ss @ [s])))"
    using f(2) i by simp
  ultimately show ?case by blast
qed (auto intro: exI [of _ "\<lambda>_. \<lparr>pc_Project = [], pc_Tokens = 0, pc_CostUSD = 0\<rparr>"])

lemma projectTotals_cost:
  assumes "\<And>m. iteration_order m (ord m)"
  shows "sum_list (map pc_CostUSD (projectTotals t ks ord start)) =
    sum_list (map ts_SessionCost (filter (\<lambda>s. \<not> ts_StartedAt s < start) (GetAllSessions t ks)))"
proof -
  let ?ss = "filter (\<lambda>s. \<not> ts_StartedAt s < start) (GetAllSessions t ks)" and ?m = "fold add_project (filter (\<lambda>s. \<not> ts_StartedAt s < start) (GetAllSessions t ks)) fmempty"
  obtain f where f: "\<And>p. fmlookup ?m p = (if p \<in> ts_Project ` set ?ss then Some (f p) else None)"
    "\<And>p. pc_CostUSD (f p) = sum_list (map ts_SessionCost (filter (\<lambda>s. ts_Project s = p) ?ss))"
    using add_projects_cost [of ?ss] by blast
  have ord: "distinct (ord ?m)" "set (ord ?m) = ts_Project ` set ?ss"
    using assms [of ?m] f(1) by (auto simp: iteration_order_def fmlookup_dom_iff split: if_splits)
  have "map_values ?m l = map f l" if "set l \<subseteq> ts_Project ` set ?ss" for l
    using that f(1) by (induction l) (auto simp: map_values_def List.map_filter_simps)
  then have "map_values ?m (ord ?m) = map f (ord ?m)" using ord(2) by blast
  then have "sum_list (map pc_CostUSD (projectTotals t ks ord start)) =
      sum_list (map (\<lambda>p. sum_list (map ts_SessionCost (filter (\<lambda>s. ts_Project s = p) ?ss))) (ord ?m))"
    by (simp add: projectTotals_def Let_def comp_def f(2))
  also have "\<dots> = sum_list (map ts_SessionCost ?ss)" by (rule sum_list_groups) (use ord in auto)
  finally show ?thesis .
qed


definition demo_costs :: CostAggregator where
  "demo_costs = NewCostAggregator demo_cost_config
     (Some (fmupd ''a'' \<lparr>cr_provider = providerOpenAI, cr_model = ''m'', cr_date = date_text (3 * day), cr_tokens = 5, cr_cost_usd = 1 / 2\<rparr> fmempty)) None"

definition demo_report :: report_world where
  "demo_report = \<lparr>rw_provider_out = (None, None), rw_model_out = (None, None), rw_sessions = [],
     rw_projects = (\<lambda>m. sorted_list_of_fset (fmdom m)), rw_degraded = []\<rparr>"


section \<open>Degraded providers\<close>

lemma persist_fields [simp]:
  "ca_degraded (snd (persistDailyBuckets tx clk ord c rows)) = ca_degraded c"
  "ca_cfg (snd (persistDailyBuckets tx clk ord c rows)) = ca_cfg c"
  by (auto simp: persistDailyBuckets_def Let_def split: option.split sum.split)

lemma fallback_fields [simp]:
  "ca_degraded (applySessionEstimateFallback tc outs ks provider c) = ca_degraded c"
  "ca_cfg (applySessionEstimateFallback tc outs ks provider c) = ca_cfg c"
  by (simp_all add: applySessionEstimateFallback_def split: option.split)

definition poll_result :: "cost_env \<Rightarrow> poll_world \<Rightarrow> string \<Rightarrow> CostAggregator \<Rightarrow> usageRow list go_result" where
  "poll_result env w provider c =
     fst (fetch_attempts env (po_web w) (po_clock w) (po_ctx w) (ca_cfg c) provider (provider_config c provider) 0)"

lemma pollProvider_fields:
  "ca_cfg (pollProvider env tc w provider pcfg c) = ca_cfg c"
  "fmlookup (ca_degraded (pollProvider env tc w provider (provider_config c provider) c)) p =
     (if p = provider then (case poll_result env w provider c of Inl err \<Rightarrow> Some (error_text err) | Inr _ \<Rightarrow> None)
      else fmlookup (ca_degraded c) p)"
  by (auto simp: pollProvider_def setDegraded_def clearDegraded_def poll_result_def fetchProviderWithRetry_def split: sum.split)

text \<open>After a cycle a polled provider is marked degraded, with the reason, exactly if polling it failed.\<close>

lemma pollCycle_degraded:
  assumes "distinct ord"
  shows "ca_cfg (pollCycle env tc w ord c) = ca_cfg c"
    and "fmlookup (ca_degraded (pollCycle env tc w ord c)) p =
      (if p \<in> set ord \<and> IsEnabled (provider_config c p)
       then (case poll_result env (w p) p c of Inl err \<Rightarrow> Some (error_text err) | Inr _ \<Rightarrow> None)
       else fmlookup (ca_degraded c) p)"
proof -
  have cong: "provider_config c1 q = provider_config c2 q" "poll_result env w' q c1 = poll_result env w' q c2"
    if "ca_cfg c1 = ca_cfg c2" for c1 c2 q w' using that by (simp_all add: provider_config_def poll_result_def)
  have "ca_cfg (pollCycle env tc w ord c) = ca_cfg c \<and> fmlookup (ca_degraded (pollCycle env tc w ord c)) p =
      (if p \<in> set ord \<and> IsEnabled (provider_config c p)
       then (case poll_result env (w p) p c of Inl err \<Rightarrow> Some (error_text err) | Inr _ \<Rightarrow> None)
       else fmlookup (ca_degraded c) p)"
    using assms
  proof (induction ord arbitrary: c)
    case (Cons q ord)
    let ?c = "if IsEnabled (provider_config c q) then pollProvider env tc (w q) q (provider_config c q) c else c"
    have step: "pollCycle env tc w (q # ord) c = pollCycle env tc w ord ?c" by (simp add: pollCycle_def)
    have cfg: "ca_cfg ?c = ca_cfg c" by (simp add: pollProvider_fields)
    show ?case using Cons.IH [of ?c] Cons.prems unfolding step
      by (auto simp: pollProvider_fields cong [OF cfg] split: if_splits)
  qed (simp add: pollCycle_def)
  then show "ca_cfg (pollCycle env tc w ord c) = ca_cfg c"
    "fmlookup (ca_degraded (pollCycle env tc w ord c)) p =
      (if p \<in> set ord \<and> IsEnabled (provider_config c p)
       then (case poll_result env (w p) p c of Inl err \<Rightarrow> Some (error_text err) | Inr _ \<Rightarrow> None)
       else fmlookup (ca_degraded c) p)" by blast+
qed

end
