(* ===== verification/Health.thy ===== *)
theory Health
  imports Hub Cost_Aggregator
begin

text \<open>
  \<open>internal/supervisor/health.go\<close>: liveness and readiness of the supervisor. The outcome of pinging the
  database and the clock are arguments; a nil pointer is \<open>None\<close> or a false flag.
\<close>

type_synonym ComponentStatus = string
type_synonym HealthStatus = string

definition StatusOK :: ComponentStatus where "StatusOK = ''ok''"
definition StatusError :: ComponentStatus where "StatusError = ''error''"
definition StatusUnavailable :: ComponentStatus where "StatusUnavailable = ''unavailable''"
definition HealthHealthy :: HealthStatus where "HealthHealthy = ''healthy''"
definition HealthDegraded :: HealthStatus where "HealthDegraded = ''degraded''"
definition HealthUnhealthy :: HealthStatus where "HealthUnhealthy = ''unhealthy''"

record ComponentHealth =
  ch_Status :: ComponentStatus
  ch_Error :: string

record HealthCheckResult =
  hcr_Status :: HealthStatus
  hcr_Components :: "(string, ComponentHealth) fmap"
  hcr_Timestamp :: go_time

record HealthChecker =
  hc_db :: bool
  hc_hub :: "Hub option"
  hc_dispatcher :: "CommandDispatcher option"
  hc_costs :: "CostAggregator option"

definition NewHealthChecker :: "bool \<Rightarrow> Hub option \<Rightarrow> CommandDispatcher option \<Rightarrow> CostAggregator option \<Rightarrow> HealthChecker" where
  "NewHealthChecker db h dispatcher costs = \<lparr>hc_db = db, hc_hub = h, hc_dispatcher = dispatcher, hc_costs = costs\<rparr>"

definition CheckLiveness :: "go_time \<Rightarrow> HealthChecker \<Rightarrow> HealthCheckResult" where
  "CheckLiveness now hc = \<lparr>hcr_Status = HealthHealthy, hcr_Components = fmempty, hcr_Timestamp = now\<rparr>"

definition checkDatabase :: "exec_outcome \<Rightarrow> HealthChecker \<Rightarrow> ComponentHealth" where
  "checkDatabase ping hc =
     (if \<not> hc_db hc then \<lparr>ch_Status = StatusUnavailable, ch_Error = ''database not configured''\<rparr>
      else case ping of
          Some err \<Rightarrow> \<lparr>ch_Status = StatusError, ch_Error = error_text err\<rparr>
        | None \<Rightarrow> \<lparr>ch_Status = StatusOK, ch_Error = []\<rparr>)"

definition checkHub :: "HealthChecker \<Rightarrow> ComponentHealth" where
  "checkHub hc =
     (case hc_hub hc of
        None \<Rightarrow> \<lparr>ch_Status = StatusUnavailable, ch_Error = ''websocket hub not configured''\<rparr>
      | Some h \<Rightarrow> if ClientCount h \<ge> 0 then \<lparr>ch_Status = StatusOK, ch_Error = []\<rparr>
          else \<lparr>ch_Status = StatusError, ch_Error = ''websocket hub not responding''\<rparr>)"

definition checkDispatcher :: "HealthChecker \<Rightarrow> ComponentHealth" where
  "checkDispatcher hc =
     (if hc_dispatcher hc = None then \<lparr>ch_Status = StatusUnavailable, ch_Error = ''command dispatcher not configured''\<rparr>
      else \<lparr>ch_Status = StatusOK, ch_Error = []\<rparr>)"

definition checkCostAggregator :: "HealthChecker \<Rightarrow> ComponentHealth" where
  "checkCostAggregator hc =
     (if hc_costs hc = None then \<lparr>ch_Status = StatusUnavailable, ch_Error = ''cost aggregator not configured''\<rparr>
      else \<lparr>ch_Status = StatusOK, ch_Error = []\<rparr>)"

definition readiness_components :: "exec_outcome \<Rightarrow> HealthChecker \<Rightarrow> (string, ComponentHealth) fmap" where
  "readiness_components ping hc =
     fmupd ''cost_aggregator'' (checkCostAggregator hc) (fmupd ''command_dispatcher'' (checkDispatcher hc)
       (fmupd ''websocket_hub'' (checkHub hc) (fmupd ''database'' (checkDatabase ping hc) fmempty)))"

text \<open>The loop over the components, with its break.\<close>

fun overall_status :: "HealthStatus \<Rightarrow> ComponentHealth list \<Rightarrow> HealthStatus" where
  "overall_status st [] = st"
| "overall_status st (c # comps) =
     (if ch_Status c = StatusError then HealthUnhealthy
      else overall_status (if ch_Status c = StatusUnavailable then HealthDegraded else st) comps)"

text \<open>\<open>ord\<close> is the visiting order of the components.\<close>

definition CheckReadiness :: "go_time \<Rightarrow> exec_outcome \<Rightarrow> ((string, ComponentHealth) fmap \<Rightarrow> string list) \<Rightarrow> HealthChecker
    \<Rightarrow> HealthCheckResult" where
  "CheckReadiness now ping ord hc =
     (let components = readiness_components ping hc
      in \<lparr>hcr_Status = overall_status HealthHealthy (map_values components (ord components)),
          hcr_Components = components, hcr_Timestamp = now\<rparr>)"

section \<open>The verdict\<close>

lemma overall_status_exact:
  "overall_status st comps =
     (if \<exists>c \<in> set comps. ch_Status c = StatusError then HealthUnhealthy
      else if \<exists>c \<in> set comps. ch_Status c = StatusUnavailable then HealthDegraded else st)"
  by (induction st comps rule: overall_status.induct) auto

lemmas component_defs = checkDatabase_def checkHub_def checkDispatcher_def checkCostAggregator_def
  StatusOK_def StatusError_def StatusUnavailable_def

lemma readiness_components_values:
  "{c. \<exists>k. fmlookup (readiness_components ping hc) k = Some c} =
     {checkCostAggregator hc, checkDispatcher hc, checkHub hc, checkDatabase ping hc}"
proof -
  have "fmlookup (readiness_components ping hc) ''cost_aggregator'' = Some (checkCostAggregator hc)"
    "fmlookup (readiness_components ping hc) ''command_dispatcher'' = Some (checkDispatcher hc)"
    "fmlookup (readiness_components ping hc) ''websocket_hub'' = Some (checkHub hc)"
    "fmlookup (readiness_components ping hc) ''database'' = Some (checkDatabase ping hc)"
    by (simp_all add: readiness_components_def)
  moreover have "c \<in> {checkCostAggregator hc, checkDispatcher hc, checkHub hc, checkDatabase ping hc}"
    if "fmlookup (readiness_components ping hc) k = Some c" for k c
    using that unfolding readiness_components_def fmupd_lookup by (simp split: if_splits)
  ultimately show ?thesis by blast
qed

text \<open>
  The verdict of the readiness check does not depend on the order in which the components are visited: it
  is unhealthy exactly if the database is configured but does not answer, otherwise degraded exactly if
  one of database, hub, dispatcher and cost aggregator is missing, and healthy otherwise.
\<close>
theorem readiness_exact:
  assumes "\<And>m. iteration_order m (ord m)"
  shows "hcr_Status (CheckReadiness now ping ord hc) =
    (if hc_db hc \<and> ping \<noteq> None then HealthUnhealthy
     else if \<not> hc_db hc \<or> hc_hub hc = None \<or> hc_dispatcher hc = None \<or> hc_costs hc = None then HealthDegraded
     else HealthHealthy)"
proof -
  let ?m = "readiness_components ping hc"
  have "set (map_values ?m (ord ?m)) = {checkCostAggregator hc, checkDispatcher hc, checkHub hc, checkDatabase ping hc}"
    unfolding set_map_values [OF assms [of ?m]] by (rule readiness_components_values)
  then have st: "hcr_Status (CheckReadiness now ping ord hc) =
      (if \<exists>c \<in> {checkCostAggregator hc, checkDispatcher hc, checkHub hc, checkDatabase ping hc}. ch_Status c = StatusError then HealthUnhealthy
       else if \<exists>c \<in> {checkCostAggregator hc, checkDispatcher hc, checkHub hc, checkDatabase ping hc}. ch_Status c = StatusUnavailable
       then HealthDegraded else HealthHealthy)"
    by (simp only: CheckReadiness_def Let_def HealthCheckResult.simps overall_status_exact)
  show ?thesis unfolding st by (simp add: component_defs split: option.split)
qed

lemma readiness_exact_witness:
  "hcr_Status (CheckReadiness 0 None (\<lambda>m. sorted_list_of_fset (fmdom m)) (NewHealthChecker False None None None)) = HealthDegraded"
proof -
  have "iteration_order m (sorted_list_of_fset (fmdom m))" for m :: "(string, ComponentHealth) fmap"
    by (simp add: iteration_order_def sorted_list_of_fset.rep_eq)
  from readiness_exact [OF this] show ?thesis by (simp add: NewHealthChecker_def)
qed

end
