(* ===== verification/Http_Api.thy ===== *)
theory Http_Api
  imports Event_Pipeline Audit_Log OAuth_Orchestrator Health Credential_Apply
begin

text \<open>
  \<open>internal/supervisor/http_api.go\<close>: the HTTP interface of the supervisor. A handler maps the state of the \<open>HTTPAPI\<close>
  and a request to a response and the new state; a response is a status and the value that is encoded as its
  body. Decoding of bodies, the clock, the outcomes of statements and visiting orders are given by the
  surroundings; metrics and log messages are left out.

  In the server the dispatcher shares registry and tracker with the interface. Here each handler works on
  the part it is given: a node that \<open>GetNode\<close> caches for one is not seen cached by the other.
\<close>

section \<open>Values\<close>

record sessionJSON =
  sj_ID :: string
  sj_NodeID :: string
  sj_Project :: string
  sj_Status :: SessionStatus
  sj_Tokens :: int
  sj_Cost :: rat
  sj_StartedAt :: go_time

definition toSessionJSON :: "TrackedSession \<Rightarrow> sessionJSON" where
  "toSessionJSON s = \<lparr>sj_ID = ts_SessionID s, sj_NodeID = ts_NodeID s, sj_Project = ts_Project s, sj_Status = ts_Status s,
     sj_Tokens = tu_Total (ts_TokenUsage s), sj_Cost = ts_SessionCost s, sj_StartedAt = ts_StartedAt s\<rparr>"

record nodeJSON =
  nj_ID :: string
  nj_Hostname :: string
  nj_Status :: NodeStatus
  nj_LastHeartbeat :: go_time
  nj_ConnectedAt :: go_time

definition toNodeJSON :: "NodeEntry \<Rightarrow> nodeJSON" where
  "toNodeJSON n = \<lparr>nj_ID = ne_ID n, nj_Hostname = ne_Hostname n, nj_Status = ne_Status n,
     nj_LastHeartbeat = ne_LastHeartbeat n, nj_ConnectedAt = ne_ConnectedAt n\<rparr>"

record nodeAuthJSON =
  na_NodeID :: string
  na_AuthStates :: "(string, NodeAuthState) fmap"
  na_CredentialSync :: CredentialSyncStatus
  na_CredentialVersion :: int

record driftNodeJSON =
  dn_NodeID :: string
  dn_CredentialSync :: CredentialSyncStatus
  dn_CredentialVersion :: int

record eventJSON =
  ej_ID :: string
  ej_SessionID :: string
  ej_Type :: string
  ej_Data :: string
  ej_Timestamp :: go_time

record commandRequest =
  crq_Type :: string
  crq_Target :: string
  crq_Args :: "(string \<times> go_value) list option"
  crq_IdempotencyKey :: string
  crq_Timeout :: int

record pushRequest =
  prq_TargetNode :: string
  prq_EnvVars :: "(string, string) fmap"
  prq_Version :: int
  prq_IdempotencyKey :: string

record oauthTriggerRequest =
  orq_NodeID :: string
  orq_Tool :: string

record healthResponse =
  hr_Status :: string
  hr_Components :: "(string, string) fmap"
  hr_Timestamp :: go_time

record apiMeta =
  meta_Total :: int
  meta_Limit :: int
  meta_Offset :: int

datatype api_data = DSessions "sessionJSON list" | DSession sessionJSON | DNodes "nodeJSON list" | DNode nodeJSON
  | DNodeAuth nodeAuthJSON | DDrift "driftNodeJSON list" | DEvents "eventJSON list" | DResult CommandResult
  | DOAuth OAuthResult | DObject "(string \<times> go_value) list" | DReport CostReport

datatype api_body = BData api_data "apiMeta option" | BError string string | BStatus string
  | BHealth healthResponse | BCheck HealthCheckResult | BMetrics | BUpgrade

record response =
  rsp_status :: int
  rsp_body :: api_body

definition writeJSON :: "int \<Rightarrow> api_body \<Rightarrow> response" where
  "writeJSON status data = \<lparr>rsp_status = status, rsp_body = data\<rparr>"

definition writeError :: "int \<Rightarrow> string \<Rightarrow> string \<Rightarrow> response" where
  "writeError status message code = \<lparr>rsp_status = status, rsp_body = BError message code\<rparr>"

definition parseIntParam :: "string \<Rightarrow> int \<Rightarrow> int" where
  "parseIntParam s defaultVal =
     (if s = [] then defaultVal
      else case parse_int64 s of None \<Rightarrow> defaultVal | Some v \<Rightarrow> if v \<le> 0 then defaultVal else v)"

section \<open>State and surroundings\<close>

definition maxCredentialIdempotencyEntries :: nat where "maxCredentialIdempotencyEntries = 1000"

record HTTPAPI =
  api_registry :: NodeRegistry
  api_tracker :: SessionTracker
  api_dispatcher :: "CommandDispatcher option"
  api_hub :: bool
  api_oauth :: "CommandDispatcher option option"
  api_costs :: "CostAggregator option"
  api_db :: "(string, event_row) fmap option"
  api_authToken :: string
  api_healthChecker :: "HealthChecker option"
  api_audit :: "audit_table option option"
  credentialIdempotencyCache :: "(string, CommandResult) fmap"
  credentialIdempotencyOrder :: "string list"

text \<open>\<open>api_oauth\<close>: no orchestrator, or one with or without dispatcher; \<open>api_audit\<close>: no audit logger, or one with or
  without database.\<close>

definition NewHTTPAPI :: "NodeRegistry \<Rightarrow> SessionTracker \<Rightarrow> CommandDispatcher option \<Rightarrow> (string, event_row) fmap option \<Rightarrow> string \<Rightarrow> HTTPAPI" where
  "NewHTTPAPI r t d db token =
     \<lparr>api_registry = r, api_tracker = t, api_dispatcher = d, api_hub = False,
      api_oauth = (case d of None \<Rightarrow> None | Some _ \<Rightarrow> Some d), api_costs = None, api_db = db, api_authToken = token,
      api_healthChecker = None, api_audit = None, credentialIdempotencyCache = fmempty, credentialIdempotencyOrder = []\<rparr>"

definition SetCostAggregator :: "CostAggregator option \<Rightarrow> HTTPAPI \<Rightarrow> HTTPAPI" where
  "SetCostAggregator c a = a\<lparr>api_costs := c\<rparr>"

definition SetHealthChecker :: "HealthChecker option \<Rightarrow> HTTPAPI \<Rightarrow> HTTPAPI" where
  "SetHealthChecker hc a = a\<lparr>api_healthChecker := hc\<rparr>"

definition SetAuditLogger :: "audit_table option option \<Rightarrow> HTTPAPI \<Rightarrow> HTTPAPI" where
  "SetAuditLogger al a = a\<lparr>api_audit := al\<rparr>"

definition SetOAuthOrchestrator :: "CommandDispatcher option option \<Rightarrow> HTTPAPI \<Rightarrow> HTTPAPI" where
  "SetOAuthOrchestrator o' a = a\<lparr>api_oauth := o'\<rparr>"

definition SetHub :: "bool \<Rightarrow> HTTPAPI \<Rightarrow> HTTPAPI" where
  "SetHub present a = a\<lparr>api_hub := present\<rparr>"

record request =
  rq_method :: string
  rq_path :: "string list"
  rq_header :: string
  rq_query :: "string \<Rightarrow> string"
  rq_body :: string
  rq_remote :: string

record api_env =
  ap_codec :: time_codec
  ap_now :: go_time
  ap_dispatch :: "CommandDispatcher \<Rightarrow> Command \<Rightarrow> CommandResult go_result \<times> CommandDispatcher"
  ap_command :: "string \<Rightarrow> commandRequest go_result"
  ap_push :: "string \<Rightarrow> pushRequest go_result"
  ap_oauth_request :: "string \<Rightarrow> oauthTriggerRequest go_result"
  ap_oauth_result :: "string \<Rightarrow> OAuthResult go_result"
  ap_object :: "string \<Rightarrow> (string \<times> go_value) list go_result"
  ap_sessions :: "string list"
  ap_nodes :: "string list"
  ap_rows :: "string list"
  ap_env_order :: "(string, string) fmap \<Rightarrow> string list"
  ap_select :: exec_outcome
  ap_auth_select :: exec_outcome
  ap_ping :: exec_outcome
  ap_components :: "(string, string) fmap \<Rightarrow> string list"
  ap_health_order :: "(string, ComponentHealth) fmap \<Rightarrow> string list"
  ap_report :: report_world
  ap_audit :: audit_env
  ap_audit_insert :: exec_outcome
  ap_elapsed :: duration

section \<open>Reading\<close>

definition handleLiveness :: "api_env \<Rightarrow> HTTPAPI \<Rightarrow> response" where
  "handleLiveness e a =
     (case api_healthChecker a of
        None \<Rightarrow> writeJSON 200 (BStatus ''alive'')
      | Some hc \<Rightarrow>
          let result = CheckLiveness (ap_now e) hc
          in writeJSON (if hcr_Status result = HealthHealthy then 200 else 503) (BCheck result))"

definition handleReadiness :: "api_env \<Rightarrow> HTTPAPI \<Rightarrow> response" where
  "handleReadiness e a =
     (case api_healthChecker a of
        None \<Rightarrow> writeJSON 200 (BStatus ''ready'')
      | Some hc \<Rightarrow>
          let result = CheckReadiness (ap_now e) (ap_ping e) (ap_health_order e) hc
          in writeJSON (if hcr_Status result = HealthDegraded then 503 else if hcr_Status result = HealthUnhealthy then 503 else 200)
               (BCheck result))"

definition checkDBHealth :: "api_env \<Rightarrow> HTTPAPI \<Rightarrow> string" where
  "checkDBHealth e a = (if api_db a = None then ''unavailable'' else if ap_ping e \<noteq> None then ''unavailable'' else ''ok'')"

definition checkDispatcherHealth :: "HTTPAPI \<Rightarrow> string" where
  "checkDispatcherHealth a = (if api_dispatcher a = None then ''unavailable'' else ''ok'')"

text \<open>The loop over the components.\<close>

fun health_status :: "string list \<Rightarrow> string" where
  "health_status [] = ''healthy''"
| "health_status (v # vs) = (if v \<noteq> ''ok'' then ''degraded'' else health_status vs)"

definition handleHealth :: "api_env \<Rightarrow> HTTPAPI \<Rightarrow> response" where
  "handleHealth e a =
     (let components = fmupd ''command_dispatcher'' (checkDispatcherHealth a) (fmupd ''websocket_hub'' ''ok''
            (fmupd ''database'' (checkDBHealth e a) fmempty))
      in writeJSON 200 (BHealth \<lparr>hr_Status = health_status (map_values components (ap_components e components)),
           hr_Components = components, hr_Timestamp = ap_now e\<rparr>))"

text \<open>The loop of \<open>handleListSessions\<close>; \<open>filtered\<close> is what it has collected.\<close>

fun filter_sessions :: "string \<Rightarrow> string \<Rightarrow> int \<Rightarrow> sessionJSON list \<Rightarrow> TrackedSession list \<Rightarrow> sessionJSON list" where
  "filter_sessions status nodeID limit filtered [] = filtered"
| "filter_sessions status nodeID limit filtered (s # ss) =
     (if status \<noteq> [] \<and> ts_Status s \<noteq> status then filter_sessions status nodeID limit filtered ss
      else if nodeID \<noteq> [] \<and> ts_NodeID s \<noteq> nodeID then filter_sessions status nodeID limit filtered ss
      else let filtered = filtered @ [toSessionJSON s]
        in if int (length filtered) \<ge> limit then filtered else filter_sessions status nodeID limit filtered ss)"

definition handleListSessions :: "api_env \<Rightarrow> HTTPAPI \<Rightarrow> request \<Rightarrow> response" where
  "handleListSessions e a r =
     (let project = rq_query r ''project''; status = rq_query r ''status''; nodeID = rq_query r ''node_id'';
          limit = parseIntParam (rq_query r ''limit'') 100;
          sessions = (if project \<noteq> [] then GetSessionsByProject (api_tracker a) (ap_sessions e) project
            else GetAllSessions (api_tracker a) (ap_sessions e));
          filtered = filter_sessions status nodeID limit [] sessions
      in writeJSON 200 (BData (DSessions filtered) (Some \<lparr>meta_Total = int (length filtered), meta_Limit = limit, meta_Offset = 0\<rparr>)))"

definition handleGetSession :: "api_env \<Rightarrow> HTTPAPI \<Rightarrow> string \<Rightarrow> response \<times> HTTPAPI" where
  "handleGetSession e a i =
     (case GetSession (ap_codec e) (ap_select e) (api_tracker a) i of
        (Inl err, t) \<Rightarrow>
          (if err = Sentinel ErrSessionNotFound then writeError 404 ''session not found'' ''NOT_FOUND''
           else writeError 500 ''internal error'' ''INTERNAL_ERROR'', a\<lparr>api_tracker := t\<rparr>)
      | (Inr s, t) \<Rightarrow> (writeJSON 200 (BData (DSession (toSessionJSON s)) None), a\<lparr>api_tracker := t\<rparr>))"

definition handleListNodes :: "api_env \<Rightarrow> HTTPAPI \<Rightarrow> response" where
  "handleListNodes e a =
     (let out = map toNodeJSON (ListNodes (api_registry a) (ap_nodes e))
      in writeJSON 200 (BData (DNodes out) (Some \<lparr>meta_Total = int (length out), meta_Limit = 0, meta_Offset = 0\<rparr>)))"

definition handleGetNode :: "api_env \<Rightarrow> HTTPAPI \<Rightarrow> string \<Rightarrow> response \<times> HTTPAPI" where
  "handleGetNode e a i =
     (case GetNode (ap_codec e) (ap_select e) (api_registry a) i of
        (Inl err, r) \<Rightarrow>
          (if err = Sentinel ErrNodeNotFound then writeError 404 ''node not found'' ''NOT_FOUND''
           else writeError 500 ''internal error'' ''INTERNAL_ERROR'', a\<lparr>api_registry := r\<rparr>)
      | (Inr n, r) \<Rightarrow> (writeJSON 200 (BData (DNode (toNodeJSON n)) None), a\<lparr>api_registry := r\<rparr>))"

definition handleNodeAuth :: "api_env \<Rightarrow> HTTPAPI \<Rightarrow> string \<Rightarrow> response \<times> HTTPAPI" where
  "handleNodeAuth e a i =
     (case GetNode (ap_codec e) (ap_select e) (api_registry a) i of
        (Inl err, r) \<Rightarrow>
          (if err = Sentinel ErrNodeNotFound then writeError 404 ''node not found'' ''NOT_FOUND''
           else writeError 500 ''internal error'' ''INTERNAL_ERROR'', a\<lparr>api_registry := r\<rparr>)
      | (Inr n, r) \<Rightarrow>
          (case GetAuthState (ap_codec e) (ap_auth_select e) r i of
             (states, r') \<Rightarrow>
               (writeJSON 200 (BData (DNodeAuth \<lparr>na_NodeID = ne_ID n, na_AuthStates = states,
                  na_CredentialSync = ne_CredSyncStatus n, na_CredentialVersion = ne_CredVersion n\<rparr>) None), a\<lparr>api_registry := r'\<rparr>)))"

definition drift_of :: "NodeEntry \<Rightarrow> driftNodeJSON" where
  "drift_of n = \<lparr>dn_NodeID = ne_ID n, dn_CredentialSync = ne_CredSyncStatus n, dn_CredentialVersion = ne_CredVersion n\<rparr>"

definition handleAuthDrift :: "api_env \<Rightarrow> HTTPAPI \<Rightarrow> response" where
  "handleAuthDrift e a =
     (let drifted = map drift_of (filter (\<lambda>n. ne_CredSyncStatus n = CredentialSyncStatusDriftDetected) (ListNodes (api_registry a) (ap_nodes e)))
      in writeJSON 200 (BData (DDrift drifted) (Some \<lparr>meta_Total = int (length drifted), meta_Limit = 0, meta_Offset = 0\<rparr>)))"

text \<open>The query with its optional conditions; the rows of equal timestamps come in the order \<open>ap_rows\<close>.\<close>

definition event_entries :: "(string, event_row) fmap \<Rightarrow> string list \<Rightarrow> (string \<times> event_row) list" where
  "event_entries table ks = List.map_filter (\<lambda>k. map_option (Pair k) (fmlookup table k)) ks"

definition event_matches :: "string \<Rightarrow> string \<Rightarrow> string \<Rightarrow> event_row \<Rightarrow> bool" where
  "event_matches sessionID eventType since row \<longleftrightarrow>
     (sessionID = [] \<or> row_session_id row = sessionID) \<and> (eventType = [] \<or> row_type row = eventType) \<and>
     (since = [] \<or> row_timestamp row \<ge> since)"

definition event_json :: "time_codec \<Rightarrow> string \<times> event_row \<Rightarrow> eventJSON" where
  "event_json tc r = (case r of (i, row) \<Rightarrow>
     \<lparr>ej_ID = i, ej_SessionID = row_session_id row, ej_Type = row_type row, ej_Data = row_data row,
      ej_Timestamp = (case parseSQLiteTimestamp tc (row_timestamp row) of Inr t \<Rightarrow> t | Inl _ \<Rightarrow> 0)\<rparr>)"

definition handleListEvents :: "api_env \<Rightarrow> HTTPAPI \<Rightarrow> request \<Rightarrow> response" where
  "handleListEvents e a r =
     (case api_db a of
        None \<Rightarrow> writeError 503 ''event storage unavailable'' ''SERVICE_UNAVAILABLE''
      | Some table \<Rightarrow>
          let limit = parseIntParam (rq_query r ''limit'') 100
          in if ap_select e \<noteq> None then writeError 500 ''internal error'' ''INTERNAL_ERROR''
             else let rows = filter (\<lambda>x. event_matches (rq_query r ''session_id'') (rq_query r ''type'') (rq_query r ''since'') (snd x))
                    (event_entries table (ap_rows e));
                  events = map (event_json (ap_codec e)) (take (nat limit) (rev (sort_key (\<lambda>x. row_timestamp (snd x)) rows)))
               in writeJSON 200 (BData (DEvents events) (Some \<lparr>meta_Total = int (length events), meta_Limit = limit, meta_Offset = 0\<rparr>)))"

definition cost_report_response :: "api_env \<Rightarrow> HTTPAPI \<Rightarrow> string \<Rightarrow> response" where
  "cost_report_response e a period =
     (case api_costs a of
        None \<Rightarrow> writeError 503 ''cost aggregator unavailable'' ''SERVICE_UNAVAILABLE''
      | Some c \<Rightarrow>
          (case Report (ap_report e) (ap_now e) c (if period = [] then ''today'' else period) of
             Inl err \<Rightarrow> writeError 500 ''internal error'' ''INTERNAL_ERROR''
           | Inr report \<Rightarrow> writeJSON 200 (BData (DReport report) None)))"

definition handleCostReport :: "api_env \<Rightarrow> HTTPAPI \<Rightarrow> request \<Rightarrow> response" where
  "handleCostReport e a r = cost_report_response e a (to_lower (rq_query r ''period''))"

definition handleCostReportByPath :: "api_env \<Rightarrow> HTTPAPI \<Rightarrow> string \<Rightarrow> response" where
  "handleCostReportByPath e a period = cost_report_response e a (to_lower (trim_space period))"

section \<open>Commands\<close>

definition command_of_request :: "commandRequest \<Rightarrow> CommandType \<Rightarrow> Command" where
  "command_of_request req commandType =
     \<lparr>cmd_CommandID = [], cmd_Type = commandType, cmd_IdempotencyKey = crq_IdempotencyKey req,
      cmd_Target = \<lparr>tg_Project = crq_Target req, tg_NodeID = []\<rparr>, cmd_Args = crq_Args req, cmd_Timeout = seconds (crq_Timeout req)\<rparr>"

definition handleCommand_api :: "api_env \<Rightarrow> HTTPAPI \<Rightarrow> request \<Rightarrow> response \<times> HTTPAPI" where
  "handleCommand_api e a r =
     (case api_dispatcher a of
        None \<Rightarrow> (writeError 503 ''command dispatcher unavailable'' ''SERVICE_UNAVAILABLE'', a)
      | Some d \<Rightarrow>
          (case ap_command e (rq_body r) of
             Inl _ \<Rightarrow> (writeError 400 ''invalid request body'' ''BAD_REQUEST'', a)
           | Inr req \<Rightarrow>
               if crq_Type req = [] then (writeError 400 ''type is required'' ''BAD_REQUEST'', a)
               else (case ParseCommandIntent (crq_Type req) of
                  Inl err \<Rightarrow> (writeError 400 (error_text err) ''BAD_REQUEST'', a)
                | Inr commandType \<Rightarrow>
                    (case ap_dispatch e d (command_of_request req commandType) of
                       (Inl _, d') \<Rightarrow> (writeError 500 ''command dispatch failed'' ''DISPATCH_ERROR'', a\<lparr>api_dispatcher := Some d'\<rparr>)
                     | (Inr result, d') \<Rightarrow> (writeJSON 200 (BData (DResult result) None), a\<lparr>api_dispatcher := Some d'\<rparr>)))))"

definition credentialPushIdempotencyGet :: "HTTPAPI \<Rightarrow> string \<Rightarrow> CommandResult option" where
  "credentialPushIdempotencyGet a key = (if key = [] then None else fmlookup (credentialIdempotencyCache a) key)"

definition credentialPushIdempotencySet :: "string \<Rightarrow> CommandResult \<Rightarrow> HTTPAPI \<Rightarrow> HTTPAPI" where
  "credentialPushIdempotencySet key result a =
     (if key = [] then a
      else
        let a1 = (if fmlookup (credentialIdempotencyCache a) key \<noteq> None then a
              else let a0 = a\<lparr>credentialIdempotencyOrder := credentialIdempotencyOrder a @ [key]\<rparr>
                in if length (credentialIdempotencyOrder a0) > maxCredentialIdempotencyEntries
                   then a0\<lparr>credentialIdempotencyOrder := tl (credentialIdempotencyOrder a0),
                           credentialIdempotencyCache := fmdrop (hd (credentialIdempotencyOrder a0)) (credentialIdempotencyCache a0)\<rparr>
                   else a0)
        in a1\<lparr>credentialIdempotencyCache := fmupd key result (credentialIdempotencyCache a1)\<rparr>)"

text \<open>\<open>ap_env_order\<close> is the visiting order of the variables, in the validation and when they are copied.\<close>

definition push_payload :: "pushRequest \<Rightarrow> CredentialPushPayload" where
  "push_payload req = \<lparr>cpp_TargetNode = prq_TargetNode req, cpp_EnvVars = prq_EnvVars req, cpp_Version = prq_Version req\<rparr>"

definition push_command_of :: "api_env \<Rightarrow> pushRequest \<Rightarrow> Command" where
  "push_command_of e req =
     (let envVarsMap = List.map_filter (\<lambda>k. map_option (\<lambda>v. (k, JString v)) (fmlookup (prq_EnvVars req) k)) (ap_env_order e (prq_EnvVars req))
      in \<lparr>cmd_CommandID = [], cmd_Type = CommandTypeCredentialPush, cmd_IdempotencyKey = prq_IdempotencyKey req,
          cmd_Target = \<lparr>tg_Project = [], tg_NodeID = prq_TargetNode req\<rparr>,
          cmd_Args = Some [(''env_vars'', JObject envVarsMap), (''version'', JNumber (of_int (prq_Version req)))], cmd_Timeout = 0\<rparr>)"

text \<open>The remembered result, or that of a dispatch, which is then remembered.\<close>

definition push_result :: "api_env \<Rightarrow> CommandDispatcher \<Rightarrow> pushRequest \<Rightarrow> HTTPAPI \<Rightarrow> CommandResult go_result \<times> HTTPAPI" where
  "push_result e d req a =
     (case credentialPushIdempotencyGet a (prq_IdempotencyKey req) of
        Some result \<Rightarrow> (Inr result, a)
      | None \<Rightarrow>
          (case ap_dispatch e d (push_command_of e req) of
             (Inl err, d') \<Rightarrow> (Inl err, a\<lparr>api_dispatcher := Some d'\<rparr>)
           | (Inr result, d') \<Rightarrow>
               (Inr result, credentialPushIdempotencySet (prq_IdempotencyKey req) result (a\<lparr>api_dispatcher := Some d'\<rparr>))))"

definition audit_push :: "api_env \<Rightarrow> Command \<Rightarrow> CommandResult go_result \<Rightarrow> string \<Rightarrow> HTTPAPI \<Rightarrow> HTTPAPI" where
  "audit_push e cmd result remote a =
     a\<lparr>api_audit := map_option (LogCommand (ap_audit e) (ap_audit_insert e) cmd
         (case result of Inl _ \<Rightarrow> None | Inr r \<Rightarrow> Some r) ''api'' remote (ap_elapsed e)) (api_audit a)\<rparr>"

definition handleCredentialPush :: "api_env \<Rightarrow> HTTPAPI \<Rightarrow> request \<Rightarrow> response \<times> HTTPAPI" where
  "handleCredentialPush e a r =
     (case api_dispatcher a of
        None \<Rightarrow> (writeError 503 ''command dispatcher unavailable'' ''SERVICE_UNAVAILABLE'', a)
      | Some d \<Rightarrow>
          (case ap_push e (rq_body r) of
             Inl _ \<Rightarrow> (writeError 400 ''invalid request body'' ''BAD_REQUEST'', a)
           | Inr req \<Rightarrow>
               (case ValidatePush (ap_env_order e (prq_EnvVars req)) (push_payload req) of
                  Some err \<Rightarrow> (writeError 400 (error_text err) ''VALIDATION_ERROR'', a)
                | None \<Rightarrow>
                    (case push_result e d req a of
                       (result, a') \<Rightarrow>
                         let a'' = audit_push e (push_command_of e req) result (rq_remote r) a'
                         in case result of
                              Inl _ \<Rightarrow> (writeError 500 ''command dispatch failed'' ''DISPATCH_ERROR'', a'')
                            | Inr res \<Rightarrow> (writeJSON 200 (BData (DResult res) None), a'')))))"

definition handleOAuthTrigger :: "api_env \<Rightarrow> HTTPAPI \<Rightarrow> request \<Rightarrow> response \<times> HTTPAPI" where
  "handleOAuthTrigger e a r =
     (case api_oauth a of
        None \<Rightarrow> (writeError 503 ''oauth orchestrator unavailable'' ''SERVICE_UNAVAILABLE'', a)
      | Some orchestrator \<Rightarrow>
          (case ap_oauth_request e (rq_body r) of
             Inl _ \<Rightarrow> (writeError 400 ''invalid request body'' ''BAD_REQUEST'', a)
           | Inr req \<Rightarrow>
               if trim_space (orq_NodeID req) = [] then (writeError 400 ''node_id is required'' ''BAD_REQUEST'', a)
               else if trim_space (orq_Tool req) = [] then (writeError 400 ''tool is required'' ''BAD_REQUEST'', a)
               else (case TriggerOAuth (ap_oauth_result e) (ap_dispatch e) orchestrator (orq_NodeID req) (orq_Tool req) of
                  (Inl _, o') \<Rightarrow> (writeError 500 ''oauth trigger failed'' ''DISPATCH_ERROR'', a\<lparr>api_oauth := Some o'\<rparr>)
                | (Inr result, o') \<Rightarrow> (writeJSON 200 (BData (DOAuth result) None), a\<lparr>api_oauth := Some o'\<rparr>))))"

definition dispatchJSONCommand :: "api_env \<Rightarrow> CommandDispatcher \<Rightarrow> Command \<Rightarrow> (string \<times> go_value) list go_result \<times> CommandDispatcher" where
  "dispatchJSONCommand e d cmd =
     (case ap_dispatch e d cmd of
        (Inl err, d') \<Rightarrow> (Inl (Wrapf ''command dispatch failed: '' err), d')
      | (Inr result, d') \<Rightarrow>
          (if res_Status result \<noteq> CommandStatusSuccess
           then if res_Error result \<noteq> [] then Inl (Errorf (res_Error result))
             else Inl (Errorf (''command failed with status '' @ res_Status result))
           else if res_Output result = [] then Inr []
           else case ap_object e (res_Output result) of
               Inl err \<Rightarrow> Inl (Wrapf ''invalid command output: '' err)
             | Inr decoded \<Rightarrow> Inr decoded, d'))"

definition project_command :: "CommandType \<Rightarrow> string \<Rightarrow> Command" where
  "project_command t project = \<lparr>cmd_CommandID = [], cmd_Type = t, cmd_IdempotencyKey = [],
     cmd_Target = \<lparr>tg_Project = project, tg_NodeID = []\<rparr>, cmd_Args = None, cmd_Timeout = 0\<rparr>"

text \<open>The common body of the two handlers that follow.\<close>

definition project_query :: "CommandType \<Rightarrow> api_env \<Rightarrow> HTTPAPI \<Rightarrow> string \<Rightarrow> response \<times> HTTPAPI" where
  "project_query t e a path_value =
     (case api_dispatcher a of
        None \<Rightarrow> (writeError 503 ''command dispatcher unavailable'' ''SERVICE_UNAVAILABLE'', a)
      | Some d \<Rightarrow>
          let project = trim_space path_value
          in if project = [] then (writeError 400 ''project is required'' ''BAD_REQUEST'', a)
             else (case dispatchJSONCommand e d (project_command t project) of
                (Inl err, d') \<Rightarrow> (writeError 500 (error_text err) ''DISPATCH_ERROR'', a\<lparr>api_dispatcher := Some d'\<rparr>)
              | (Inr output, d') \<Rightarrow> (writeJSON 200 (BData (DObject output) None), a\<lparr>api_dispatcher := Some d'\<rparr>)))"

definition handleEnvStatus :: "api_env \<Rightarrow> HTTPAPI \<Rightarrow> string \<Rightarrow> response \<times> HTTPAPI" where
  "handleEnvStatus = project_query CommandTypeEnvCheck"

definition handleAgentMDDiff :: "api_env \<Rightarrow> HTTPAPI \<Rightarrow> string \<Rightarrow> response \<times> HTTPAPI" where
  "handleAgentMDDiff = project_query CommandTypeAgentMDDiff"

section \<open>Routing\<close>

definition request_bearer :: "request \<Rightarrow> string" where
  "request_bearer r = (if has_prefix (rq_header r) ''Bearer '' then trim_prefix (rq_header r) ''Bearer '' else [])"

definition requireAuth :: "(HTTPAPI \<Rightarrow> request \<Rightarrow> response \<times> HTTPAPI) \<Rightarrow> HTTPAPI \<Rightarrow> request \<Rightarrow> response \<times> HTTPAPI" where
  "requireAuth handler a r =
     (if request_bearer r = [] \<or> request_bearer r \<noteq> api_authToken a
      then (writeError 401 ''unauthorized'' ''AUTH_REQUIRED'', a) else handler a r)"

datatype route = RHealth | RLiveness | RReadiness | RMetrics | RWebSocket
  | RSessions | RSession string | RNodes | RNode string | RNodeAuth string | RDrift | REvents | RCost | RCostPeriod string
  | REnvStatus string | RAgentMD string | RCommand | RPush | ROAuth

fun public_route :: "route \<Rightarrow> bool" where
  "public_route RHealth = True"
| "public_route RLiveness = True"
| "public_route RReadiness = True"
| "public_route RMetrics = True"
| "public_route RWebSocket = True"
| "public_route _ = False"

text \<open>The patterns of the multiplexer; a pattern for GET also matches HEAD, and a wildcard matches one non-empty segment.\<close>

definition get_route :: "bool \<Rightarrow> string list \<Rightarrow> route option" where
  "get_route has_hub path =
     (if path = [''api'', ''v1'', ''health''] then Some RHealth
      else if path = [''healthz''] then Some RLiveness
      else if path = [''readyz''] then Some RReadiness
      else if path = [''metrics''] then Some RMetrics
      else if path = [''ws'', ''agent''] \<and> has_hub then Some RWebSocket
      else if path = [''api'', ''v1'', ''sessions''] then Some RSessions
      else if path = [''api'', ''v1'', ''nodes''] then Some RNodes
      else if path = [''api'', ''v1'', ''auth'', ''drift''] then Some RDrift
      else if path = [''api'', ''v1'', ''events''] then Some REvents
      else if path = [''api'', ''v1'', ''cost''] then Some RCost
      else if length path = 4 \<and> take 3 path = [''api'', ''v1'', ''sessions''] \<and> path ! 3 \<noteq> [] then Some (RSession (path ! 3))
      else if length path = 4 \<and> take 3 path = [''api'', ''v1'', ''nodes''] \<and> path ! 3 \<noteq> [] then Some (RNode (path ! 3))
      else if length path = 5 \<and> take 3 path = [''api'', ''v1'', ''nodes''] \<and> path ! 3 \<noteq> [] \<and> path ! 4 = ''auth'' then Some (RNodeAuth (path ! 3))
      else if length path = 4 \<and> take 3 path = [''api'', ''v1'', ''cost''] \<and> path ! 3 \<noteq> [] then Some (RCostPeriod (path ! 3))
      else if length path = 5 \<and> take 4 path = [''api'', ''v1'', ''env'', ''status''] \<and> path ! 4 \<noteq> [] then Some (REnvStatus (path ! 4))
      else if length path = 5 \<and> take 4 path = [''api'', ''v1'', ''agentmd'', ''diff''] \<and> path ! 4 \<noteq> [] then Some (RAgentMD (path ! 4))
      else None)"

definition post_route :: "string list \<Rightarrow> route option" where
  "post_route path =
     (if path = [''api'', ''v1'', ''commands''] then Some RCommand
      else if path = [''api'', ''v1'', ''commands'', ''credentials'', ''push''] then Some RPush
      else if path = [''api'', ''v1'', ''oauth'', ''trigger''] then Some ROAuth
      else None)"

definition route_of :: "bool \<Rightarrow> request \<Rightarrow> route option" where
  "route_of has_hub r =
     (if rq_method r = ''GET'' \<or> rq_method r = ''HEAD'' then get_route has_hub (rq_path r)
      else if rq_method r = ''POST'' then post_route (rq_path r) else None)"

fun run_route :: "api_env \<Rightarrow> route \<Rightarrow> HTTPAPI \<Rightarrow> request \<Rightarrow> response \<times> HTTPAPI" where
  "run_route e RHealth a r = (handleHealth e a, a)"
| "run_route e RLiveness a r = (handleLiveness e a, a)"
| "run_route e RReadiness a r = (handleReadiness e a, a)"
| "run_route e RMetrics a r = (writeJSON 200 BMetrics, a)"
| "run_route e RWebSocket a r = (writeJSON 101 BUpgrade, a)"
| "run_route e RSessions a r = (handleListSessions e a r, a)"
| "run_route e (RSession i) a r = handleGetSession e a i"
| "run_route e RNodes a r = (handleListNodes e a, a)"
| "run_route e (RNode i) a r = handleGetNode e a i"
| "run_route e (RNodeAuth i) a r = handleNodeAuth e a i"
| "run_route e RDrift a r = (handleAuthDrift e a, a)"
| "run_route e REvents a r = (handleListEvents e a r, a)"
| "run_route e RCost a r = (handleCostReport e a r, a)"
| "run_route e (RCostPeriod p) a r = (handleCostReportByPath e a p, a)"
| "run_route e (REnvStatus p) a r = handleEnvStatus e a p"
| "run_route e (RAgentMD p) a r = handleAgentMDDiff e a p"
| "run_route e RCommand a r = handleCommand_api e a r"
| "run_route e RPush a r = handleCredentialPush e a r"
| "run_route e ROAuth a r = handleOAuthTrigger e a r"

text \<open>The response of the multiplexer to a path or method it does not know is not JSON.\<close>

definition Handler :: "api_env \<Rightarrow> HTTPAPI \<Rightarrow> request \<Rightarrow> response \<times> HTTPAPI" where
  "Handler e a r =
     (case route_of (api_hub a) r of
        None \<Rightarrow> (writeJSON (if get_route (api_hub a) (rq_path r) = None \<and> post_route (rq_path r) = None then 404 else 405) (BStatus []), a)
      | Some target \<Rightarrow> if public_route target then run_route e target a r else requireAuth (run_route e target) a r)"

section \<open>Access\<close>

lemma public_routes_read_only:
  assumes "public_route w" and "run_route e w a r = (resp, a')"
  shows "a' = a" and "rsp_body resp \<noteq> BData d m"
  using assms
  by (cases w; auto simp: handleHealth_def handleLiveness_def handleReadiness_def writeJSON_def Let_def split: option.splits)+


section \<open>Listing\<close>

definition session_matches :: "string \<Rightarrow> string \<Rightarrow> TrackedSession \<Rightarrow> bool" where
  "session_matches status nodeID s \<longleftrightarrow> (status = [] \<or> ts_Status s = status) \<and> (nodeID = [] \<or> ts_NodeID s = nodeID)"

lemma filter_sessions_take:
  "int (length acc) < limit \<Longrightarrow>
   filter_sessions status nodeID limit acc ss = take (nat limit) (acc @ map toSessionJSON (filter (session_matches status nodeID) ss))"
proof (induction ss arbitrary: acc)
  case Nil
  then show ?case by simp
next
  case (Cons s ss)
  show ?case
  proof (cases "session_matches status nodeID s")
    case True
    let ?acc = "acc @ [toSessionJSON s]"
    have step: "filter_sessions status nodeID limit acc (s # ss) =
        (if int (length ?acc) \<ge> limit then ?acc else filter_sessions status nodeID limit ?acc ss)"
      using True by (auto simp: session_matches_def Let_def)
    show ?thesis
    proof (cases "int (length ?acc) \<ge> limit")
      case full: True
      then have "nat limit = length ?acc" using Cons.prems by simp
      then show ?thesis using full True step by simp
    next
      case False
      then show ?thesis using Cons.IH [of ?acc] True step by simp
    qed
  next
    case False
    then have "filter_sessions status nodeID limit acc (s # ss) = filter_sessions status nodeID limit acc ss"
      by (auto simp: session_matches_def)
    then show ?thesis using Cons False by simp
  qed
qed

lemma parseIntParam_pos: "0 < d \<Longrightarrow> 0 < parseIntParam s d"
  by (simp add: parseIntParam_def split: option.split)

lemma parseIntParam_range: "min_int64 \<le> d \<Longrightarrow> d \<le> max_int64 \<Longrightarrow> min_int64 \<le> parseIntParam s d \<and> parseIntParam s d \<le> max_int64"
  by (auto simp: parseIntParam_def dest: parse_int64_range split: option.split)

section \<open>Idempotent credential pushes\<close>

definition push_entries :: "HTTPAPI \<Rightarrow> (string \<times> CommandResult) list" where
  "push_entries a = map (\<lambda>k. (k, the (fmlookup (credentialIdempotencyCache a) k))) (credentialIdempotencyOrder a)"

definition push_memo_inv :: "HTTPAPI \<Rightarrow> bool" where
  "push_memo_inv a \<longleftrightarrow> distinct (credentialIdempotencyOrder a) \<and>
     set (credentialIdempotencyOrder a) = fset (fmdom (credentialIdempotencyCache a)) \<and>
     length (credentialIdempotencyOrder a) \<le> maxCredentialIdempotencyEntries"

lemma push_lookup:
  assumes "push_memo_inv a"
  shows "fmlookup (credentialIdempotencyCache a) k = map_of (push_entries a) k"
proof (cases "k \<in> set (credentialIdempotencyOrder a)")
  case True
  then obtain v where "fmlookup (credentialIdempotencyCache a) k = Some v"
    using assms by (auto simp: push_memo_inv_def fmlookup_dom_iff)
  moreover have "map_of (map (\<lambda>k. (k, f k)) ks) k = Some (f k)" if "k \<in> set ks" for f :: "string \<Rightarrow> CommandResult" and ks
    using that by (induction ks) auto
  ultimately show ?thesis using True by (simp add: push_entries_def)
next
  case False
  then have "fmlookup (credentialIdempotencyCache a) k = None" using assms by (metis push_memo_inv_def fmdom_notD)
  moreover have "map_of (push_entries a) k = None" using False by (auto simp: push_entries_def map_of_eq_None_iff)
  ultimately show ?thesis by simp
qed

lemma push_remember_new:
  assumes "push_memo_inv a" and "k \<noteq> []" and "credentialPushIdempotencyGet a k = None"
  shows "push_memo_inv (credentialPushIdempotencySet k v a) \<and>
    push_entries (credentialPushIdempotencySet k v a) = keep_newest maxCredentialIdempotencyEntries (push_entries a @ [(k, v)])"
proof -
  let ?o = "credentialIdempotencyOrder a" and ?c = "credentialIdempotencyCache a" and ?n = maxCredentialIdempotencyEntries
  have none: "fmlookup ?c k = None" using assms(2,3) by (simp add: credentialPushIdempotencyGet_def)
  have new: "k \<notin> set ?o" using none assms(1) by (auto simp: push_memo_inv_def fmlookup_dom_iff)
  have n: "0 < ?n" by (simp add: maxCredentialIdempotencyEntries_def)
  have inv: "distinct ?o" "set ?o = fset (fmdom ?c)" "length ?o \<le> ?n" using assms(1) by (auto simp: push_memo_inv_def)
  show ?thesis
  proof (cases "length ?o < ?n")
    case True
    then have set: "credentialPushIdempotencySet k v a =
        a\<lparr>credentialIdempotencyOrder := ?o @ [k], credentialIdempotencyCache := fmupd k v ?c\<rparr>"
      using assms(2) none by (simp add: credentialPushIdempotencySet_def Let_def)
    have "push_entries (credentialPushIdempotencySet k v a) = push_entries a @ [(k, v)]"
      using new unfolding set by (auto simp: push_entries_def)
    moreover have "length (push_entries a @ [(k, v)]) \<le> ?n" using True by (simp add: push_entries_def)
    moreover have "push_memo_inv (credentialPushIdempotencySet k v a)"
      unfolding set using inv new True by (auto simp: push_memo_inv_def)
    ultimately show ?thesis by (simp add: keep_newest_small)
  next
    case False
    then have full: "length ?o = ?n" using inv(3) by simp
    then obtain x o' where o: "?o = x # o'" using n by (cases ?o) auto
    have set: "credentialPushIdempotencySet k v a =
        a\<lparr>credentialIdempotencyOrder := o' @ [k], credentialIdempotencyCache := fmupd k v (fmdrop x ?c)\<rparr>"
      using assms(2) none full by (simp add: credentialPushIdempotencySet_def Let_def o)
    have "push_entries (credentialPushIdempotencySet k v a) = tl (push_entries a) @ [(k, v)]"
      using new inv(1) unfolding set by (auto simp: push_entries_def o)
    moreover have "keep_newest ?n (push_entries a @ [(k, v)]) = tl (push_entries a) @ [(k, v)]"
      using full by (simp add: keep_newest_def push_entries_def o)
    moreover have "push_memo_inv (credentialPushIdempotencySet k v a)"
      unfolding set using inv new full by (auto simp: push_memo_inv_def o)
    ultimately show ?thesis by simp
  qed
qed

interpretation pushes: bounded_memo credentialPushIdempotencyGet credentialPushIdempotencySet push_entries push_memo_inv
  "\<lambda>k. k \<noteq> []" maxCredentialIdempotencyEntries
proof
  show "0 < maxCredentialIdempotencyEntries" by (simp add: maxCredentialIdempotencyEntries_def)
  show "distinct (map fst (push_entries s))" "length (push_entries s) \<le> maxCredentialIdempotencyEntries" if "push_memo_inv s" for s
    using that by (auto simp: push_memo_inv_def push_entries_def comp_def)
  show "credentialPushIdempotencyGet s k = map_of (push_entries s) k" if "push_memo_inv s" "k \<noteq> []" for s k
    using push_lookup [OF that(1)] that(2) by (simp add: credentialPushIdempotencyGet_def)
qed (rule push_remember_new)

text \<open>What a push does to the memory of results.\<close>

lemma push_memo_cong:
  assumes "credentialIdempotencyCache a' = credentialIdempotencyCache a" and "credentialIdempotencyOrder a' = credentialIdempotencyOrder a"
  shows "push_entries a' = push_entries a" and "push_memo_inv a' = push_memo_inv a"
    and "credentialPushIdempotencyGet a' k = credentialPushIdempotencyGet a k"
  using assms by (simp_all add: push_entries_def push_memo_inv_def credentialPushIdempotencyGet_def)

lemma audit_push_memo [simp]:
  "credentialIdempotencyCache (audit_push e cmd res remote a) = credentialIdempotencyCache a"
  "credentialIdempotencyOrder (audit_push e cmd res remote a) = credentialIdempotencyOrder a"
  "api_dispatcher (audit_push e cmd res remote a) = api_dispatcher a"
  by (simp_all add: audit_push_def)

lemma push_result_memo:
  assumes "push_memo_inv a" and "push_result e d req a = (res, a')"
  shows "push_memo_inv a' \<and> (push_entries a' = push_entries a \<or>
    (\<exists>v. push_entries a' = keep_newest maxCredentialIdempotencyEntries (push_entries a @ [(prq_IdempotencyKey req, v)])))"
proof (cases "credentialPushIdempotencyGet a (prq_IdempotencyKey req)")
  case (Some v)
  then show ?thesis using assms by (simp add: push_result_def)
next
  case None
  obtain out d' where out: "ap_dispatch e d (push_command_of e req) = (out, d')" by (cases "ap_dispatch e d (push_command_of e req)")
  let ?a = "a\<lparr>api_dispatcher := Some d'\<rparr>"
  have memo: "push_entries ?a = push_entries a" "push_memo_inv ?a" "credentialPushIdempotencyGet ?a (prq_IdempotencyKey req) = None"
    using push_memo_cong [of ?a a] assms(1) None by auto
  show ?thesis
  proof (cases out)
    case (Inl err)
    then show ?thesis using assms(2) None out memo by (auto simp: push_result_def)
  next
    case (Inr result)
    then have a': "a' = credentialPushIdempotencySet (prq_IdempotencyKey req) result ?a"
      using assms(2) None out by (simp add: push_result_def)
    show ?thesis
    proof (cases "prq_IdempotencyKey req = []")
      case True
      then show ?thesis using a' memo by (simp add: credentialPushIdempotencySet_def)
    next
      case False
      then show ?thesis using pushes.remember_new [OF memo(2) False memo(3)] a' memo(1) by auto
    qed
  qed
qed

lemma handleCredentialPush_memo:
  assumes "push_memo_inv a"
  shows "push_memo_inv (snd (handleCredentialPush e a r)) \<and> (\<exists>news. length news \<le> 1 \<and>
    push_entries (snd (handleCredentialPush e a r)) = keep_newest maxCredentialIdempotencyEntries (push_entries a @ news))"
proof -
  have same: "keep_newest maxCredentialIdempotencyEntries (push_entries a) = push_entries a"
    using pushes.inv_length [OF assms] by (rule keep_newest_small)
  consider "snd (handleCredentialPush e a r) = a"
    | d req where "push_memo_inv (snd (handleCredentialPush e a r)) = push_memo_inv (snd (push_result e d req a))"
        "push_entries (snd (handleCredentialPush e a r)) = push_entries (snd (push_result e d req a))"
  proof (cases "api_dispatcher a")
    case (Some d)
    show ?thesis
    proof (cases "ap_push e (rq_body r)")
      case (Inr req)
      show ?thesis
      proof (cases "ValidatePush (ap_env_order e (prq_EnvVars req)) (push_payload req)")
        case None
        have "snd (handleCredentialPush e a r) = audit_push e (push_command_of e req) (fst (push_result e d req a)) (rq_remote r) (snd (push_result e d req a))"
          using Some Inr None by (simp add: handleCredentialPush_def Let_def split: prod.splits sum.splits)
        then show ?thesis using that(2) push_memo_cong(1,2) by (metis audit_push_memo(1,2))
      qed (use that(1) Some Inr in \<open>simp add: handleCredentialPush_def\<close>)
    qed (use that(1) Some in \<open>simp add: handleCredentialPush_def\<close>)
  qed (use that(1) in \<open>simp add: handleCredentialPush_def\<close>)
  then show ?thesis
  proof cases
    case 1
    then show ?thesis using assms same by (intro conjI exI [of _ "[]"]) simp_all
  next
    case (2 d req)
    from push_result_memo [OF assms prod.collapse [symmetric], of e d req]
    consider "push_entries (snd (push_result e d req a)) = push_entries a"
      | v where "push_entries (snd (push_result e d req a)) = keep_newest maxCredentialIdempotencyEntries (push_entries a @ [(prq_IdempotencyKey req, v)])"
      by blast
    then show ?thesis
    proof cases
      case old: 1
      then show ?thesis using 2 push_result_memo [OF assms prod.collapse [symmetric], of e d req] same by (intro conjI exI [of _ "[]"]) simp_all
    next
      case new: (2 v)
      then show ?thesis using 2 push_result_memo [OF assms prod.collapse [symmetric], of e d req]
        by (intro conjI exI [of _ "[(prq_IdempotencyKey req, v)]"]) simp_all
    qed
  qed
qed

definition run_pushes :: "(api_env \<times> request) list \<Rightarrow> HTTPAPI \<Rightarrow> HTTPAPI" where
  "run_pushes rs a = fold (\<lambda>(e, r) a. snd (handleCredentialPush e a r)) rs a"

lemma run_pushes_memo:
  "push_memo_inv a \<Longrightarrow> push_memo_inv (run_pushes rs a) \<and> (\<exists>news. length news \<le> length rs \<and>
    push_entries (run_pushes rs a) = keep_newest maxCredentialIdempotencyEntries (push_entries a @ news))"
proof (induction rs arbitrary: a)
  case Nil
  have "keep_newest maxCredentialIdempotencyEntries (push_entries a) = push_entries a"
    using pushes.inv_length [OF Nil] by (rule keep_newest_small)
  then show ?case using Nil by (intro conjI exI [of _ "[]"]) (simp_all add: run_pushes_def)
next
  case (Cons x rs)
  obtain e r where x: "x = (e, r)" by (cases x)
  let ?a = "snd (handleCredentialPush e a r)"
  obtain n1 where n1: "push_memo_inv ?a" "length n1 \<le> 1" "push_entries ?a = keep_newest maxCredentialIdempotencyEntries (push_entries a @ n1)"
    using handleCredentialPush_memo [OF Cons.prems] by blast
  obtain n2 where n2: "push_memo_inv (run_pushes rs ?a)" "length n2 \<le> length rs"
    "push_entries (run_pushes rs ?a) = keep_newest maxCredentialIdempotencyEntries (push_entries ?a @ n2)"
    using Cons.IH [OF n1(1)] by blast
  have "run_pushes (x # rs) a = run_pushes rs ?a" by (simp add: run_pushes_def x)
  then show ?case using n1 n2 keep_newest_append [of maxCredentialIdempotencyEntries "push_entries a @ n1" n2]
    by (intro conjI exI [of _ "n1 @ n2"]) simp_all
qed

lemma handleCredentialPush_fresh:
  assumes "push_memo_inv a" and "ap_push e (rq_body r) = Inr req" and "prq_IdempotencyKey req \<noteq> []"
    and "credentialPushIdempotencyGet a (prq_IdempotencyKey req) = None"
    and "handleCredentialPush e a r = (\<lparr>rsp_status = 200, rsp_body = BData (DResult res) None\<rparr>, a')"
  shows "push_memo_inv a'" and "push_entries a' = keep_newest maxCredentialIdempotencyEntries (push_entries a @ [(prq_IdempotencyKey req, res)])"
proof -
  obtain d where d: "api_dispatcher a = Some d" using assms(5) by (cases "api_dispatcher a") (auto simp: handleCredentialPush_def writeError_def)
  have valid: "ValidatePush (ap_env_order e (prq_EnvVars req)) (push_payload req) = None"
    using assms(2,5) d by (cases "ValidatePush (ap_env_order e (prq_EnvVars req)) (push_payload req)") (auto simp: handleCredentialPush_def writeError_def)
  obtain out d' where out: "ap_dispatch e d (push_command_of e req) = (out, d')" by (cases "ap_dispatch e d (push_command_of e req)")
  let ?a = "a\<lparr>api_dispatcher := Some d'\<rparr>"
  have memo: "push_entries ?a = push_entries a" "push_memo_inv ?a" "credentialPushIdempotencyGet ?a (prq_IdempotencyKey req) = None"
    using push_memo_cong [of ?a a] assms(1,4) by auto
  have "out = Inr res"
    using assms(2,5) d valid assms(4) out
    by (cases out) (auto simp: handleCredentialPush_def push_result_def writeError_def writeJSON_def Let_def)
  then have a': "a' = audit_push e (push_command_of e req) (Inr res) (rq_remote r) (credentialPushIdempotencySet (prq_IdempotencyKey req) res ?a)"
    using assms(2,5) d valid assms(4) out by (simp add: handleCredentialPush_def push_result_def Let_def)
  show "push_memo_inv a'" "push_entries a' = keep_newest maxCredentialIdempotencyEntries (push_entries a @ [(prq_IdempotencyKey req, res)])"
    using pushes.remember_new [OF memo(2) assms(3) memo(3), of res] memo(1)
      push_memo_cong(1,2) [of a' "credentialPushIdempotencySet (prq_IdempotencyKey req) res ?a"] unfolding a' by auto
qed

text \<open>
  A credential push that was answered is not sent again under the same idempotency key: as long as fewer than
  1000 further pushes have come in, a request with that key is answered with the first result and nothing
  is dispatched, even when it names another node or other credentials.
\<close>
theorem credential_push_replayed:
  assumes "push_memo_inv a" and "ap_push e (rq_body r) = Inr req" and "prq_IdempotencyKey req \<noteq> []"
    and "credentialPushIdempotencyGet a (prq_IdempotencyKey req) = None"
    and "handleCredentialPush e a r = (\<lparr>rsp_status = 200, rsp_body = BData (DResult res) None\<rparr>, a1)"
    and "length rs < maxCredentialIdempotencyEntries" and "a2 = run_pushes rs a1" and "api_dispatcher a2 = Some d"
    and "ap_push e' (rq_body r') = Inr req'" and "prq_IdempotencyKey req' = prq_IdempotencyKey req"
    and "ValidatePush (ap_env_order e' (prq_EnvVars req')) (push_payload req') = None"
    and "handleCredentialPush e' a2 r' = (resp, a3)"
  shows "resp = \<lparr>rsp_status = 200, rsp_body = BData (DResult res) None\<rparr> \<and> api_dispatcher a3 = Some d"
proof -
  let ?k = "prq_IdempotencyKey req" and ?n = maxCredentialIdempotencyEntries
  note first = handleCredentialPush_fresh [OF assms(1-5)]
  obtain news where news: "push_memo_inv a2" "length news \<le> length rs" "push_entries a2 = keep_newest ?n (push_entries a1 @ news)"
    using run_pushes_memo [OF first(1), of rs] assms(7) by blast
  have "push_entries a2 = keep_newest ?n (push_entries a @ (?k, res) # news)"
    using news(3) first(2) keep_newest_append [of ?n "push_entries a @ [(?k, res)]" news] by simp
  then have "(?k, res) \<in> set (push_entries a2)" using keep_newest_recent [of news ?n "(?k, res)" "push_entries a"] news(2) assms(6) by simp
  then have "credentialPushIdempotencyGet a2 ?k = Some res" using pushes.recall_iff [OF news(1) assms(3)] by simp
  then have "push_result e' d req' a2 = (Inr res, a2)" using assms(10) by (simp add: push_result_def)
  then show ?thesis using assms(8,9,11,12) by (auto simp: handleCredentialPush_def writeJSON_def Let_def)
qed

text \<open>A server with one online node, whose agent answers every command.\<close>

definition demo_push :: "string \<Rightarrow> pushRequest" where
  "demo_push node = \<lparr>prq_TargetNode = node, prq_EnvVars = fmupd ''API_KEY'' ''s'' fmempty, prq_Version = 1, prq_IdempotencyKey = ''k''\<rparr>"

definition demo_push_result :: CommandResult where
  "demo_push_result = \<lparr>res_CommandID = ''c'', res_Status = CommandStatusSuccess, res_Output = [], res_Error = [], res_Timestamp = 0\<rparr>"

definition demo_api_env :: "string \<Rightarrow> api_env" where
  "demo_api_env node = \<lparr>ap_codec = unary_codec, ap_now = 0, ap_dispatch = (\<lambda>d c. (Inr demo_push_result, d\<lparr>sent := sent d @ [(node, c)]\<rparr>)),
     ap_command = (\<lambda>_. Inl (Errorf [])), ap_push = (\<lambda>_. Inr (demo_push node)), ap_oauth_request = (\<lambda>_. Inl (Errorf [])),
     ap_oauth_result = (\<lambda>_. Inl (Errorf [])), ap_object = (\<lambda>_. Inr []), ap_sessions = [], ap_nodes = [], ap_rows = [],
     ap_env_order = (\<lambda>_. [''API_KEY'']), ap_select = None, ap_auth_select = None, ap_ping = None, ap_components = (\<lambda>_. []),
     ap_health_order = (\<lambda>_. []), ap_report = demo_report, ap_audit = demo_audit_env, ap_audit_insert = None, ap_elapsed = 0\<rparr>"

definition demo_request :: request where
  "demo_request = \<lparr>rq_method = ''POST'', rq_path = [''api'', ''v1'', ''commands'', ''credentials'', ''push''], rq_header = ''Bearer t'',
     rq_query = (\<lambda>_. []), rq_body = [], rq_remote = []\<rparr>"

definition demo_api :: HTTPAPI where
  "demo_api = NewHTTPAPI (NewNodeRegistry fmempty) (NewSessionTracker fmempty) (Some (demo_dispatcher (NewNodeRegistry fmempty))) None ''t''"

lemma demo_validate:
  assumes "trim_space n \<noteq> []"
  shows "ValidatePush [''API_KEY''] (push_payload (demo_push n)) = None"
proof -
  have "fmupd ''API_KEY'' ''s'' fmempty \<noteq> (fmempty :: (string, string) fmap)" by (metis fmupd_lookup fmempty_lookup option.distinct(1))
  then show ?thesis using assms by (simp add: demo_push_def push_payload_def ValidatePush_def first_empty_def)
qed

lemma demo_api_push:
  assumes "trim_space n \<noteq> []"
  shows "fst (handleCredentialPush (demo_api_env n) demo_api demo_request) = \<lparr>rsp_status = 200, rsp_body = BData (DResult demo_push_result) None\<rparr>"
    and "\<exists>d. api_dispatcher (snd (handleCredentialPush (demo_api_env n) demo_api demo_request)) = Some d"
  using demo_validate [OF assms]
  by (simp_all add: handleCredentialPush_def demo_api_def NewHTTPAPI_def demo_api_env_def push_result_def credentialPushIdempotencyGet_def
      credentialPushIdempotencySet_def writeJSON_def maxCredentialIdempotencyEntries_def Let_def)

lemma credential_push_replayed_witness:
  "rsp_body (fst (handleCredentialPush (demo_api_env ''n2'') (snd (handleCredentialPush (demo_api_env ''n1'') demo_api demo_request)) demo_request)) =
     BData (DResult demo_push_result) None"
proof -
  have t: "trim_space ''n1'' \<noteq> []" "trim_space ''n2'' \<noteq> []" by (simp_all add: trim_space_def is_space_def)
  let ?a1 = "snd (handleCredentialPush (demo_api_env ''n1'') demo_api demo_request)"
  obtain d where d: "api_dispatcher ?a1 = Some d" using demo_api_push(2) [OF t(1)] by blast
  have first: "handleCredentialPush (demo_api_env ''n1'') demo_api demo_request =
      (\<lparr>rsp_status = 200, rsp_body = BData (DResult demo_push_result) None\<rparr>, ?a1)"
    using demo_api_push(1) [OF t(1)] by (metis prod.collapse)
  have inv: "push_memo_inv demo_api" by (simp add: push_memo_inv_def demo_api_def NewHTTPAPI_def)
  have reqs: "ap_push (demo_api_env n) (rq_body demo_request) = Inr (demo_push n)" for n by (simp add: demo_api_env_def)
  have key: "prq_IdempotencyKey (demo_push n) = ''k''" for n by (simp add: demo_push_def)
  have fresh: "credentialPushIdempotencyGet demo_api (prq_IdempotencyKey (demo_push ''n1'')) = None"
    by (simp add: credentialPushIdempotencyGet_def demo_api_def NewHTTPAPI_def)
  have "ValidatePush (ap_env_order (demo_api_env ''n2'') (prq_EnvVars (demo_push ''n2''))) (push_payload (demo_push ''n2'')) = None"
    using demo_validate [OF t(2)] by (simp add: demo_api_env_def)
  from credential_push_replayed [OF inv reqs _ fresh first _ _ d reqs _ this prod.collapse [symmetric], of "[]"]
  show ?thesis by (simp add: key maxCredentialIdempotencyEntries_def run_pushes_def)
qed


section \<open>The list of sessions\<close>

definition listed_session :: "HTTPAPI \<Rightarrow> request \<Rightarrow> TrackedSession \<Rightarrow> bool" where
  "listed_session a r s \<longleftrightarrow> (\<exists>k. fmlookup (sessions (api_tracker a)) k = Some s) \<and>
     (rq_query r ''project'' = [] \<or> ts_Project s = rq_query r ''project'') \<and>
     session_matches (rq_query r ''status'') (rq_query r ''node_id'') s"

text \<open>
  The list of sessions is exact: it holds sessions of the tracker that match every given filter and never
  more than the limit, which is positive; and if no more match than the limit allows, it holds all of them.
\<close>
theorem session_list_exact:
  assumes "iteration_order (sessions (api_tracker a)) (ap_sessions e)" and "limit = parseIntParam (rq_query r ''limit'') 100"
  shows "\<exists>ss. handleListSessions e a r =
      \<lparr>rsp_status = 200, rsp_body = BData (DSessions (map toSessionJSON ss)) (Some \<lparr>meta_Total = int (length ss), meta_Limit = limit, meta_Offset = 0\<rparr>)\<rparr> \<and>
    0 < limit \<and> int (length ss) \<le> limit \<and> set ss \<subseteq> {s. listed_session a r s} \<and>
    (int (length ss) < limit \<longrightarrow> set ss = {s. listed_session a r s})"
proof -
  define ss0 where "ss0 = (if rq_query r ''project'' \<noteq> [] then GetSessionsByProject (api_tracker a) (ap_sessions e) (rq_query r ''project'')
    else GetAllSessions (api_tracker a) (ap_sessions e))"
  let ?match = "filter (session_matches (rq_query r ''status'') (rq_query r ''node_id'')) ss0"
  have pos: "0 < limit" using parseIntParam_pos [of 100] assms(2) by simp
  have all: "set ?match = {s. listed_session a r s}"
    using set_map_values [OF assms(1)] by (auto simp: ss0_def GetSessionsByProject_def GetAllSessions_def listed_session_def)
  let ?ss = "take (nat limit) ?match"
  have "filter_sessions (rq_query r ''status'') (rq_query r ''node_id'') limit [] ss0 = map toSessionJSON ?ss"
    using filter_sessions_take [of "[]" limit] pos by (simp add: take_map)
  then have "handleListSessions e a r = \<lparr>rsp_status = 200, rsp_body = BData (DSessions (map toSessionJSON ?ss))
      (Some \<lparr>meta_Total = int (length ?ss), meta_Limit = limit, meta_Offset = 0\<rparr>)\<rparr>"
    unfolding handleListSessions_def Let_def assms(2) [symmetric] ss0_def [symmetric] by (simp add: writeJSON_def)
  moreover have "int (length ?ss) \<le> limit" using pos by (auto simp: min_def le_nat_iff)
  moreover have "set ?ss \<subseteq> {s. listed_session a r s}" using all set_take_subset by metis
  moreover have "set ?ss = {s. listed_session a r s}" if "int (length ?ss) < limit"
  proof -
    have "length ?match < nat limit" using that pos by (simp add: min_def split: if_splits)
    then show ?thesis using all by simp
  qed
  ultimately show ?thesis using pos by (intro exI [of _ ?ss]) blast
qed

lemma session_list_exact_witness:
  "\<exists>ss. handleListSessions (demo_api_env ''n'') demo_api demo_request =
     \<lparr>rsp_status = 200, rsp_body = BData (DSessions (map toSessionJSON ss)) (Some \<lparr>meta_Total = int (length ss), meta_Limit = 100, meta_Offset = 0\<rparr>)\<rparr>"
proof -
  have "iteration_order (sessions (api_tracker demo_api)) (ap_sessions (demo_api_env ''n''))"
    by (simp add: demo_api_def NewHTTPAPI_def NewSessionTracker_def demo_api_env_def iteration_order_def)
  moreover have "100 = parseIntParam (rq_query demo_request ''limit'') 100" by (simp add: demo_request_def parseIntParam_def)
  ultimately show ?thesis using session_list_exact by blast
qed

end
