(* ===== verification/Migrations.thy ===== *)
theory Migrations
  imports Go_Lib "HOL-Library.Multiset" "HOL-Library.List_Lexorder" "HOL-Library.Char_ord"
begin

text \<open>
  \<open>internal/storage/migrations.go\<close>: applying the embedded SQL files to the database once each. The database is seen
  through what the runner does to it: the table of applied versions with their checksums, and the list of
  scripts that were executed. Outcomes of statements, the embedded directory and the checksum function
  (MD5) are given by the surroundings.
\<close>

section \<open>Loading\<close>

record Migration =
  mig_Version :: string
  mig_Filename :: string
  mig_Content :: string
  mig_Checksum :: string

text \<open>An entry of the embedded directory with the result of reading it.\<close>

record dir_entry =
  de_name :: string
  de_is_dir :: bool
  de_content :: "string go_result"

record migration_env =
  me_entries :: "dir_entry list go_result"
  me_checksum :: "string \<Rightarrow> string"
  me_permute :: "Migration list \<Rightarrow> Migration list"
  me_wal :: exec_outcome
  me_create :: exec_outcome
  me_select :: "string \<Rightarrow> exec_outcome"
  me_exec :: "string \<Rightarrow> exec_outcome"
  me_insert :: "string \<Rightarrow> exec_outcome"

definition migration_of :: "(string \<Rightarrow> string) \<Rightarrow> string \<Rightarrow> string \<Rightarrow> Migration" where
  "migration_of checksum name content =
     \<lparr>mig_Version = hd (str_split name CHR ''_''), mig_Filename = name, mig_Content = content, mig_Checksum = checksum content\<rparr>"

fun read_migrations :: "(string \<Rightarrow> string) \<Rightarrow> dir_entry list \<Rightarrow> Migration list go_result" where
  "read_migrations checksum [] = Inr []"
| "read_migrations checksum (entry # entries) =
     (if de_is_dir entry \<or> \<not> has_suffix (de_name entry) ''.sql'' then read_migrations checksum entries
      else case de_content entry of
          Inl err \<Rightarrow> Inl (Wrapf (''failed to read migration file '' @ de_name entry @ '': '') err)
        | Inr content \<Rightarrow>
            (case read_migrations checksum entries of
               Inl err \<Rightarrow> Inl err
             | Inr ms \<Rightarrow> Inr (migration_of checksum (de_name entry) content # ms)))"

text \<open>\<open>sort.Slice\<close> is not stable: the order of equal versions is that of an arbitrary permutation.\<close>

definition loadMigrations :: "migration_env \<Rightarrow> Migration list go_result" where
  "loadMigrations env =
     (case me_entries env of
        Inl err \<Rightarrow> Inl (Wrapf ''failed to read migrations directory: '' err)
      | Inr entries \<Rightarrow>
          (case read_migrations (me_checksum env) entries of
             Inl err \<Rightarrow> Inl err
           | Inr ms \<Rightarrow> Inr (sort_key mig_Version (me_permute env ms))))"

section \<open>Applying\<close>

record migration_db =
  db_applied :: "(string, string) fmap option"
  db_executed :: "string list"

definition createMigrationsTable :: "migration_env \<Rightarrow> migration_db \<Rightarrow> go_error option \<times> migration_db" where
  "createMigrationsTable env db =
     (case me_create env of
        Some err \<Rightarrow> (Some err, db)
      | None \<Rightarrow> (None, case db_applied db of None \<Rightarrow> db\<lparr>db_applied := Some fmempty\<rparr> | Some _ \<Rightarrow> db))"

definition applyMigration :: "migration_env \<Rightarrow> Migration \<Rightarrow> migration_db \<Rightarrow> go_error option \<times> migration_db" where
  "applyMigration env m db =
     (let v = mig_Version m
      in case me_select env v of
           Some err \<Rightarrow> (Some (Wrapf ''failed to check migration status: '' err), db)
         | None \<Rightarrow>
             (case db_applied db of
                None \<Rightarrow> (Some (Wrapf ''failed to check migration status: '' (Errorf ''no such table: schema_migrations'')), db)
              | Some applied \<Rightarrow>
                  (case fmlookup applied v of
                     Some existingChecksum \<Rightarrow>
                       (if existingChecksum \<noteq> mig_Checksum m
                        then Some (Errorf (''checksum mismatch for migration '' @ v @ '': expected '' @ existingChecksum @ '', got '' @ mig_Checksum m))
                        else None, db)
                   | None \<Rightarrow>
                       (case me_exec env v of
                          Some err \<Rightarrow> (Some (Wrapf ''failed to execute migration SQL: '' err), db)
                        | None \<Rightarrow>
                            let db' = db\<lparr>db_executed := db_executed db @ [mig_Content m]\<rparr>
                            in case me_insert env v of
                                 Some err \<Rightarrow> (Some (Wrapf ''failed to record migration: '' err), db')
                               | None \<Rightarrow> (None, db'\<lparr>db_applied := Some (fmupd v (mig_Checksum m) applied)\<rparr>)))))"

fun apply_migrations :: "migration_env \<Rightarrow> Migration list \<Rightarrow> migration_db \<Rightarrow> go_error option \<times> migration_db" where
  "apply_migrations env [] db = (None, db)"
| "apply_migrations env (m # ms) db =
     (case applyMigration env m db of
        (Some err, db') \<Rightarrow> (Some (Wrapf (''failed to apply migration '' @ mig_Version m @ '': '') err), db')
      | (None, db') \<Rightarrow> apply_migrations env ms db')"

definition Migrate :: "migration_env \<Rightarrow> migration_db \<Rightarrow> go_error option \<times> migration_db" where
  "Migrate env db =
     (case me_wal env of
        Some err \<Rightarrow> (Some (Wrapf ''failed to enable WAL mode: '' err), db)
      | None \<Rightarrow>
          (case createMigrationsTable env db of
             (Some err, db') \<Rightarrow> (Some (Wrapf ''failed to create migrations table: '' err), db')
           | (None, db') \<Rightarrow>
               (case loadMigrations env of
                  Inl err \<Rightarrow> (Some (Wrapf ''failed to load migrations: '' err), db')
                | Inr ms \<Rightarrow> apply_migrations env ms db')))"

section \<open>What a run does\<close>

definition applied_versions :: "migration_db \<Rightarrow> (string, string) fmap" where
  "applied_versions db = (case db_applied db of None \<Rightarrow> fmempty | Some m \<Rightarrow> m)"

lemma applyMigration_None:
  assumes "applyMigration env m db = (None, db')"
  shows "db_applied db \<noteq> None \<and> db_applied db' \<noteq> None \<and> fmlookup (applied_versions db') (mig_Version m) = Some (mig_Checksum m) \<and>
    (if fmlookup (applied_versions db) (mig_Version m) = None
     then db_executed db' = db_executed db @ [mig_Content m] \<and> applied_versions db' = fmupd (mig_Version m) (mig_Checksum m) (applied_versions db)
     else db' = db)"
  using assms by (auto simp: applyMigration_def applied_versions_def Let_def split: option.splits if_splits)

lemma applyMigration_again:
  assumes "me_select env (mig_Version m) = None" and "db_applied db \<noteq> None" and "fmlookup (applied_versions db) (mig_Version m) = Some (mig_Checksum m)"
  shows "applyMigration env m db = (None, db)"
  using assms by (auto simp: applyMigration_def applied_versions_def Let_def)

definition unapplied :: "migration_db \<Rightarrow> Migration list \<Rightarrow> Migration list" where
  "unapplied db ms = filter (\<lambda>m. fmlookup (applied_versions db) (mig_Version m) = None) ms"

lemma apply_migrations_None:
  assumes "apply_migrations env ms db = (None, db')" and "distinct (map mig_Version ms)" and "db_applied db \<noteq> None"
  shows "db_applied db' \<noteq> None \<and> db_executed db' = db_executed db @ map mig_Content (unapplied db ms) \<and>
    (\<forall>v. fmlookup (applied_versions db') v = (case find (\<lambda>m. mig_Version m = v) ms of
       Some m \<Rightarrow> Some (mig_Checksum m) | None \<Rightarrow> fmlookup (applied_versions db) v))"
  using assms
proof (induction ms arbitrary: db)
  case Nil
  then show ?case by (simp add: unapplied_def)
next
  case (Cons m ms)
  obtain db1 where db1: "applyMigration env m db = (None, db1)" "apply_migrations env ms db1 = (None, db')"
    using Cons.prems(1) by (auto split: prod.splits option.splits)
  note one = applyMigration_None [OF db1(1)]
  have IH: "db_applied db' \<noteq> None \<and> db_executed db' = db_executed db1 @ map mig_Content (unapplied db1 ms) \<and>
    (\<forall>v. fmlookup (applied_versions db') v = (case find (\<lambda>m. mig_Version m = v) ms of
       Some m \<Rightarrow> Some (mig_Checksum m) | None \<Rightarrow> fmlookup (applied_versions db1) v))"
    by (rule Cons.IH [OF db1(2)]) (use Cons.prems(2) one in auto)
  have other: "mig_Version m' \<noteq> mig_Version m" if "m' \<in> set ms" for m' using that Cons.prems(2) by (auto) (metis imageI)
  have "fmlookup (applied_versions db1) v = fmlookup (applied_versions db) v" if "v \<noteq> mig_Version m" for v
    using one that by (auto split: if_splits)
  then have "unapplied db1 ms = unapplied db ms" using other by (simp add: unapplied_def cong: filter_cong)
  then have exec: "db_executed db' = db_executed db @ map mig_Content (unapplied db (m # ms))"
    using IH one by (auto simp: unapplied_def split: if_splits)
  have none: "find (\<lambda>m'. mig_Version m' = mig_Version m) ms = None" using other by (auto simp: find_None_iff)
  have "fmlookup (applied_versions db') v = (case find (\<lambda>m. mig_Version m = v) (m # ms) of
       Some m \<Rightarrow> Some (mig_Checksum m) | None \<Rightarrow> fmlookup (applied_versions db) v)" for v
    using IH one none by (cases "v = mig_Version m") (auto split: if_splits option.splits)
  then show ?case using IH exec by blast
qed

lemma apply_migrations_again:
  assumes "\<And>v. me_select env v = None" and "db_applied db \<noteq> None"
    and "\<forall>m \<in> set ms. fmlookup (applied_versions db) (mig_Version m) = Some (mig_Checksum m)"
  shows "apply_migrations env ms db = (None, db)"
  using assms(3) by (induction ms) (auto simp: applyMigration_again assms)

text \<open>Executing a script and recording its version are two statements without a transaction: if the second one fails, the script is executed
  again by the next run.\<close>

lemma unrecorded_migration_runs_again:
  assumes "me_select env (mig_Version m) = None" and "me_exec env (mig_Version m) = None" and "me_insert env (mig_Version m) = Some err"
    and "db_applied db = Some applied" and "fmlookup applied (mig_Version m) = None"
  shows "db_executed (snd (applyMigration env m (snd (applyMigration env m db)))) = db_executed db @ [mig_Content m, mig_Content m]"
  using assms by (simp add: applyMigration_def Let_def)

text \<open>
  C32. Migrations run once and in order. A successful run executes exactly the scripts whose version was not yet
  recorded, in ascending order of their versions, and records the checksum of each; a further run of the
  same program succeeds and neither executes nor records anything.
\<close>
theorem migrations_run_once:
  assumes "Migrate env db = (None, db')" and "loadMigrations env = Inr ms" and "distinct (map mig_Version ms)"
    and "\<And>v. me_select env v = None"
  shows "sorted (map mig_Version ms) \<and>
    db_executed db' = db_executed db @ map mig_Content (unapplied db ms) \<and>
    (\<forall>m \<in> set ms. fmlookup (applied_versions db') (mig_Version m) = Some (mig_Checksum m)) \<and>
    Migrate env db' = (None, db')"
proof -
  obtain db0 where db0: "createMigrationsTable env db = (None, db0)" "apply_migrations env ms db0 = (None, db')" "me_wal env = None"
    using assms(1,2) by (auto simp: Migrate_def split: option.splits prod.splits)
  have same: "db_applied db0 \<noteq> None" "applied_versions db0 = applied_versions db" "db_executed db0 = db_executed db" "me_create env = None"
    using db0(1) by (auto simp: createMigrationsTable_def applied_versions_def split: option.splits)
  note run = apply_migrations_None [OF db0(2) assms(3) same(1)]
  have found: "find (\<lambda>m'. mig_Version m' = mig_Version m) ms = Some m" if "m \<in> set ms" for m
    using that assms(3) by (induction ms) auto
  then have rec: "\<forall>m \<in> set ms. fmlookup (applied_versions db') (mig_Version m) = Some (mig_Checksum m)" using run by simp
  have "createMigrationsTable env db' = (None, db')" using run same(4) by (auto simp: createMigrationsTable_def split: option.splits)
  then have "Migrate env db' = (None, db')"
    using db0(3) assms(2) apply_migrations_again [OF assms(4) _ rec] run by (simp add: Migrate_def)
  moreover have "sorted (map mig_Version ms)" using assms(2) by (auto simp: loadMigrations_def split: sum.splits)
  moreover have "unapplied db0 ms = unapplied db ms" by (simp add: unapplied_def same(2))
  ultimately show ?thesis using run rec same(3) by simp
qed

definition demo_migrations :: migration_env where
  "demo_migrations = \<lparr>me_entries = Inr [\<lparr>de_name = ''001_a.sql'', de_is_dir = False, de_content = Inr ''A''\<rparr>,
       \<lparr>de_name = ''002_b.sql'', de_is_dir = False, de_content = Inr ''B''\<rparr>],
     me_checksum = (\<lambda>s. s), me_permute = (\<lambda>ms. rev ms), me_wal = None, me_create = None,
     me_select = (\<lambda>_. None), me_exec = (\<lambda>_. None), me_insert = (\<lambda>_. None)\<rparr>"

lemma migrations_run_once_witness:
  "\<exists>db'. Migrate demo_migrations \<lparr>db_applied = None, db_executed = []\<rparr> = (None, db') \<and> db_executed db' = [''A'', ''B''] \<and>
     Migrate demo_migrations db' = (None, db')"
proof -
  let ?db = "\<lparr>db_applied = None, db_executed = []\<rparr>"
  obtain ms where ms: "loadMigrations demo_migrations = Inr ms" "map mig_Version ms = [''001'', ''002'']" "map mig_Content ms = [''A'', ''B'']"
    by (simp add: loadMigrations_def demo_migrations_def migration_of_def has_suffix_def)
  have "fst (Migrate demo_migrations ?db) = None" by code_simp
  then obtain db' where db': "Migrate demo_migrations ?db = (None, db')" by (metis prod.collapse)
  have "distinct (map mig_Version ms)" "\<And>v. me_select demo_migrations v = None" using ms(2) by (simp_all add: demo_migrations_def)
  from migrations_run_once [OF db' ms(1) this] show ?thesis
    using db' ms(3) by (auto simp: unapplied_def applied_versions_def)
qed

end
