(* ===== verification/Supervisor_Server.thy ===== *)
theory Supervisor_Server
  imports Http_Api Migrations
begin

text \<open>
  \<open>supervisor/server.go\<close>, \<open>supervisor/security.go\<close> (\<open>LoadTLSConfig\<close>) and \<open>cmd/supervisor/main.go\<close>: the life of the
  supervisor's process and how its parts are put together. The hub is seen with its goroutines
  (\<open>hub_run\<close>); pointers that parts share are resolved where they are read.
\<close>

section \<open>The server\<close>

text \<open>A loaded TLS configuration is its certificate.\<close>

definition LoadTLSConfig :: "(string \<Rightarrow> string \<Rightarrow> string go_result) \<Rightarrow> TLSConfig \<Rightarrow> string option go_result" where
  "LoadTLSConfig load cfg =
     (if \<not> tls_Enabled cfg then Inr None
      else case load (CertPath cfg) (KeyPath cfg) of
          Inl err \<Rightarrow> Inl err
        | Inr cert \<Rightarrow> Inr (Some cert))"

text \<open>\<open>srv_cancelled\<close>: the context has ended; \<open>srv_ws_up\<close> and \<open>srv_http_up\<close>: the listeners are serving;
  \<open>srv_wsShutdown\<close> and \<open>srv_httpShutdown\<close>: the functions are set.\<close>

record Server =
  srv_cfg :: SupervisorConfig
  srv_configPath :: string
  srv_run :: hub_run
  srv_cancelled :: bool
  srv_running :: bool
  srv_has_registry :: bool
  srv_httpAPI :: "HTTPAPI option"
  srv_httpShutdown :: bool
  srv_wsShutdown :: bool
  srv_ws_up :: bool
  srv_http_up :: bool
  srv_costs :: "CostAggregator option"
  srv_audit :: "audit_table option option"
  srv_tlsConfig :: "string option"

abbreviation srv_hub :: "Server \<Rightarrow> Hub" where
  "srv_hub s \<equiv> hub (srv_run s)"

definition set_hub :: "Hub \<Rightarrow> Server \<Rightarrow> Server" where
  "set_hub h s = s\<lparr>srv_run := (srv_run s)\<lparr>hub := h\<rparr>\<rparr>"

text \<open>\<open>r\<close> is the registry that will be configured; the loop of the hub does not run yet.\<close>

definition NewServer :: "NodeRegistry \<Rightarrow> SupervisorConfig \<Rightarrow> Server" where
  "NewServer r cfg =
     (let origins = (if OriginAllowlist (Security cfg) \<noteq> [] then OriginAllowlist (Security cfg) else AllowedOrigins (Server cfg));
          h = NewHub r (AuthToken (Server cfg)) origins (seconds (HeartbeatIntervalSec (Server cfg))) (HeartbeatTimeoutCount (Server cfg));
          h' = (if OriginAllowlist (Security cfg) \<noteq> [] then SetStrictOrigin h True else h)
      in \<lparr>srv_cfg = cfg, srv_configPath = [], srv_run = (hub_start h')\<lparr>running := False\<rparr>, srv_cancelled = False, srv_running = False,
          srv_has_registry = False, srv_httpAPI = None, srv_httpShutdown = False, srv_wsShutdown = False, srv_ws_up = False,
          srv_http_up = False, srv_costs = None, srv_audit = None, srv_tlsConfig = None\<rparr>)"

definition SetTLSConfig :: "string option \<Rightarrow> Server \<Rightarrow> Server" where
  "SetTLSConfig tlsCfg s = s\<lparr>srv_tlsConfig := tlsCfg\<rparr>"

definition SetServerAudit :: "audit_table option option \<Rightarrow> Server \<Rightarrow> Server" where
  "SetServerAudit audit s = s\<lparr>srv_audit := audit\<rparr>"

definition SetConfigPath :: "string \<Rightarrow> Server \<Rightarrow> Server" where
  "SetConfigPath path s = s\<lparr>srv_configPath := path\<rparr>"

definition SetRegistry :: "bool \<Rightarrow> Server \<Rightarrow> Server" where
  "SetRegistry present s =
     (let s1 = s\<lparr>srv_has_registry := present\<rparr>
      in if present
         then set_hub (ConfigureCredentialReconciliation (ConfigureNodeRegistry (srv_hub s1) True) True (cred_Version (Credentials (srv_cfg s1)))) s1
         else s1)"

definition SetHTTPAPI :: "HTTPAPI \<Rightarrow> Server \<Rightarrow> Server" where
  "SetHTTPAPI api s =
     (let api1 = SetHub True api;
          api2 = (if srv_costs s \<noteq> None then SetCostAggregator (srv_costs s) api1 else api1);
          hc = NewHealthChecker False (Some (srv_hub s)) None (srv_costs s)
      in s\<lparr>srv_httpAPI := Some (SetHealthChecker (Some hc) api2)\<rparr>)"

definition SetServerCosts :: "CostAggregator option \<Rightarrow> Server \<Rightarrow> Server" where
  "SetServerCosts aggregator s =
     s\<lparr>srv_costs := aggregator, srv_httpAPI := map_option (SetCostAggregator aggregator) (srv_httpAPI s)\<rparr>"

definition RotateToken :: "string \<Rightarrow> Server \<Rightarrow> go_error option \<times> Server" where
  "RotateToken newToken s =
     (if length newToken < 32 then (Some (Errorf ''token must be at least 32 characters''), s)
      else
        let cfg = srv_cfg s;
            s1 = s\<lparr>srv_cfg := cfg\<lparr>Server := (Server cfg)\<lparr>AuthToken := newToken\<rparr>\<rparr>\<rparr>
        in (None, set_hub (UpdateAuthToken (srv_hub s1) newToken) s1))"

section \<open>Start and stop\<close>

text \<open>\<open>Start\<close> tests \<open>running\<close> and sets it under two separate locks; the two halves are two steps. The results
  of the two calls of \<open>ListenAndServe\<close> are only logged.\<close>

definition start_check :: "Server \<Rightarrow> go_error option" where
  "start_check s = (if srv_running s then Some (Errorf ''server is already running'') else None)"

definition start_body :: "exec_outcome \<Rightarrow> exec_outcome \<Rightarrow> Server \<Rightarrow> Server" where
  "start_body ws_listen http_listen s =
     (let s1 = s\<lparr>srv_running := True, srv_run := (srv_run s)\<lparr>running := True\<rparr>,
           srv_costs := map_option (snd \<circ> StartCost) (srv_costs s), srv_ws_up := (ws_listen = None), srv_wsShutdown := True\<rparr>
      in if srv_httpAPI s1 \<noteq> None \<and> HTTPPort (Server (srv_cfg s1)) > 0
         then s1\<lparr>srv_http_up := (http_listen = None), srv_httpShutdown := True\<rparr>
         else s1)"

definition StartServer :: "exec_outcome \<Rightarrow> exec_outcome \<Rightarrow> Server \<Rightarrow> go_error option \<times> Server" where
  "StartServer ws_listen http_listen s =
     (case start_check s of
        Some err \<Rightarrow> (Some err, s)
      | None \<Rightarrow> (None, start_body ws_listen http_listen s))"

text \<open>Errors of the shutdowns and the timeout of the final wait are only logged.\<close>

definition StopServer :: "Server \<Rightarrow> go_error option \<times> Server" where
  "StopServer s =
     (if \<not> srv_running s then (Some (Errorf ''server is not running''), s)
      else
        let s1 = (if srv_wsShutdown s then s\<lparr>srv_ws_up := False\<rparr> else s);
            s2 = (if srv_httpShutdown s1 then s1\<lparr>srv_http_up := False\<rparr> else s1);
            s3 = s2\<lparr>srv_cancelled := True, srv_costs := map_option StopCost (srv_costs s2)\<rparr>
        in (None, s3\<lparr>srv_running := False\<rparr>))"

definition IsServerRunning :: "Server \<Rightarrow> bool" where
  "IsServerRunning s = srv_running s"

text \<open>The maintenance goroutine starts the rotation loop under this condition; a tick of the loop gets the result of
  reading the configuration file again (\<open>srv_wsShutdown\<close> is set once \<open>Start\<close> has run).\<close>

definition rotation_active :: "Server \<Rightarrow> bool" where
  "rotation_active s \<longleftrightarrow> srv_wsShutdown s \<and> rotation_Enabled (Security (srv_cfg s)) \<and> srv_configPath s \<noteq> []"

definition rotation_tick :: "SupervisorConfig go_result \<Rightarrow> Server \<Rightarrow> Server" where
  "rotation_tick loaded s =
     (case loaded of
        Inl _ \<Rightarrow> s
      | Inr newCfg \<Rightarrow>
          if AuthToken (Server newCfg) \<noteq> AuthToken (Server (srv_cfg s)) then snd (RotateToken (AuthToken (Server newCfg)) s) else s)"

section \<open>The program\<close>

record main_env =
  mn_config :: "SupervisorConfig go_result"
  mn_open :: exec_outcome
  mn_migrations :: migration_env
  mn_schema :: migration_db
  mn_nodes :: "(string, node_row) fmap"
  mn_sessions :: "(string, session_row) fmap"
  mn_idempotency :: "(string, idempotency_row) fmap"
  mn_events :: "(string, event_row) fmap"
  mn_audit :: audit_table
  mn_ws_listen :: exec_outcome
  mn_http_listen :: exec_outcome

definition NewCommandDispatcher :: "(string, idempotency_row) fmap \<Rightarrow> NodeRegistry \<Rightarrow> SessionTracker \<Rightarrow> Server \<Rightarrow> CommandDispatcher \<times> Server" where
  "NewCommandDispatcher table r t s =
     (\<lparr>d_has_db = True, idempotency = table, d_registry = Some r, d_tracker = Some t, d_has_transport = True, sent = []\<rparr>,
      set_hub (ConfigureCommandResultDispatcher (srv_hub s) (Some new_router)) s)"

text \<open>The wiring of \<open>main\<close>, from the configuration to the call of \<open>Start\<close>.\<close>

definition wire_server :: "main_env \<Rightarrow> SupervisorConfig \<Rightarrow> Server" where
  "wire_server w cfg =
     (let r = NewNodeRegistry (mn_nodes w);
          t = NewSessionTracker (mn_sessions w);
          (d, s1) = NewCommandDispatcher (mn_idempotency w) r t (NewServer r cfg);
          audit = Some (Some (mn_audit w));
          s2 = SetRegistry True (SetServerAudit audit s1)
      in if HTTPPort (Server cfg) > 0
         then SetHTTPAPI (SetAuditLogger audit (NewHTTPAPI r t (Some d) (Some (mn_events w)) (AuthToken (Server cfg)))) s2
         else s2)"

text \<open>The program up to the wait for a signal: the exit code, or the running server. The Discord bot that is started
  afterwards, if a token is configured, has no influence on it.\<close>

definition supervisor_main :: "main_env \<Rightarrow> int + Server" where
  "supervisor_main w =
     (case mn_config w of
        Inl _ \<Rightarrow> Inl 1
      | Inr cfg \<Rightarrow>
          if mn_open w \<noteq> None then Inl 1
          else if fst (Migrate (mn_migrations w) (mn_schema w)) \<noteq> None then Inl 1
          else case StartServer (mn_ws_listen w) (mn_http_listen w) (wire_server w cfg) of
              (Some _, _) \<Rightarrow> Inl 1
            | (None, s) \<Rightarrow> Inr s)"

definition supervisor_exit :: "Server \<Rightarrow> int" where
  "supervisor_exit s = (case StopServer s of (Some _, _) \<Rightarrow> 1 | (None, _) \<Rightarrow> 0)"

section \<open>The running server\<close>

text \<open>What happens while the process runs: a request to the HTTP interface, a step of the hub and its goroutines, a
  tick of the rotation, the end of the loop of the hub, a poll of the costs, and the end of the process's main function. The
  hub's loop ends only when the context has.\<close>

inductive server_step :: "hub_world \<Rightarrow> Server \<Rightarrow> Server \<Rightarrow> bool" for hw where
  request: "srv_http_up s \<Longrightarrow> srv_httpAPI s = Some a \<Longrightarrow> Handler e a r = (resp, a') \<Longrightarrow>
    server_step hw s (s\<lparr>srv_httpAPI := Some a'\<rparr>)"
| hub_goroutine: "hub_step hw (srv_run s) run' \<Longrightarrow> authToken (hub run') = authToken (srv_hub s) \<Longrightarrow>
    running run' = running (srv_run s) \<or> srv_cancelled s \<Longrightarrow> server_step hw s (s\<lparr>srv_run := run'\<rparr>)"
| rotate: "rotation_active s \<Longrightarrow> server_step hw s (rotation_tick loaded s)"
| poll: "srv_costs s = Some c \<Longrightarrow> ca_running c \<Longrightarrow> server_step hw s (s\<lparr>srv_costs := Some (pollCycle env tc w ord c)\<rparr>)"
| stop: "server_step hw s (snd (StopServer s))"

inductive server_reachable :: "hub_world \<Rightarrow> Server \<Rightarrow> Server \<Rightarrow> bool" for hw s0 where
  start: "server_reachable hw s0 s0"
| step: "server_reachable hw s0 s \<Longrightarrow> server_step hw s s' \<Longrightarrow> server_reachable hw s0 s'"

section \<open>The token of the hub\<close>

lemma close_token [simp]: "authToken (set_conn h c ac) = authToken h" "authToken (close_send h c) = authToken h"
  "authToken (close_ws h c) = authToken h" "authToken (emit_event ev h) = authToken h"
  "authToken (registerNodeOnline tc now out i h) = authToken h" "authToken (registerNodeOffline tc now qout out i h) = authToken h"
  by (auto simp: set_conn_def close_send_def close_ws_def emit_event_def registerNodeOnline_def registerNodeOffline_def split: option.splits)

lemma unless_panic_token: "(\<And>h. authToken (f h) = authToken h) \<Longrightarrow> authToken (unless_panic f h) = authToken h"
  by (simp add: unless_panic_def)

lemma run_broadcast_token [simp]: "authToken (run_broadcast msg ks h) = authToken h"
  by (induction msg ks h rule: run_broadcast.induct) (auto split: option.splits)

lemma run_done_token [simp]: "authToken (run_done ks h) = authToken h"
  by (induction ks arbitrary: h) (auto simp: unless_panic_def split: option.splits)

lemma drop_timed_out_token [simp]: "authToken (drop_timed_out tc now outs cs h) = authToken h"
  by (induction cs arbitrary: h) (auto split: option.splits)

lemma read_message_token [simp]: "authToken (read_message w now qout c ac msg h) = authToken h"
  by (auto simp: read_message_def handleEnvelope_def Let_def reconcileCredentialSync_def reconcileAuthState_def
      handleCommandResultEnvelope_def split: sum.splits option.splits)

lemma transport_send_token [simp]: "authToken (snd (transport_send n c data h)) = authToken h"
  by (auto simp: transport_send_def split: option.splits)

lemma run_register_token [simp]: "authToken (run_register tc now out c ac h) = authToken h"
  by (auto simp: run_register_def Let_def unless_panic_def split: option.splits)

lemma run_unregister_token [simp]: "authToken (run_unregister tc now qout out c ac h) = authToken h"
  by (auto simp: run_unregister_def unless_panic_def)

text \<open>So the rule \<open>hub_goroutine\<close> leaves out the rotation of the token only, which has a rule of its own.\<close>

lemma hub_step_token:
  assumes "hub_step w s s'"
  shows "authToken (hub s') = authToken (hub s) \<or> (\<exists>token. s' = s\<lparr>hub := UpdateAuthToken (hub s) token\<rparr>)"
  using assms
  by cases (auto simp: checkHeartbeats_def unless_panic_def)

section \<open>What requests keep\<close>

lemma push_set_keeps [simp]:
  "api_authToken (credentialPushIdempotencySet k v a) = api_authToken a"
  "api_healthChecker (credentialPushIdempotencySet k v a) = api_healthChecker a"
  "api_costs (credentialPushIdempotencySet k v a) = api_costs a"
  "api_hub (credentialPushIdempotencySet k v a) = api_hub a"
  by (simp_all add: credentialPushIdempotencySet_def Let_def)

definition api_config :: "HTTPAPI \<Rightarrow> string \<times> HealthChecker option \<times> CostAggregator option \<times> bool" where
  "api_config a = (api_authToken a, api_healthChecker a, api_costs a, api_hub a)"

lemma push_result_keeps: "push_result e d req a = (result, a') \<Longrightarrow> api_config a' = api_config a"
  by (auto simp: push_result_def api_config_def split: option.splits prod.splits sum.splits)

lemma read_handlers_keep:
  "api_config (snd (handleGetSession e a i)) = api_config a"
  "api_config (snd (handleGetNode e a i)) = api_config a"
  "api_config (snd (handleNodeAuth e a i)) = api_config a"
  by (auto simp: handleGetSession_def handleGetNode_def handleNodeAuth_def api_config_def split: prod.splits sum.splits)

lemma command_handlers_keep:
  "api_config (snd (handleCommand_api e a r)) = api_config a"
  "api_config (snd (project_query t e a p)) = api_config a"
  "api_config (snd (handleOAuthTrigger e a r)) = api_config a"
  by (auto simp: handleCommand_api_def project_query_def handleOAuthTrigger_def api_config_def Let_def split: prod.splits sum.splits option.splits)

lemma push_handler_keeps: "api_config (snd (handleCredentialPush e a r)) = api_config a"
proof -
  have audit: "api_config (audit_push e cmd result remote a') = api_config a'" for cmd result remote a'
    by (simp add: audit_push_def api_config_def)
  show ?thesis
    using push_result_keeps [of e _ _ a]
    by (auto simp: handleCredentialPush_def Let_def audit split: option.splits sum.splits prod.splits)
qed

lemma Handler_keeps: "Handler e a r = (resp, a') \<Longrightarrow> api_config a' = api_config a"
proof -
  have route: "api_config (snd (run_route e w a r)) = api_config a" for w
    by (cases w) (simp_all add: read_handlers_keep command_handlers_keep push_handler_keeps handleEnvStatus_def handleAgentMDDiff_def)
  assume "Handler e a r = (resp, a')"
  then show ?thesis
    using route by (auto simp: Handler_def requireAuth_def split: option.splits if_splits) (metis snd_conv)+
qed

section \<open>Start and stop\<close>

text \<open>\<open>Start\<close> succeeds even if neither port can be opened.\<close>

lemma start_hides_listen_errors: "\<not> srv_running s \<Longrightarrow> fst (StartServer (Some e1) (Some e2) s) = None"
  by (simp add: StartServer_def start_check_def)

lemma second_start_refused:
  assumes "StartServer wl hl s = (None, s')"
  shows "StartServer wl' hl' s' = (Some (Errorf ''server is already running''), s')"
proof -
  have "s' = start_body wl hl s" using assms by (auto simp: StartServer_def split: option.splits)
  then have "srv_running s'" by (simp add: start_body_def Let_def)
  then show ?thesis by (simp add: StartServer_def start_check_def)
qed

lemma stop_after_start:
  assumes "StartServer wl hl s = (None, s')"
  shows "fst (StopServer s') = None \<and> \<not> srv_ws_up (snd (StopServer s')) \<and> srv_cancelled (snd (StopServer s')) \<and>
    \<not> srv_running (snd (StopServer s')) \<and> fst (StopServer (snd (StopServer s'))) \<noteq> None"
proof -
  have "s' = start_body wl hl s" using assms by (auto simp: StartServer_def split: option.splits)
  then have "srv_running s'" "srv_wsShutdown s'" by (simp_all add: start_body_def Let_def)
  then show ?thesis by (simp add: StopServer_def Let_def)
qed

section \<open>The wiring\<close>

lemmas wiring_defs = wire_server_def NewCommandDispatcher_def NewServer_def SetRegistry_def SetServerAudit_def SetHTTPAPI_def
  SetCostAggregator_def SetHealthChecker_def SetAuditLogger_def SetHub_def NewHTTPAPI_def NewHealthChecker_def
  set_hub_def NewHub_def SetStrictOrigin_def ConfigureCredentialReconciliation_def ConfigureNodeRegistry_def
  ConfigureCommandResultDispatcher_def hub_start_def

lemma wired:
  "srv_cfg (wire_server w cfg) = cfg" "srv_configPath (wire_server w cfg) = []" "srv_costs (wire_server w cfg) = None"
  "srv_running (wire_server w cfg) = False" "authToken (srv_hub (wire_server w cfg)) = AuthToken (Server cfg)"
  by (simp_all add: wiring_defs Let_def)

lemma wired_api:
  "HTTPPort (Server cfg) > 0 \<Longrightarrow> \<exists>a h. srv_httpAPI (wire_server w cfg) = Some a \<and>
     api_config a = (AuthToken (Server cfg), Some (NewHealthChecker False (Some h) None None), None, True)"
  "\<not> HTTPPort (Server cfg) > 0 \<Longrightarrow> srv_httpAPI (wire_server w cfg) = None"
  by (simp_all add: wiring_defs Let_def api_config_def)

definition server_token :: "Server \<Rightarrow> string" where
  "server_token s = AuthToken (Server (srv_cfg s))"

text \<open>What the steps of a server keep: the HTTP interface keeps its configuration, the hub has the current token, and a token
  is the first one or long.\<close>

definition server_inv :: "string \<Rightarrow> Server \<Rightarrow> Server \<Rightarrow> bool" where
  "server_inv token s0 s \<longleftrightarrow> map_option api_config (srv_httpAPI s) = map_option api_config (srv_httpAPI s0) \<and>
     srv_configPath s = srv_configPath s0 \<and> authToken (srv_hub s) = server_token s \<and>
     (server_token s = token \<or> srv_configPath s0 \<noteq> [] \<and> length (server_token s) \<ge> 32)"

lemma rotation_tick_inv:
  assumes "server_inv token s0 s" and "rotation_active s"
  shows "server_inv token s0 (rotation_tick loaded s)"
proof (cases loaded)
  case (Inr newCfg)
  show ?thesis
    using assms unfolding rotation_tick_def Inr sum.case
    by (auto simp: server_inv_def RotateToken_def server_token_def set_hub_def UpdateAuthToken_def rotation_active_def Let_def)
qed (simp add: rotation_tick_def assms)

lemma server_step_inv:
  assumes "server_step hw s s'" and "server_inv token s0 s"
  shows "server_inv token s0 s'"
  using assms(1)
proof cases
  case (request a e r resp a')
  then show ?thesis using assms(2) Handler_keeps [OF request(4)] by (simp add: server_inv_def server_token_def)
next
  case (rotate loaded)
  then show ?thesis using rotation_tick_inv [OF assms(2)] by simp
qed (use assms(2) in \<open>auto simp: server_inv_def server_token_def StopServer_def Let_def\<close>)

lemma server_reachable_inv:
  assumes "server_reachable hw s0 s" and "server_inv token s0 s0"
  shows "server_inv token s0 s"
  using assms by induction (auto intro: server_step_inv)

lemma started_inv:
  assumes "StartServer wl hl (SetConfigPath path (wire_server w cfg)) = (None, s0)"
  shows "server_inv (AuthToken (Server cfg)) s0 s0" and "srv_httpAPI s0 = srv_httpAPI (wire_server w cfg)" and "srv_configPath s0 = path"
proof -
  have s0: "s0 = start_body wl hl (SetConfigPath path (wire_server w cfg))"
    using assms by (auto simp: StartServer_def split: option.splits)
  show api: "srv_httpAPI s0 = srv_httpAPI (wire_server w cfg)" and "srv_configPath s0 = path"
    by (simp_all add: s0 start_body_def SetConfigPath_def Let_def)
  have "srv_cfg s0 = cfg" "authToken (srv_hub s0) = AuthToken (Server cfg)"
    using wired [of w cfg] by (simp_all add: s0 start_body_def SetConfigPath_def Let_def)
  then show "server_inv (AuthToken (Server cfg)) s0 s0" by (simp add: server_inv_def server_token_def)
qed

text \<open>
  C33. A rotated token reaches the web sockets only. In every state of a server that was wired as by the program, given the
  path of its configuration file and started, agents are admitted with the current token, which is the initial one or has
  at least 32 characters, while the HTTP interface goes on to admit exactly the requests with the initial
  token, whatever rotations there were.
\<close>
theorem rotation_reaches_only_web_sockets:
  assumes "StartServer wl hl (SetConfigPath path (wire_server w cfg)) = (None, s0)" and "HTTPPort (Server cfg) > 0"
    and "server_reachable hw s0 s"
  shows "(server_token s = AuthToken (Server cfg) \<or> 32 \<le> length (server_token s)) \<and>
    (request_token q = server_token s \<or> ServeWS (srv_hub s) now q = None) \<and>
    (\<exists>a. srv_httpAPI s = Some a \<and> requireAuth handler a r =
       (if request_bearer r \<noteq> [] \<and> request_bearer r = AuthToken (Server cfg) then handler a r
        else (writeError 401 ''unauthorized'' ''AUTH_REQUIRED'', a)))"
proof -
  note inv = server_reachable_inv [OF assms(3) started_inv(1) [OF assms(1)]]
  obtain a where "srv_httpAPI s = Some a" "api_authToken a = AuthToken (Server cfg)"
    using inv wired_api(1) [OF assms(2), of w] started_inv(2) [OF assms(1)] by (auto simp: server_inv_def api_config_def)
  then show ?thesis using inv by (auto simp: server_inv_def ServeWS_def requireAuth_def)
qed

text \<open>
  C34. The supervisor that the program starts is never ready. In every state it can reach, an answer to \<open>/readyz\<close> has the
  code 503, since the health checker is built without database, dispatcher and cost aggregator; so has an
  authorised request for costs; and no rotation happens, both interfaces keep the configured token.
\<close>
theorem started_supervisor_never_ready:
  assumes "supervisor_main w = Inr s0" and "mn_config w = Inr cfg" and "server_reachable hw s0 s"
    and "\<And>m. iteration_order m (ap_health_order e m)" and "srv_httpAPI s = Some a"
    and "rq_method r = ''GET''" and "rq_path r = [''readyz'']"
  shows "rsp_status (fst (Handler e a r)) = 503 \<and>
    cost_report_response e a period = writeError 503 ''cost aggregator unavailable'' ''SERVICE_UNAVAILABLE'' \<and>
    authToken (srv_hub s) = AuthToken (Server cfg) \<and> api_authToken a = AuthToken (Server cfg)"
proof -
  have "wire_server w cfg = SetConfigPath [] (wire_server w cfg)" using wired(2) [of w cfg] by (simp add: SetConfigPath_def)
  then have start: "StartServer (mn_ws_listen w) (mn_http_listen w) (SetConfigPath [] (wire_server w cfg)) = (None, s0)"
    using assms(1,2) by (auto simp: supervisor_main_def split: prod.splits option.splits if_splits)
  note inv = server_reachable_inv [OF assms(3) started_inv(1) [OF start]]
  have api: "map_option api_config (srv_httpAPI (wire_server w cfg)) = Some (api_config a)"
    using inv assms(5) started_inv(2) [OF start] by (simp add: server_inv_def)
  then have "HTTPPort (Server cfg) > 0" using wired_api(2) [of cfg w] by (cases "HTTPPort (Server cfg) > 0") auto
  then obtain h where cfg: "api_authToken a = AuthToken (Server cfg)"
    "api_healthChecker a = Some (NewHealthChecker False (Some h) None None)" "api_costs a = None"
    using api wired_api(1) [of cfg w] by (auto simp: api_config_def)
  have "authToken (srv_hub s) = AuthToken (Server cfg)"
    using inv started_inv(3) [OF start] cfg by (simp add: server_inv_def)
  moreover have "rsp_status (fst (Handler e a r)) = 503"
    using readiness_exact [where ord = "ap_health_order e", OF assms(4)] assms(6,7)
    by (simp add: Handler_def route_of_def get_route_def handleReadiness_def cfg NewHealthChecker_def writeJSON_def Let_def
        HealthDegraded_def)
  ultimately show ?thesis by (simp add: cost_report_response_def cfg)
qed

definition demo_server_cfg :: SupervisorConfig where
  "demo_server_cfg = demo_supervisor\<lparr>Server := (Server demo_supervisor)\<lparr>HTTPPort := 8421\<rparr>,
     Security := (Security demo_supervisor)\<lparr>rotation_Enabled := True\<rparr>\<rparr>"

definition demo_main :: main_env where
  "demo_main = \<lparr>mn_config = Inr demo_server_cfg, mn_open = None, mn_migrations = demo_migrations,
     mn_schema = \<lparr>db_applied = None, db_executed = []\<rparr>, mn_nodes = fmempty, mn_sessions = fmempty, mn_idempotency = fmempty,
     mn_events = fmempty, mn_audit = fmempty, mn_ws_listen = None, mn_http_listen = None\<rparr>"

definition demo_rotating :: Server where
  "demo_rotating = snd (StartServer None None (SetConfigPath ''c'' (wire_server demo_main demo_server_cfg)))"

definition demo_new_cfg :: SupervisorConfig where
  "demo_new_cfg = demo_server_cfg\<lparr>Server := (Server demo_server_cfg)\<lparr>AuthToken := ''0123456789abcdef0123456789abcdef''\<rparr>\<rparr>"

lemma demo_token: "server_token (rotation_tick (Inr demo_new_cfg) demo_rotating) = ''0123456789abcdef0123456789abcdef''"
  by code_simp

lemma rotation_reaches_only_web_sockets_witness:
  "ServeWS (srv_hub (rotation_tick (Inr demo_new_cfg) demo_rotating)) 0
     \<lparr>rq_Authorization = ''Bearer t'', rq_token = [], rq_Origin = [], rq_NodeID = ''n'', rq_handshake_ok = True, rq_uuid = ''u''\<rparr> = None \<and>
   (\<exists>a. srv_httpAPI (rotation_tick (Inr demo_new_cfg) demo_rotating) = Some a \<and>
      requireAuth (\<lambda>a r. (writeJSON 200 BMetrics, a)) a (demo_request\<lparr>rq_header := ''Bearer t''\<rparr>) = (writeJSON 200 BMetrics, a))"
proof -
  let ?q = "\<lparr>rq_Authorization = ''Bearer t'', rq_token = [], rq_Origin = [], rq_NodeID = ''n'', rq_handshake_ok = True, rq_uuid = ''u''\<rparr>"
  have "fst (StartServer None None (SetConfigPath ''c'' (wire_server demo_main demo_server_cfg))) = None" by code_simp
  then have start: "StartServer None None (SetConfigPath ''c'' (wire_server demo_main demo_server_cfg)) = (None, demo_rotating)"
    unfolding demo_rotating_def by (metis prod.collapse)
  have active: "rotation_active demo_rotating" and port: "0 < HTTPPort (Server demo_server_cfg)" by code_simp+
  have reach: "server_reachable demo_world demo_rotating (rotation_tick (Inr demo_new_cfg) demo_rotating)"
    by (rule server_reachable.step [OF server_reachable.start server_step.rotate [OF active]])
  have claim: "(request_token ?q = server_token (rotation_tick (Inr demo_new_cfg) demo_rotating) \<or>
        ServeWS (srv_hub (rotation_tick (Inr demo_new_cfg) demo_rotating)) 0 ?q = None) \<and>
      (\<exists>a. srv_httpAPI (rotation_tick (Inr demo_new_cfg) demo_rotating) = Some a \<and>
        requireAuth (\<lambda>a r. (writeJSON 200 BMetrics, a)) a (demo_request\<lparr>rq_header := ''Bearer t''\<rparr>) =
          (if request_bearer (demo_request\<lparr>rq_header := ''Bearer t''\<rparr>) \<noteq> [] \<and>
              request_bearer (demo_request\<lparr>rq_header := ''Bearer t''\<rparr>) = AuthToken (Server demo_server_cfg)
           then (writeJSON 200 BMetrics, a) else (writeError 401 ''unauthorized'' ''AUTH_REQUIRED'', a)))"
    by (rule conjunct2 [OF rotation_reaches_only_web_sockets [OF start port reach]])
  have "request_token ?q = ''t''" "request_bearer (demo_request\<lparr>rq_header := ''Bearer t''\<rparr>) = ''t''" "AuthToken (Server demo_server_cfg) = ''t''"
    by code_simp+
  then show ?thesis using claim unfolding demo_token by simp
qed

lemma started_supervisor_never_ready_witness:
  "\<exists>s0 a. supervisor_main demo_main = Inr s0 \<and> srv_httpAPI s0 = Some a \<and>
     rsp_status (fst (Handler ((demo_api_env [])\<lparr>ap_health_order := \<lambda>m. sorted_list_of_fset (fmdom m)\<rparr>) a
       (demo_request\<lparr>rq_method := ''GET'', rq_path := [''readyz'']\<rparr>))) = 503"
proof -
  have ord: "iteration_order m (ap_health_order ((demo_api_env [])\<lparr>ap_health_order := \<lambda>m. sorted_list_of_fset (fmdom m)\<rparr>) m)" for m
    by (simp add: iteration_order_def sorted_list_of_fset.rep_eq)
  have "case supervisor_main demo_main of Inl _ \<Rightarrow> False | Inr s0 \<Rightarrow> (case srv_httpAPI s0 of None \<Rightarrow> False | Some a \<Rightarrow> True)"
    by code_simp
  then obtain s0 a where s0: "supervisor_main demo_main = Inr s0" "srv_httpAPI s0 = Some a"
    by (auto split: sum.splits option.splits)
  have "mn_config demo_main = Inr demo_server_cfg" by (simp add: demo_main_def)
  from started_supervisor_never_ready [where r = "demo_request\<lparr>rq_method := ''GET'', rq_path := [''readyz'']\<rparr>" and hw = demo_world,
      OF s0(1) this server_reachable.start ord s0(2)] show ?thesis
    using s0 by auto
qed

end
