(* ===== verification/Opencode_Adapter.thy ===== *)
theory Opencode_Adapter
  imports Session_Commands
begin

text \<open>
  \<open>agent/opencode_adapter.go\<close>: the adapter through which the agent reaches its coding sessions. The SDK of the coding
  tool and the servers behind it are surroundings: a record of calls on a state \<open>'r\<close> of their own. Channels of events
  are numbered; \<open>ec_closed\<close> and the panic of a send on a closed channel are explicit.
\<close>

section \<open>Errors\<close>

text \<open>An error of the SDK, by what \<open>errors.Is\<close> and \<open>errors.As\<close> find in it, with its text.\<close>

datatype sdk_kind = SdkCanceled | SdkDeadlineExceeded | SdkNet | SdkApi int | SdkOther

record sdk_error =
  sdk_kind :: sdk_kind
  sdk_text :: string

definition adapter_error :: "sentinel \<Rightarrow> sdk_error \<Rightarrow> go_error" where
  "adapter_error s err = Suffixf (Sentinel s) ('': '' @ sdk_text err)"

definition mapAdapterError :: "sdk_error \<Rightarrow> go_error" where
  "mapAdapterError err =
     (case sdk_kind err of
        SdkCanceled \<Rightarrow> adapter_error ErrRecoverable err
      | SdkDeadlineExceeded \<Rightarrow> adapter_error ErrRecoverable err
      | SdkNet \<Rightarrow> adapter_error ErrRecoverable err
      | SdkApi code \<Rightarrow>
          if code \<in> {401, 403} then adapter_error ErrNonRecoverable err
          else if code = 404 then adapter_error ErrAdapterSessionNotFound err
          else if code \<in> {429, 408, 502, 503, 504, 500} then adapter_error ErrRecoverable err
          else if code \<ge> 500 then adapter_error ErrRecoverable err
          else adapter_error ErrNonRecoverable err
      | SdkOther \<Rightarrow> adapter_error ErrRecoverable err)"

section \<open>Data\<close>

definition AdapterStatusUnknown :: string where "AdapterStatusUnknown = ''unknown''"
definition AdapterStatusRunning :: string where "AdapterStatusRunning = ''running''"
definition AdapterStatusIdle :: string where "AdapterStatusIdle = ''idle''"
definition AdapterStatusCompacted :: string where "AdapterStatusCompacted = ''compacted''"
definition AdapterStatusDeleted :: string where "AdapterStatusDeleted = ''deleted''"
definition AdapterStatusErrored :: string where "AdapterStatusErrored = ''error''"

record SessionInfo =
  si_ID :: string
  si_Project :: string
  si_Directory :: string
  si_Title :: string
  si_Status :: string

record adapter_event =
  ae_Type :: string
  ae_SessionID :: string
  ae_Payload :: string

text \<open>A client is what it was made from.\<close>

record opencodeClient =
  oc_baseURL :: string
  oc_authorization :: "string option"

record sdk_session =
  ss_ID :: string
  ss_Directory :: string
  ss_Title :: string
  ss_RawJSON :: string

record 'r session_service =
  sv_List :: "opencodeClient \<Rightarrow> string \<Rightarrow> 'r \<Rightarrow> (sdk_error + sdk_session list) \<times> 'r"
  sv_New :: "opencodeClient \<Rightarrow> string \<Rightarrow> 'r \<Rightarrow> (sdk_error + sdk_session) \<times> 'r"
  sv_Prompt :: "opencodeClient \<Rightarrow> string \<Rightarrow> string \<Rightarrow> string \<Rightarrow> 'r \<Rightarrow> sdk_error option \<times> 'r"
  sv_Abort :: "opencodeClient \<Rightarrow> string \<Rightarrow> string \<Rightarrow> 'r \<Rightarrow> sdk_error option \<times> 'r"
  sv_Delete :: "opencodeClient \<Rightarrow> string \<Rightarrow> string \<Rightarrow> 'r \<Rightarrow> sdk_error option \<times> 'r"
  sv_Get :: "opencodeClient \<Rightarrow> string \<Rightarrow> string \<Rightarrow> 'r \<Rightarrow> (sdk_error + sdk_session) \<times> 'r"

record event_chan =
  ec_buffer :: "adapter_event list"
  ec_cap :: nat
  ec_closed :: bool

record RealAdapter =
  ra_apiKey :: string
  defaultProject :: string
  projectClients :: "(string, opencodeClient) fmap"
  projectDirs :: "(string, string) fmap"
  sessionProjects :: "(string, string) fmap"
  sessionStatuses :: "(string, string) fmap"
  subscribers :: "nat fset"
  sessionConsumers :: "(string, nat fset) fmap"
  event_chans :: "(nat, event_chan) fmap"
  ra_panic :: bool

text \<open>The adapter with the servers it talks to, and the surroundings of a call: the visiting order of the projects and the
  decoder of JSON objects.\<close>

record 'r adapter_world =
  aw_adapter :: RealAdapter
  aw_remote :: 'r

record 'r adapter_env =
  ae_service :: "'r session_service"
  ae_order :: "(string, opencodeClient) fmap \<Rightarrow> string list"
  ae_object :: "string \<Rightarrow> (string \<times> go_value) list option"

definition newSDKClient :: "string \<Rightarrow> string \<Rightarrow> opencodeClient" where
  "newSDKClient baseURL apiKey =
     \<lparr>oc_baseURL = baseURL, oc_authorization = (if apiKey \<noteq> [] then Some (''Bearer '' @ apiKey) else None)\<rparr>"

definition NewOpencodeAdapter :: "string \<Rightarrow> string \<Rightarrow> RealAdapter" where
  "NewOpencodeAdapter baseURL apiKey =
     \<lparr>ra_apiKey = apiKey, defaultProject = [], projectClients = fmupd [] (newSDKClient baseURL apiKey) fmempty,
      projectDirs = fmempty, sessionProjects = fmempty, sessionStatuses = fmempty, subscribers = {||}, sessionConsumers = fmempty,
      event_chans = fmempty, ra_panic = False\<rparr>"

definition RegisterProjectClient :: "string \<Rightarrow> string \<Rightarrow> string \<Rightarrow> RealAdapter \<Rightarrow> RealAdapter" where
  "RegisterProjectClient project directory baseURL a =
     a\<lparr>defaultProject := (if defaultProject a = [] then project else defaultProject a),
       projectClients := fmupd project (newSDKClient baseURL (ra_apiKey a)) (projectClients a),
       projectDirs := fmupd project directory (projectDirs a)\<rparr>"

section \<open>Finding the client\<close>

definition recordSession :: "string \<Rightarrow> string \<Rightarrow> string \<Rightarrow> RealAdapter \<Rightarrow> RealAdapter" where
  "recordSession sessionID project status a =
     a\<lparr>sessionProjects := fmupd sessionID project (sessionProjects a),
       sessionStatuses := (if status \<noteq> AdapterStatusUnknown then fmupd sessionID status (sessionStatuses a) else sessionStatuses a)\<rparr>"

definition resolveDirectoryLocked :: "RealAdapter \<Rightarrow> string \<Rightarrow> string" where
  "resolveDirectoryLocked a project =
     (case fmlookup (projectDirs a) project of
        Some dir \<Rightarrow> dir
      | None \<Rightarrow>
          if project \<noteq> [] then project
          else if defaultProject a \<noteq> []
          then (case fmlookup (projectDirs a) (defaultProject a) of Some dir \<Rightarrow> dir | None \<Rightarrow> [])
          else [])"

definition directoryForProject :: "RealAdapter \<Rightarrow> string \<Rightarrow> string" where
  "directoryForProject a project = (case fmlookup (projectDirs a) project of Some directory \<Rightarrow> directory | None \<Rightarrow> project)"

definition clientForProject :: "RealAdapter \<Rightarrow> string \<Rightarrow> (opencodeClient \<times> string) go_result" where
  "clientForProject a project =
     (case fmlookup (projectClients a) project of
        Some client \<Rightarrow> Inr (client, resolveDirectoryLocked a project)
      | None \<Rightarrow>
          (case fmlookup (projectClients a) [] of
             Some client \<Rightarrow> Inr (client, resolveDirectoryLocked a project)
           | None \<Rightarrow> Inl (Suffixf (Sentinel ErrNonRecoverable) ('': unknown project '' @ quoted project))))"

text \<open>The loop over the projects, with their clients.\<close>

fun probe_projects :: "'r adapter_env \<Rightarrow> string \<Rightarrow> string list \<Rightarrow> (string, opencodeClient) fmap \<Rightarrow> 'r adapter_world
    \<Rightarrow> (string \<times> opencodeClient \<times> string) go_result \<times> 'r adapter_world" where
  "probe_projects e sessionID [] projects w =
     (Inl (Suffixf (Sentinel ErrAdapterSessionNotFound) ('': '' @ sessionID)), w)"
| "probe_projects e sessionID (projectName # rest) projects w =
     (case fmlookup projects projectName of
        None \<Rightarrow> probe_projects e sessionID rest projects w
      | Some client \<Rightarrow>
          let directory = directoryForProject (aw_adapter w) projectName
          in case sv_Get (ae_service e) client directory sessionID (aw_remote w) of
               (Inr _, r') \<Rightarrow>
                 (Inr (projectName, client, directory),
                  \<lparr>aw_adapter = recordSession sessionID projectName AdapterStatusUnknown (aw_adapter w), aw_remote = r'\<rparr>)
             | (Inl err, r') \<Rightarrow>
                 if \<not> errors_Is (mapAdapterError err) ErrAdapterSessionNotFound then (Inl (mapAdapterError err), w\<lparr>aw_remote := r'\<rparr>)
                 else probe_projects e sessionID rest projects (w\<lparr>aw_remote := r'\<rparr>))"

definition clientForSession :: "'r adapter_env \<Rightarrow> string \<Rightarrow> 'r adapter_world
    \<Rightarrow> (string \<times> opencodeClient \<times> string) go_result \<times> 'r adapter_world" where
  "clientForSession e sessionID w =
     (case fmlookup (sessionProjects (aw_adapter w)) sessionID of
        Some project \<Rightarrow>
          (case clientForProject (aw_adapter w) project of
             Inl err \<Rightarrow> (Inl err, w)
           | Inr (client, directory) \<Rightarrow> (Inr (project, client, directory), w))
      | None \<Rightarrow>
          let projects = projectClients (aw_adapter w)
          in probe_projects e sessionID (ae_order e projects) projects w)"

section \<open>Sessions\<close>

definition parseSessionStatus :: "(string \<Rightarrow> (string \<times> go_value) list option) \<Rightarrow> sdk_session \<Rightarrow> string" where
  "parseSessionStatus object sess =
     (if ss_RawJSON sess = [] then AdapterStatusUnknown
      else case object (ss_RawJSON sess) of
          None \<Rightarrow> AdapterStatusUnknown
        | Some parsed \<Rightarrow> (case map_of parsed ''state'' of Some (JString state) \<Rightarrow> state | _ \<Rightarrow> AdapterStatusUnknown))"

definition record_in :: "string \<Rightarrow> string \<Rightarrow> string \<Rightarrow> 'r adapter_world \<Rightarrow> 'r adapter_world" where
  "record_in sessionID project status w = w\<lparr>aw_adapter := recordSession sessionID project status (aw_adapter w)\<rparr>"

definition PromptSession :: "'r adapter_env \<Rightarrow> string \<Rightarrow> string \<Rightarrow> 'r adapter_world \<Rightarrow> go_error option \<times> 'r adapter_world" where
  "PromptSession e sessionID message w =
     (case clientForSession e sessionID w of
        (Inl err, w') \<Rightarrow> (Some err, w')
      | (Inr (project, client, directory), w') \<Rightarrow>
          (case sv_Prompt (ae_service e) client directory sessionID message (aw_remote w') of
             (Some err, r') \<Rightarrow> (Some (mapAdapterError err), w'\<lparr>aw_remote := r'\<rparr>)
           | (None, r') \<Rightarrow> (None, record_in sessionID project AdapterStatusRunning (w'\<lparr>aw_remote := r'\<rparr>))))"

definition CreateSession :: "'r adapter_env \<Rightarrow> string \<Rightarrow> string \<Rightarrow> 'r adapter_world \<Rightarrow> string go_result \<times> 'r adapter_world" where
  "CreateSession e project prompt w =
     (case clientForProject (aw_adapter w) project of
        Inl err \<Rightarrow> (Inl err, w)
      | Inr (client, directory) \<Rightarrow>
          (case sv_New (ae_service e) client directory (aw_remote w) of
             (Inl err, r') \<Rightarrow> (Inl (mapAdapterError err), w\<lparr>aw_remote := r'\<rparr>)
           | (Inr created, r') \<Rightarrow>
               let sessionID = ss_ID created;
                   w1 = record_in sessionID project AdapterStatusRunning (w\<lparr>aw_remote := r'\<rparr>)
               in if prompt \<noteq> []
                  then (case PromptSession e sessionID prompt w1 of (Some err, w2) \<Rightarrow> (Inl err, w2) | (None, w2) \<Rightarrow> (Inr sessionID, w2))
                  else (Inr sessionID, w1)))"

definition KillSession :: "'r adapter_env \<Rightarrow> string \<Rightarrow> 'r adapter_world \<Rightarrow> go_error option \<times> 'r adapter_world" where
  "KillSession e sessionID w =
     (case clientForSession e sessionID w of
        (Inl err, w') \<Rightarrow> (Some err, w')
      | (Inr (project, client, directory), w') \<Rightarrow>
          (case sv_Abort (ae_service e) client directory sessionID (aw_remote w') of
             (aborted, r1) \<Rightarrow>
               let w1 = w'\<lparr>aw_remote := r1\<rparr>;
                   mapped = map_option mapAdapterError aborted
               in if (case mapped of None \<Rightarrow> False | Some err \<Rightarrow> \<not> errors_Is err ErrAdapterSessionNotFound) then (mapped, w1)
                  else case sv_Delete (ae_service e) client directory sessionID (aw_remote w1) of
                      (Some err, r2) \<Rightarrow> (Some (mapAdapterError err), w1\<lparr>aw_remote := r2\<rparr>)
                    | (None, r2) \<Rightarrow> (None, record_in sessionID project AdapterStatusDeleted (w1\<lparr>aw_remote := r2\<rparr>))))"

definition SessionStatus_of :: "'r adapter_env \<Rightarrow> string \<Rightarrow> 'r adapter_world \<Rightarrow> string go_result \<times> 'r adapter_world" where
  "SessionStatus_of e sessionID w =
     (case clientForSession e sessionID w of
        (Inl err, w') \<Rightarrow> (Inl err, w')
      | (Inr (project, client, directory), w') \<Rightarrow>
          (case sv_Get (ae_service e) client directory sessionID (aw_remote w') of
             (Inl err, r') \<Rightarrow> (Inl (mapAdapterError err), w'\<lparr>aw_remote := r'\<rparr>)
           | (Inr sess, r') \<Rightarrow>
               let status = parseSessionStatus (ae_object e) sess
               in (Inr status, record_in sessionID project status (w'\<lparr>aw_remote := r'\<rparr>))))"

definition session_info :: "'r adapter_env \<Rightarrow> string \<Rightarrow> sdk_session \<Rightarrow> SessionInfo" where
  "session_info e project sess =
     \<lparr>si_ID = ss_ID sess, si_Project = project, si_Directory = ss_Directory sess, si_Title = ss_Title sess,
      si_Status = parseSessionStatus (ae_object e) sess\<rparr>"

fun list_projects :: "'r adapter_env \<Rightarrow> string list \<Rightarrow> (string, opencodeClient) fmap \<Rightarrow> SessionInfo list \<Rightarrow> 'r adapter_world
    \<Rightarrow> SessionInfo list go_result \<times> 'r adapter_world" where
  "list_projects e [] projects out w = (Inr out, w)"
| "list_projects e (project # rest) projects out w =
     (case fmlookup projects project of
        None \<Rightarrow> list_projects e rest projects out w
      | Some client \<Rightarrow>
          let directory = directoryForProject (aw_adapter w) project
          in case sv_List (ae_service e) client directory (aw_remote w) of
               (Inl err, r') \<Rightarrow> (Inl (mapAdapterError err), w\<lparr>aw_remote := r'\<rparr>)
             | (Inr listed, r') \<Rightarrow>
                 list_projects e rest projects (out @ map (session_info e project) listed)
                   (fold (\<lambda>sess. record_in (ss_ID sess) project (parseSessionStatus (ae_object e) sess)) listed (w\<lparr>aw_remote := r'\<rparr>)))"

definition ListAdapterSessions :: "'r adapter_env \<Rightarrow> 'r adapter_world \<Rightarrow> SessionInfo list go_result \<times> 'r adapter_world" where
  "ListAdapterSessions e w =
     (let projects = projectClients (aw_adapter w) in list_projects e (ae_order e projects) projects [] w)"

text \<open>The adapter as the interface that the command handler uses.\<close>

definition real_adapter :: "'r adapter_env \<Rightarrow> 'r adapter_world OpencodeAdapter" where
  "real_adapter e = \<lparr>ad_CreateSession = CreateSession e, ad_PromptSession = PromptSession e, ad_KillSession = KillSession e,
     ad_SessionStatus = SessionStatus_of e, ad_projectDirs = (\<lambda>w. Some (projectDirs (aw_adapter w))), ad_type_name = ''*agent.RealAdapter''\<rparr>"

section \<open>Events\<close>

text \<open>The names of the event types, constants of the SDK.\<close>

record event_types =
  et_Idle :: string
  et_Compacted :: string
  et_Deleted :: string
  et_Error :: string
  et_Created :: string
  et_Updated :: string

definition statusFromEventType :: "event_types \<Rightarrow> string \<Rightarrow> string" where
  "statusFromEventType et eventType =
     (if eventType = et_Idle et then AdapterStatusIdle
      else if eventType = et_Compacted et then AdapterStatusCompacted
      else if eventType = et_Deleted et then AdapterStatusDeleted
      else if eventType = et_Error et then AdapterStatusErrored
      else if eventType = et_Created et \<or> eventType = et_Updated et then AdapterStatusRunning
      else AdapterStatusUnknown)"

definition object_field :: "string \<Rightarrow> (string \<times> go_value) list \<Rightarrow> (string \<times> go_value) list option" where
  "object_field key m = (case map_of m key of Some (JObject v) \<Rightarrow> Some v | _ \<Rightarrow> None)"

definition extractSessionID :: "(string \<Rightarrow> (string \<times> go_value) list option) \<Rightarrow> string \<Rightarrow> string" where
  "extractSessionID object raw =
     (if raw = [] then []
      else case object raw of
          None \<Rightarrow> []
        | Some event \<Rightarrow>
            (case object_field ''properties'' event of
               None \<Rightarrow> []
             | Some props \<Rightarrow>
                 (case map_of props ''sessionID'' of
                    Some (JString sid) \<Rightarrow> sid
                  | _ \<Rightarrow>
                      (case object_field ''info'' props of
                         None \<Rightarrow> []
                       | Some info \<Rightarrow> (case map_of info ''id'' of Some (JString sid) \<Rightarrow> sid | _ \<Rightarrow> [])))))"

text \<open>A new channel has the number \<open>c\<close>. When the context of a subscription ends, its goroutine first removes the channel under the lock
  and then closes it: two steps.\<close>

definition open_chan :: "nat \<Rightarrow> nat \<Rightarrow> RealAdapter \<Rightarrow> RealAdapter" where
  "open_chan c cap a = a\<lparr>event_chans := fmupd c \<lparr>ec_buffer = [], ec_cap = cap, ec_closed = False\<rparr> (event_chans a)\<rparr>"

definition close_chan :: "nat \<Rightarrow> RealAdapter \<Rightarrow> RealAdapter" where
  "close_chan c a =
     (case fmlookup (event_chans a) c of
        None \<Rightarrow> a
      | Some ch \<Rightarrow> a\<lparr>event_chans := fmupd c (ch\<lparr>ec_closed := True\<rparr>) (event_chans a)\<rparr>)"

definition consumers_of :: "RealAdapter \<Rightarrow> string \<Rightarrow> nat fset" where
  "consumers_of a sessionID = (case fmlookup (sessionConsumers a) sessionID of Some cs \<Rightarrow> cs | None \<Rightarrow> {||})"

definition SubscribeSessionEvents :: "nat \<Rightarrow> string \<Rightarrow> RealAdapter \<Rightarrow> RealAdapter" where
  "SubscribeSessionEvents c sessionID a =
     (let a1 = open_chan c 16 a in a1\<lparr>sessionConsumers := fmupd sessionID (finsert c (consumers_of a1 sessionID)) (sessionConsumers a1)\<rparr>)"

definition end_session_subscription :: "nat \<Rightarrow> string \<Rightarrow> RealAdapter \<Rightarrow> RealAdapter" where
  "end_session_subscription c sessionID a =
     (case fmlookup (sessionConsumers a) sessionID of
        None \<Rightarrow> a
      | Some consumers \<Rightarrow>
          let consumers' = consumers |-| {|c|}
          in a\<lparr>sessionConsumers := (if consumers' = {||} then fmdrop sessionID (sessionConsumers a)
               else fmupd sessionID consumers' (sessionConsumers a))\<rparr>)"

text \<open>\<open>stream_err\<close> is the error of a stream that has just been opened. The result is accompanied by the projects
  whose streams are read.\<close>

fun open_streams :: "(opencodeClient \<Rightarrow> string \<Rightarrow> sdk_error option) \<Rightarrow> RealAdapter \<Rightarrow> string list \<Rightarrow> string list \<Rightarrow> go_error option \<times> string list" where
  "open_streams stream_err a [] started = (None, started)"
| "open_streams stream_err a (project # rest) started =
     (case fmlookup (projectClients a) project of
        None \<Rightarrow> open_streams stream_err a rest started
      | Some client \<Rightarrow>
          (case stream_err client (directoryForProject a project) of
             Some err \<Rightarrow> (Some (mapAdapterError err), started)
           | None \<Rightarrow> open_streams stream_err a rest (started @ [project])))"

definition SubscribeEvents :: "((string, opencodeClient) fmap \<Rightarrow> string list) \<Rightarrow> (opencodeClient \<Rightarrow> string \<Rightarrow> sdk_error option) \<Rightarrow> nat
    \<Rightarrow> RealAdapter \<Rightarrow> nat go_result \<times> string list \<times> RealAdapter" where
  "SubscribeEvents ord stream_err c a =
     (let a1 = open_chan c 64 a;
          a2 = a1\<lparr>subscribers := finsert c (subscribers a1)\<rparr>
      in if projectClients a2 = fmempty
         then (Inl (Suffixf (Sentinel ErrNonRecoverable) '': no opencode clients configured''), [], a2)
         else case open_streams stream_err a2 (ord (projectClients a2)) [] of
             (Some err, started) \<Rightarrow> (Inl err, started, a2)
           | (None, started) \<Rightarrow> (Inr c, started, a2))"

definition end_subscription :: "nat \<Rightarrow> RealAdapter \<Rightarrow> RealAdapter" where
  "end_subscription c a = a\<lparr>subscribers := subscribers a |-| {|c|}\<rparr>"

text \<open>\<open>ord\<close> lists the channels of a set in the order they are visited; \<open>skip\<close> tells for which channels the ended context
  is chosen.\<close>

definition dispatch_targets :: "(nat fset \<Rightarrow> nat list) \<Rightarrow> adapter_event \<Rightarrow> RealAdapter \<Rightarrow> nat list" where
  "dispatch_targets ord evt a =
     ord (subscribers a) @ (if ae_SessionID evt \<noteq> [] then ord (consumers_of a (ae_SessionID evt)) else [])"

definition send_event :: "(nat \<Rightarrow> bool) \<Rightarrow> adapter_event \<Rightarrow> nat \<Rightarrow> RealAdapter \<Rightarrow> RealAdapter" where
  "send_event skip evt c a =
     (case fmlookup (event_chans a) c of
        None \<Rightarrow> a
      | Some ch \<Rightarrow>
          if skip c then a
          else if ec_closed ch then a\<lparr>ra_panic := True\<rparr>
          else if length (ec_buffer ch) < ec_cap ch
          then a\<lparr>event_chans := fmupd c (ch\<lparr>ec_buffer := ec_buffer ch @ [evt]\<rparr>) (event_chans a)\<rparr>
          else a)"

definition dispatchEvent :: "(nat fset \<Rightarrow> nat list) \<Rightarrow> (nat \<Rightarrow> bool) \<Rightarrow> adapter_event \<Rightarrow> RealAdapter \<Rightarrow> RealAdapter" where
  "dispatchEvent ord skip evt a = fold (send_event skip evt) (dispatch_targets ord evt a) a"

text \<open>The events of a stream, each with its type and raw text, and the error it ends with.\<close>

definition stream_event :: "'r adapter_env \<Rightarrow> event_types \<Rightarrow> (nat fset \<Rightarrow> nat list) \<Rightarrow> (nat \<Rightarrow> bool) \<Rightarrow> string \<Rightarrow> string \<times> string
    \<Rightarrow> RealAdapter \<Rightarrow> RealAdapter" where
  "stream_event e et ord skip project x a =
     (case x of (typ, raw) \<Rightarrow>
        let sid = extractSessionID (ae_object e) raw;
            evt = \<lparr>ae_Type = typ, ae_SessionID = sid, ae_Payload = raw\<rparr>
        in dispatchEvent ord skip evt (if sid \<noteq> [] then recordSession sid project (statusFromEventType et typ) a else a))"

definition streamProjectEvents :: "'r adapter_env \<Rightarrow> event_types \<Rightarrow> (nat fset \<Rightarrow> nat list) \<Rightarrow> (nat \<Rightarrow> bool) \<Rightarrow> string
    \<Rightarrow> (string \<times> string) list \<Rightarrow> sdk_error option \<Rightarrow> RealAdapter \<Rightarrow> RealAdapter" where
  "streamProjectEvents e et ord skip project xs err a =
     (let a1 = fold (stream_event e et ord skip project) xs a
      in case err of
           None \<Rightarrow> a1
         | Some _ \<Rightarrow> dispatchEvent ord skip \<lparr>ae_Type = et_Error et, ae_SessionID = [],
             ae_Payload = [CHR ''{'', CHR 0x22] @ ''error'' @ [CHR 0x22, CHR '':'', CHR 0x22] @ ''stream disconnected'' @ [CHR 0x22, CHR ''}'']\<rparr> a1)"

section \<open>The contract with the command handler\<close>

text \<open>
  What the handler of session commands can rely on: \<open>known\<close> tells whether an adapter can address a session without searching
  for it. A session that was created, prompted or asked for its status is known afterwards, and no operation forgets a session.
\<close>

locale session_adapter =
  fixes ad :: "'a OpencodeAdapter" and known :: "'a \<Rightarrow> string \<Rightarrow> bool"
  assumes create_known: "ad_CreateSession ad p m a = (Inr i, a') \<Longrightarrow> known a' i"
    and prompt_known: "ad_PromptSession ad i m a = (None, a') \<Longrightarrow> known a' i"
    and status_known: "ad_SessionStatus ad i a = (Inr st, a') \<Longrightarrow> known a' i"
    and create_keeps: "known a j \<Longrightarrow> known (snd (ad_CreateSession ad p m a)) j"
    and prompt_keeps: "known a j \<Longrightarrow> known (snd (ad_PromptSession ad i m a)) j"
    and kill_keeps: "known a j \<Longrightarrow> known (snd (ad_KillSession ad i a)) j"
    and status_keeps: "known a j \<Longrightarrow> known (snd (ad_SessionStatus ad i a)) j"
begin

lemma commands_keep_sessions:
  assumes "known (as_adapter st) j"
  shows "known (as_adapter (snd (executeSessionCommand se ad cmd st))) j"
proof -
  have env: "as_adapter (snd (environment_command se ad cmd st run)) = as_adapter st" for run
    by (auto simp: environment_command_def Let_def split: sum.splits prod.splits)
  have session: "known (as_adapter (snd (with_session cmd st run))) j" if "\<And>i. known (snd (run i (as_adapter st))) j" for run
    using assms that by (auto simp: with_session_def Let_def split: prod.splits) (metis snd_conv)
  have out: "snd (no_output x) = snd x" for x :: "go_error option \<times> 'a" by (cases x) (simp add: no_output_def)
  show ?thesis
    unfolding executeSessionCommand_def Let_def
    using assms create_keeps [of "as_adapter st" j] create_keeps kill_keeps prompt_keeps status_keeps
    by (auto simp: env out intro!: session split: prod.split) (metis snd_conv)+
qed

lemma created_session_known:
  assumes "sc_Type cmd \<in> {''create_session'', ''restart_session''}" and "executeSessionCommand se ad cmd st = (Inr i, st')"
  shows "known (as_adapter st') i"
  using assms by (auto simp: executeSessionCommand_def Let_def split: prod.splits if_splits dest: create_known)

end

definition recorded :: "'r adapter_world \<Rightarrow> string \<Rightarrow> string option" where
  "recorded w i = fmlookup (sessionProjects (aw_adapter w)) i"

lemma recorded_record_in [simp]: "recorded (record_in i project st w) j = (if j = i then Some project else recorded w j)"
  by (simp add: recorded_def record_in_def recordSession_def)

lemma recorded_remote [simp]: "recorded (w\<lparr>aw_remote := r\<rparr>) j = recorded w j"
  by (simp add: recorded_def)

lemma probe_projects_recorded:
  assumes "recorded w j = Some project" and "j \<noteq> i"
  shows "recorded (snd (probe_projects e i ps projects w)) j = Some project"
  using assms
proof (induction e i ps projects w rule: probe_projects.induct)
  case (2 e i p rest projects w)
  then show ?case
    by (auto simp: Let_def recorded_def recordSession_def split: option.splits prod.splits sum.splits)
qed simp

lemma probe_projects_found:
  "probe_projects e i ps projects w = (Inr (p, client, dir), w') \<Longrightarrow> recorded w' i = Some p"
  by (induction e i ps projects w rule: probe_projects.induct)
    (auto simp: Let_def recorded_def recordSession_def split: option.splits prod.splits sum.splits if_splits)

lemma clientForSession_recorded:
  assumes "recorded w j = Some project"
  shows "recorded (snd (clientForSession e i w)) j = Some project"
proof (cases "fmlookup (sessionProjects (aw_adapter w)) i")
  case None
  then have "j \<noteq> i" using assms by (auto simp: recorded_def)
  then show ?thesis using probe_projects_recorded [OF assms] by (simp add: clientForSession_def None Let_def)
next
  case (Some q)
  then show ?thesis using assms by (auto simp: clientForSession_def split: sum.splits)
qed

lemma clientForSession_found:
  assumes "clientForSession e i w = (Inr (p, client, dir), w')"
  shows "recorded w' i = Some p"
  using assms probe_projects_found
  by (auto simp: clientForSession_def Let_def recorded_def split: option.splits sum.splits)

text \<open>No operation on a session changes the project a session is recorded with.\<close>

lemma PromptSession_recorded:
  assumes "recorded w j = Some p"
  shows "recorded (snd (PromptSession e i m w)) j = Some p"
proof (cases "clientForSession e i w")
  case (Pair x w')
  have kept: "recorded w' j = Some p" using clientForSession_recorded [OF assms, of e i] Pair by simp
  show ?thesis
  proof (cases x)
    case (Inr y)
    then obtain q client dir where y: "x = Inr (q, client, dir)" by (cases y) auto
    then have "recorded w' i = Some q" using clientForSession_found Pair by fast
    then show ?thesis using kept by (auto simp: PromptSession_def Pair y split: prod.splits option.splits)
  qed (simp add: PromptSession_def Pair kept)
qed

lemma KillSession_recorded:
  assumes "recorded w j = Some p"
  shows "recorded (snd (KillSession e i w)) j = Some p"
proof (cases "clientForSession e i w")
  case (Pair x w')
  have kept: "recorded w' j = Some p" using clientForSession_recorded [OF assms, of e i] Pair by simp
  show ?thesis
  proof (cases x)
    case (Inr y)
    then obtain q client dir where y: "x = Inr (q, client, dir)" by (cases y) auto
    then have "recorded w' i = Some q" using clientForSession_found Pair by fast
    then show ?thesis using kept by (auto simp: KillSession_def Pair y Let_def split: prod.splits option.splits)
  qed (simp add: KillSession_def Pair kept)
qed

lemma SessionStatus_recorded:
  assumes "recorded w j = Some p"
  shows "recorded (snd (SessionStatus_of e i w)) j = Some p"
proof (cases "clientForSession e i w")
  case (Pair x w')
  have kept: "recorded w' j = Some p" using clientForSession_recorded [OF assms, of e i] Pair by simp
  show ?thesis
  proof (cases x)
    case (Inr y)
    then obtain q client dir where y: "x = Inr (q, client, dir)" by (cases y) auto
    then have "recorded w' i = Some q" using clientForSession_found Pair by fast
    then show ?thesis using kept by (auto simp: SessionStatus_of_def Pair y Let_def split: prod.splits sum.splits)
  qed (simp add: SessionStatus_of_def Pair kept)
qed

lemma PromptSession_ok: "PromptSession e i m w = (None, w') \<Longrightarrow> recorded w' i \<noteq> None"
  by (auto simp: PromptSession_def split: prod.splits sum.splits option.splits)

lemma SessionStatus_ok: "SessionStatus_of e i w = (Inr st, w') \<Longrightarrow> recorded w' i \<noteq> None"
  by (auto simp: SessionStatus_of_def Let_def split: prod.splits sum.splits)

text \<open>What a call of \<open>CreateSession\<close> does, by its cases.\<close>

lemma CreateSession_cases:
  obtains (failed) err r' where "CreateSession e p m w = (Inl err, w\<lparr>aw_remote := r'\<rparr>)"
  | (created) created :: sdk_session and r' where "CreateSession e p m w = (Inr (ss_ID created), record_in (ss_ID created) p AdapterStatusRunning (w\<lparr>aw_remote := r'\<rparr>))"
      "m = []"
  | (prompted) created :: sdk_session and r' err w' where "PromptSession e (ss_ID created) m (record_in (ss_ID created) p AdapterStatusRunning (w\<lparr>aw_remote := r'\<rparr>)) = (err, w')"
      "CreateSession e p m w = ((case err of Some x \<Rightarrow> Inl x | None \<Rightarrow> Inr (ss_ID created)), w')" "m \<noteq> []"
proof (cases "clientForProject (aw_adapter w) p")
  case (Inl err)
  then have "CreateSession e p m w = (Inl err, w\<lparr>aw_remote := aw_remote w\<rparr>)" by (simp add: CreateSession_def)
  then show ?thesis by (rule failed)
next
  case (Inr y)
  then obtain client dir where y: "clientForProject (aw_adapter w) p = Inr (client, dir)" by (cases y) auto
  obtain x r' where new: "sv_New (ae_service e) client dir (aw_remote w) = (x, r')" by fastforce
  show ?thesis
  proof (cases x)
    case (Inl err)
    then have "CreateSession e p m w = (Inl (mapAdapterError err), w\<lparr>aw_remote := r'\<rparr>)" by (simp add: CreateSession_def y new)
    then show ?thesis by (rule failed)
  next
    case (Inr b)
    let ?w1 = "record_in (ss_ID b) p AdapterStatusRunning (w\<lparr>aw_remote := r'\<rparr>)"
    show ?thesis
    proof (cases "m = []")
      case True
      then have "CreateSession e p m w = (Inr (ss_ID b), ?w1)" by (simp add: CreateSession_def y new Inr Let_def)
      then show ?thesis using True by (rule created)
    next
      case False
      obtain err w' where prompt: "PromptSession e (ss_ID b) m ?w1 = (err, w')" by fastforce
      have "CreateSession e p m w = ((case err of Some x \<Rightarrow> Inl x | None \<Rightarrow> Inr (ss_ID b)), w')"
        by (cases err) (simp_all add: CreateSession_def y new Inr Let_def False prompt)
      with prompt show ?thesis using False by (rule prompted)
    qed
  qed
qed

lemma CreateSession_ok: "CreateSession e p m w = (Inr i, w') \<Longrightarrow> recorded w' i \<noteq> None"
  by (cases rule: CreateSession_cases [of e p m w]) (auto dest: PromptSession_ok split: option.splits)

lemma CreateSession_keeps:
  assumes "recorded w j \<noteq> None"
  shows "recorded (snd (CreateSession e p m w)) j \<noteq> None"
proof (cases rule: CreateSession_cases [of e p m w])
  case (prompted created r' err w')
  have "recorded (record_in (ss_ID created) p AdapterStatusRunning (w\<lparr>aw_remote := r'\<rparr>)) j \<noteq> None" using assms by simp
  then obtain q where "recorded (record_in (ss_ID created) p AdapterStatusRunning (w\<lparr>aw_remote := r'\<rparr>)) j = Some q" by blast
  from PromptSession_recorded [OF this, of e "ss_ID created" m] show ?thesis using prompted by simp
qed (use assms in auto)

interpretation real: session_adapter "real_adapter e" "\<lambda>w i. recorded w i \<noteq> None"
proof
  fix w :: "'a adapter_world" and i j p m :: string and w' st
  show "ad_CreateSession (real_adapter e) p m w = (Inr i, w') \<Longrightarrow> recorded w' i \<noteq> None"
    using CreateSession_ok by (simp add: real_adapter_def)
  show "ad_PromptSession (real_adapter e) i m w = (None, w') \<Longrightarrow> recorded w' i \<noteq> None"
    using PromptSession_ok by (simp add: real_adapter_def)
  show "ad_SessionStatus (real_adapter e) i w = (Inr st, w') \<Longrightarrow> recorded w' i \<noteq> None"
    using SessionStatus_ok by (simp add: real_adapter_def)
  assume known: "recorded w j \<noteq> None"
  then obtain q where q: "recorded w j = Some q" by blast
  show "recorded (snd (ad_CreateSession (real_adapter e) p m w)) j \<noteq> None"
    using CreateSession_keeps [OF known] by (simp add: real_adapter_def)
  show "recorded (snd (ad_PromptSession (real_adapter e) i m w)) j \<noteq> None"
    using PromptSession_recorded [OF q] by (simp add: real_adapter_def)
  show "recorded (snd (ad_KillSession (real_adapter e) i w)) j \<noteq> None"
    using KillSession_recorded [OF q] by (simp add: real_adapter_def)
  show "recorded (snd (ad_SessionStatus (real_adapter e) i w)) j \<noteq> None"
    using SessionStatus_recorded [OF q] by (simp add: real_adapter_def)
qed

section \<open>Properties\<close>

text \<open>Every error of the SDK is one of three; only a missing session and a refused request are not worth a retry.\<close>

lemma adapter_errors_classified:
  "errors_Is (mapAdapterError err) ErrAdapterSessionNotFound = (sdk_kind err = SdkApi 404)"
  "errors_Is (mapAdapterError err) ErrNonRecoverable = (\<exists>code. sdk_kind err = SdkApi code \<and> code < 500 \<and> code \<notin> {404, 408, 429})"
  "errors_Is (mapAdapterError err) ErrRecoverable = (\<not> (\<exists>code. sdk_kind err = SdkApi code \<and> code < 500 \<and> code \<notin> {408, 429}))"
  by (auto simp: mapAdapterError_def adapter_error_def split: sdk_kind.splits)

text \<open>The table of clients is only changed by \<open>RegisterProjectClient\<close>.\<close>

abbreviation clients_of :: "'r adapter_world \<Rightarrow> (string, opencodeClient) fmap" where
  "clients_of w \<equiv> projectClients (aw_adapter w)"

lemma clients_of_record_in [simp]: "clients_of (record_in i p st w) = clients_of w"
  by (simp add: record_in_def recordSession_def)

lemma probe_projects_clients: "clients_of (snd (probe_projects e i ps projects w)) = clients_of w"
  by (induction e i ps projects w rule: probe_projects.induct)
    (auto simp: Let_def recordSession_def split: option.splits prod.splits sum.splits)

lemma clientForSession_clients: "clients_of (snd (clientForSession e i w)) = clients_of w"
  by (auto simp: clientForSession_def Let_def probe_projects_clients split: option.splits sum.splits)

lemma operations_clients:
  "clients_of (snd (PromptSession e i m w)) = clients_of w"
  "clients_of (snd (KillSession e i w)) = clients_of w"
  "clients_of (snd (SessionStatus_of e i w)) = clients_of w"
  using clientForSession_clients [of e i w]
  by (auto simp: PromptSession_def KillSession_def SessionStatus_of_def Let_def split: prod.splits sum.splits option.splits)

lemma CreateSession_clients: "clients_of (snd (CreateSession e p m w)) = clients_of w"
proof (cases rule: CreateSession_cases [of e p m w])
  case (prompted created r' err w')
  then show ?thesis
    using operations_clients(1) [of e "ss_ID created" m "record_in (ss_ID created) p AdapterStatusRunning (w\<lparr>aw_remote := r'\<rparr>)"] by simp
qed auto

lemma execute_clients: "clients_of (as_adapter (snd (executeSessionCommand se (real_adapter e) cmd st))) = clients_of (as_adapter st)"
proof -
  have env: "as_adapter (snd (environment_command se (real_adapter e) cmd st run)) = as_adapter st" for run
    by (auto simp: environment_command_def Let_def split: sum.splits prod.splits)
  have session: "clients_of (as_adapter (snd (with_session cmd st run))) = clients_of (as_adapter st)"
    if "\<And>i. clients_of (snd (run i (as_adapter st))) = clients_of (as_adapter st)" for run
    using that by (auto simp: with_session_def Let_def split: prod.splits) (metis snd_conv)
  have out: "snd (no_output x) = snd x" for x :: "go_error option \<times> 'a adapter_world" by (cases x) (simp add: no_output_def)
  have create: "clients_of (as_adapter (snd (case CreateSession e p m w of (r, a') \<Rightarrow> (r, st\<lparr>as_adapter := a'\<rparr>)))) = clients_of w" for p m w
    using CreateSession_clients [of e p m w] by (cases "CreateSession e p m w") simp
  show ?thesis
    unfolding executeSessionCommand_def Let_def real_adapter_def OpencodeAdapter.simps
    using create
    by (simp add: env [unfolded real_adapter_def] out operations_clients session)
qed

definition run_commands :: "session_env \<Rightarrow> 'r adapter_env \<Rightarrow> sessionCommand list \<Rightarrow> 'r adapter_world agent_state \<Rightarrow> 'r adapter_world agent_state" where
  "run_commands se e cmds st = fold (\<lambda>cmd st. snd (executeSessionCommand se (real_adapter e) cmd st)) cmds st"

lemma run_commands_keep:
  "recorded (as_adapter st) i \<noteq> None \<Longrightarrow> recorded (as_adapter (run_commands se e cmds st)) i \<noteq> None"
  "clients_of (as_adapter (run_commands se e cmds st)) = clients_of (as_adapter st)"
  unfolding run_commands_def
  by (induction cmds arbitrary: st) (simp_all add: real.commands_keep_sessions execute_clients del: not_None_eq)

text \<open>
  C35. A session that a command has created stays addressable: after any further commands, the adapter finds the client and directory
  of the session in its tables, without asking any server and without an error.
\<close>
theorem created_sessions_stay_addressable:
  assumes "executeSessionCommand se (real_adapter e) cmd st = (Inr i, st1)" and "sc_Type cmd \<in> {''create_session'', ''restart_session''}"
    and "fmlookup (clients_of (as_adapter st)) [] \<noteq> None"
  shows "\<exists>project client directory. clientForSession e i (as_adapter (run_commands se e cmds st1)) =
    (Inr (project, client, directory), as_adapter (run_commands se e cmds st1))"
proof -
  have "recorded (as_adapter st1) i \<noteq> None" using real.created_session_known [OF assms(2,1)] .
  from run_commands_keep(1) [OF this] obtain project where p: "recorded (as_adapter (run_commands se e cmds st1)) i = Some project"
    by blast
  have "clients_of (as_adapter st1) = clients_of (as_adapter st)" using execute_clients [of se e cmd st] assms(1) by simp
  then obtain c where "fmlookup (clients_of (as_adapter (run_commands se e cmds st1))) [] = Some c"
    using run_commands_keep(2) [of se e cmds st1] assms(3) by auto
  then show ?thesis using p by (auto simp: clientForSession_def recorded_def clientForProject_def split: option.splits)
qed

definition demo_service :: "nat session_service" where
  "demo_service =
     \<lparr>sv_List = \<lambda>c d r. (Inr [], r),
      sv_New = \<lambda>c d r. (Inr \<lparr>ss_ID = ''ses_'' @ nat_text r, ss_Directory = d, ss_Title = [], ss_RawJSON = []\<rparr>, Suc r),
      sv_Prompt = \<lambda>c d i m r. (None, r), sv_Abort = \<lambda>c d i r. (None, r), sv_Delete = \<lambda>c d i r. (None, r),
      sv_Get = \<lambda>c d i r. (Inl \<lparr>sdk_kind = SdkApi 404, sdk_text = ''missing''\<rparr>, r)\<rparr>"

definition demo_adapter_env :: "nat adapter_env" where
  "demo_adapter_env = \<lparr>ae_service = demo_service, ae_order = (\<lambda>_. [[], ''p'']), ae_object = (\<lambda>_. None)\<rparr>"

definition demo_agent :: "nat adapter_world agent_state" where
  "demo_agent = \<lparr>as_adapter = \<lparr>aw_adapter = RegisterProjectClient ''p'' ''/p'' ''u'' (NewOpencodeAdapter ''u'' []), aw_remote = 7\<rparr>, as_fs = demo_fs\<rparr>"

definition demo_session_command :: "string \<Rightarrow> (string \<times> string) list \<Rightarrow> sessionCommand" where
  "demo_session_command t args = \<lparr>sc_CommandID = ''c'', sc_Type = t, sc_Project = ''p'', sc_Args = fmap_of_list (map (apsnd JString) args)\<rparr>"

definition demo_surroundings :: session_env where
  "demo_surroundings = \<lparr>se_now = 0, se_prov = demo_prov_world, se_check = demo_check_world,
     se_unmarshal = (\<lambda>_. (demo_session_command [] [], None)), se_manifest = (\<lambda>_. Inl (Errorf ''no manifest'')),
     se_marshal_check = (\<lambda>p _. Inr p), se_marshal_provision = (\<lambda>p _ _. Inr p), se_marshal_diff = (\<lambda>p _ _ _. Inr p),
     se_marshal_sync = (\<lambda>p _ _. Inr p), se_marshal_result = (\<lambda>r. Inr (scr_Output r))\<rparr>"

lemma created_sessions_stay_addressable_witness:
  "\<exists>st1 project client directory. executeSessionCommand demo_surroundings (real_adapter demo_adapter_env)
       (demo_session_command ''create_session'' [(''prompt'', ''go'')]) demo_agent = (Inr ''ses_7'', st1) \<and>
     clientForSession demo_adapter_env ''ses_7'' (as_adapter (run_commands demo_surroundings demo_adapter_env
       [demo_session_command ''kill_session'' [(''session_id'', ''ses_7'')]] st1)) =
     (Inr (project, client, directory), as_adapter (run_commands demo_surroundings demo_adapter_env
       [demo_session_command ''kill_session'' [(''session_id'', ''ses_7'')]] st1))"
proof -
  let ?cmd = "demo_session_command ''create_session'' [(''prompt'', ''go'')]"
  have "fst (executeSessionCommand demo_surroundings (real_adapter demo_adapter_env) ?cmd demo_agent) = Inr ''ses_7''"
    by code_simp
  then obtain st1 where st1: "executeSessionCommand demo_surroundings (real_adapter demo_adapter_env) ?cmd demo_agent = (Inr ''ses_7'', st1)"
    by (metis prod.collapse)
  have "fmlookup (clients_of (as_adapter demo_agent)) [] \<noteq> None" by code_simp
  then show ?thesis
    using st1 created_sessions_stay_addressable [OF st1, of "[demo_session_command ''kill_session'' [(''session_id'', ''ses_7'')]]"]
    by (auto simp: demo_session_command_def)
qed

text \<open>
  Looking for an unknown session is exact, for every visiting order: if all servers answer, it is found iff a registered project has it,
  and then recorded under such a project; otherwise the error is that of a missing session and nothing is recorded.
\<close>

lemma probe_projects_exact:
  assumes "\<And>c d. snd (sv_Get (ae_service e) c d i (aw_remote w)) = aw_remote w"
    and "\<And>c d err. fst (sv_Get (ae_service e) c d i (aw_remote w)) = Inl err \<Longrightarrow> sdk_kind err = SdkApi 404"
    and "set ps = fset (fmdom projects)"
    and has: "has = (\<lambda>p. \<exists>c. fmlookup projects p = Some c \<and> \<not> isl (fst (sv_Get (ae_service e) c (directoryForProject (aw_adapter w) p) i (aw_remote w))))"
  shows "case probe_projects e i ps projects w of
      (Inr (p, c, d), w') \<Rightarrow> has p \<and> fmlookup projects p = Some c \<and> d = directoryForProject (aw_adapter w) p \<and> recorded w' i = Some p
    | (Inl err, w') \<Rightarrow> (\<forall>p. \<not> has p) \<and> errors_Is err ErrAdapterSessionNotFound \<and> w' = w"
proof -
  have run: "case probe_projects e i qs projects w of
      (Inr (p, c, d), w') \<Rightarrow> has p \<and> fmlookup projects p = Some c \<and> d = directoryForProject (aw_adapter w) p \<and> recorded w' i = Some p
    | (Inl err, w') \<Rightarrow> (\<forall>p \<in> set qs. \<not> has p) \<and> errors_Is err ErrAdapterSessionNotFound \<and> w' = w" for qs
  proof (induction qs)
    case (Cons q qs)
    show ?case
    proof (cases "fmlookup projects q")
      case None
      then show ?thesis using Cons by (auto simp: has split: prod.splits sum.splits)
    next
      case (Some c)
      show ?thesis
      proof (cases "fst (sv_Get (ae_service e) c (directoryForProject (aw_adapter w) q) i (aw_remote w))")
        case (Inl err)
        then have "sv_Get (ae_service e) c (directoryForProject (aw_adapter w) q) i (aw_remote w) = (Inl err, aw_remote w)"
          using assms(1) by (metis prod.collapse)
        moreover have "errors_Is (mapAdapterError err) ErrAdapterSessionNotFound" using assms(2) [OF Inl] by (simp add: adapter_errors_classified)
        ultimately show ?thesis using Cons Some by (auto simp: has Let_def split: prod.splits sum.splits)
      next
        case (Inr x)
        then have "sv_Get (ae_service e) c (directoryForProject (aw_adapter w) q) i (aw_remote w) = (Inr x, aw_remote w)"
          using assms(1) by (metis prod.collapse)
        then show ?thesis using Some by (simp add: has Let_def recorded_def recordSession_def)
      qed
    qed
  qed simp
  have all: "p \<in> set ps" if "has p" for p using that assms(3) by (auto simp: has intro: fmdomI)
  show ?thesis using run [of ps] all by (auto split: prod.splits sum.splits)
qed

text \<open>A session whose first prompt fails is lost for the caller: it exists on the server and is recorded as running, but its id is not
  in the answer.\<close>

lemma failed_first_prompt_orphans_session:
  assumes "clientForProject (aw_adapter w) project = Inr (client, dir)"
    and "sv_New (ae_service e) client dir (aw_remote w) = (Inr created, r')" and "prompt \<noteq> []"
    and "\<And>c d i m r. \<exists>err r''. sv_Prompt (ae_service e) c d i m r = (Some err, r'')"
  shows "\<exists>err w'. CreateSession e project prompt w = (Inl err, w') \<and> recorded w' (ss_ID created) = Some project \<and>
    fmlookup (sessionStatuses (aw_adapter w')) (ss_ID created) = Some AdapterStatusRunning"
proof -
  let ?w1 = "record_in (ss_ID created) project AdapterStatusRunning (w\<lparr>aw_remote := r'\<rparr>)"
  have "clientForProject (aw_adapter ?w1) project = Inr (client, dir)"
    using assms(1) by (simp add: record_in_def recordSession_def clientForProject_def resolveDirectoryLocked_def cong: if_cong option.case_cong)
  moreover have "fmlookup (sessionProjects (aw_adapter ?w1)) (ss_ID created) = Some project"
    by (simp add: record_in_def recordSession_def)
  ultimately have "clientForSession e (ss_ID created) ?w1 = (Inr (project, client, dir), ?w1)"
    by (simp add: clientForSession_def)
  moreover obtain err r'' where "sv_Prompt (ae_service e) client dir (ss_ID created) prompt (aw_remote ?w1) = (Some err, r'')"
    using assms(4) by blast
  ultimately have "CreateSession e project prompt w = (Inl (mapAdapterError err), ?w1\<lparr>aw_remote := r''\<rparr>)"
    by (simp add: CreateSession_def PromptSession_def assms(1,2,3) Let_def)
  then show ?thesis by (simp add: recorded_def record_in_def recordSession_def AdapterStatusRunning_def AdapterStatusUnknown_def)
qed

section \<open>Delivery of events\<close>

definition chan_open :: "RealAdapter \<Rightarrow> nat \<Rightarrow> bool" where
  "chan_open a c = (case fmlookup (event_chans a) c of None \<Rightarrow> False | Some ch \<Rightarrow> \<not> ec_closed ch)"

definition chan_received :: "RealAdapter \<Rightarrow> nat \<Rightarrow> adapter_event list" where
  "chan_received a c = (case fmlookup (event_chans a) c of None \<Rightarrow> [] | Some ch \<Rightarrow> ec_buffer ch)"

definition has_room :: "RealAdapter \<Rightarrow> nat \<Rightarrow> bool" where
  "has_room a c = (case fmlookup (event_chans a) c of None \<Rightarrow> False | Some ch \<Rightarrow> length (ec_buffer ch) < ec_cap ch)"

lemma sends_exact:
  assumes "distinct cs" and "\<And>c. c \<in> set cs \<Longrightarrow> chan_open a c"
  shows "ra_panic (fold (send_event (\<lambda>_. False) evt) cs a) = ra_panic a \<and>
    chan_received (fold (send_event (\<lambda>_. False) evt) cs a) c = chan_received a c @ (if c \<in> set cs \<and> has_room a c then [evt] else [])"
  using assms
proof (induction cs arbitrary: a)
  case (Cons d cs)
  let ?a = "send_event (\<lambda>_. False) evt d a"
  obtain ch where ch: "fmlookup (event_chans a) d = Some ch" "\<not> ec_closed ch"
    using Cons.prems(2) [of d] by (auto simp: chan_open_def split: option.splits)
  have other: "fmlookup (event_chans ?a) c' = fmlookup (event_chans a) c'" if "c' \<noteq> d" for c'
    using that ch by (simp add: send_event_def)
  have "ra_panic ?a = ra_panic a" using ch by (simp add: send_event_def)
  moreover have "chan_received ?a d = chan_received a d @ (if has_room a d then [evt] else [])"
    using ch by (simp add: send_event_def chan_received_def has_room_def)
  moreover have "chan_open ?a c'" if "c' \<in> set cs" for c'
  proof -
    have "c' \<noteq> d" "chan_open a c'" using that Cons.prems by auto
    then show ?thesis using other [of c'] by (simp add: chan_open_def)
  qed
  ultimately show ?case
    using Cons.IH [of ?a] Cons.prems(1) other [of c] by (cases "c = d") (auto simp: chan_received_def has_room_def)
qed simp

text \<open>
  An event reaches exactly the subscribers of all events and those of its session, each at the end of its channel, unless the channel is
  full; nothing blocks, and other channels are untouched.
\<close>

lemma dispatchEvent_exact:
  assumes "\<And>S. distinct (ord S) \<and> set (ord S) = fset S"
    and "subscribers a |\<inter>| consumers_of a (ae_SessionID evt) = {||}"
    and "\<And>c. c |\<in>| subscribers a |\<union>| consumers_of a (ae_SessionID evt) \<Longrightarrow> chan_open a c"
  shows "ra_panic (dispatchEvent ord (\<lambda>_. False) evt a) = ra_panic a \<and>
    chan_received (dispatchEvent ord (\<lambda>_. False) evt a) c = chan_received a c @
      (if (c |\<in>| subscribers a \<or> ae_SessionID evt \<noteq> [] \<and> c |\<in>| consumers_of a (ae_SessionID evt)) \<and> has_room a c then [evt] else [])"
proof -
  have "distinct (dispatch_targets ord evt a)" using assms(1,2) by (auto simp: dispatch_targets_def)
  moreover have targets: "set (dispatch_targets ord evt a) =
      fset (subscribers a) \<union> (if ae_SessionID evt \<noteq> [] then fset (consumers_of a (ae_SessionID evt)) else {})"
    using assms(1) by (simp add: dispatch_targets_def)
  moreover have "chan_open a d" if "d \<in> set (dispatch_targets ord evt a)" for d
    using that assms(3) unfolding targets by (auto split: if_splits)
  ultimately show ?thesis using sends_exact [of "dispatch_targets ord evt a" a evt c] unfolding dispatchEvent_def by auto
qed

text \<open>The channels to send to are collected before the sends: if the subscription of one of them ends in between, its channel is closed
  and the send panics.\<close>

lemma ended_subscription_panics:
  assumes "c |\<in>| subscribers a" and "chan_open a c" and "set (ord (subscribers a)) = fset (subscribers a)"
  shows "c \<in> set (dispatch_targets ord evt a) \<and> ra_panic (send_event (\<lambda>_. False) evt c (close_chan c (end_subscription c a)))"
  using assms by (auto simp: dispatch_targets_def chan_open_def close_chan_def end_subscription_def send_event_def split: option.splits)

end
