(* ===== verification/Discord_Bot.thy ===== *)
theory Discord_Bot
  imports Hub Dispatcher Go_Date Session_Commands
begin

text \<open>
  \<open>supervisor/discord.go\<close>: the bot that offers the supervisor's commands in a chat. The Discord library is surroundings: the outcomes of
  its calls are given. A panic of a handler, by a missing pointer or an option of the wrong type, is the result \<open>None\<close>; it is recovered
  by \<open>handleInteraction\<close>.
\<close>

section \<open>Messages\<close>

definition colorSuccess :: int where "colorSuccess = 0x00CC66"
definition colorFailure :: int where "colorFailure = 0xCC3333"
definition colorTimeout :: int where "colorTimeout = 0xFF9900"
definition colorInfo :: int where "colorInfo = 0x3399FF"
definition colorError :: int where "colorError = 0xCC3333"

record MessageEmbed =
  emb_Title :: string
  emb_Description :: string
  emb_Color :: int
  emb_Fields :: "(string \<times> string) list"
  emb_Timestamp :: string

text \<open>What the handlers take from outside: the clock, the dispatcher's run, the outcome of a query, visiting orders, the format of an
  amount and of an instant in its own zone.\<close>

record bot_env =
  bx_now :: go_time
  bx_codec :: time_codec
  bx_dispatch :: "CommandDispatcher \<Rightarrow> Command \<Rightarrow> CommandResult option go_result \<times> CommandDispatcher"
  bx_select :: exec_outcome
  bx_nodes :: "string list"
  bx_sessions :: "string list"
  bx_money :: "rat \<Rightarrow> string"
  bx_format :: "go_time \<Rightarrow> string"

definition code_text :: "string \<Rightarrow> string" where
  "code_text s = [CHR 0x60] @ s @ [CHR 0x60]"

definition valueOrDash :: "string \<Rightarrow> string" where
  "valueOrDash v = (if v = [] then ''-'' else v)"

definition errorEmbed :: "bot_env \<Rightarrow> string \<Rightarrow> string \<Rightarrow> MessageEmbed" where
  "errorEmbed e title description =
     \<lparr>emb_Title = title, emb_Description = description, emb_Color = colorError, emb_Fields = [], emb_Timestamp = rfc3339_text (bx_now e)\<rparr>"

definition validationErrorEmbed :: "bot_env \<Rightarrow> string \<Rightarrow> MessageEmbed" where
  "validationErrorEmbed e description =
     \<lparr>emb_Title = ''Validation Error'', emb_Description = description, emb_Color = colorError, emb_Fields = [],
      emb_Timestamp = rfc3339_text (bx_now e)\<rparr>"

definition sanitizeError :: "string \<Rightarrow> string" where
  "sanitizeError err =
     (if str_contains err ''node'' \<and> str_contains err ''not connected'' then ''Target node is not connected.''
      else if str_contains err ''not found'' then ''The requested resource was not found.''
      else if str_contains err ''offline'' then ''Target node is offline.''
      else if str_contains err ''timed out'' then ''The command timed out. Please try again.''
      else if str_contains err ''saturated'' then ''Target node is busy. Please try again later.''
      else ''An error occurred while processing the command.'')"

definition commandResultEmbed :: "bot_env \<Rightarrow> string \<Rightarrow> CommandResult option \<Rightarrow> MessageEmbed" where
  "commandResultEmbed e title result =
     (case result of
        None \<Rightarrow> errorEmbed e title ''No result received.''
      | Some res \<Rightarrow>
          let color = (if res_Status res = CommandStatusFailure then colorFailure
                else if res_Status res = CommandStatusTimeout then colorTimeout else colorSuccess);
              description0 = (if res_Output res \<noteq> [] then res_Output res else []);
              description = (if res_Error res \<noteq> [] then sanitizeError (res_Error res) else description0)
          in \<lparr>emb_Title = title, emb_Description = description, emb_Color = color,
              emb_Fields = [(''Status'', res_Status res), (''Command ID'', res_CommandID res)],
              emb_Timestamp = bx_format e (res_Timestamp res)\<rparr>)"

section \<open>The bot\<close>

record DiscordBot =
  bot_guildID :: string
  bot_dispatcher :: "CommandDispatcher option"
  bot_hub :: "Hub option"
  bot_tracker :: "SessionTracker option"
  bot_commandIDs :: "string list"
  bot_running :: bool
  bot_handler :: bool

definition NewDiscordBot :: "exec_outcome \<Rightarrow> string \<Rightarrow> string \<Rightarrow> CommandDispatcher option \<Rightarrow> Hub option \<Rightarrow> SessionTracker option
    \<Rightarrow> DiscordBot go_result" where
  "NewDiscordBot new token guildID dispatcher h tracker =
     (if token = [] then Inl (Errorf ''discord bot token is required'')
      else case new of
          Some err \<Rightarrow> Inl (Wrapf ''create discord session: '' err)
        | None \<Rightarrow> Inr \<lparr>bot_guildID = guildID, bot_dispatcher = dispatcher, bot_hub = h, bot_tracker = tracker,
            bot_commandIDs = [], bot_running = False, bot_handler = False\<rparr>)"

definition NewDiscordBotWithSession :: "string \<Rightarrow> CommandDispatcher option \<Rightarrow> Hub option \<Rightarrow> SessionTracker option \<Rightarrow> DiscordBot" where
  "NewDiscordBotWithSession guildID dispatcher h tracker =
     \<lparr>bot_guildID = guildID, bot_dispatcher = dispatcher, bot_hub = h, bot_tracker = tracker,
      bot_commandIDs = [], bot_running = False, bot_handler = False\<rparr>"

text \<open>The definitions of the commands, with the name, the kind and the necessity of each option.\<close>

datatype option_kind = KString | KInteger

record slash_option =
  so_kind :: option_kind
  so_name :: string
  so_description :: string
  so_required :: bool

record slash_command =
  sl_name :: string
  sl_description :: string
  sl_options :: "slash_option list"

definition string_option :: "string \<Rightarrow> string \<Rightarrow> bool \<Rightarrow> slash_option" where
  "string_option name description required =
     \<lparr>so_kind = KString, so_name = name, so_description = description, so_required = required\<rparr>"

definition slashCommands :: "slash_command list" where
  "slashCommands =
     [\<lparr>sl_name = ''status'', sl_description = ''Show session status for a project'',
       sl_options = [string_option ''project'' ''Project name'' True]\<rparr>,
      \<lparr>sl_name = ''nodes'', sl_description = ''List connected agent nodes'', sl_options = []\<rparr>,
      \<lparr>sl_name = ''logs'', sl_description = ''Fetch recent session logs'',
       sl_options = [string_option ''session_id'' ''Session ID to fetch logs for'' True,
         \<lparr>so_kind = KInteger, so_name = ''limit'', so_description = ''Number of log lines (default 20)'', so_required = False\<rparr>]\<rparr>,
      \<lparr>sl_name = ''resume'', sl_description = ''Resume a project session with a message'',
       sl_options = [string_option ''project'' ''Project name'' True, string_option ''message'' ''Message to send'' True]\<rparr>,
      \<lparr>sl_name = ''inject'', sl_description = ''Inject a message into a session'',
       sl_options = [string_option ''session_id'' ''Target session ID'' True, string_option ''message'' ''Message to inject'' True]\<rparr>,
      \<lparr>sl_name = ''restart'', sl_description = ''Restart a session'',
       sl_options = [string_option ''session_id'' ''Session ID to restart'' True]\<rparr>,
      \<lparr>sl_name = ''kill'', sl_description = ''Kill a session'',
       sl_options = [string_option ''session_id'' ''Session ID to kill'' True]\<rparr>,
      \<lparr>sl_name = ''start'', sl_description = ''Start a new session for a project'',
       sl_options = [string_option ''project'' ''Project name'' True]\<rparr>,
      \<lparr>sl_name = ''cost'', sl_description = ''Show cost summary'',
       sl_options = [string_option ''period'' ''Time period: today, week, month (default today)'' False]\<rparr>]"

text \<open>\<open>open_out\<close>, \<open>create\<close>, \<open>delete\<close> and \<open>close_out\<close> are the outcomes of the calls of the library; a creation yields an id. The
  ids whose deletion was asked for are part of the result of \<open>Stop\<close>.\<close>

definition register_commands :: "(slash_command \<Rightarrow> string go_result) \<Rightarrow> slash_command list \<Rightarrow> string list" where
  "register_commands create cmds = List.map_filter (\<lambda>cmd. case create cmd of Inl _ \<Rightarrow> None | Inr i \<Rightarrow> Some i) cmds"

definition StartBot :: "exec_outcome \<Rightarrow> (slash_command \<Rightarrow> string go_result) \<Rightarrow> DiscordBot \<Rightarrow> go_error option \<times> DiscordBot" where
  "StartBot open_out create b =
     (if bot_running b then (Some (Errorf ''discord bot is already running''), b)
      else
        let b1 = b\<lparr>bot_handler := True\<rparr>
        in case open_out of
             Some err \<Rightarrow> (Some (Wrapf ''open discord session: '' err), b1)
           | None \<Rightarrow> (None, b1\<lparr>bot_commandIDs := register_commands create slashCommands, bot_running := True\<rparr>))"

definition StopBot :: "exec_outcome \<Rightarrow> DiscordBot \<Rightarrow> go_error option \<times> string list \<times> DiscordBot" where
  "StopBot close_out b =
     (if \<not> bot_running b then (None, [], b)
      else
        let ids = bot_commandIDs b;
            b1 = b\<lparr>bot_commandIDs := [], bot_handler := False\<rparr>
        in case close_out of
             Some err \<Rightarrow> (Some (Wrapf ''close discord session: '' err), ids, b1)
           | None \<Rightarrow> (None, ids, b1\<lparr>bot_running := False\<rparr>))"

section \<open>The commands\<close>

datatype option_value = OString string | OInt int | OOther

type_synonym bot_options = "(string, option_value) fmap"

text \<open>\<open>StringValue\<close> and \<open>IntValue\<close> panic on a value of another kind.\<close>

definition StringValue :: "option_value \<Rightarrow> string option" where
  "StringValue v = (case v of OString s \<Rightarrow> Some s | _ \<Rightarrow> None)"

definition IntValue :: "option_value \<Rightarrow> int option" where
  "IntValue v = (case v of OInt i \<Rightarrow> Some i | _ \<Rightarrow> None)"

definition missing :: "bot_env \<Rightarrow> string \<Rightarrow> MessageEmbed" where
  "missing e name = validationErrorEmbed e (''Missing required argument: '' @ code_text name)"

definition bot_command :: "CommandType \<Rightarrow> CommandTarget \<Rightarrow> (string \<times> go_value) list option \<Rightarrow> Command" where
  "bot_command t target args = \<lparr>cmd_CommandID = [], cmd_Type = t, cmd_IdempotencyKey = [], cmd_Target = target, cmd_Args = args, cmd_Timeout = 0\<rparr>"

text \<open>The common end of the handlers that dispatch a command; without a dispatcher the call panics.\<close>

definition dispatch_embed :: "bot_env \<Rightarrow> Command \<Rightarrow> string \<Rightarrow> string \<Rightarrow> string \<Rightarrow> DiscordBot \<Rightarrow> MessageEmbed option \<times> DiscordBot" where
  "dispatch_embed e cmd failed advice title b =
     (case bot_dispatcher b of
        None \<Rightarrow> (None, b)
      | Some d \<Rightarrow>
          (case bx_dispatch e d cmd of
             (Inl _, d') \<Rightarrow> (Some (errorEmbed e failed advice), b\<lparr>bot_dispatcher := Some d'\<rparr>)
           | (Inr result, d') \<Rightarrow> (Some (commandResultEmbed e title result), b\<lparr>bot_dispatcher := Some d'\<rparr>)))"

definition handleStatus :: "bot_env \<Rightarrow> bot_options \<Rightarrow> DiscordBot \<Rightarrow> MessageEmbed option \<times> DiscordBot" where
  "handleStatus e opts b =
     (case fmlookup opts ''project'' of
        None \<Rightarrow> (Some (missing e ''project''), b)
      | Some projectOpt \<Rightarrow>
          (case StringValue projectOpt of
             None \<Rightarrow> (None, b)
           | Some project \<Rightarrow>
               dispatch_embed e (bot_command CommandTypeSessionStatus \<lparr>tg_Project = project, tg_NodeID = []\<rparr> None)
                 ''Status Failed'' ''Could not retrieve status. Please try again later.'' (''Status: '' @ project) b))"

definition node_line :: "NodeEntry \<Rightarrow> string" where
  "node_line node =
     code_text (valueOrDash (ne_ID node)) @ '' ('' @ valueOrDash (ne_Hostname node) @ '') - '' @ ne_Status node @ '' - hb: '' @
     (if time_is_zero (ne_LastHeartbeat node) then ''-'' else date_text (ne_LastHeartbeat node) @ '' '' @ clock_text (ne_LastHeartbeat node))"

definition maxNodeLines :: nat where "maxNodeLines = 10"

text \<open>The loop over the nodes, with the number of those that were visited.\<close>

fun node_lines :: "nat \<Rightarrow> nat \<Rightarrow> NodeEntry list \<Rightarrow> string list" where
  "node_lines n i [] = []"
| "node_lines n i (node # rest) =
     (if i \<ge> maxNodeLines then [''...and '' @ int_text (int n - int maxNodeLines) @ '' more'']
      else node_line node # node_lines n (Suc i) rest)"

definition nodes_description :: "bot_env \<Rightarrow> DiscordBot \<Rightarrow> string" where
  "nodes_description e b =
     (let count = (case bot_hub b of None \<Rightarrow> 0 | Some h \<Rightarrow> ClientCount h);
          nodes = (case bot_dispatcher b of None \<Rightarrow> []
            | Some d \<Rightarrow> (case d_registry d of None \<Rightarrow> [] | Some r \<Rightarrow> ListNodes r (bx_nodes e)))
      in if nodes \<noteq> []
         then str_join [CHR 0x0A] ([''**Connected:** '' @ nat_text count, ''**Known nodes:** '' @ nat_text (length nodes)] @
           node_lines (length nodes) 0 (sort_key ne_ID nodes))
         else case bot_tracker b of
             Some t \<Rightarrow> ''**Connected:** '' @ nat_text count @ [CHR 0x0A] @ ''**Known nodes:** '' @
               nat_text (card (set (map ts_NodeID (GetAllSessions t (bx_sessions e)))))
           | None \<Rightarrow> ''**Connected:** '' @ nat_text count)"

definition handleNodes :: "bot_env \<Rightarrow> DiscordBot \<Rightarrow> MessageEmbed option \<times> DiscordBot" where
  "handleNodes e b =
     (Some \<lparr>emb_Title = ''Agent Nodes'', emb_Description = nodes_description e b, emb_Color = colorInfo, emb_Fields = [],
        emb_Timestamp = rfc3339_text (bx_now e)\<rparr>, b)"

definition logs_limit :: "bot_options \<Rightarrow> int option" where
  "logs_limit opts =
     (case fmlookup opts ''limit'' of
        None \<Rightarrow> Some 20
      | Some v \<Rightarrow> map_option (\<lambda>limit. if limit \<le> 0 then 20 else limit) (IntValue v))"

definition logs_embed :: "bot_env \<Rightarrow> string \<Rightarrow> TrackedSession \<Rightarrow> int \<Rightarrow> MessageEmbed" where
  "logs_embed e sessionID s limit =
     \<lparr>emb_Title = ''Logs: '' @ sessionID,
      emb_Description = ''Session for project **'' @ ts_Project s @ ''** on node '' @ code_text (ts_NodeID s) @ [CHR 0x0A] @ ''Status: **'' @
        ts_Status s @ ''**'' @ [CHR 0x0A] @ ''Requested lines: '' @ int_text limit,
      emb_Color = colorInfo,
      emb_Fields = [(''Model'', valueOrDash (ts_Model s)), (''Task'', valueOrDash (ts_CurrentTask s)),
        (''Tokens'', int_text (tu_Total (ts_TokenUsage s)))],
      emb_Timestamp = rfc3339_text (bx_now e)\<rparr>"

definition handleLogs :: "bot_env \<Rightarrow> bot_options \<Rightarrow> DiscordBot \<Rightarrow> MessageEmbed option \<times> DiscordBot" where
  "handleLogs e opts b =
     (case fmlookup opts ''session_id'' of
        None \<Rightarrow> (Some (missing e ''session_id''), b)
      | Some sessionOpt \<Rightarrow>
          (case StringValue sessionOpt of
             None \<Rightarrow> (None, b)
           | Some sessionID \<Rightarrow>
               (case bot_tracker b of
                  None \<Rightarrow> (Some (errorEmbed e ''Logs Unavailable'' ''Session tracker is not available.''), b)
                | Some t \<Rightarrow>
                    (case GetSession (bx_codec e) (bx_select e) t sessionID of
                       (Inl _, t') \<Rightarrow>
                         (Some (errorEmbed e ''Session Not Found'' (''No session found with ID '' @ code_text sessionID @ ''.'')),
                          b\<lparr>bot_tracker := Some t'\<rparr>)
                     | (Inr s, t') \<Rightarrow> (map_option (logs_embed e sessionID s) (logs_limit opts), b\<lparr>bot_tracker := Some t'\<rparr>)))))"

definition handleResume :: "bot_env \<Rightarrow> bot_options \<Rightarrow> DiscordBot \<Rightarrow> MessageEmbed option \<times> DiscordBot" where
  "handleResume e opts b =
     (case fmlookup opts ''project'' of
        None \<Rightarrow> (Some (missing e ''project''), b)
      | Some projectOpt \<Rightarrow>
          (case fmlookup opts ''message'' of
             None \<Rightarrow> (Some (missing e ''message''), b)
           | Some messageOpt \<Rightarrow>
               (case (StringValue projectOpt, StringValue messageOpt) of
                  (Some project, Some message) \<Rightarrow>
                    dispatch_embed e (bot_command CommandTypePromptSession \<lparr>tg_Project = project, tg_NodeID = []\<rparr>
                        (Some [(''message'', JString message)]))
                      ''Resume Failed'' ''Could not resume session. Please try again later.'' (''Resume: '' @ project) b
                | _ \<Rightarrow> (None, b))))"

text \<open>The node of a session, by the tracker.\<close>

definition session_node :: "bot_env \<Rightarrow> string \<Rightarrow> DiscordBot \<Rightarrow> string \<times> DiscordBot" where
  "session_node e sessionID b =
     (case bot_tracker b of
        None \<Rightarrow> ([], b)
      | Some t \<Rightarrow>
          (case GetSession (bx_codec e) (bx_select e) t sessionID of
             (Inl _, t') \<Rightarrow> ([], b\<lparr>bot_tracker := Some t'\<rparr>)
           | (Inr s, t') \<Rightarrow> (ts_NodeID s, b\<lparr>bot_tracker := Some t'\<rparr>)))"

definition handleInject :: "bot_env \<Rightarrow> bot_options \<Rightarrow> DiscordBot \<Rightarrow> MessageEmbed option \<times> DiscordBot" where
  "handleInject e opts b =
     (case fmlookup opts ''session_id'' of
        None \<Rightarrow> (Some (missing e ''session_id''), b)
      | Some sessionOpt \<Rightarrow>
          (case fmlookup opts ''message'' of
             None \<Rightarrow> (Some (missing e ''message''), b)
           | Some messageOpt \<Rightarrow>
               (case StringValue sessionOpt of
                  None \<Rightarrow> (None, b)
                | Some sessionID \<Rightarrow>
                    (case session_node e sessionID b of
                       (nodeID, b') \<Rightarrow>
                         (case StringValue messageOpt of
                            None \<Rightarrow> (None, b')
                          | Some message \<Rightarrow>
                              dispatch_embed e (bot_command CommandTypePromptSession \<lparr>tg_Project = [], tg_NodeID = nodeID\<rparr>
                                  (Some [(''message'', JString message), (''session_id'', JString sessionID)]))
                                ''Inject Failed'' ''Could not inject message. Please try again later.'' (''Inject: '' @ sessionID) b')))))"

definition session_handler :: "CommandType \<Rightarrow> string \<Rightarrow> string \<Rightarrow> string \<Rightarrow> bot_env \<Rightarrow> bot_options \<Rightarrow> DiscordBot \<Rightarrow> MessageEmbed option \<times> DiscordBot" where
  "session_handler t failed advice title e opts b =
     (case fmlookup opts ''session_id'' of
        None \<Rightarrow> (Some (missing e ''session_id''), b)
      | Some sessionOpt \<Rightarrow>
          (case StringValue sessionOpt of
             None \<Rightarrow> (None, b)
           | Some sessionID \<Rightarrow>
               (case session_node e sessionID b of
                  (nodeID, b') \<Rightarrow>
                    dispatch_embed e (bot_command t \<lparr>tg_Project = [], tg_NodeID = nodeID\<rparr> (Some [(''session_id'', JString sessionID)]))
                      failed advice (title @ sessionID) b')))"

definition handleRestart :: "bot_env \<Rightarrow> bot_options \<Rightarrow> DiscordBot \<Rightarrow> MessageEmbed option \<times> DiscordBot" where
  "handleRestart = session_handler CommandTypeRestartSession ''Restart Failed'' ''Could not restart session. Please try again later.'' ''Restart: ''"

definition handleKill :: "bot_env \<Rightarrow> bot_options \<Rightarrow> DiscordBot \<Rightarrow> MessageEmbed option \<times> DiscordBot" where
  "handleKill = session_handler CommandTypeKillSession ''Kill Failed'' ''Could not kill session. Please try again later.'' ''Kill: ''"

definition handleStart :: "bot_env \<Rightarrow> bot_options \<Rightarrow> DiscordBot \<Rightarrow> MessageEmbed option \<times> DiscordBot" where
  "handleStart e opts b =
     (case fmlookup opts ''project'' of
        None \<Rightarrow> (Some (missing e ''project''), b)
      | Some projectOpt \<Rightarrow>
          (case StringValue projectOpt of
             None \<Rightarrow> (None, b)
           | Some project \<Rightarrow>
               dispatch_embed e (bot_command CommandTypeCreateSession \<lparr>tg_Project = project, tg_NodeID = []\<rparr> None)
                 ''Start Failed'' ''Could not start session. Please try again later.'' (''Start: '' @ project) b))"

definition cost_period :: "bot_options \<Rightarrow> string option" where
  "cost_period opts =
     map_option (\<lambda>period. if period \<noteq> ''today'' \<and> period \<noteq> ''week'' \<and> period \<noteq> ''month'' then ''today'' else period)
       (case fmlookup opts ''period'' of None \<Rightarrow> Some ''today'' | Some v \<Rightarrow> map_option to_lower (StringValue v))"

definition handleCost :: "bot_env \<Rightarrow> bot_options \<Rightarrow> DiscordBot \<Rightarrow> MessageEmbed option \<times> DiscordBot" where
  "handleCost e opts b =
     (case cost_period opts of
        None \<Rightarrow> (None, b)
      | Some period \<Rightarrow>
          (case bot_tracker b of
             None \<Rightarrow> (Some (errorEmbed e ''Cost Unavailable'' ''Session tracker is not available.''), b)
           | Some t \<Rightarrow>
               let sessions = GetAllSessions t (bx_sessions e);
                   totalCost = fold (\<lambda>s acc. acc + ts_SessionCost s) sessions 0;
                   totalTokens = fold (\<lambda>s acc. wrap64 (acc + tu_Total (ts_TokenUsage s))) sessions 0
               in (Some \<lparr>emb_Title = ''Cost Summary'', emb_Description = ''Period: **'' @ period @ ''**'', emb_Color = colorInfo,
                     emb_Fields = [(''Total Cost'', ''$'' @ bx_money e totalCost), (''Total Tokens'', int_text totalTokens),
                       (''Sessions'', nat_text (length sessions))],
                     emb_Timestamp = rfc3339_text (bx_now e)\<rparr>, b)))"

section \<open>Interactions\<close>

record interaction =
  ia_is_command :: bool
  ia_name :: string
  ia_options :: "(string \<times> option_value) list"

definition bot_dispatch :: "bot_env \<Rightarrow> string \<Rightarrow> bot_options \<Rightarrow> DiscordBot \<Rightarrow> MessageEmbed option \<times> DiscordBot" where
  "bot_dispatch e cmdName opts b =
     (if cmdName = ''status'' then handleStatus e opts b
      else if cmdName = ''nodes'' then handleNodes e b
      else if cmdName = ''logs'' then handleLogs e opts b
      else if cmdName = ''resume'' then handleResume e opts b
      else if cmdName = ''inject'' then handleInject e opts b
      else if cmdName = ''restart'' then handleRestart e opts b
      else if cmdName = ''kill'' then handleKill e opts b
      else if cmdName = ''start'' then handleStart e opts b
      else if cmdName = ''cost'' then handleCost e opts b
      else (Some (errorEmbed e ''Unknown Command'' (''Command '' @ code_text (''/'' @ cmdName) @ '' is not recognized.'')), b))"

text \<open>The follow-up messages that are sent; \<open>acknowledge\<close> is the outcome of \<open>InteractionRespond\<close>.\<close>

definition handleInteraction :: "bot_env \<Rightarrow> exec_outcome \<Rightarrow> interaction \<Rightarrow> DiscordBot \<Rightarrow> MessageEmbed list \<times> DiscordBot" where
  "handleInteraction e acknowledge i b =
     (if \<not> ia_is_command i then ([], b)
      else if acknowledge \<noteq> None then ([], b)
      else
        let opts = fold (\<lambda>(name, v) m. fmupd name v m) (ia_options i) fmempty
        in case bot_dispatch e (ia_name i) opts b of
             (Some message, b') \<Rightarrow> ([message], b')
           | (None, b') \<Rightarrow> ([errorEmbed e ''Internal Error'' ''An unexpected error occurred. Please try again.''], b'))"

section \<open>Starting and stopping\<close>

text \<open>A bot that was started and stopped has asked for the deletion of exactly the commands it had registered, in their order.\<close>

lemma bot_unregisters_its_commands:
  assumes "StartBot open_out create b = (None, b1)" and "StopBot close_out b1 = (err, deleted, b2)"
  shows "deleted = register_commands create slashCommands \<and> bot_commandIDs b2 = [] \<and> \<not> bot_handler b2 \<and>
    (bot_running b2 = (close_out \<noteq> None))"
  using assms by (auto simp: StartBot_def StopBot_def Let_def split: if_splits option.splits)

text \<open>A bot whose session could not be opened keeps its handler.\<close>

lemma failed_start_keeps_handler:
  "\<not> bot_running b \<Longrightarrow> StartBot (Some err) create b = (Some (Wrapf ''open discord session: '' err), b\<lparr>bot_handler := True\<rparr>)"
  by (simp add: StartBot_def)

lemma slash_commands_known:
  assumes "cmd \<in> set slashCommands"
  shows "sl_name cmd \<in> {''status'', ''nodes'', ''logs'', ''resume'', ''inject'', ''restart'', ''kill'', ''start'', ''cost''}"
  using assms by (auto simp: slashCommands_def)

lemma node_lines_bounded: "i \<le> maxNodeLines \<Longrightarrow> length (node_lines n i xs) \<le> maxNodeLines + 1 - i"
proof (induction n i xs rule: node_lines.induct)
  case (2 n i node rest)
  then show ?case by (cases "i = maxNodeLines") auto
qed simp

section \<open>What a chat message reveals\<close>

text \<open>Two answers of the dispatcher that differ in the details of an error only.\<close>

definition same_result :: "CommandResult option \<Rightarrow> CommandResult option \<Rightarrow> bool" where
  "same_result x y \<longleftrightarrow> x = y \<or> (\<exists>r s. x = Some r \<and> y = Some s \<and> res_Error r \<noteq> [] \<and> res_Error s \<noteq> [] \<and>
     sanitizeError (res_Error r) = sanitizeError (res_Error s) \<and> res_Status r = res_Status s \<and> res_CommandID r = res_CommandID s \<and>
     res_Timestamp r = res_Timestamp s)"

definition same_answer :: "CommandResult option go_result \<times> CommandDispatcher \<Rightarrow> CommandResult option go_result \<times> CommandDispatcher \<Rightarrow> bool" where
  "same_answer x y \<longleftrightarrow> snd x = snd y \<and>
     (case (fst x, fst y) of (Inl _, Inl _) \<Rightarrow> True | (Inr r, Inr s) \<Rightarrow> same_result r s | _ \<Rightarrow> False)"

lemma commandResultEmbed_same:
  assumes "same_result r s"
  shows "commandResultEmbed e title r = commandResultEmbed e title s"
  using assms by (auto simp: same_result_def commandResultEmbed_def Let_def)

lemma embed_env:
  "errorEmbed (e\<lparr>bx_dispatch := f\<rparr>) = errorEmbed e" "commandResultEmbed (e\<lparr>bx_dispatch := f\<rparr>) = commandResultEmbed e"
  "missing (e\<lparr>bx_dispatch := f\<rparr>) = missing e" "session_node (e\<lparr>bx_dispatch := f\<rparr>) = session_node e"
  "handleNodes (e\<lparr>bx_dispatch := f\<rparr>) = handleNodes e" "handleLogs (e\<lparr>bx_dispatch := f\<rparr>) = handleLogs e"
  "handleCost (e\<lparr>bx_dispatch := f\<rparr>) = handleCost e"
proof -
  have env: "bx_now (e\<lparr>bx_dispatch := f\<rparr>) = bx_now e" "bx_codec (e\<lparr>bx_dispatch := f\<rparr>) = bx_codec e"
    "bx_select (e\<lparr>bx_dispatch := f\<rparr>) = bx_select e" "bx_nodes (e\<lparr>bx_dispatch := f\<rparr>) = bx_nodes e"
    "bx_sessions (e\<lparr>bx_dispatch := f\<rparr>) = bx_sessions e" "bx_money (e\<lparr>bx_dispatch := f\<rparr>) = bx_money e"
    "bx_format (e\<lparr>bx_dispatch := f\<rparr>) = bx_format e" by simp_all
  show err: "errorEmbed (e\<lparr>bx_dispatch := f\<rparr>) = errorEmbed e" and miss: "missing (e\<lparr>bx_dispatch := f\<rparr>) = missing e"
    and "session_node (e\<lparr>bx_dispatch := f\<rparr>) = session_node e"
    by (intro ext, simp only: errorEmbed_def missing_def validationErrorEmbed_def session_node_def env)+
  have log: "logs_embed (e\<lparr>bx_dispatch := f\<rparr>) = logs_embed e" by (intro ext, simp only: logs_embed_def env)
  show "commandResultEmbed (e\<lparr>bx_dispatch := f\<rparr>) = commandResultEmbed e" "handleNodes (e\<lparr>bx_dispatch := f\<rparr>) = handleNodes e"
    "handleLogs (e\<lparr>bx_dispatch := f\<rparr>) = handleLogs e" "handleCost (e\<lparr>bx_dispatch := f\<rparr>) = handleCost e"
    by (intro ext, simp only: commandResultEmbed_def handleNodes_def nodes_description_def handleLogs_def handleCost_def err miss log env)+
qed

lemma dispatch_embed_same:
  assumes "\<And>d cmd. same_answer (bx_dispatch e d cmd) (f d cmd)"
  shows "dispatch_embed (e\<lparr>bx_dispatch := f\<rparr>) cmd failed advice title b = dispatch_embed e cmd failed advice title b"
proof (cases "bot_dispatcher b")
  case (Some d)
  show ?thesis
    using assms [of d cmd] commandResultEmbed_same
    by (auto simp: dispatch_embed_def Some same_answer_def embed_env split: prod.splits sum.splits)
qed (simp add: dispatch_embed_def)


definition failing_dispatch :: "string \<Rightarrow> CommandDispatcher \<Rightarrow> Command \<Rightarrow> CommandResult option go_result \<times> CommandDispatcher" where
  "failing_dispatch detail d cmd =
     (Inr (Some \<lparr>res_CommandID = ''c'', res_Status = CommandStatusFailure, res_Output = [], res_Error = ''node not found: '' @ detail, res_Timestamp = 0\<rparr>), d)"

definition failing_env :: bot_env where
  "failing_env = \<lparr>bx_now = 0, bx_codec = w_codec demo_world, bx_dispatch = failing_dispatch ''/home/a'', bx_select = None, bx_nodes = [],
     bx_sessions = [], bx_money = (\<lambda>_. []), bx_format = rfc3339_text\<rparr>"

definition demo_bot :: DiscordBot where
  "demo_bot = NewDiscordBotWithSession ''g'' (Some \<lparr>d_has_db = False, idempotency = fmempty, d_registry = None, d_tracker = None,
     d_has_transport = True, sent = []\<rparr>) None None"


end
