(* ===== verification/Halctl.thy ===== *)
theory Halctl
  imports Http_Api File_System "HOL-Library.Countable"
begin

text \<open>
  \<open>internal/halctl\<close> and \<open>cmd/halctl/main.go\<close>: the command-line client of the HTTP interface. The network and the parser of JSON texts are
  surroundings; decoding a parsed value into a structure is defined here, by the rules of \<open>encoding/json\<close> that the
  structures need. The printing of tables is left out.
\<close>

section \<open>JSON values\<close>

text \<open>Keys are matched without regard to case and a later key overrides an earlier one; a missing key and \<open>null\<close> leave the zero value; a value of
  another type is an error, here \<open>None\<close>.\<close>

definition json_field :: "string \<Rightarrow> (string \<times> go_value) list \<Rightarrow> go_value option" where
  "json_field tag obj = (case rev (filter (\<lambda>(k, v). to_lower k = tag) obj) of [] \<Rightarrow> None | (k, v) # _ \<Rightarrow> if v = JNull then None else Some v)"

definition field_string :: "string \<Rightarrow> (string \<times> go_value) list \<Rightarrow> string option" where
  "field_string tag obj = (case json_field tag obj of None \<Rightarrow> Some [] | Some (JString s) \<Rightarrow> Some s | Some _ \<Rightarrow> None)"

definition field_int :: "string \<Rightarrow> (string \<times> go_value) list \<Rightarrow> int option" where
  "field_int tag obj = (case json_field tag obj of None \<Rightarrow> Some 0
     | Some (JNumber q) \<Rightarrow> if q = of_int \<lfloor>q\<rfloor> \<and> min_int64 \<le> \<lfloor>q\<rfloor> \<and> \<lfloor>q\<rfloor> \<le> max_int64 then Some \<lfloor>q\<rfloor> else None | Some _ \<Rightarrow> None)"

definition field_float :: "string \<Rightarrow> (string \<times> go_value) list \<Rightarrow> rat option" where
  "field_float tag obj = (case json_field tag obj of None \<Rightarrow> Some 0 | Some (JNumber q) \<Rightarrow> Some q | Some _ \<Rightarrow> None)"

definition field_time :: "(string \<Rightarrow> go_time option) \<Rightarrow> string \<Rightarrow> (string \<times> go_value) list \<Rightarrow> go_time option" where
  "field_time parse tag obj = (case json_field tag obj of None \<Rightarrow> Some 0 | Some (JString s) \<Rightarrow> parse s | Some _ \<Rightarrow> None)"

definition field_strings :: "string \<Rightarrow> (string \<times> go_value) list \<Rightarrow> string list option" where
  "field_strings tag obj = (case json_field tag obj of None \<Rightarrow> Some []
     | Some (JArray vs) \<Rightarrow> those (map (\<lambda>v. case v of JString s \<Rightarrow> Some s | JNull \<Rightarrow> Some [] | _ \<Rightarrow> None) vs) | Some _ \<Rightarrow> None)"

definition decode_object :: "((string \<times> go_value) list \<Rightarrow> 'a option) \<Rightarrow> go_value \<Rightarrow> 'a option" where
  "decode_object dec v = (case v of JObject obj \<Rightarrow> dec obj | JNull \<Rightarrow> dec [] | _ \<Rightarrow> None)"

definition decode_list :: "(go_value \<Rightarrow> 'a option) \<Rightarrow> go_value \<Rightarrow> 'a list option" where
  "decode_list dec v = (case v of JArray vs \<Rightarrow> those (map dec vs) | JNull \<Rightarrow> Some [] | _ \<Rightarrow> None)"

section \<open>The structures of the client\<close>

record SessionJSON =
  cs_ID :: string
  cs_NodeID :: string
  cs_Project :: string
  cs_Status :: string
  cs_Tokens :: int
  cs_Cost :: rat
  cs_StartedAt :: go_time

record EventJSON =
  ce_ID :: string
  ce_SessionID :: string
  ce_Type :: string
  ce_Data :: "go_value option"
  ce_Timestamp :: go_time

record NodeJSON =
  cn_ID :: string
  cn_Hostname :: string
  cn_Status :: string
  cn_LastHeartbeat :: go_time
  cn_ConnectedAt :: go_time

record CostSummary =
  cc_Period :: string
  cc_TotalCost :: rat
  cc_SessionCount :: int
  cc_TokensUsed :: int

record EnvCheckResult =
  cec_Project :: string
  cec_Status :: string
  cec_Issues :: "string list"

record EnvProvisionResult =
  cep_Project :: string
  cep_Status :: string
  cep_Changes :: "string list"

record commandEnvelope =
  cce_CommandID :: string
  cce_Status :: string
  cce_Output :: string
  cce_Error :: string

record AgentMdDiff =
  cad_Project :: string
  cad_Local :: string
  cad_Template :: string
  cad_Diff :: string

record AgentMdSyncResult =
  cas_Project :: string
  cas_Status :: string
  cas_Message :: string

record AuthState =
  cau_Tool :: string
  cau_Status :: string
  cau_Reason :: string
  cau_CheckedAt :: string

record NodeAuthStatus =
  cna_NodeID :: string
  cna_AuthStates :: "(string, AuthState) fmap"
  cna_CredentialSync :: string
  cna_CredentialVersion :: int

record DriftNode =
  cdn_NodeID :: string
  cdn_CredentialSync :: string
  cdn_CredentialVersion :: int

text \<open>Their decoders.\<close>

definition decode_session :: "(string \<Rightarrow> go_time option) \<Rightarrow> (string \<times> go_value) list \<Rightarrow> SessionJSON option" where
  "decode_session pt obj =
     (case (field_string ''id'' obj, field_string ''node_id'' obj, field_string ''project'' obj, field_string ''status'' obj,
            field_int ''tokens'' obj, field_float ''cost'' obj, field_time pt ''started_at'' obj) of
        (Some i, Some n, Some p, Some s, Some t, Some c, Some a) \<Rightarrow>
          Some \<lparr>cs_ID = i, cs_NodeID = n, cs_Project = p, cs_Status = s, cs_Tokens = t, cs_Cost = c, cs_StartedAt = a\<rparr>
      | _ \<Rightarrow> None)"

definition decode_event :: "(string \<Rightarrow> go_time option) \<Rightarrow> (string \<times> go_value) list \<Rightarrow> EventJSON option" where
  "decode_event pt obj =
     (case (field_string ''id'' obj, field_string ''session_id'' obj, field_string ''type'' obj, field_time pt ''timestamp'' obj) of
        (Some i, Some s, Some t, Some ts) \<Rightarrow>
          Some \<lparr>ce_ID = i, ce_SessionID = s, ce_Type = t, ce_Data = json_field ''data'' obj, ce_Timestamp = ts\<rparr>
      | _ \<Rightarrow> None)"

definition decode_node :: "(string \<Rightarrow> go_time option) \<Rightarrow> (string \<times> go_value) list \<Rightarrow> NodeJSON option" where
  "decode_node pt obj =
     (case (field_string ''id'' obj, field_string ''hostname'' obj, field_string ''status'' obj, field_time pt ''last_heartbeat'' obj,
            field_time pt ''connected_at'' obj) of
        (Some i, Some h, Some s, Some l, Some c) \<Rightarrow>
          Some \<lparr>cn_ID = i, cn_Hostname = h, cn_Status = s, cn_LastHeartbeat = l, cn_ConnectedAt = c\<rparr>
      | _ \<Rightarrow> None)"

definition decode_cost :: "(string \<times> go_value) list \<Rightarrow> CostSummary option" where
  "decode_cost obj =
     (case (field_string ''period'' obj, field_float ''total_cost'' obj, field_int ''session_count'' obj, field_int ''tokens_used'' obj) of
        (Some p, Some t, Some s, Some u) \<Rightarrow> Some \<lparr>cc_Period = p, cc_TotalCost = t, cc_SessionCount = s, cc_TokensUsed = u\<rparr>
      | _ \<Rightarrow> None)"

definition decode_env_check :: "(string \<times> go_value) list \<Rightarrow> EnvCheckResult option" where
  "decode_env_check obj =
     (case (field_string ''project'' obj, field_string ''status'' obj, field_strings ''issues'' obj, json_field ''details'' obj) of
        (Some p, Some s, Some i, d) \<Rightarrow>
          (case d of None \<Rightarrow> Some \<lparr>cec_Project = p, cec_Status = s, cec_Issues = i\<rparr>
           | Some (JObject _) \<Rightarrow> Some \<lparr>cec_Project = p, cec_Status = s, cec_Issues = i\<rparr> | Some _ \<Rightarrow> None)
      | _ \<Rightarrow> None)"

definition decode_env_provision :: "(string \<times> go_value) list \<Rightarrow> EnvProvisionResult option" where
  "decode_env_provision obj =
     (case (field_string ''project'' obj, field_string ''status'' obj, field_strings ''changes'' obj, json_field ''details'' obj) of
        (Some p, Some s, Some c, d) \<Rightarrow>
          (case d of None \<Rightarrow> Some \<lparr>cep_Project = p, cep_Status = s, cep_Changes = c\<rparr>
           | Some (JObject _) \<Rightarrow> Some \<lparr>cep_Project = p, cep_Status = s, cep_Changes = c\<rparr> | Some _ \<Rightarrow> None)
      | _ \<Rightarrow> None)"

definition decode_command :: "(string \<times> go_value) list \<Rightarrow> commandEnvelope option" where
  "decode_command obj =
     (case (field_string ''command_id'' obj, field_string ''status'' obj, field_string ''output'' obj, field_string ''error'' obj) of
        (Some c, Some s, Some out, Some err) \<Rightarrow> Some \<lparr>cce_CommandID = c, cce_Status = s, cce_Output = out, cce_Error = err\<rparr>
      | _ \<Rightarrow> None)"

definition decode_diff :: "(string \<times> go_value) list \<Rightarrow> AgentMdDiff option" where
  "decode_diff obj =
     (case (field_string ''project'' obj, field_string ''local'' obj, field_string ''template'' obj, field_string ''diff'' obj) of
        (Some p, Some l, Some t, Some d) \<Rightarrow> Some \<lparr>cad_Project = p, cad_Local = l, cad_Template = t, cad_Diff = d\<rparr>
      | _ \<Rightarrow> None)"

definition decode_sync :: "(string \<times> go_value) list \<Rightarrow> AgentMdSyncResult option" where
  "decode_sync obj =
     (case (field_string ''project'' obj, field_string ''status'' obj, field_string ''message'' obj) of
        (Some p, Some s, Some m) \<Rightarrow> Some \<lparr>cas_Project = p, cas_Status = s, cas_Message = m\<rparr>
      | _ \<Rightarrow> None)"

definition decode_auth_state :: "(string \<times> go_value) list \<Rightarrow> AuthState option" where
  "decode_auth_state obj =
     (case (field_string ''tool'' obj, field_string ''status'' obj, field_string ''reason'' obj, field_string ''checked_at'' obj) of
        (Some t, Some s, Some r, Some c) \<Rightarrow> Some \<lparr>cau_Tool = t, cau_Status = s, cau_Reason = r, cau_CheckedAt = c\<rparr>
      | _ \<Rightarrow> None)"

definition decode_auth_states :: "(string \<times> go_value) list \<Rightarrow> (string, AuthState) fmap option" where
  "decode_auth_states obj =
     (case json_field ''auth_states'' obj of
        None \<Rightarrow> Some fmempty
      | Some (JObject m) \<Rightarrow> map_option (foldl (\<lambda>states (k, st). fmupd k st states) fmempty)
          (those (map (\<lambda>(k, v). map_option (Pair k) (decode_object decode_auth_state v)) m))
      | Some _ \<Rightarrow> None)"

definition decode_node_auth :: "(string \<times> go_value) list \<Rightarrow> NodeAuthStatus option" where
  "decode_node_auth obj =
     (case (field_string ''node_id'' obj, decode_auth_states obj, field_string ''credential_sync'' obj, field_int ''credential_version'' obj) of
        (Some n, Some a, Some s, Some v) \<Rightarrow>
          Some \<lparr>cna_NodeID = n, cna_AuthStates = a, cna_CredentialSync = s, cna_CredentialVersion = v\<rparr>
      | _ \<Rightarrow> None)"

definition decode_drift :: "(string \<times> go_value) list \<Rightarrow> DriftNode option" where
  "decode_drift obj =
     (case (field_string ''node_id'' obj, field_string ''credential_sync'' obj, field_int ''credential_version'' obj) of
        (Some n, Some s, Some v) \<Rightarrow> Some \<lparr>cdn_NodeID = n, cdn_CredentialSync = s, cdn_CredentialVersion = v\<rparr>
      | _ \<Rightarrow> None)"

section \<open>The HTTP client\<close>

record HTTPClient =
  hcl_baseURL :: string
  hcl_authToken :: string

definition NewHTTPClient :: "string \<Rightarrow> string \<Rightarrow> HTTPClient" where
  "NewHTTPClient baseURL token = \<lparr>hcl_baseURL = baseURL, hcl_authToken = token\<rparr>"

record ctl_request =
  hq_method :: string
  hq_url :: string
  hq_authorization :: "string option"
  hq_contentType :: string
  hq_body :: string

text \<open>The surroundings: creating and performing a request, the parser of JSON texts, what marshalling a request gives, the parser of instants and
  the error of a value of the wrong type. \<open>hx_data\<close> is the field \<open>data\<close> of a response, \<open>hx_error\<close> the field \<open>error\<close> of an error response.\<close>

record halctl_env =
  hx_new_request :: "string \<Rightarrow> go_error option"
  hx_do :: "ctl_request \<Rightarrow> (int \<times> string go_result) go_result"
  hx_marshal :: "string \<Rightarrow> string \<Rightarrow> string go_result"
  hx_error :: "string \<Rightarrow> string option"
  hx_data :: "string \<Rightarrow> go_value go_result"
  hx_value :: "string \<Rightarrow> go_value go_result"
  hx_time :: "string \<Rightarrow> go_time option"
  hx_type_error :: go_error

definition setAuthHeader :: "HTTPClient \<Rightarrow> ctl_request \<Rightarrow> ctl_request" where
  "setAuthHeader c req = (if hcl_authToken c \<noteq> [] then req\<lparr>hq_authorization := Some (''Bearer '' @ hcl_authToken c)\<rparr> else req)"

definition parseError :: "halctl_env \<Rightarrow> int \<Rightarrow> string \<Rightarrow> go_error" where
  "parseError x statusCode body =
     (case hx_error x body of
        None \<Rightarrow>
          if statusCode = 401 then Errorf ''authentication failed. Check your auth token''
          else if statusCode = 404 then Errorf ''resource not found''
          else if statusCode = 503 then Errorf ''supervisor service unavailable''
          else Errorf (''server error (status '' @ int_text statusCode @ '')'')
      | Some msg \<Rightarrow>
          if statusCode = 401 then Errorf ''authentication failed. Check your auth token''
          else if statusCode = 404 then Errorf (''resource not found: '' @ msg)
          else if statusCode = 400 then Errorf (''invalid request: '' @ msg)
          else if statusCode = 503 then Errorf (''supervisor service unavailable: '' @ msg)
          else Errorf (''server error: '' @ msg))"

definition perform :: "halctl_env \<Rightarrow> HTTPClient \<Rightarrow> ctl_request \<Rightarrow> string go_result" where
  "perform x c req =
     (case hx_new_request x (hq_url req) of
        Some err \<Rightarrow> Inl (Wrapf ''failed to create request: '' err)
      | None \<Rightarrow>
          (case hx_do x (setAuthHeader c req) of
             Inl err \<Rightarrow> Inl (Wrapf (''failed to connect to supervisor at '' @ hcl_baseURL c @ '': '') err)
           | Inr (status, body) \<Rightarrow>
               (case body of
                  Inl err \<Rightarrow> Inl (Wrapf ''failed to read response: '' err)
                | Inr b \<Rightarrow> if status \<noteq> 200 then Inl (parseError x status b) else Inr b)))"

definition get_request :: "HTTPClient \<Rightarrow> string \<Rightarrow> ctl_request" where
  "get_request c path = \<lparr>hq_method = ''GET'', hq_url = hcl_baseURL c @ path, hq_authorization = None, hq_contentType = [], hq_body = []\<rparr>"

definition Get :: "halctl_env \<Rightarrow> HTTPClient \<Rightarrow> string \<Rightarrow> string go_result" where
  "Get x c path = perform x c (get_request c path)"

text \<open>The payload of every POST is an object with \<open>type\<close> and \<open>target\<close>.\<close>

definition Post :: "halctl_env \<Rightarrow> HTTPClient \<Rightarrow> string \<Rightarrow> string \<times> string \<Rightarrow> string go_result" where
  "Post x c path payload =
     (case hx_marshal x (fst payload) (snd payload) of
        Inl err \<Rightarrow> Inl (Wrapf ''failed to marshal request: '' err)
      | Inr data \<Rightarrow> perform x c \<lparr>hq_method = ''POST'', hq_url = hcl_baseURL c @ path, hq_authorization = None,
          hq_contentType = ''application/json'', hq_body = data\<rparr>)"

definition ParseResponse :: "halctl_env \<Rightarrow> (go_value \<Rightarrow> 'a option) \<Rightarrow> string \<Rightarrow> 'a go_result" where
  "ParseResponse x dec body =
     (case hx_data x body of
        Inl err \<Rightarrow> Inl (Wrapf ''failed to parse response: '' err)
      | Inr data \<Rightarrow>
          (case dec data of
             None \<Rightarrow> Inl (Wrapf ''failed to unmarshal response data: '' (hx_type_error x))
           | Some target \<Rightarrow> Inr target))"

text \<open>A request and the decoding of its answer.\<close>

definition fetch :: "halctl_env \<Rightarrow> HTTPClient \<Rightarrow> (go_value \<Rightarrow> 'a option) \<Rightarrow> string \<Rightarrow> 'a go_result" where
  "fetch x c dec path = (case Get x c path of Inl err \<Rightarrow> Inl err | Inr body \<Rightarrow> ParseResponse x dec body)"

section \<open>The operations\<close>

definition sessions_path :: "string \<Rightarrow> string \<Rightarrow> string \<Rightarrow> int \<Rightarrow> string" where
  "sessions_path project status nodeID limit =
     (let path = ''/api/v1/sessions''
      in if project \<noteq> [] \<or> status \<noteq> [] \<or> nodeID \<noteq> [] \<or> limit > 0
         then let p = path @ ''?'' @ (if project \<noteq> [] then ''project='' @ project @ ''&'' else []) @
                  (if status \<noteq> [] then ''status='' @ status @ ''&'' else []) @ (if nodeID \<noteq> [] then ''node_id='' @ nodeID @ ''&'' else []) @
                  (if limit > 0 then ''limit='' @ int_text limit @ ''&'' else [])
              in if last p = CHR ''&'' then butlast p else p
         else path)"

definition ctl_ListSessions :: "halctl_env \<Rightarrow> HTTPClient \<Rightarrow> string \<Rightarrow> string \<Rightarrow> string \<Rightarrow> int \<Rightarrow> SessionJSON list go_result" where
  "ctl_ListSessions x c project status nodeID limit =
     fetch x c (decode_list (decode_object (decode_session (hx_time x)))) (sessions_path project status nodeID limit)"

definition ctl_GetSession :: "halctl_env \<Rightarrow> HTTPClient \<Rightarrow> string \<Rightarrow> SessionJSON go_result" where
  "ctl_GetSession x c i =
     (if i = [] then Inl (Errorf ''session id is required'')
      else fetch x c (decode_object (decode_session (hx_time x))) (''/api/v1/sessions/'' @ i))"

definition logs_path :: "string \<Rightarrow> int \<Rightarrow> string" where
  "logs_path i limit = ''/api/v1/events?session_id='' @ i @ (if limit > 0 then ''&limit='' @ int_text limit else [])"

definition GetSessionLogs :: "halctl_env \<Rightarrow> HTTPClient \<Rightarrow> string \<Rightarrow> int \<Rightarrow> EventJSON list go_result" where
  "GetSessionLogs x c i limit =
     (if i = [] then Inl (Errorf ''session id is required'')
      else fetch x c (decode_list (decode_object (decode_event (hx_time x)))) (logs_path i limit))"

definition ctl_ListNodes :: "halctl_env \<Rightarrow> HTTPClient \<Rightarrow> NodeJSON list go_result" where
  "ctl_ListNodes x c = fetch x c (decode_list (decode_object (decode_node (hx_time x)))) ''/api/v1/nodes''"

definition ctl_GetNode :: "halctl_env \<Rightarrow> HTTPClient \<Rightarrow> string \<Rightarrow> NodeJSON go_result" where
  "ctl_GetNode x c i =
     (if i = [] then Inl (Errorf ''node id is required'')
      else fetch x c (decode_object (decode_node (hx_time x))) (''/api/v1/nodes/'' @ i))"

definition GetCostToday :: "halctl_env \<Rightarrow> HTTPClient \<Rightarrow> CostSummary go_result" where
  "GetCostToday x c = fetch x c (decode_object decode_cost) ''/api/v1/cost/today''"

definition GetCostWeek :: "halctl_env \<Rightarrow> HTTPClient \<Rightarrow> CostSummary go_result" where
  "GetCostWeek x c = fetch x c (decode_object decode_cost) ''/api/v1/cost/week''"

definition GetCostMonth :: "halctl_env \<Rightarrow> HTTPClient \<Rightarrow> CostSummary go_result" where
  "GetCostMonth x c = fetch x c (decode_object decode_cost) ''/api/v1/cost/month''"

definition GetNodeAuth :: "halctl_env \<Rightarrow> HTTPClient \<Rightarrow> string \<Rightarrow> NodeAuthStatus go_result" where
  "GetNodeAuth x c nodeID = fetch x c (decode_object decode_node_auth) (''/api/v1/nodes/'' @ nodeID @ ''/auth'')"

definition GetAuthStatus :: "halctl_env \<Rightarrow> HTTPClient \<Rightarrow> string \<Rightarrow> NodeAuthStatus go_result" where
  "GetAuthStatus x c nodeID = GetNodeAuth x c nodeID"

definition GetAuthDrift :: "halctl_env \<Rightarrow> HTTPClient \<Rightarrow> DriftNode list go_result" where
  "GetAuthDrift x c = fetch x c (decode_list (decode_object decode_drift)) ''/api/v1/auth/drift''"

definition GetDrift :: "halctl_env \<Rightarrow> HTTPClient \<Rightarrow> DriftNode list go_result" where
  "GetDrift x c = GetAuthDrift x c"

definition GetEnvStatus :: "halctl_env \<Rightarrow> HTTPClient \<Rightarrow> string \<Rightarrow> EnvCheckResult go_result" where
  "GetEnvStatus x c project =
     (if project = [] then Inl (Errorf ''project is required'')
      else fetch x c (decode_object decode_env_check) (''/api/v1/env/status/'' @ project))"

definition GetAgentMdDiff :: "halctl_env \<Rightarrow> HTTPClient \<Rightarrow> string \<Rightarrow> AgentMdDiff go_result" where
  "GetAgentMdDiff x c project =
     (if project = [] then Inl (Errorf ''project is required'')
      else fetch x c (decode_object decode_diff) (''/api/v1/agentmd/diff/'' @ project))"

text \<open>The common body of the three operations that run a command: \<open>what\<close> names it in the errors, \<open>dec\<close> decodes its output and \<open>zero\<close> is the
  result without output.\<close>

definition run_ctl_command :: "halctl_env \<Rightarrow> HTTPClient \<Rightarrow> string \<Rightarrow> string \<Rightarrow> (go_value \<Rightarrow> 'a option) \<Rightarrow> 'a \<Rightarrow> string \<Rightarrow> 'a go_result" where
  "run_ctl_command x c typ what dec zero project =
     (if project = [] then Inl (Errorf ''project is required'')
      else case Post x c ''/api/v1/commands'' (typ, project) of
          Inl err \<Rightarrow> Inl err
        | Inr body \<Rightarrow>
            (case ParseResponse x (decode_object decode_command) body of
               Inl err \<Rightarrow> Inl err
             | Inr cmd \<Rightarrow>
                 if cce_CommandID cmd = [] \<and> cce_Output cmd = [] \<and> cce_Status cmd \<noteq> ''success'' \<and> cce_Status cmd \<noteq> ''failure'' \<and>
                    cce_Status cmd \<noteq> ''timeout''
                 then ParseResponse x dec body
                 else if cce_Status cmd \<noteq> ''success''
                 then (if cce_Error cmd \<noteq> [] then Inl (Errorf (cce_Error cmd)) else Inl (Errorf (what @ '' failed with status '' @ cce_Status cmd)))
                 else if cce_Output cmd \<noteq> []
                 then (case hx_value x (cce_Output cmd) of
                         Inl err \<Rightarrow> Inl (Wrapf (''failed to parse '' @ what @ '' output: '') err)
                       | Inr v \<Rightarrow> (case dec v of
                             None \<Rightarrow> Inl (Wrapf (''failed to parse '' @ what @ '' output: '') (hx_type_error x))
                           | Some r \<Rightarrow> Inr r))
                 else Inr zero))"

definition ctl_CheckEnv :: "halctl_env \<Rightarrow> HTTPClient \<Rightarrow> string \<Rightarrow> EnvCheckResult go_result" where
  "ctl_CheckEnv x c = run_ctl_command x c ''env_check'' ''env check'' (decode_object decode_env_check)
     \<lparr>cec_Project = [], cec_Status = [], cec_Issues = []\<rparr>"

definition ProvisionEnv :: "halctl_env \<Rightarrow> HTTPClient \<Rightarrow> string \<Rightarrow> EnvProvisionResult go_result" where
  "ProvisionEnv x c = run_ctl_command x c ''env_provision'' ''env provision'' (decode_object decode_env_provision)
     \<lparr>cep_Project = [], cep_Status = [], cep_Changes = []\<rparr>"

definition SyncAgentMd :: "halctl_env \<Rightarrow> HTTPClient \<Rightarrow> string \<Rightarrow> AgentMdSyncResult go_result" where
  "SyncAgentMd x c = run_ctl_command x c ''agentmd_sync'' ''agentmd sync'' (decode_object decode_sync)
     \<lparr>cas_Project = [], cas_Status = [], cas_Message = []\<rparr>"

section \<open>The tables of the package\<close>

definition pad_right :: "nat \<Rightarrow> string \<Rightarrow> string" where
  "pad_right n s = s @ replicate (n - length s) (CHR '' '')"

definition nl :: string where "nl = [CHR 0x0A]"

definition auth_line :: "string \<times> AuthState \<Rightarrow> string" where
  "auth_line x = (case x of (tool, st) \<Rightarrow>
     pad_right 15 tool @ '' '' @ pad_right 19 (cau_Status st) @ '' '' @ (if cau_Reason st = [] then ''-'' else cau_Reason st) @ nl)"

text \<open>The tools are visited in the order \<open>tools\<close>.\<close>

definition FormatAuthStatusTable :: "string list \<Rightarrow> NodeAuthStatus \<Rightarrow> string" where
  "FormatAuthStatusTable tools st =
     ''Node: '' @ cna_NodeID st @ nl @ ''Credential Sync: '' @ cna_CredentialSync st @ nl @
     ''Credential Version: '' @ int_text (cna_CredentialVersion st) @ nl @ nl @
     ''Tool            Status              Reason'' @ nl @ ''----            ------              ------'' @ nl @
     (if cna_AuthStates st = fmempty then ''(no auth states reported)'' @ nl
      else concat (map auth_line (List.map_filter (\<lambda>t. map_option (Pair t) (fmlookup (cna_AuthStates st) t)) tools)))"

definition drift_line :: "DriftNode \<Rightarrow> string" where
  "drift_line n = pad_right 15 (cdn_NodeID n) @ '' '' @ pad_right 17 (cdn_CredentialSync n) @ '' '' @ int_text (cdn_CredentialVersion n) @ nl"

definition FormatDriftTable :: "DriftNode list \<Rightarrow> string" where
  "FormatDriftTable drifted =
     ''Node ID         Sync Status       Version'' @ nl @ ''-------         -----------       -------'' @ nl @
     (if drifted = [] then ''(no nodes with credential drift)'' @ nl else concat (map drift_line drifted)) @
     nl @ ''Total: '' @ nat_text (length drifted) @ '' nodes with credential drift'' @ nl"

section \<open>The program\<close>

text \<open>What is printed: a text to the error output, or a result. Every run has an exit code.\<close>

datatype cli_output = CUsage | CError string
  | CSessions "SessionJSON list" | CSession SessionJSON | CEvents "EventJSON list" | CNodes "NodeJSON list" | CNode NodeJSON
  | CCost CostSummary | CEnvCheck EnvCheckResult | CEnvProvision EnvProvisionResult | CAuth NodeAuthStatus | CDrift "DriftNode list"
  | CDiff AgentMdDiff | CSync AgentMdSyncResult | CConfig

definition report :: "('a \<Rightarrow> cli_output) \<Rightarrow> 'a go_result \<Rightarrow> int \<times> cli_output" where
  "report out r = (case r of Inl err \<Rightarrow> (1, CError (''Error: '' @ error_text err)) | Inr v \<Rightarrow> (0, out v))"

definition usage_error :: "string \<Rightarrow> int \<times> cli_output" where
  "usage_error msg = (1, CError (''Error: '' @ msg))"

definition cli_handleSessions :: "halctl_env \<Rightarrow> HTTPClient \<Rightarrow> string list \<Rightarrow> int \<times> cli_output" where
  "cli_handleSessions x c args =
     (if args = [] then usage_error ''sessions command requires subcommand (list, get, logs)''
      else if hd args = ''list'' then report CSessions (ctl_ListSessions x c [] [] [] 100)
      else if hd args = ''get'' then
        (if length args < 2 then usage_error ''sessions get requires session id'' else report CSession (ctl_GetSession x c (args ! 1)))
      else if hd args = ''logs'' then
        (if length args < 2 then usage_error ''sessions logs requires session id'' else report CEvents (GetSessionLogs x c (args ! 1) 100))
      else usage_error (''unknown sessions subcommand '' @ quoted (hd args)))"

definition cli_handleNodes :: "halctl_env \<Rightarrow> HTTPClient \<Rightarrow> string list \<Rightarrow> int \<times> cli_output" where
  "cli_handleNodes x c args =
     (if args = [] then usage_error ''nodes command requires subcommand (list, get)''
      else if hd args = ''list'' then report CNodes (ctl_ListNodes x c)
      else if hd args = ''get'' then
        (if length args < 2 then usage_error ''nodes get requires node id'' else report CNode (ctl_GetNode x c (args ! 1)))
      else usage_error (''unknown nodes subcommand '' @ quoted (hd args)))"

definition cli_handleCost :: "halctl_env \<Rightarrow> HTTPClient \<Rightarrow> string list \<Rightarrow> int \<times> cli_output" where
  "cli_handleCost x c args =
     (if args = [] then usage_error ''cost command requires subcommand (today, week, month)''
      else if hd args = ''today'' then report CCost (GetCostToday x c)
      else if hd args = ''week'' then report CCost (GetCostWeek x c)
      else if hd args = ''month'' then report CCost (GetCostMonth x c)
      else usage_error (''unknown cost subcommand '' @ quoted (hd args)))"

definition cli_handleEnv :: "halctl_env \<Rightarrow> HTTPClient \<Rightarrow> string list \<Rightarrow> int \<times> cli_output" where
  "cli_handleEnv x c args =
     (if args = [] then usage_error ''env command requires subcommand (status, check, provision)''
      else if hd args = ''status'' then
        (if length args < 2 then usage_error ''env status requires project name'' else report CEnvCheck (GetEnvStatus x c (args ! 1)))
      else if hd args = ''check'' then
        (if length args < 2 then usage_error ''env check requires project name'' else report CEnvCheck (ctl_CheckEnv x c (args ! 1)))
      else if hd args = ''provision'' then
        (if length args < 2 then usage_error ''env provision requires project name'' else report CEnvProvision (ProvisionEnv x c (args ! 1)))
      else usage_error (''unknown env subcommand '' @ quoted (hd args)))"

definition cli_handleAuth :: "halctl_env \<Rightarrow> HTTPClient \<Rightarrow> string list \<Rightarrow> int \<times> cli_output" where
  "cli_handleAuth x c args =
     (if args = [] then usage_error ''auth command requires subcommand (status, drift)''
      else if hd args = ''status'' then
        (if length args < 2 then usage_error ''auth status requires node id'' else report CAuth (GetAuthStatus x c (args ! 1)))
      else if hd args = ''drift'' then report CDrift (GetDrift x c)
      else usage_error (''unknown auth subcommand '' @ quoted (hd args)))"

definition cli_handleAgentMd :: "halctl_env \<Rightarrow> HTTPClient \<Rightarrow> string list \<Rightarrow> int \<times> cli_output" where
  "cli_handleAgentMd x c args =
     (if args = [] then usage_error ''agentmd command requires subcommand (diff, sync)''
      else if hd args = ''diff'' then
        (if length args < 2 then usage_error ''agentmd diff requires project name'' else report CDiff (GetAgentMdDiff x c (args ! 1)))
      else if hd args = ''sync'' then
        (if length args < 2 then usage_error ''agentmd sync requires project name'' else report CSync (SyncAgentMd x c (args ! 1)))
      else usage_error (''unknown agentmd subcommand '' @ quoted (hd args)))"

record cliConfigFile =
  cf_SupervisorURL :: string
  cf_AuthToken :: string
  cf_Format :: string

record cli_flags =
  fl_supervisorURL :: string
  fl_authToken :: string
  fl_format :: string

definition defaultCLIURL :: string where "defaultCLIURL = ''http://localhost:8421''"
definition defaultCLIFormat :: string where "defaultCLIFormat = ''table''"

text \<open>The settings of a run, from the flags, the environment and the configuration file, if there is one.\<close>

definition resolve_settings :: "cli_flags \<Rightarrow> string \<Rightarrow> cliConfigFile option \<Rightarrow> cli_flags" where
  "resolve_settings fl env cliCfg =
     (let fl1 = (case cliCfg of
            None \<Rightarrow> fl
          | Some cfg \<Rightarrow> fl\<lparr>
              fl_supervisorURL := (if fl_supervisorURL fl = defaultCLIURL \<and> cf_SupervisorURL cfg \<noteq> [] then cf_SupervisorURL cfg else fl_supervisorURL fl),
              fl_format := (if fl_format fl = defaultCLIFormat \<and> cf_Format cfg \<noteq> [] then cf_Format cfg else fl_format fl)\<rparr>);
          token1 = (if fl_authToken fl1 = [] then env else fl_authToken fl1);
          token2 = (case cliCfg of Some cfg \<Rightarrow> if token1 = [] then cf_AuthToken cfg else token1 | None \<Rightarrow> token1)
      in fl1\<lparr>fl_authToken := token2\<rparr>)"

text \<open>\<open>config\<close> is the exit code of the configuration dialogue, \<open>loaded\<close> the result of \<open>loadCLIConfig\<close>. The last component says whether a result
  is printed as JSON instead of a table.\<close>

definition halctl_main :: "halctl_env \<Rightarrow> (string list \<Rightarrow> int) \<Rightarrow> cliConfigFile option go_result \<Rightarrow> string \<Rightarrow> cli_flags \<Rightarrow> string list \<Rightarrow>
    int \<times> cli_output \<times> bool" where
  "halctl_main x config loaded env fl args =
     (if args = [] then (1, CUsage, False)
      else if hd args = ''help'' then (0, CUsage, False)
      else if hd args = ''config'' then (config (tl args), CConfig, False)
      else case loaded of
          Inl err \<Rightarrow> (1, CError (''Error: failed to load CLI config: '' @ error_text err), False)
        | Inr cliCfg \<Rightarrow>
            let settings = resolve_settings fl env cliCfg
            in if fl_authToken settings = [] then (1, CError ''Error: auth token required (--auth-token or HALCTL_AUTH_TOKEN env var)'', False)
               else let c = NewHTTPClient (fl_supervisorURL settings) (fl_authToken settings)
                 in case (if hd args = ''sessions'' then cli_handleSessions x c (tl args)
                    else if hd args = ''nodes'' then cli_handleNodes x c (tl args)
                    else if hd args = ''cost'' then cli_handleCost x c (tl args)
                    else if hd args = ''env'' then cli_handleEnv x c (tl args)
                    else if hd args = ''auth'' then cli_handleAuth x c (tl args)
                    else if hd args = ''agentmd'' then cli_handleAgentMd x c (tl args)
                    else usage_error (''unknown command '' @ quoted (hd args))) of
                   (code, out) \<Rightarrow> (code, out, fl_format settings = ''json''))"

text \<open>The token of the flag comes first, then that of the environment, then that of the file; a run without token sends nothing.\<close>

lemma token_precedence:
  "fl_authToken (resolve_settings fl env cliCfg) =
     (if fl_authToken fl \<noteq> [] then fl_authToken fl else if env \<noteq> [] then env else case cliCfg of None \<Rightarrow> [] | Some cfg \<Rightarrow> cf_AuthToken cfg)"
  by (cases cliCfg) (simp_all add: resolve_settings_def Let_def)

section \<open>The requests at the server\<close>

text \<open>A request as the server sees it: the path below the base address in segments, and the query, whose values hold no characters that would be escaped.\<close>

definition query_value :: "string \<Rightarrow> string \<Rightarrow> string" where
  "query_value q key =
     (case map_of (map (\<lambda>kv. case str_cut kv (CHR ''='') of (k, v, _) \<Rightarrow> (k, v)) (str_split q (CHR ''&''))) key of
        None \<Rightarrow> [] | Some v \<Rightarrow> v)"

definition server_request :: "string \<Rightarrow> ctl_request \<Rightarrow> request" where
  "server_request base req =
     (case str_cut (drop (length base) (hq_url req)) (CHR ''?'') of (path, query, _) \<Rightarrow>
        \<lparr>rq_method = hq_method req, rq_path = tl (str_split path (CHR ''/'')),
         rq_header = (case hq_authorization req of None \<Rightarrow> [] | Some h \<Rightarrow> h), rq_query = query_value query, rq_body = hq_body req, rq_remote = []\<rparr>)"

definition client_request :: "HTTPClient \<Rightarrow> string \<Rightarrow> request" where
  "client_request c path = server_request (hcl_baseURL c) (setAuthHeader c (get_request c path))"

text \<open>An argument without characters that have a meaning in an address.\<close>

definition plain_id :: "string \<Rightarrow> bool" where
  "plain_id i \<longleftrightarrow> i \<noteq> [] \<and> CHR ''/'' \<notin> set i \<and> CHR ''?'' \<notin> set i \<and> CHR ''&'' \<notin> set i \<and> CHR ''='' \<notin> set i"

text \<open>The paths that the operations ask for, with the handler that is meant.\<close>

definition halctl_gets :: "string \<Rightarrow> (string \<times> route) list" where
  "halctl_gets i =
     [(sessions_path [] [] [] 100, RSessions), (''/api/v1/sessions/'' @ i, RSession i), (logs_path i 100, REvents), (''/api/v1/nodes'', RNodes),
      (''/api/v1/nodes/'' @ i, RNode i), (''/api/v1/nodes/'' @ i @ ''/auth'', RNodeAuth i), (''/api/v1/auth/drift'', RDrift),
      (''/api/v1/cost/today'', RCostPeriod ''today''), (''/api/v1/cost/week'', RCostPeriod ''week''), (''/api/v1/cost/month'', RCostPeriod ''month''),
      (''/api/v1/env/status/'' @ i, REnvStatus i), (''/api/v1/agentmd/diff/'' @ i, RAgentMD i)]"

lemma client_request_path:
  assumes "CHR ''?'' \<notin> set path"
  shows "rq_path (client_request c path) = tl (str_split path (CHR ''/''))" and "rq_path (client_request c (path @ CHR ''?'' # q)) = tl (str_split path (CHR ''/''))"
  using assms
  by (simp_all add: client_request_def server_request_def setAuthHeader_def get_request_def str_cut_no_sep str_cut_append)

lemma client_request_auth:
  assumes "hcl_authToken c \<noteq> []"
  shows "rq_method (client_request c path) = ''GET''" and "request_bearer (client_request c path) = hcl_authToken c"
  using assms trim_prefix_append [of "''Bearer ''"]
  by (simp_all add: client_request_def server_request_def setAuthHeader_def get_request_def request_bearer_def has_prefix_def split: prod.split)

lemma default_paths:
  "sessions_path [] [] [] 100 = ''/api/v1/sessions'' @ CHR ''?'' # ''limit=100''"
  "logs_path i 100 = ''/api/v1/events'' @ CHR ''?'' # ''session_id='' @ i @ ''&limit=100''"
proof -
  have n: "int_text 100 = ''100''" by code_simp
  show "sessions_path [] [] [] 100 = ''/api/v1/sessions'' @ CHR ''?'' # ''limit=100''" by (simp add: sessions_path_def n)
  show "logs_path i 100 = ''/api/v1/events'' @ CHR ''?'' # ''session_id='' @ i @ ''&limit=100''" by (simp add: logs_path_def n)
qed

lemma halctl_paths:
  assumes "plain_id i"
  shows "map (\<lambda>p. rq_path (client_request c (fst p))) (halctl_gets i) =
    [[''api'', ''v1'', ''sessions''], [''api'', ''v1'', ''sessions'', i], [''api'', ''v1'', ''events''], [''api'', ''v1'', ''nodes''],
     [''api'', ''v1'', ''nodes'', i], [''api'', ''v1'', ''nodes'', i, ''auth''], [''api'', ''v1'', ''auth'', ''drift''],
     [''api'', ''v1'', ''cost'', ''today''], [''api'', ''v1'', ''cost'', ''week''], [''api'', ''v1'', ''cost'', ''month''],
     [''api'', ''v1'', ''env'', ''status'', i], [''api'', ''v1'', ''agentmd'', ''diff'', i]]"
proof -
  have i: "CHR ''/'' \<notin> set i" "CHR ''?'' \<notin> set i" using assms by (simp_all add: plain_id_def)
  have split: "str_split i (CHR ''/'') = [i]" "str_split (i @ ''/auth'') (CHR ''/'') = [i, ''auth'']"
    using i split_append [of "CHR ''/''" i "''auth''"] by (simp_all add: split_single)
  have query: "rq_path (client_request c (''/api/v1/sessions'' @ CHR ''?'' # q)) = [''api'', ''v1'', ''sessions'']"
    "rq_path (client_request c (''/api/v1/events'' @ CHR ''?'' # q)) = [''api'', ''v1'', ''events'']" for q
    by (subst client_request_path(2); simp)+
  have "rq_path (client_request c path) = tl (str_split path (CHR ''/''))" if "CHR ''?'' \<notin> set path" for path
    by (rule client_request_path(1) [OF that])
  then show ?thesis
    by (simp only: halctl_gets_def list.map fst_conv default_paths query) (simp add: i split)
qed

lemma halctl_routes:
  assumes "plain_id i"
  shows "map (\<lambda>p. get_route b (rq_path (client_request c (fst p)))) (halctl_gets i) = map (Some \<circ> snd) (halctl_gets i)"
proof -
  have "map (\<lambda>p. get_route b (rq_path (client_request c (fst p)))) (halctl_gets i) =
      map (get_route b) (map (\<lambda>p. rq_path (client_request c (fst p))) (halctl_gets i))" by simp
  also have "\<dots> = map (Some \<circ> snd) (halctl_gets i)"
    unfolding halctl_paths [OF assms] using assms by (simp add: halctl_gets_def get_route_def plain_id_def)
  finally show ?thesis .
qed

lemma halctl_not_public: "(path, w) \<in> set (halctl_gets i) \<Longrightarrow> \<not> public_route w"
  unfolding halctl_gets_def by (simp only: list.set insert_iff prod.inject empty_iff) (elim disjE conjE; simp)

lemma halctl_handler:
  assumes "plain_id i" and "(path, w) \<in> set (halctl_gets i)" and "hcl_authToken c = api_authToken a" and "api_authToken a \<noteq> []"
  shows "Handler e a (client_request c path) = run_route e w a (client_request c path)"
proof -
  have "get_route (api_hub a) (rq_path (client_request c path)) = Some w"
    using halctl_routes [OF assms(1), of "api_hub a" c] assms(2) unfolding map_eq_conv by fastforce
  then show ?thesis
    using halctl_not_public [OF assms(2)] client_request_auth [of c path] assms(3,4)
    by (simp add: Handler_def route_of_def requireAuth_def)
qed

text \<open>
  Client and server agree on the interface: with the token of the server and an argument without special characters, every
  reading operation of the client is answered by the result of exactly the handler that is meant for it, with its argument.
\<close>
theorem halctl_requests_reach_their_handlers:
  assumes "plain_id i" and "(path, w) \<in> set (halctl_gets i)" and "hcl_authToken c = api_authToken a" and "api_authToken a \<noteq> []"
  shows "Handler e a (client_request c path) = run_route e w a (client_request c path)"
  by (rule halctl_handler [OF assms])

section \<open>The answers at the client\<close>

text \<open>How the server encodes its data, by the tags of its structures; \<open>et\<close> encodes an instant. Answers that are not read below are left out.\<close>

definition encode_session :: "(go_time \<Rightarrow> string) \<Rightarrow> sessionJSON \<Rightarrow> go_value" where
  "encode_session et s = JObject [(''id'', JString (sj_ID s)), (''node_id'', JString (sj_NodeID s)), (''project'', JString (sj_Project s)),
     (''status'', JString (sj_Status s)), (''tokens'', JNumber (of_int (sj_Tokens s))), (''cost'', JNumber (sj_Cost s)),
     (''started_at'', JString (et (sj_StartedAt s)))]"

definition encode_node :: "(go_time \<Rightarrow> string) \<Rightarrow> nodeJSON \<Rightarrow> go_value" where
  "encode_node et n = JObject [(''id'', JString (nj_ID n)), (''hostname'', JString (nj_Hostname n)), (''status'', JString (nj_Status n)),
     (''last_heartbeat'', JString (et (nj_LastHeartbeat n))), (''connected_at'', JString (et (nj_ConnectedAt n)))]"

definition encode_drift :: "driftNodeJSON \<Rightarrow> go_value" where
  "encode_drift n = JObject [(''node_id'', JString (dn_NodeID n)), (''credential_sync'', JString (dn_CredentialSync n)),
     (''credential_version'', JNumber (of_int (dn_CredentialVersion n)))]"

definition encode_breakdown :: "CostBreakdown \<Rightarrow> go_value" where
  "encode_breakdown b = JObject ([(''provider'', JString (cb_Provider b))] @ (if cb_Model b = [] then [] else [(''model'', JString (cb_Model b))]) @
     [(''tokens'', JNumber (of_int (cb_Tokens b))), (''cost_usd'', JNumber (cb_CostUSD b))])"

definition encode_project :: "ProjectCost \<Rightarrow> go_value" where
  "encode_project p = JObject [(''project'', JString (pc_Project p)), (''tokens'', JNumber (of_int (pc_Tokens p))), (''cost_usd'', JNumber (pc_CostUSD p))]"

definition encode_report :: "CostReport \<Rightarrow> go_value" where
  "encode_report r = JObject [(''period'', JString (rep_Period r)), (''total_tokens'', JNumber (of_int (rep_TotalTokens r))),
     (''total_cost_usd'', JNumber (rep_TotalCostUSD r)), (''by_provider'', JArray (map encode_breakdown (rep_ByProvider r))),
     (''by_model'', JArray (map encode_breakdown (rep_ByModel r))), (''by_project'', JArray (map encode_project (rep_ByProject r))),
     (''degraded_providers'', JArray (map JString (rep_DegradedProviders r)))]"

fun encode_answer :: "(go_time \<Rightarrow> string) \<Rightarrow> api_data \<Rightarrow> go_value option" where
  "encode_answer et (DSessions ss) = Some (JArray (map (encode_session et) ss))"
| "encode_answer et (DSession s) = Some (encode_session et s)"
| "encode_answer et (DNodes ns) = Some (JArray (map (encode_node et) ns))"
| "encode_answer et (DNode n) = Some (encode_node et n)"
| "encode_answer et (DDrift ns) = Some (JArray (map encode_drift ns))"
| "encode_answer et (DReport r) = Some (encode_report r)"
| "encode_answer et _ = None"

definition client_session :: "sessionJSON \<Rightarrow> SessionJSON" where
  "client_session s = \<lparr>cs_ID = sj_ID s, cs_NodeID = sj_NodeID s, cs_Project = sj_Project s, cs_Status = sj_Status s, cs_Tokens = sj_Tokens s,
     cs_Cost = sj_Cost s, cs_StartedAt = sj_StartedAt s\<rparr>"

definition client_node :: "nodeJSON \<Rightarrow> NodeJSON" where
  "client_node n = \<lparr>cn_ID = nj_ID n, cn_Hostname = nj_Hostname n, cn_Status = nj_Status n, cn_LastHeartbeat = nj_LastHeartbeat n,
     cn_ConnectedAt = nj_ConnectedAt n\<rparr>"

definition client_drift :: "driftNodeJSON \<Rightarrow> DriftNode" where
  "client_drift n = \<lparr>cdn_NodeID = dn_NodeID n, cdn_CredentialSync = dn_CredentialSync n, cdn_CredentialVersion = dn_CredentialVersion n\<rparr>"

definition in_int64 :: "int \<Rightarrow> bool" where
  "in_int64 i \<longleftrightarrow> min_int64 \<le> i \<and> i \<le> max_int64"

text \<open>The fields of a literal object.\<close>

lemma lower_literals:
  "lower_char CHR ''a'' = CHR ''a'' \<and> lower_char CHR ''b'' = CHR ''b'' \<and> lower_char CHR ''c'' = CHR ''c'' \<and> lower_char CHR ''d'' = CHR ''d'' \<and> lower_char CHR ''e'' = CHR ''e''"
  "lower_char CHR ''f'' = CHR ''f'' \<and> lower_char CHR ''g'' = CHR ''g'' \<and> lower_char CHR ''h'' = CHR ''h'' \<and> lower_char CHR ''i'' = CHR ''i'' \<and> lower_char CHR ''j'' = CHR ''j''"
  "lower_char CHR ''k'' = CHR ''k'' \<and> lower_char CHR ''l'' = CHR ''l'' \<and> lower_char CHR ''m'' = CHR ''m'' \<and> lower_char CHR ''n'' = CHR ''n'' \<and> lower_char CHR ''o'' = CHR ''o''"
  "lower_char CHR ''p'' = CHR ''p'' \<and> lower_char CHR ''q'' = CHR ''q'' \<and> lower_char CHR ''r'' = CHR ''r'' \<and> lower_char CHR ''s'' = CHR ''s'' \<and> lower_char CHR ''t'' = CHR ''t''"
  "lower_char CHR ''u'' = CHR ''u'' \<and> lower_char CHR ''v'' = CHR ''v'' \<and> lower_char CHR ''w'' = CHR ''w'' \<and> lower_char CHR ''x'' = CHR ''x'' \<and> lower_char CHR ''y'' = CHR ''y''"
  "lower_char CHR ''z'' = CHR ''z'' \<and> lower_char CHR ''_'' = CHR ''_''"
  by code_simp+

lemmas literal_fields = field_string_def field_int_def field_float_def field_time_def json_field_def decode_object_def lower_literals

lemma decode_session_encode:
  assumes "\<And>t. pt (et t) = Some t" and "in_int64 (sj_Tokens s)"
  shows "decode_object (decode_session pt) (encode_session et s) = Some (client_session s)"
  using assms
  by (simp add: encode_session_def decode_session_def literal_fields client_session_def in_int64_def)

lemma decode_node_encode:
  assumes "\<And>t. pt (et t) = Some t"
  shows "decode_object (decode_node pt) (encode_node et n) = Some (client_node n)"
  using assms
  by (simp add: encode_node_def decode_node_def literal_fields client_node_def)

lemma decode_drift_encode:
  assumes "in_int64 (dn_CredentialVersion n)"
  shows "decode_object decode_drift (encode_drift n) = Some (client_drift n)"
  using assms
  by (simp add: encode_drift_def decode_drift_def literal_fields client_drift_def in_int64_def)

text \<open>The structure of the client shares only the period with that of the server.\<close>

lemma decode_cost_encode:
  "decode_object decode_cost (encode_report r) = Some \<lparr>cc_Period = rep_Period r, cc_TotalCost = 0, cc_SessionCount = 0, cc_TokensUsed = 0\<rparr>"
  by (simp add: encode_report_def decode_cost_def literal_fields)

lemma decode_list_map:
  assumes "\<And>x. x \<in> set xs \<Longrightarrow> dec (enc x) = Some (f x)"
  shows "decode_list dec (JArray (map enc xs)) = Some (map f xs)"
proof -
  have "those (map dec (map enc xs)) = Some (map f xs)" using assms by (induction xs) auto
  then show ?thesis by (simp add: decode_list_def)
qed

section \<open>Client and server together\<close>

text \<open>The network carries every request of the client to this server and its answer back; the parser gives back the encoded data, and the parser of
  instants undoes their format.\<close>

definition answer_read :: "halctl_env \<Rightarrow> (go_time \<Rightarrow> string) \<Rightarrow> response \<Rightarrow> string \<Rightarrow> bool" where
  "answer_read x et rsp body \<longleftrightarrow>
     (case rsp_body rsp of BData d m \<Rightarrow> (case encode_answer et d of None \<Rightarrow> True | Some v \<Rightarrow> hx_data x body = Inr v) | _ \<Rightarrow> True)"

definition connected :: "halctl_env \<Rightarrow> HTTPClient \<Rightarrow> api_env \<Rightarrow> HTTPAPI \<Rightarrow> (go_time \<Rightarrow> string) \<Rightarrow> bool" where
  "connected x c e a et \<longleftrightarrow>
     hcl_authToken c = api_authToken a \<and> api_authToken a \<noteq> [] \<and> (\<forall>t. hx_time x (et t) = Some t) \<and>
     (\<forall>path. hx_new_request x (hcl_baseURL c @ path) = None \<and>
        (\<exists>body. hx_do x (setAuthHeader c (get_request c path)) = Inr (rsp_status (fst (Handler e a (client_request c path))), Inr body) \<and>
           answer_read x et (fst (Handler e a (client_request c path))) body))"

text \<open>The integers of the state fit into the type \<open>int\<close> of Go.\<close>

definition typed_state :: "HTTPAPI \<Rightarrow> bool" where
  "typed_state a \<longleftrightarrow>
     (\<forall>k s. fmlookup (sessions (api_tracker a)) k = Some s \<longrightarrow> in_int64 (tu_Total (ts_TokenUsage s))) \<and>
     (\<forall>k n. fmlookup (nodes (api_registry a)) k = Some n \<longrightarrow> in_int64 (ne_CredVersion n))"

lemma fetch_connected:
  assumes "connected x c e a et" and "(path, w) \<in> set (halctl_gets i)" and "plain_id i"
    and "fst (run_route e w a (client_request c path)) = writeJSON 200 (BData d m)" and "encode_answer et d = Some v" and "dec v = Some r"
  shows "fetch x c dec path = Inr r"
proof -
  have "Handler e a (client_request c path) = run_route e w a (client_request c path)"
    using assms(1) unfolding connected_def by (intro halctl_handler [OF assms(3,2)]) simp_all
  then have "fst (Handler e a (client_request c path)) = \<lparr>rsp_status = 200, rsp_body = BData d m\<rparr>" using assms(4) by (simp add: writeJSON_def)
  moreover have "hx_new_request x (hcl_baseURL c @ path) = None"
    and "\<exists>body. hx_do x (setAuthHeader c (get_request c path)) = Inr (rsp_status (fst (Handler e a (client_request c path))), Inr body) \<and>
      answer_read x et (fst (Handler e a (client_request c path))) body"
    using assms(1) unfolding connected_def by blast+
  ultimately obtain body where "hx_do x (setAuthHeader c (get_request c path)) = Inr (200, Inr body)" and "hx_data x body = Inr v"
    using assms(5) unfolding answer_read_def by auto
  then show ?thesis
    using \<open>hx_new_request x (hcl_baseURL c @ path) = None\<close> assms(6)
    by (simp add: fetch_def Get_def perform_def get_request_def ParseResponse_def)
qed

lemma map_values_in: "v \<in> set (map_values m ks) \<Longrightarrow> \<exists>k. fmlookup m k = Some v"
  by (auto simp: map_values_def List.map_filter_def)

lemma plain_demo: "plain_id ''x''"
  by (simp add: plain_id_def)

lemma sessions_query:
  "rq_query (client_request c (sessions_path [] [] [] 100)) ''project'' = []"
  "rq_query (client_request c (sessions_path [] [] [] 100)) ''status'' = []"
  "rq_query (client_request c (sessions_path [] [] [] 100)) ''node_id'' = []"
  "parseIntParam (rq_query (client_request c (sessions_path [] [] [] 100)) ''limit'') 100 = 100"
proof -
  have q: "rq_query (client_request c (''/api/v1/sessions'' @ CHR ''?'' # q)) = query_value q" for q
    unfolding client_request_def server_request_def setAuthHeader_def get_request_def
    by (simp only: ctl_request.simps append_eq_conv_conj if_distrib [of hq_url] if_cancel drop_append) (simp add: str_cut_append [of _ "''/api/v1/sessions''", simplified])
  show "rq_query (client_request c (sessions_path [] [] [] 100)) ''project'' = []" unfolding default_paths q by code_simp
  show "rq_query (client_request c (sessions_path [] [] [] 100)) ''status'' = []" unfolding default_paths q by code_simp
  show "rq_query (client_request c (sessions_path [] [] [] 100)) ''node_id'' = []" unfolding default_paths q by code_simp
  show "parseIntParam (rq_query (client_request c (sessions_path [] [] [] 100)) ''limit'') 100 = 100" unfolding default_paths q by code_simp
qed

lemma default_sessions:
  "handleListSessions e a (client_request c (sessions_path [] [] [] 100)) =
     writeJSON 200 (BData (DSessions (map toSessionJSON (take 100 (GetAllSessions (api_tracker a) (ap_sessions e)))))
       (Some \<lparr>meta_Total = int (length (take 100 (GetAllSessions (api_tracker a) (ap_sessions e)))), meta_Limit = 100, meta_Offset = 0\<rparr>))"
proof -
  have "filter_sessions [] [] 100 [] ss = map toSessionJSON (take 100 ss)" for ss
    using filter_sessions_take [of "[]" 100 "[]" "[]" ss] by (simp add: session_matches_def take_map)
  then show ?thesis unfolding handleListSessions_def Let_def sessions_query by simp
qed

lemma decode_nodes:
  assumes "\<And>t. pt (et t) = Some t"
  shows "decode_list (decode_object (decode_node pt)) (JArray (map (encode_node et) ns)) = Some (map client_node ns)"
  by (rule decode_list_map) (rule decode_node_encode [OF assms])

lemma decode_drifts:
  assumes "\<And>n. n \<in> set ns \<Longrightarrow> in_int64 (dn_CredentialVersion n)"
  shows "decode_list (decode_object decode_drift) (JArray (map encode_drift ns)) = Some (map client_drift ns)"
  by (rule decode_list_map) (rule decode_drift_encode [OF assms])

lemma decode_sessions:
  assumes "\<And>t. pt (et t) = Some t" and "\<And>s. s \<in> set ss \<Longrightarrow> in_int64 (sj_Tokens s)"
  shows "decode_list (decode_object (decode_session pt)) (JArray (map (encode_session et) ss)) = Some (map client_session ss)"
  by (rule decode_list_map) (rule decode_session_encode [OF assms])


text \<open>The cost of a period at the client: the tags differ, so only the period arrives.\<close>

lemma fetch_cost:
  assumes "connected x c e a et" and "(''/api/v1/cost/'' @ p, RCostPeriod p) \<in> set (halctl_gets ''x'')"
    and "to_lower (trim_space p) = p" and "p \<noteq> []" and "api_costs a = Some ca" and "Report (ap_report e) (ap_now e) ca p = Inr rep"
  shows "fetch x c (decode_object decode_cost) (''/api/v1/cost/'' @ p) =
    Inr \<lparr>cc_Period = rep_Period rep, cc_TotalCost = 0, cc_SessionCount = 0, cc_TokensUsed = 0\<rparr>"
proof (rule fetch_connected [OF assms(1,2) plain_demo _ encode_answer.simps(6)])
  show "fst (run_route e (RCostPeriod p) a (client_request c (''/api/v1/cost/'' @ p))) = writeJSON 200 (BData (DReport rep) None)"
    using assms(3-6) by (simp add: handleCostReportByPath_def cost_report_response_def)
qed (rule decode_cost_encode)

lemma periods_plain:
  "to_lower (trim_space ''today'') = ''today''" "to_lower (trim_space ''week'') = ''week''" "to_lower (trim_space ''month'') = ''month''"
  by code_simp+

text \<open>
  The cost that the client prints is always zero: whatever the supervisor reports for today, the week or the month, the summary
  that the client decodes holds the period and zeros, because the tags of the two structures differ, and no error is given.
\<close>
theorem halctl_cost_always_zero:
  assumes "connected x c e a et" and "api_costs a = Some ca" and "Report (ap_report e) (ap_now e) ca ''today'' = Inr today"
    and "Report (ap_report e) (ap_now e) ca ''week'' = Inr week" and "Report (ap_report e) (ap_now e) ca ''month'' = Inr month"
  shows "GetCostToday x c = Inr \<lparr>cc_Period = rep_Period today, cc_TotalCost = 0, cc_SessionCount = 0, cc_TokensUsed = 0\<rparr> \<and>
    GetCostWeek x c = Inr \<lparr>cc_Period = rep_Period week, cc_TotalCost = 0, cc_SessionCount = 0, cc_TokensUsed = 0\<rparr> \<and>
    GetCostMonth x c = Inr \<lparr>cc_Period = rep_Period month, cc_TotalCost = 0, cc_SessionCount = 0, cc_TokensUsed = 0\<rparr>"
  unfolding GetCostToday_def GetCostWeek_def GetCostMonth_def
  using fetch_cost [OF assms(1) _ periods_plain(1) _ assms(2,3)] fetch_cost [OF assms(1) _ periods_plain(2) _ assms(2,4)]
    fetch_cost [OF assms(1) _ periods_plain(3) _ assms(2,5)]
  by (simp add: halctl_gets_def)

section \<open>Witnesses\<close>

text \<open>The network that leads to one server: the text of an answer is the address that was asked for, from which the parser finds the data.\<close>

definition demo_format :: "go_time \<Rightarrow> string" where
  "demo_format t = replicate (to_nat t) (CHR ''x'')"

definition demo_server_env :: api_env where
  "demo_server_env = (demo_api_env ''n1'')\<lparr>ap_now := 9 * day, ap_nodes := [''n1'']\<rparr>"

definition demo_server :: HTTPAPI where
  "demo_server = demo_api\<lparr>api_registry := (NewNodeRegistry fmempty)\<lparr>nodes := fmupd ''n1'' (zero_node\<lparr>ne_ID := ''n1''\<rparr>) fmempty\<rparr>,
     api_costs := Some demo_costs\<rparr>"

definition demo_ctl_client :: HTTPClient where
  "demo_ctl_client = NewHTTPClient ''http://h'' ''t''"

definition demo_answer :: "string \<Rightarrow> response" where
  "demo_answer url = fst (Handler demo_server_env demo_server (client_request demo_ctl_client (drop (length ''http://h'') url)))"

definition demo_network :: halctl_env where
  "demo_network = \<lparr>hx_new_request = (\<lambda>_. None), hx_do = (\<lambda>req. Inr (rsp_status (demo_answer (hq_url req)), Inr (hq_url req))),
     hx_marshal = (\<lambda>_ _. Inr []), hx_error = (\<lambda>_. None),
     hx_data = (\<lambda>body. case rsp_body (demo_answer body) of
         BData d m \<Rightarrow> (case encode_answer demo_format d of None \<Rightarrow> Inr JNull | Some v \<Rightarrow> Inr v) | _ \<Rightarrow> Inr JNull),
     hx_value = (\<lambda>_. Inr JNull), hx_time = (\<lambda>s. Some (from_nat (length s))), hx_type_error = Errorf []\<rparr>"

lemma demo_ctl_connected: "connected demo_network demo_ctl_client demo_server_env demo_server demo_format"
proof -
  have "hq_url (setAuthHeader demo_ctl_client (get_request demo_ctl_client path)) = ''http://h'' @ path" for path
    by (simp add: setAuthHeader_def get_request_def demo_ctl_client_def NewHTTPClient_def)
  then show ?thesis
    by (simp add: connected_def demo_network_def demo_answer_def answer_read_def demo_format_def demo_ctl_client_def NewHTTPClient_def demo_server_def
        demo_api_def NewHTTPAPI_def split: api_body.split option.split)
qed

lemma demo_reports: "\<exists>rep. Report demo_report (9 * day) demo_costs p = Inr rep"
  by (cases "periodStart (9 * day) p")
    (simp add: Report_def demo_costs_def NewCostAggregator_def demo_report_def queryProviderTotals_def queryModelTotals_def require_def Let_def)

lemma halctl_requests_reach_their_handlers_witness:
  "Handler demo_server_env demo_server (client_request demo_ctl_client ''/api/v1/nodes/n1'') =
     handleGetNode demo_server_env demo_server ''n1''"
proof -
  have "plain_id ''n1''" by (simp add: plain_id_def)
  then show ?thesis
    using halctl_requests_reach_their_handlers [of "''n1''" "''/api/v1/nodes/n1''" "RNode ''n1''" demo_ctl_client demo_server demo_server_env]
    by (simp add: halctl_gets_def demo_ctl_client_def NewHTTPClient_def demo_server_def demo_api_def NewHTTPAPI_def)
qed


lemma halctl_cost_always_zero_witness:
  "\<exists>p. GetCostWeek demo_network demo_ctl_client = Inr \<lparr>cc_Period = p, cc_TotalCost = 0, cc_SessionCount = 0, cc_TokensUsed = 0\<rparr>"
proof -
  have "api_costs demo_server = Some demo_costs" "ap_report demo_server_env = demo_report" "ap_now demo_server_env = 9 * day"
    by (simp_all add: demo_server_def demo_server_env_def demo_api_env_def)
  moreover obtain t w m where "Report demo_report (9 * day) demo_costs ''today'' = Inr t" "Report demo_report (9 * day) demo_costs ''week'' = Inr w"
    "Report demo_report (9 * day) demo_costs ''month'' = Inr m" using demo_reports by meson
  ultimately show ?thesis using halctl_cost_always_zero [OF demo_ctl_connected, of demo_costs t w m] by auto
qed

end
