(* ===== verification/Halctl_Config.thy ===== *)
theory Halctl_Config
  imports Halctl Provision "HOL-Library.Monad_Syntax"
begin

text \<open>
  \<open>cmd/halctl/config_cmd.go\<close>: the configuration dialogue of the command-line client. The standard input is the list of its complete lines;
  after the last one every read fails, for ever, and the loops of the dialogue try again: \<open>None\<close> stands for a dialogue that never returns.
  Files are those of the tree of \<open>File_System\<close>, with an outcome for every system call, and encoding and decoding of
  JSON texts belong to the surroundings. The texts that are printed are left out.
\<close>

section \<open>Prompts\<close>

fun promptString :: "string \<Rightarrow> bool \<Rightarrow> string list \<Rightarrow> (string \<times> string list) option" where
  "promptString def required [] = None"
| "promptString def required (line # rest) =
     (let input = trim_space line; answer = (if input = [] then def else input)
      in if required \<and> trim_space answer = [] then promptString def required rest else Some (answer, rest))"

fun promptYesNo :: "bool \<Rightarrow> string list \<Rightarrow> (bool \<times> string list) option" where
  "promptYesNo def [] = None"
| "promptYesNo def (line # rest) =
     (let input = to_lower (trim_space line)
      in if input = [] then Some (def, rest)
         else if input = ''y'' \<or> input = ''yes'' then Some (True, rest)
         else if input = ''n'' \<or> input = ''no'' then Some (False, rest)
         else promptYesNo def rest)"

lemma promptString_shorter: "promptString def required input = Some (s, rest) \<Longrightarrow> length rest < length input"
  by (induction input) (auto simp: Let_def less_Suc_eq split: if_splits)

lemma promptYesNo_shorter: "promptYesNo def input = Some (b, rest) \<Longrightarrow> length rest < length input"
  by (induction input) (auto simp: Let_def less_Suc_eq split: if_splits)

text \<open>The loops that repeat a required prompt until the answer is accepted.\<close>

function prompt_until :: "(string \<Rightarrow> 'a option) \<Rightarrow> string \<Rightarrow> string list \<Rightarrow> ('a \<times> string list) option" where
  "prompt_until accept def input =
     (case promptString def True input of
        None \<Rightarrow> None
      | Some (s, rest) \<Rightarrow> (case accept s of Some v \<Rightarrow> Some (v, rest) | None \<Rightarrow> prompt_until accept def rest))"
  by auto
termination
  by (relation "measure (\<lambda>(_, _, input). length input)") (auto dest: promptString_shorter)

declare prompt_until.simps [simp del]

definition port_answer :: "string \<Rightarrow> int option" where
  "port_answer raw = (case parse_int64 raw of None \<Rightarrow> None | Some val \<Rightarrow> if val \<le> 0 \<or> val > 65535 then None else Some val)"

definition promptInt :: "int \<Rightarrow> string list \<Rightarrow> (int \<times> string list) option" where
  "promptInt def = prompt_until port_answer (int_text def)"

datatype config_target = TSupervisor | TAgent | TCLI

definition target_answer :: "string \<Rightarrow> config_target option" where
  "target_answer choice =
     (let c = trim_space choice
      in if c = ''1'' \<or> c = ''supervisor'' then Some TSupervisor
         else if c = ''2'' \<or> c = ''agent'' then Some TAgent
         else if c = ''3'' \<or> c = ''cli'' then Some TCLI else None)"

definition promptTarget :: "string list \<Rightarrow> (config_target \<times> string list) option" where
  "promptTarget = prompt_until target_answer ''1''"

definition format_answer :: "string \<Rightarrow> string option" where
  "format_answer s = (let format = to_lower s in if format = ''table'' \<or> format = ''json'' then Some format else None)"

text \<open>The loop that reads projects.\<close>

function prompt_projects :: "ProjectConfig list \<Rightarrow> string list \<Rightarrow> (ProjectConfig list \<times> string list) option" where
  "prompt_projects acc input =
     (case promptYesNo True input of
        None \<Rightarrow> None
      | Some (False, rest) \<Rightarrow> Some (acc, rest)
      | Some (True, rest) \<Rightarrow>
          (case promptString [] True rest of
             None \<Rightarrow> None
           | Some (name, rest') \<Rightarrow>
               (case promptString [] True rest' of
                  None \<Rightarrow> None
                | Some (dir, rest'') \<Rightarrow> prompt_projects (acc @ [\<lparr>proj_Name = name, proj_Directory = dir\<rparr>]) rest'')))"
  by auto
termination
  by (relation "measure (\<lambda>(_, input). length input)") (auto dest!: promptString_shorter promptYesNo_shorter)

declare prompt_projects.simps [simp del]

section \<open>The files\<close>

record agentConfigFile =
  af_SupervisorURL :: string
  af_AuthToken :: string
  af_OpencodePort :: int
  af_AuthReportIntervalSec :: int
  af_Projects :: "ProjectConfig list"

record supervisorConfigFile =
  sf_Port :: int
  sf_HTTPPort :: int
  sf_AuthToken :: string
  sf_HeartbeatIntervalSec :: int
  sf_HeartbeatTimeoutCount :: int
  sf_Database_Path :: string
  sf_Channels :: ChannelsConfig
  sf_PollIntervalMinutes :: int
  sf_AdminAPIKey :: string
  sf_OrgAPIKey :: string
  sf_Routes :: "go_value list"
  sf_Policies :: PolicyConfig
  sf_Dependencies :: go_value
  sf_Security :: SecurityConfig
  sf_Credentials :: CredentialDistributionConfig

definition defaultSupervisorConfigPath :: string where
  "defaultSupervisorConfigPath = ''/etc/hal-o-swarm/supervisor.config.json''"

definition defaultAgentConfigPath :: string where
  "defaultAgentConfigPath = ''/etc/hal-o-swarm/agent.config.json''"

definition defaultSupervisorConfig :: supervisorConfigFile where
  "defaultSupervisorConfig =
     \<lparr>sf_Port = 8420, sf_HTTPPort = 8421, sf_AuthToken = [], sf_HeartbeatIntervalSec = 30, sf_HeartbeatTimeoutCount = 3,
      sf_Database_Path = ''/var/lib/hal-o-swarm/supervisor.db'',
      sf_Channels = \<lparr>discord_BotToken = [], discord_GuildID = [], discord_Alerts = [], discord_DevLog = [], discord_BuildLog = [],
        slack_BotToken = [], slack_Alerts = [], slack_DevLog = [], n8n_WebhookURL = []\<rparr>,
      sf_PollIntervalMinutes = 60, sf_AdminAPIKey = [], sf_OrgAPIKey = [], sf_Routes = [],
      sf_Policies = \<lparr>
        ResumeOnIdle = \<lparr>idle_Enabled = True, IdleThresholdSec = 300, idle_MaxRetries = 3, idle_RetryResetSeconds = 3600\<rparr>,
        RestartOnCompaction = \<lparr>compaction_Enabled = True, TokenThreshold = 180000, compaction_MaxRetries = 2,
          compaction_RetryResetSeconds = 3600\<rparr>,
        KillOnCost = \<lparr>kill_Enabled = False, CostThresholdUSD = 10, kill_MaxRetries = 1, kill_RetryResetSeconds = 86400\<rparr>,
        CheckIntervalSec = 30\<rparr>,
      sf_Dependencies = JObject [],
      sf_Security = \<lparr>TLS = \<lparr>tls_Enabled = False, CertPath = [], KeyPath = []\<rparr>, OriginAllowlist = [], rotation_Enabled = False,
        CheckIntervalSeconds = 300, audit_Enabled = True, RetentionDays = 90\<rparr>,
      sf_Credentials = \<lparr>cred_Version = 1, cred_Defaults = fmempty, cred_Agents = fmempty\<rparr>\<rparr>"

definition defaultAgentConfig :: agentConfigFile where
  "defaultAgentConfig = \<lparr>af_SupervisorURL = ''ws://127.0.0.1:8420/ws/agent'', af_AuthToken = [], af_OpencodePort = 4096,
     af_AuthReportIntervalSec = 30, af_Projects = []\<rparr>"

definition randomTokenHex :: "string go_result \<Rightarrow> string go_result" where
  "randomTokenHex bytes = (case bytes of Inl err \<Rightarrow> Inl err | Inr b \<Rightarrow> Inr (hex_text b))"

text \<open>\<open>unmarshal\<close> decodes a text into a structure that already has values; it may fail with part of the values replaced.\<close>

definition readJSONIfExists :: "(string \<Rightarrow> 'a \<Rightarrow> go_error option \<times> 'a) \<Rightarrow> go_error option \<Rightarrow> file_system \<Rightarrow> string \<Rightarrow> 'a \<Rightarrow> go_error option \<times> 'a" where
  "readJSONIfExists unmarshal out fs path target =
     (case os_Stat fs path of
        StatNotExist \<Rightarrow> (None, target)
      | _ \<Rightarrow>
          (case os_ReadFile out fs path of
             Inl err \<Rightarrow> (Some err, target)
           | Inr data \<Rightarrow>
               if trim_space data = [] then (None, target)
               else case unmarshal data target of
                   (Some err, target') \<Rightarrow> (Some (Wrapf (''failed to parse '' @ path @ '': '') err), target')
                 | (None, target') \<Rightarrow> (None, target')))"

section \<open>Replacing a file\<close>

definition delete_node :: "string list \<Rightarrow> file_system \<Rightarrow> file_system" where
  "delete_node k fs = fs\<lparr>fs_nodes := fmdrop k (fs_nodes fs)\<rparr>"

definition os_Rename :: "go_error option \<Rightarrow> string \<Rightarrow> string \<Rightarrow> file_system \<Rightarrow> go_error option \<times> file_system" where
  "os_Rename out old new fs =
     (let failed = (\<lambda>why. (Some (Errorf (''rename '' @ old @ '' '' @ new @ why)), fs))
      in case os_Stat fs old of
           StatFound k (FFile c x) \<Rightarrow>
             (case open_target fs new of
                Inr k' \<Rightarrow> (case out of Some err \<Rightarrow> (Some err, fs) | None \<Rightarrow> (None, set_node k' (FFile c x) (delete_node k fs)))
              | Inl _ \<Rightarrow>
                  (case os_Stat fs new of
                     StatFound _ _ \<Rightarrow> failed '': file exists''
                   | StatNotDir \<Rightarrow> failed '': not a directory''
                   | StatNotExist \<Rightarrow> failed '': no such file or directory''))
         | _ \<Rightarrow> failed '': no such file or directory'')"

text \<open>\<open>os.Remove\<close> of a file, whose error is ignored.\<close>

definition os_Remove :: "bool \<Rightarrow> string \<Rightarrow> file_system \<Rightarrow> file_system" where
  "os_Remove fails p fs = (case os_Stat fs p of StatFound k (FFile _ _) \<Rightarrow> if fails then fs else delete_node k fs | _ \<Rightarrow> fs)"

text \<open>What the system calls do: the failures of \<open>mkdir\<close>, the random number in the name of the temporary file or a failure to create it, a
  failed write with the number of characters that were written, and the failures of the other calls.\<close>

record write_world =
  ww_mkdir :: "string \<Rightarrow> go_error option"
  ww_temp :: "nat go_result"
  ww_write :: "(go_error \<times> nat) option"
  ww_chmod :: "go_error option"
  ww_close :: "go_error option"
  ww_rename :: "go_error option"
  ww_remove :: bool

definition temp_path :: "string \<Rightarrow> nat \<Rightarrow> string" where
  "temp_path dir rnd = (if last dir = CHR ''/'' then dir else dir @ ''/'') @ ''.halctl-config-'' @ nat_text rnd @ ''.tmp''"

text \<open>The steps after the temporary file \<open>k\<close> with the path \<open>tmp\<close> has been created, without the deferred removal.\<close>

definition fill_and_rename :: "write_world \<Rightarrow> string \<Rightarrow> string list \<Rightarrow> string \<Rightarrow> string \<Rightarrow> file_system \<Rightarrow> go_error option \<times> file_system" where
  "fill_and_rename w tmp k path data fs =
     (case ww_write w of
        Some (err, n) \<Rightarrow> (Some (Wrapf ''failed to write temp file: '' err), set_node k (FFile (take n data) False) fs)
      | None \<Rightarrow>
          let fs' = set_node k (FFile data False) fs
          in case ww_chmod w of
               Some err \<Rightarrow> (Some (Wrapf ''failed to set temp file mode: '' err), fs')
             | None \<Rightarrow>
                 (case ww_close w of
                    Some err \<Rightarrow> (Some (Wrapf ''failed to close temp file: '' err), fs')
                  | None \<Rightarrow>
                      (case os_Rename (ww_rename w) tmp path fs' of
                         (Some err, fs'') \<Rightarrow> (Some (Wrapf ''failed to replace config file: '' err), fs'')
                       | (None, fs'') \<Rightarrow> (None, fs''))))"

definition writeJSONAtomic :: "write_world \<Rightarrow> string \<Rightarrow> string go_result \<Rightarrow> file_system \<Rightarrow> go_error option \<times> file_system" where
  "writeJSONAtomic w path marshalled fs =
     (case os_MkdirAll (ww_mkdir w) (path_dir path) fs of
        (Some err, fs1) \<Rightarrow> (Some (Wrapf ''failed to create parent directory: '' err), fs1)
      | (None, fs1) \<Rightarrow>
          (case marshalled of
             Inl err \<Rightarrow> (Some (Wrapf ''failed to marshal json: '' err), fs1)
           | Inr text \<Rightarrow>
               (case ww_temp w of
                  Inl err \<Rightarrow> (Some (Wrapf ''failed to create temp file: '' err), fs1)
                | Inr rnd \<Rightarrow>
                    let tmp = temp_path (path_dir path) rnd
                    in case create_key fs1 tmp of
                         None \<Rightarrow> (Some (Wrapf ''failed to create temp file: '' (Errorf (''open '' @ tmp @ '': file exists''))), fs1)
                       | Some k \<Rightarrow>
                           (case fill_and_rename w tmp k path (text @ nl) (set_node k (FFile [] False) fs1) of
                              (res, fs2) \<Rightarrow> (res, os_Remove (ww_remove w) tmp fs2)))))"

section \<open>The dialogues\<close>

text \<open>The surroundings of a dialogue: decoding into the structures of this file, their texts, decoding into the structures of the two programs,
  and the outcomes of reading before and after the write.\<close>

record config_world =
  cw_sup_parse :: "string \<Rightarrow> supervisorConfigFile \<Rightarrow> go_error option \<times> supervisorConfigFile"
  cw_sup_text :: "supervisorConfigFile \<Rightarrow> string go_result"
  cw_sup_config :: "string \<Rightarrow> SupervisorConfig go_result"
  cw_orders :: config_orders
  cw_agent_parse :: "string \<Rightarrow> agentConfigFile \<Rightarrow> go_error option \<times> agentConfigFile"
  cw_agent_text :: "agentConfigFile \<Rightarrow> string go_result"
  cw_agent_config :: "string \<Rightarrow> AgentConfig go_result"
  cw_cli_parse :: "string \<Rightarrow> cliConfigFile \<Rightarrow> go_error option \<times> cliConfigFile"
  cw_cli_text :: "cliConfigFile \<Rightarrow> string go_result"
  cw_read :: "go_error option"
  cw_reread :: "go_error option"
  cw_random :: "string go_result"
  cw_home :: "string go_result"
  cw_write :: write_world

text \<open>The part of the dialogue about the shared token.\<close>

definition prompt_token :: "config_world \<Rightarrow> string \<Rightarrow> string list \<Rightarrow> string go_result option" where
  "prompt_token cw token input =
     (case promptYesNo (token = []) input of
        None \<Rightarrow> None
      | Some (False, rest) \<Rightarrow> Some (Inr token)
      | Some (True, rest) \<Rightarrow>
          (case promptYesNo True rest of
             None \<Rightarrow> None
           | Some (True, rest') \<Rightarrow>
               (case randomTokenHex (cw_random cw) of
                  Inl err \<Rightarrow> Some (Inl (Wrapf ''failed to generate token: '' err))
                | Inr tok \<Rightarrow> Some (Inr tok))
           | Some (False, rest') \<Rightarrow> map_option (\<lambda>(tok, _). Inr tok) (promptString [] True rest')))"

definition configureSupervisor :: "config_world \<Rightarrow> string list \<Rightarrow> file_system \<Rightarrow> (go_error option \<times> file_system) option" where
  "configureSupervisor cw input fs =
     (let path = defaultSupervisorConfigPath;
          cfg = snd (readJSONIfExists (cw_sup_parse cw) (cw_read cw) fs path defaultSupervisorConfig)
      in case prompt_token cw (sf_AuthToken cfg) input of
           None \<Rightarrow> None
         | Some (Inl err) \<Rightarrow> Some (Some err, fs)
         | Some (Inr tok) \<Rightarrow>
             (case writeJSONAtomic (cw_write cw) path (cw_sup_text cw (cfg\<lparr>sf_AuthToken := tok\<rparr>)) fs of
                (Some err, fs') \<Rightarrow> Some (Some (Wrapf ''writing supervisor config: '' err), fs')
              | (None, fs') \<Rightarrow>
                  (case LoadSupervisorConfig (cw_orders cw) (os_ReadFile (cw_reread cw) fs' path) (cw_sup_config cw) of
                     Inl err \<Rightarrow> Some (Some (Wrapf ''supervisor config validation failed after write: '' err), fs')
                   | Inr _ \<Rightarrow> Some (None, fs'))))"

definition LoadAgentConfig :: "string go_result \<Rightarrow> (string \<Rightarrow> AgentConfig go_result) \<Rightarrow> AgentConfig go_result" where
  "LoadAgentConfig file_data unmarshal =
     (case file_data of
        Inl err \<Rightarrow> Inl (Wrapf ''failed to read config file: '' err)
      | Inr data \<Rightarrow>
          (case unmarshal data of
             Inl err \<Rightarrow> Inl (Wrapf ''failed to parse config: '' err)
           | Inr cfg \<Rightarrow> validateAgentConfig cfg))"

text \<open>The questions of \<open>configureAgent\<close>.\<close>

definition prompt_agent :: "agentConfigFile \<Rightarrow> string list \<Rightarrow> agentConfigFile option" where
  "prompt_agent cfg input =
     do {
       (url, in1) \<leftarrow> promptString (af_SupervisorURL cfg) True input;
       (token, in2) \<leftarrow> promptString (af_AuthToken cfg) True in1;
       (port, in3) \<leftarrow> promptInt (af_OpencodePort cfg) in2;
       (interval, in4) \<leftarrow> promptInt (af_AuthReportIntervalSec cfg) in3;
       (again, in5) \<leftarrow> promptYesNo (af_Projects cfg = []) in4;
       projects \<leftarrow> (if again then map_option fst (prompt_projects [] in5) else Some (af_Projects cfg));
       Some \<lparr>af_SupervisorURL = url, af_AuthToken = token, af_OpencodePort = port, af_AuthReportIntervalSec = interval, af_Projects = projects\<rparr>
     }"

definition configureAgent :: "config_world \<Rightarrow> string list \<Rightarrow> file_system \<Rightarrow> (go_error option \<times> file_system) option" where
  "configureAgent cw input fs =
     (let path = defaultAgentConfigPath;
          cfg = snd (readJSONIfExists (cw_agent_parse cw) (cw_read cw) fs path defaultAgentConfig)
      in case prompt_agent cfg input of
           None \<Rightarrow> None
         | Some cfg' \<Rightarrow>
             (case writeJSONAtomic (cw_write cw) path (cw_agent_text cw cfg') fs of
                (Some err, fs') \<Rightarrow> Some (Some (Wrapf ''writing agent config: '' err), fs')
              | (None, fs') \<Rightarrow>
                  (case LoadAgentConfig (os_ReadFile (cw_reread cw) fs' path) (cw_agent_config cw) of
                     Inl err \<Rightarrow> Some (Some (Wrapf ''agent config validation failed after write: '' err), fs')
                   | Inr _ \<Rightarrow> Some (None, fs'))))"

definition defaultCLIConfigPath :: "string go_result \<Rightarrow> string go_result" where
  "defaultCLIConfigPath home =
     (case home of
        Inl err \<Rightarrow> Inl (Wrapf ''could not determine home directory: '' err)
      | Inr h \<Rightarrow> Inr (path_join [h, ''.halctl'', ''config.json'']))"

text \<open>The questions of \<open>configureCLI\<close>.\<close>

definition prompt_cli :: "cliConfigFile \<Rightarrow> string list \<Rightarrow> cliConfigFile option" where
  "prompt_cli cfg input =
     do {
       (url, in1) \<leftarrow> promptString (cf_SupervisorURL cfg) True input;
       (token, in2) \<leftarrow>
         (if cf_AuthToken cfg \<noteq> [] then
            do { (keep, in2) \<leftarrow> promptYesNo True in1; if keep then Some (cf_AuthToken cfg, in2) else promptString [] True in2 }
          else promptString [] True in1);
       (format, in3) \<leftarrow> prompt_until format_answer (cf_Format cfg) in2;
       Some \<lparr>cf_SupervisorURL = url, cf_AuthToken = token, cf_Format = format\<rparr>
     }"

definition configureCLI :: "config_world \<Rightarrow> string list \<Rightarrow> file_system \<Rightarrow> (go_error option \<times> file_system) option" where
  "configureCLI cw input fs =
     (case defaultCLIConfigPath (cw_home cw) of
        Inl err \<Rightarrow> Some (Some err, fs)
      | Inr path \<Rightarrow>
          let cfg = snd (readJSONIfExists (cw_cli_parse cw) (cw_read cw) fs path
                \<lparr>cf_SupervisorURL = defaultCLIURL, cf_AuthToken = [], cf_Format = defaultCLIFormat\<rparr>)
          in case prompt_cli cfg input of
               None \<Rightarrow> None
             | Some cfg' \<Rightarrow>
                 (case writeJSONAtomic (cw_write cw) path (cw_cli_text cw cfg') fs of
                    (Some err, fs') \<Rightarrow> Some (Some (Wrapf ''writing cli config: '' err), fs')
                  | (None, fs') \<Rightarrow> Some (None, fs')))"

definition loadCLIConfig :: "config_world \<Rightarrow> file_system \<Rightarrow> cliConfigFile option go_result" where
  "loadCLIConfig cw fs =
     (case defaultCLIConfigPath (cw_home cw) of
        Inl err \<Rightarrow> Inl err
      | Inr path \<Rightarrow>
          (case readJSONIfExists (cw_cli_parse cw) (cw_read cw) fs path \<lparr>cf_SupervisorURL = [], cf_AuthToken = [], cf_Format = []\<rparr> of
             (Some err, _) \<Rightarrow> Inl err
           | (None, cfg) \<Rightarrow>
               if cf_SupervisorURL cfg = [] \<and> cf_AuthToken cfg = [] \<and> cf_Format cfg = [] then Inr None else Inr (Some cfg)))"

text \<open>The exit code, what is reported, and the files.\<close>

definition run_target :: "config_world \<Rightarrow> config_target \<Rightarrow> string list \<Rightarrow> file_system \<Rightarrow> (go_error option \<times> file_system) option" where
  "run_target cw target = (case target of TSupervisor \<Rightarrow> configureSupervisor cw | TAgent \<Rightarrow> configureAgent cw | TCLI \<Rightarrow> configureCLI cw)"

definition finish_config :: "go_error option \<times> file_system \<Rightarrow> int \<times> string option \<times> file_system" where
  "finish_config r = (case r of (None, fs) \<Rightarrow> (0, None, fs) | (Some e, fs) \<Rightarrow> (1, Some (''Error: '' @ error_text e), fs))"

definition handleConfig :: "config_world \<Rightarrow> string list \<Rightarrow> string list \<Rightarrow> file_system \<Rightarrow> (int \<times> string option \<times> file_system) option" where
  "handleConfig cw args input fs =
     (let run = (\<lambda>t rest. map_option finish_config (run_target cw t rest fs));
          target = (if length args = 1 then to_lower (trim_space (hd args)) else [])
      in if length args > 1 then Some (1, Some (''Error: usage is '' @ [CHR 0x27] @ ''halctl config [supervisor|agent|cli]'' @ [CHR 0x27]), fs)
         else if target = [] then (case promptTarget input of None \<Rightarrow> None | Some (t, rest) \<Rightarrow> run t rest)
         else if target = ''supervisor'' then run TSupervisor input
         else if target = ''agent'' then run TAgent input
         else if target = ''cli'' then run TCLI input
         else Some (1, Some (''Error: unknown config target '' @ quoted target @ '' (expected supervisor, agent, or cli)''), fs))"

section \<open>The replacement is atomic\<close>

lemma lookup_delete_node [simp]: "k \<noteq> [] \<Longrightarrow> fs_lookup (delete_node k fs) j = (if j = k then None else fs_lookup fs j)"
  by (simp add: fs_lookup_def delete_node_def)

lemma set_node_twice [simp]: "set_node k e (set_node k e' fs) = set_node k e fs"
  by (simp add: set_node_def fmap_ext)

lemma delete_set_node [simp]: "k \<noteq> [] \<Longrightarrow> fs_lookup fs k = None \<Longrightarrow> delete_node k (set_node k e fs) = fs"
proof -
  assume "k \<noteq> []" "fs_lookup fs k = None"
  then have "fmdrop k (fmupd k e (fs_nodes fs)) = fs_nodes fs" by (intro fmap_ext) (simp add: fs_lookup_def)
  then show ?thesis by (simp add: set_node_def delete_node_def)
qed

lemma walk_dirs:
  assumes "\<And>j. fs_lookup fs j = Some FDir \<Longrightarrow> fs_lookup fs' j = Some FDir"
  shows "walk fs k es = StatFound d FDir \<Longrightarrow> walk fs' k es = StatFound d FDir"
  by (induction es arbitrary: k) (auto split: option.splits fs_entry.splits dest: assms)

lemma open_target_parent:
  assumes "open_target fs p = Inr k" and "plain (last (str_split p (CHR ''/'')))"
  obtains d where "p \<noteq> []" and "walk fs (start_of fs p) (butlast (str_split p (CHR ''/''))) = StatFound d FDir"
    and "k = d @ [last (str_split p (CHR ''/''))]" and "fs_lookup fs k \<noteq> Some FDir" and "k = path_key fs p"
proof -
  let ?es = "str_split p (CHR ''/'')"
  have "p \<noteq> [] \<and> (\<exists>d. walk fs (start_of fs p) (butlast ?es) = StatFound d FDir \<and> k = d @ [last ?es]) \<and> fs_lookup fs k \<noteq> Some FDir \<and> k = path_key fs p"
    using assms(1)
  proof (cases rule: open_target_cases)
    case (1 c x)
    then have p: "p \<noteq> []" by (auto simp: os_Stat_def)
    then have es: "?es \<noteq> []" by simp
    have "walk fs (start_of fs p) (butlast ?es @ [last ?es]) = StatFound k (FFile c x)" using 1(1) p es by (simp add: os_Stat_def)
    then have "\<exists>d. walk fs (start_of fs p) (butlast ?es) = StatFound d FDir \<and> k = d @ [last ?es]"
      using assms(2) unfolding path_walk_snoc by (auto simp: plain_def enter_def split: stat_result.splits fs_entry.splits option.splits)
    then show ?thesis using p 1(2) os_Stat_found_key [OF 1(1)] by auto
  next
    case 2
    have "fs_lookup fs k = None" and s: "os_Stat (set_node k FDir fs) p = StatFound k FDir" using 2(2) by (auto elim!: create_keyD)
    moreover have "k = path_key fs p" using os_Stat_found_key [OF s] path_key_cwd [of "set_node k FDir fs" fs] by simp
    ultimately show ?thesis
      using 2(2) by (auto simp: create_key_def Let_def split: if_splits stat_result.splits fs_entry.splits)
  qed
  then show thesis using that by blast
qed

text \<open>The name of a configuration file: an ordinary name that no temporary file has.\<close>

definition config_name :: "string \<Rightarrow> bool" where
  "config_name n \<longleftrightarrow> plain n \<and> \<not> has_prefix n ''.halctl-config-''"

lemma nat_text_digit: "c \<in> set (nat_text n) \<Longrightarrow> is_digit c"
proof (induction n rule: nat_text.induct)
  case (1 n)
  then show ?case by (cases "n < 10") (auto simp: nat_text.simps [of n] digit_char_def is_digit_def Let_def of_char_of)
qed

lemma temp_name:
  assumes "dir \<noteq> []"
  shows "last (str_split (temp_path dir rnd) (CHR ''/'')) = ''.halctl-config-'' @ nat_text rnd @ ''.tmp''"
proof -
  have "CHR ''/'' \<notin> set (nat_text rnd)" using nat_text_digit [of "CHR ''/''" rnd] by (auto simp: is_digit_def)
  then have n: "str_split (''.halctl-config-'' @ nat_text rnd @ ''.tmp'') (CHR ''/'') = [''.halctl-config-'' @ nat_text rnd @ ''.tmp'']"
    by (intro split_single) simp
  have "temp_path dir rnd = (if last dir = CHR ''/'' then butlast dir else dir) @ CHR ''/'' # ''.halctl-config-'' @ nat_text rnd @ ''.tmp''"
    using assms by (simp add: temp_path_def) (metis append_butlast_last_id append_Cons append_Nil append_assoc)
  then show ?thesis using n by (simp only: split_append_sep last_snoc)
qed

text \<open>The file with its content, or an error with the temporary file still there.\<close>

lemma rename_new_file:
  assumes "fs_lookup fs k = None" and "k \<noteq> []" and "os_Stat (set_node k (FFile c False) fs) tmp = StatFound k (FFile c False)"
    and "config_name (last (str_split path (CHR ''/'')))" and "last k \<noteq> last (str_split path (CHR ''/''))"
    and "os_Rename out tmp path (set_node k (FFile c False) fs) = (res, fs')"
  shows "res \<noteq> None \<and> fs' = set_node k (FFile c False) fs \<or>
    res = None \<and> fs' = set_node (path_key fs path) (FFile c False) fs \<and> fs_lookup fs (path_key fs path) \<noteq> Some FDir \<and> path_key fs path \<noteq> [] \<and>
    os_Stat fs' path = StatFound (path_key fs path) (FFile c False)"
proof (cases "res = None")
  case False
  then show ?thesis using assms(3,6) by (auto simp: os_Rename_def Let_def split: sum.splits option.splits stat_result.splits)
next
  case True
  let ?fs2 = "set_node k (FFile c False) fs" and ?es = "str_split path (CHR ''/'')"
  obtain k' where k': "open_target ?fs2 path = Inr k'" and fs': "fs' = set_node k' (FFile c False) fs"
    using True assms(1-3,6) by (auto simp: os_Rename_def Let_def split: sum.splits option.splits stat_result.splits)
  have name: "plain (last ?es)" using assms(4) by (simp add: config_name_def)
  from k' name obtain d where d: "path \<noteq> []" "walk ?fs2 (start_of ?fs2 path) (butlast ?es) = StatFound d FDir" "k' = d @ [last ?es]"
      "fs_lookup ?fs2 k' \<noteq> Some FDir" "k' = path_key ?fs2 path" by (rule open_target_parent)
  have key: "k' = path_key fs path" using d(5) path_key_cwd [of ?fs2 fs] by simp
  have ne: "k' \<noteq> []" "k' \<noteq> k" using d(3) assms(5) by auto
  have "walk fs' (start_of fs path) (butlast ?es) = StatFound d FDir"
  proof (rule walk_dirs [of ?fs2])
    fix j assume "fs_lookup ?fs2 j = Some FDir"
    then show "fs_lookup fs' j = Some FDir" using d(4) assms(2) ne by (auto simp: fs' split: if_splits)
  qed (use d(2) in \<open>simp only: start_of_def cwd_set_node\<close>)
  then have "walk fs' (start_of fs path) (butlast ?es @ [last ?es]) = StatFound k' (FFile c False)"
    using name d(3) ne unfolding path_walk_snoc by (simp add: enter_def plain_def fs')
  then have "os_Stat fs' path = StatFound k' (FFile c False)" using d(1) by (cases "is_abs path") (simp_all add: os_Stat_def fs' start_of_def)
  moreover have "fs_lookup fs k' \<noteq> Some FDir" using d(4) assms(2) ne by auto
  ultimately show ?thesis using True fs' key ne by simp
qed

lemma fill_new_file:
  assumes "fs_lookup fs k = None" and "k \<noteq> []" and "\<And>e. os_Stat (set_node k e fs) tmp = StatFound k e"
    and "config_name (last (str_split path (CHR ''/'')))" and "last k \<noteq> last (str_split path (CHR ''/''))"
    and "fill_and_rename w tmp k path data (set_node k (FFile [] False) fs) = (res, fs')"
  shows "res \<noteq> None \<and> (\<exists>d. fs' = set_node k (FFile d False) fs) \<or>
    res = None \<and> fs' = set_node (path_key fs path) (FFile data False) fs \<and> fs_lookup fs (path_key fs path) \<noteq> Some FDir \<and> path_key fs path \<noteq> [] \<and>
    os_Stat fs' path = StatFound (path_key fs path) (FFile data False)"
proof (cases "ww_write w = None \<and> ww_chmod w = None \<and> ww_close w = None")
  case True
  obtain r fs'' where "os_Rename (ww_rename w) tmp path (set_node k (FFile data False) fs) = (r, fs'')" by (rule prod.exhaust)
  with rename_new_file [OF assms(1,2,3,4,5) this] True assms(6) show ?thesis
    by (cases r) (auto simp: fill_and_rename_def Let_def)
qed (use assms(6) in \<open>auto simp: fill_and_rename_def Let_def split: option.splits\<close>)

text \<open>Every run ends in one of three states over the tree \<open>fs1\<close> with the parent directories.\<close>

lemma write_cases:
  assumes "writeJSONAtomic w path marshalled fs = (res, fs')" and "config_name (last (str_split path (CHR ''/'')))"
    and "os_MkdirAll (ww_mkdir w) (path_dir path) fs = (r, fs1)"
  shows "res \<noteq> None \<and> fs' = fs1 \<or>
    res \<noteq> None \<and> ww_remove w \<and> (\<exists>k d. fs_lookup fs1 k = None \<and> k \<noteq> [] \<and> fs' = set_node k (FFile d False) fs1) \<or>
    res = None \<and> (\<exists>text. marshalled = Inr text \<and> fs' = set_node (path_key fs1 path) (FFile (text @ nl) False) fs1 \<and>
      fs_lookup fs1 (path_key fs1 path) \<noteq> Some FDir \<and> path_key fs1 path \<noteq> [] \<and>
      os_Stat fs' path = StatFound (path_key fs1 path) (FFile (text @ nl) False))"
proof -
  have "res \<noteq> None \<and> fs' = fs1 \<or> (\<exists>text rnd k fs2. marshalled = Inr text \<and> create_key fs1 (temp_path (path_dir path) rnd) = Some k \<and>
      fill_and_rename w (temp_path (path_dir path) rnd) k path (text @ nl) (set_node k (FFile [] False) fs1) = (res, fs2) \<and>
      fs' = os_Remove (ww_remove w) (temp_path (path_dir path) rnd) fs2)"
    using assms(1) by (auto simp: writeJSONAtomic_def assms(3) Let_def split: option.splits sum.splits prod.splits)
  then consider "res \<noteq> None" "fs' = fs1"
    | (temp) tx rnd k fs2 where "marshalled = Inr tx" "create_key fs1 (temp_path (path_dir path) rnd) = Some k"
        "fill_and_rename w (temp_path (path_dir path) rnd) k path (tx @ nl) (set_node k (FFile [] False) fs1) = (res, fs2)"
        "fs' = os_Remove (ww_remove w) (temp_path (path_dir path) rnd) fs2" by blast
  then show ?thesis
  proof cases
    case temp
    let ?tmp = "temp_path (path_dir path) rnd"
    have new: "fs_lookup fs1 k = None" "k \<noteq> []" and stat: "\<And>e. os_Stat (set_node k e fs1) ?tmp = StatFound k e"
      using temp(2) by (auto elim!: create_keyD)
    have "path_dir path \<noteq> []" using clean_path_dir [of path] by (simp add: clean_path_def)
    moreover have "last k = last (str_split ?tmp (CHR ''/''))"
      using temp(2) by (auto simp: create_key_def Let_def split: if_splits stat_result.splits fs_entry.splits)
    moreover have "has_prefix (''.halctl-config-'' @ x) ''.halctl-config-''" for x by (simp add: has_prefix_def)
    ultimately have name: "last k \<noteq> last (str_split path (CHR ''/''))" using assms(2) unfolding config_name_def by (metis temp_name)
    have gone: "os_Remove (ww_remove w) ?tmp (set_node k' e fs1) = set_node k' e fs1" if "k' \<noteq> []" "k' \<noteq> k" for k' e
    proof -
      have "k = path_key fs1 ?tmp" using os_Stat_found_key [OF stat, of FDir] path_key_cwd [of "set_node k FDir fs1" fs1 ?tmp] by simp
      then have "\<not> is_found (os_Stat (set_node k' e fs1) ?tmp)"
        using new that os_Stat_found_lookup os_Stat_found_key path_key_cwd [of "set_node k' e fs1" fs1] by (fastforce simp: is_found_def split: stat_result.splits)
      then show ?thesis by (auto simp: os_Remove_def is_found_def split: stat_result.splits)
    qed
    from fill_new_file [OF new stat assms(2) name temp(3)] show ?thesis
    proof (elim disjE conjE exE)
      fix d assume "res \<noteq> None" "fs2 = set_node k (FFile d False) fs1"
      then show ?thesis using temp(4) new stat [of "FFile d False"] by (cases "ww_remove w") (auto simp: os_Remove_def)
    next
      assume fs2: "res = None" "fs2 = set_node (path_key fs1 path) (FFile (tx @ nl) False) fs1" "fs_lookup fs1 (path_key fs1 path) \<noteq> Some FDir"
        "path_key fs1 path \<noteq> []" "os_Stat fs2 path = StatFound (path_key fs1 path) (FFile (tx @ nl) False)"
      have "path_key fs1 path \<noteq> k"
      proof
        assume "path_key fs1 path = k"
        moreover have "path_key fs1 path = enter (foldl enter (start_of fs1 path) (butlast (str_split path (CHR ''/'')))) (last (str_split path (CHR ''/'')))"
          unfolding path_key_def by (metis append_butlast_last_id foldl_append foldl.simps str_split_nonempty)
        ultimately show False using name assms(2) by (auto simp: enter_def config_name_def plain_def)
      qed
      then show ?thesis using temp(1,4) fs2 gone by simp
    qed
  qed simp
qed

lemma mkdir_files_back:
  assumes "os_MkdirAll out p fs = (r, fs1)" and "fs_lookup fs1 k = Some (FFile c x)"
  shows "fs_lookup fs k = Some (FFile c x)"
  using assms mkdir_all_files [of out "path_prefixes p" fs k c x] by (auto simp: os_MkdirAll_def split: if_splits)

lemma write_atomic:
  assumes "writeJSONAtomic w path marshalled fs = (res, fs')" and "config_name (last (str_split path (CHR ''/'')))"
  shows "(res = None \<longrightarrow> (\<exists>text. marshalled = Inr text \<and> os_ReadFile None fs' path = Inr (text @ nl))) \<and>
    (\<forall>k e. fs_lookup fs k = Some e \<longrightarrow> res \<noteq> None \<or> k \<noteq> path_key fs path \<longrightarrow> fs_lookup fs' k = Some e) \<and>
    (\<forall>k c x. fs_lookup fs' k = Some (FFile c x) \<longrightarrow>
       ww_remove w \<or> res = None \<and> k = path_key fs path \<or> fs_lookup fs k = Some (FFile c x))"
proof -
  obtain r fs1 where mk: "os_MkdirAll (ww_mkdir w) (path_dir path) fs = (r, fs1)" by (rule prod.exhaust)
  have ext: "extends {} fs fs1" by (rule os_MkdirAll_spec(1) [OF mk])
  then have keep: "fs_lookup fs1 k = Some e" if "fs_lookup fs k = Some e" for k e using that by (auto elim: extends_lookup)
  note older = mkdir_files_back [OF mk]
  have key: "path_key fs1 path = path_key fs path" using ext by (intro path_key_cwd) (simp add: extends_def)
  from write_cases [OF assms mk] show ?thesis
  proof (elim disjE conjE exE)
    fix k d assume "res \<noteq> None" "ww_remove w" "fs_lookup fs1 k = None" "k \<noteq> []" "fs' = set_node k (FFile d False) fs1"
    then show ?thesis by (auto dest: keep)
  next
    fix t assume "res = None" "marshalled = Inr t" and fs': "fs' = set_node (path_key fs1 path) (FFile (t @ nl) False) fs1"
      and "path_key fs1 path \<noteq> []" and "os_Stat fs' path = StatFound (path_key fs1 path) (FFile (t @ nl) False)"
    then have "os_ReadFile None fs' path = Inr (t @ nl)" by (simp add: os_ReadFile_def)
    moreover have "fs_lookup fs' j = (if j = path_key fs path then Some (FFile (t @ nl) False) else fs_lookup fs1 j)" for j
      using fs' key \<open>path_key fs1 path \<noteq> []\<close> by simp
    ultimately show ?thesis using \<open>res = None\<close> \<open>marshalled = Inr t\<close> by (auto intro: keep older split: if_splits)
  qed (auto intro: keep older)
qed

lemma written_text:
  assumes "writeJSONAtomic w path marshalled fs = (None, fs')" and "config_name (last (str_split path (CHR ''/'')))"
  obtains t where "marshalled = Inr t" and "os_ReadFile None fs' path = Inr (t @ nl)"
  using write_atomic [OF assms] by blast


section \<open>What the dialogues write\<close>

text \<open>What the programs read from a text that this program has written: the settings that its structures do not have are zero.\<close>

definition zero_provider :: CostProviderConfig where
  "zero_provider = \<lparr>APIKey = [], provider_Enabled = None, ModelRates = fmempty, BaseURL = [], AdminAPIKey = [], OrgAPIKey = []\<rparr>"

definition file_config :: "supervisorConfigFile \<Rightarrow> SupervisorConfig" where
  "file_config f =
     \<lparr>Server = \<lparr>Port = sf_Port f, HTTPPort = sf_HTTPPort f, AuthToken = sf_AuthToken f, HeartbeatIntervalSec = sf_HeartbeatIntervalSec f,
        HeartbeatTimeoutCount = sf_HeartbeatTimeoutCount f, AllowedOrigins = []\<rparr>,
      Channels = sf_Channels f, Database_Path = sf_Database_Path f,
      Cost = \<lparr>PollIntervalMinutes = sf_PollIntervalMinutes f, Anthropic = zero_provider\<lparr>AdminAPIKey := sf_AdminAPIKey f\<rparr>,
        OpenAI = zero_provider\<lparr>OrgAPIKey := sf_OrgAPIKey f\<rparr>, RequestTimeoutSec = 0, cost_MaxRetries = 0, BackoffBaseMS = 0\<rparr>,
      Routes = sf_Routes f, Policies = sf_Policies f, Dependencies = sf_Dependencies f, Security = sf_Security f, Credentials = sf_Credentials f\<rparr>"

definition file_view :: "SupervisorConfig \<Rightarrow> supervisorConfigFile" where
  "file_view c =
     \<lparr>sf_Port = Port (Server c), sf_HTTPPort = HTTPPort (Server c), sf_AuthToken = AuthToken (Server c),
      sf_HeartbeatIntervalSec = HeartbeatIntervalSec (Server c), sf_HeartbeatTimeoutCount = HeartbeatTimeoutCount (Server c),
      sf_Database_Path = Database_Path c, sf_Channels = Channels c, sf_PollIntervalMinutes = PollIntervalMinutes (Cost c),
      sf_AdminAPIKey = AdminAPIKey (Anthropic (Cost c)), sf_OrgAPIKey = OrgAPIKey (OpenAI (Cost c)), sf_Routes = Routes c,
      sf_Policies = Policies c, sf_Dependencies = Dependencies c, sf_Security = Security c, sf_Credentials = Credentials c\<rparr>"

definition agent_config :: "agentConfigFile \<Rightarrow> AgentConfig" where
  "agent_config f = \<lparr>SupervisorURL = af_SupervisorURL f, agent_AuthToken = af_AuthToken f, OpencodePort = af_OpencodePort f,
     AuthReportIntervalSec = af_AuthReportIntervalSec f, ToolPaths = \<lparr>path_Opencode = [], path_Claude = [], path_Codex = []\<rparr>,
     Projects = af_Projects f\<rparr>"

text \<open>The law of the surroundings: decoding an encoded structure gives its settings.\<close>

definition codec_law :: "config_world \<Rightarrow> bool" where
  "codec_law cw \<longleftrightarrow>
     (\<forall>f t. cw_sup_text cw f = Inr t \<longrightarrow> cw_sup_config cw (t @ nl) = Inr (file_config f)) \<and>
     (\<forall>f t. cw_agent_text cw f = Inr t \<longrightarrow> cw_agent_config cw (t @ nl) = Inr (agent_config f))"

lemma promptString_answer: "promptString def True input = Some (s, rest) \<Longrightarrow> s \<noteq> []"
  by (induction input) (auto simp: Let_def split: if_splits)

lemma prompt_until_answer: "prompt_until accept def input = Some (v, rest) \<Longrightarrow> \<exists>s. accept s = Some v"
proof (induction accept def input rule: prompt_until.induct)
  case (1 accept def input)
  from "1.prems" "1.IH" show ?case
    by (subst (asm) prompt_until.simps) (auto split: option.splits)
qed

lemma promptInt_answer: "promptInt def input = Some (v, rest) \<Longrightarrow> 0 < v \<and> v \<le> 65535"
  by (auto simp: promptInt_def port_answer_def dest!: prompt_until_answer split: option.splits if_splits)

definition named_projects :: "ProjectConfig list \<Rightarrow> bool" where
  "named_projects ps \<longleftrightarrow> list_all (\<lambda>p. proj_Name p \<noteq> [] \<and> proj_Directory p \<noteq> []) ps"

lemma prompt_projects_named: "prompt_projects acc input = Some (ps, rest) \<Longrightarrow> named_projects acc \<Longrightarrow> named_projects ps"
proof (induction "length input" arbitrary: acc input rule: less_induct)
  case less
  from less.prems(1) consider (stop) "acc = ps"
    | (add) name dir in1 in2 in3 where "promptYesNo True input = Some (True, in1)" "promptString [] True in1 = Some (name, in2)"
        "promptString [] True in2 = Some (dir, in3)" "prompt_projects (acc @ [\<lparr>proj_Name = name, proj_Directory = dir\<rparr>]) in3 = Some (ps, rest)"
    by (subst (asm) prompt_projects.simps) (auto split: option.splits prod.splits bool.splits)
  then show ?case
  proof cases
    case add
    then have "length in3 < length input" by (auto dest!: promptYesNo_shorter promptString_shorter)
    from less.hyps [OF this add(4)] less.prems(2) add(2,3) show ?thesis by (simp add: named_projects_def promptString_answer)
  qed (use less.prems in simp)
qed

lemma project_checks_named: "named_projects ps \<Longrightarrow> c \<in> set (concat (map (\<lambda>(i, p). project_checks i p) (enumerate n ps))) \<Longrightarrow> \<not> fst c"
  by (induction ps arbitrary: n) (auto simp: named_projects_def project_checks_def)

lemma prompt_agent_interval: "prompt_agent cfg input = Some cfg' \<Longrightarrow> 0 < af_AuthReportIntervalSec cfg'"
  by (auto simp: prompt_agent_def dest!: promptInt_answer split: bind_splits if_splits)

lemma validateAgentConfig_keeps: "validateAgentConfig c = Inr c' \<Longrightarrow> 0 < AuthReportIntervalSec c \<Longrightarrow> c' = c"
  by (auto simp: validateAgentConfig_def Let_def positive_or_def require_def split: option.splits)

lemma prompt_agent_valid:
  assumes "prompt_agent cfg input = Some cfg'" and "named_projects (af_Projects cfg)"
  shows "validateAgentConfig (agent_config cfg') = Inr (agent_config cfg')"
proof -
  have "af_SupervisorURL cfg' \<noteq> [] \<and> af_AuthToken cfg' \<noteq> [] \<and> 0 < af_OpencodePort cfg' \<and> af_OpencodePort cfg' \<le> 65535 \<and>
      0 < af_AuthReportIntervalSec cfg' \<and> named_projects (af_Projects cfg')"
    using assms
    by (auto simp: prompt_agent_def named_projects_def [of "[]"] dest!: promptString_answer promptInt_answer prompt_projects_named
        split: bind_splits if_splits)
  then show ?thesis
    using project_checks_named [of "af_Projects cfg'" _ 0]
    by (auto simp: validateAgentConfig_def agent_config_def Let_def positive_or_def require_def first_error_None split: option.split)
qed

text \<open>What the agent dialogue writes is accepted by the agent: if the projects of the present file are complete, every dialogue
  that comes to an end with the file written reports success, and the agent loads from the file exactly the answers.\<close>

lemma agent_dialogue_writes_valid_config:
  assumes "codec_law cw" and "cw_reread cw = None"
    and "cfg = snd (readJSONIfExists (cw_agent_parse cw) (cw_read cw) fs defaultAgentConfigPath defaultAgentConfig)"
    and "named_projects (af_Projects cfg)" and "prompt_agent cfg input = Some answers"
    and "writeJSONAtomic (cw_write cw) defaultAgentConfigPath (cw_agent_text cw answers) fs = (None, fs')"
  shows "configureAgent cw input fs = Some (None, fs') \<and>
    LoadAgentConfig (os_ReadFile None fs' defaultAgentConfigPath) (cw_agent_config cw) = Inr (agent_config answers)"
proof -
  have name: "config_name (last (str_split defaultAgentConfigPath (CHR ''/'')))" by code_simp
  obtain t where t: "cw_agent_text cw answers = Inr t" "os_ReadFile None fs' defaultAgentConfigPath = Inr (t @ nl)"
    using written_text [OF assms(6) name] by blast
  then have "LoadAgentConfig (os_ReadFile None fs' defaultAgentConfigPath) (cw_agent_config cw) = Inr (agent_config answers)"
    using assms(1) prompt_agent_valid [OF assms(5,4)] by (simp add: LoadAgentConfig_def codec_law_def)
  then show ?thesis using assms(2,3,5,6) by (simp add: configureAgent_def)
qed

text \<open>Settings that the structure of this program does not have are lost, whatever the answers.\<close>

lemma supervisor_settings_lost:
  assumes "codec_law cw" and "os_ReadFile (cw_read cw) fs defaultSupervisorConfigPath = Inr t" and "trim_space t \<noteq> []"
    and "cw_sup_parse cw t defaultSupervisorConfig = (None, file_view cfg)" and "configureSupervisor cw input fs = Some (None, fs')"
  shows "\<exists>token t'. os_ReadFile None fs' defaultSupervisorConfigPath = Inr t' \<and>
    cw_sup_config cw t' = Inr (cfg\<lparr>Server := (Server cfg)\<lparr>AuthToken := token, AllowedOrigins := []\<rparr>,
      Cost := \<lparr>PollIntervalMinutes = PollIntervalMinutes (Cost cfg), Anthropic = zero_provider\<lparr>AdminAPIKey := AdminAPIKey (Anthropic (Cost cfg))\<rparr>,
        OpenAI = zero_provider\<lparr>OrgAPIKey := OrgAPIKey (OpenAI (Cost cfg))\<rparr>, RequestTimeoutSec = 0, cost_MaxRetries = 0, BackoffBaseMS = 0\<rparr>\<rparr>)"
proof -
  have name: "config_name (last (str_split defaultSupervisorConfigPath (CHR ''/'')))" by code_simp
  have "os_Stat fs defaultSupervisorConfigPath \<noteq> StatNotExist" using assms(2) by (auto simp: os_ReadFile_def)
  then have read: "readJSONIfExists (cw_sup_parse cw) (cw_read cw) fs defaultSupervisorConfigPath defaultSupervisorConfig = (None, file_view cfg)"
    using assms(2-4) by (auto simp: readJSONIfExists_def split: stat_result.splits)
  from assms(5) obtain token where w: "writeJSONAtomic (cw_write cw) defaultSupervisorConfigPath
      (cw_sup_text cw ((file_view cfg)\<lparr>sf_AuthToken := token\<rparr>)) fs = (None, fs')"
    by (auto simp: configureSupervisor_def read Let_def split: option.splits sum.splits prod.splits)
  from written_text [OF w name] obtain t' where "cw_sup_text cw ((file_view cfg)\<lparr>sf_AuthToken := token\<rparr>) = Inr t'"
    "os_ReadFile None fs' defaultSupervisorConfigPath = Inr (t' @ nl)" by blast
  with assms(1) show ?thesis
    by (intro exI [of _ token] exI [of _ "t' @ nl"]) (simp add: codec_law_def file_config_def file_view_def)
qed

text \<open>A file that cannot be parsed is replaced by the defaults.\<close>

lemma malformed_config_replaced:
  assumes "codec_law cw" and "os_ReadFile (cw_read cw) fs defaultSupervisorConfigPath = Inr t" and "trim_space t \<noteq> []"
    and "cw_sup_parse cw t defaultSupervisorConfig = (Some err, defaultSupervisorConfig)" and "configureSupervisor cw input fs = Some (None, fs')"
  shows "\<exists>token t'. os_ReadFile None fs' defaultSupervisorConfigPath = Inr t' \<and>
    cw_sup_config cw t' = Inr (file_config (defaultSupervisorConfig\<lparr>sf_AuthToken := token\<rparr>))"
proof -
  have name: "config_name (last (str_split defaultSupervisorConfigPath (CHR ''/'')))" by code_simp
  have "os_Stat fs defaultSupervisorConfigPath \<noteq> StatNotExist" using assms(2) by (auto simp: os_ReadFile_def)
  then have read: "snd (readJSONIfExists (cw_sup_parse cw) (cw_read cw) fs defaultSupervisorConfigPath defaultSupervisorConfig) = defaultSupervisorConfig"
    using assms(2-4) by (auto simp: readJSONIfExists_def split: stat_result.splits)
  from assms(5) obtain token where w: "writeJSONAtomic (cw_write cw) defaultSupervisorConfigPath
      (cw_sup_text cw (defaultSupervisorConfig\<lparr>sf_AuthToken := token\<rparr>)) fs = (None, fs')"
    by (auto simp: configureSupervisor_def read Let_def split: option.splits sum.splits prod.splits)
  from written_text [OF w name] obtain t' where "cw_sup_text cw (defaultSupervisorConfig\<lparr>sf_AuthToken := token\<rparr>) = Inr t'"
    "os_ReadFile None fs' defaultSupervisorConfigPath = Inr (t' @ nl)" by blast
  with assms(1) show ?thesis by (intro exI [of _ token] exI [of _ "t' @ nl"]) (simp add: codec_law_def)
qed

text \<open>Without input no dialogue comes to an end.\<close>

lemma config_dialogue_never_ends:
  "run_target cw t [] fs = None \<or> t = TCLI \<and> (\<exists>err. cw_home cw = Inl err)" "handleConfig cw [] [] fs = None"
  by (auto simp: run_target_def configureSupervisor_def configureAgent_def configureCLI_def prompt_token_def prompt_agent_def prompt_cli_def
      defaultCLIConfigPath_def handleConfig_def promptTarget_def prompt_until.simps Let_def split: config_target.split sum.split)

section \<open>Witnesses\<close>

definition demo_files :: file_system where
  "demo_files = \<lparr>fs_nodes = fmupd [''x''] (FFile ''y'' False) fmempty, fs_cwd = []\<rparr>"

definition demo_write :: write_world where
  "demo_write = \<lparr>ww_mkdir = (\<lambda>_. None), ww_temp = Inr 7, ww_write = None, ww_chmod = None, ww_close = None, ww_rename = None, ww_remove = False\<rparr>"

definition demo_agent_answers :: agentConfigFile where
  "demo_agent_answers = \<lparr>af_SupervisorURL = ''u'', af_AuthToken = ''t'', af_OpencodePort = 4096, af_AuthReportIntervalSec = 30, af_Projects = []\<rparr>"

definition demo_dialogue :: "string list" where
  "demo_dialogue = [''u'', [], '' t '', [], ''0'', [], ''n'']"

definition demo_config_world :: config_world where
  "demo_config_world = \<lparr>cw_sup_parse = (\<lambda>_ f. (None, f)), cw_sup_text = (\<lambda>_. Inl (Errorf [])), cw_sup_config = (\<lambda>_. Inl (Errorf [])),
     cw_orders = \<lparr>ord_anthropic = [], ord_openai = [], ord_defaults = [], ord_agents = [], ord_agent_env = (\<lambda>_. []), float_text = (\<lambda>_. [])\<rparr>, cw_agent_parse = (\<lambda>_ f. (None, f)),
     cw_agent_text = (\<lambda>f. if f = demo_agent_answers then Inr ''{}'' else Inl (Errorf [])), cw_agent_config = (\<lambda>_. Inr (agent_config demo_agent_answers)),
     cw_cli_parse = (\<lambda>_ f. (None, f)), cw_cli_text = (\<lambda>_. Inl (Errorf [])), cw_read = None, cw_reread = None, cw_random = Inl (Errorf []),
     cw_home = Inl (Errorf []), cw_write = demo_write\<rparr>"

lemma demo_config_name: "config_name (last (str_split defaultAgentConfigPath (CHR ''/'')))"
  by code_simp

lemma demo_codec_law: "codec_law demo_config_world"
  by (simp add: codec_law_def demo_config_world_def split: if_splits)

lemma demo_agent_prompt:
  "snd (readJSONIfExists (cw_agent_parse demo_config_world) (cw_read demo_config_world) demo_files defaultAgentConfigPath defaultAgentConfig) =
     defaultAgentConfig"
  "prompt_agent defaultAgentConfig demo_dialogue = Some demo_agent_answers"
proof -
  have "os_Stat demo_files defaultAgentConfigPath = StatNotExist" by code_simp
  then show "snd (readJSONIfExists (cw_agent_parse demo_config_world) (cw_read demo_config_world) demo_files defaultAgentConfigPath
      defaultAgentConfig) = defaultAgentConfig" by (simp add: readJSONIfExists_def)
  show "prompt_agent defaultAgentConfig demo_dialogue = Some demo_agent_answers" by code_simp
qed

lemma demo_written: "\<exists>fs'. writeJSONAtomic demo_write defaultAgentConfigPath (Inr ''{}'') demo_files = (None, fs')"
proof -
  have "fst (writeJSONAtomic demo_write defaultAgentConfigPath (Inr ''{}'') demo_files) = None" by code_simp
  then show ?thesis by (metis prod.collapse)
qed

lemma demo_agent_dialogue: "\<exists>fs'. configureAgent demo_config_world demo_dialogue demo_files = Some (None, fs')"
proof -
  obtain fs' where w: "writeJSONAtomic demo_write defaultAgentConfigPath (Inr ''{}'') demo_files = (None, fs')" using demo_written by blast
  then obtain t where t: "os_ReadFile None fs' defaultAgentConfigPath = Inr (t @ nl)" using written_text [OF w demo_config_name] by blast
  have "named_projects (af_Projects defaultAgentConfig)" by code_simp
  from prompt_agent_valid [OF demo_agent_prompt(2) this] t w demo_agent_prompt(1) show ?thesis
    by (intro exI [of _ fs']) (simp add: configureAgent_def demo_agent_prompt(2) LoadAgentConfig_def demo_config_world_def)
qed


end
