(* ===== verification/Spec2Isabelle.thy ===== *)
theory Spec2Isabelle
  imports Event_Pipeline Registry Tracker Dep_Graph Security Command_Types Dispatcher Result_Routing Supervisor_Config
    Policy_Engine Protocol Hub Agent Http_Api Supervisor_Server Opencode_Adapter Discord_Bot Halctl_Config "HOL-Library.Countable"
begin

text \<open>
  Verification of HAL-O-SWARM, a supervisor for coding agents on many machines.

  \<^bold>\<open>The program.\<close> A \<^emph>\<open>supervisor\<close> (\<open>src/internal/supervisor\<close>) keeps a table of nodes (\<open>registry.go\<close>) and of
  coding sessions (\<open>tracker.go\<close>), each a cache in front of a table of a database, accepts web-socket
  connections of agents (\<open>hub.go\<close>, \<open>agent_conn.go\<close>), dispatches commands to them and waits for the results
  (\<open>command_dispatcher.go\<close>), orders and stores events (\<open>event_pipeline.go\<close>, \<open>event_dedup.go\<close>), intervenes by
  policies (\<open>policy_engine.go\<close>), triggers dependent projects (\<open>depgraph.go\<close>) and offers an HTTP interface
  (\<open>http_api.go\<close>) with the client \<open>halctl\<close> and a chat bot (\<open>discord.go\<close>). An \<^emph>\<open>agent\<close> (\<open>src/internal/agent\<close>) keeps a connection to the supervisor alive
  (\<open>wsclient.go\<close>, \<open>backoff.go\<close>), executes commands (\<open>session_commands.go\<close>, \<open>credential_apply.go\<close>,
  \<open>oauth_trigger.go\<close>), reports which tools are logged in (\<open>auth_*.go\<close>), and checks and provisions the
  environment of its projects (\<open>envcheck.go\<close>, \<open>provision.go\<close>). Both speak the envelope protocol of
  \<open>src/internal/shared/protocol.go\<close> and read the configuration files of \<open>src/internal/config\<close>.

  \<^bold>\<open>Conventions.\<close> A struct is a record, its fields with a short prefix; an operation that changes its
  receiver returns the changed receiver; an error is a value of \<open>go_error\<close> with the text of the source. A Go
  map is a finite map, and a loop over one takes the visiting order as an argument constrained by
  \<open>iteration_order\<close> only, so that every result holds for every order. Instants and durations are nanoseconds
  as \<open>int\<close> (0 is the zero time); \<open>uint64\<close> is \<open>64 word\<close>, \<open>int64\<close> counters are \<open>int\<close> with \<open>wrap64\<close> where they
  may wrap; \<open>float64\<close> is \<open>rat\<close>, so rounding is not modelled. What the program gets from outside (the clock, random
  numbers, uuids, hashes, JSON, the format of times, the outcome of each SQL statement, system call and
  write to a socket) is an argument; a theorem that needs a law of one of them states it as a hypothesis.
  A critical section is one step; where the code releases a lock between two sections the model has two
  steps, and the interleavings are those of an inductive relation.

  \<^bold>\<open>Theories.\<close>
  \<^item> \<open>Prelude\<close>, \<open>Go_Lib\<close>, \<open>Go_Regexp\<close>, \<open>File_System\<close>: finite maps and iteration orders; strings, errors, times
    and 64-bit arithmetic of Go; the fragment of regular expressions in use; a file tree with the system
    calls that \<open>provision.go\<close> and \<open>envcheck.go\<close> make.
  \<^item> \<open>Cached_Store\<close>: the interface \<open>cached_store\<close> of a cache in front of a table, for registry and tracker;
    \<open>Bounded_Memo\<close>: the interface of a bounded first-in first-out memory, for the ids of applied credential
    commands and for the idempotency cache of the HTTP interface.
  \<^item> \<open>Event_Dedup\<close>, \<open>Event_Pipeline\<close>: deduplication against a bounded window, sequence check, gap buffer and
    replay request, in-order hand-over to a bounded queue, the worker and its drain. Every reordering and
    repetition of the events of an agent is delivered exactly once and in order.
  \<^item> \<open>Registry\<close>, \<open>Tracker\<close>: all operations on nodes and sessions; cache and table agree in every reachable state.
  \<^item> \<open>Dep_Graph\<close>: the depth-first search finds a cycle exactly if there is one; readiness and triggering.
  \<^item> \<open>Security\<close>: origin patterns and redaction of secrets.
  \<^item> \<open>Command_Types\<close>, \<open>Dispatcher\<close>, \<open>Result_Routing\<close>: commands, idempotency cache, choice of the node, and the
    map of waiting callers under all interleavings.
  \<^item> \<open>Supervisor_Config\<close>, \<open>Env_Manifest\<close>: validation accepts exactly the sound configurations.
  \<^item> \<open>Policy_Engine\<close>: thresholds, retry caps, interventions and the events that report them.
  \<^item> \<open>Protocol\<close>, \<open>Hub\<close>: envelopes; the table of connections with the event loop and the pumps of every
    connection interleaved.
  \<^item> \<open>Backoff\<close>, \<open>WS_Client\<close>: bounds of the delay; the buffer of unacknowledged events refines a numbered log.
  \<^item> \<open>Credential_Apply\<close>, \<open>Session_Commands\<close>, \<open>Tool_Auth\<close>, \<open>Agent\<close>: what the agent does with a command, the
    reports of logins, and the wiring of \<open>Agent.Start\<close>.
  \<^item> \<open>Provision\<close>, \<open>Env_Check\<close>: provisioning only adds and is idempotent; the verdict of a check.
  \<^item> \<open>Go_Date\<close>, \<open>Cost_Aggregator\<close>: the calendar; polling of the providers with bounded retries, daily buckets, estimates
    and reports (\<open>cost.go\<close>). Buckets and reports are exact sums, and repeated polling changes nothing.
  \<^item> \<open>OAuth_Orchestrator\<close>, \<open>Health\<close>, \<open>Audit_Log\<close>: the decisions about remote logins and their summary; liveness and readiness;
    the stored commands with redacted arguments and their retention.
  \<^item> \<open>Http_Api\<close>: the routes, the token check, every handler and the replay of credential pushes (\<open>http_api.go\<close>).
  \<^item> \<open>Migrations\<close>: the scripts of the database run once and in order.
  \<^item> \<open>Supervisor_Server\<close>: \<open>server.go\<close> and \<open>cmd/supervisor/main.go\<close>: the wiring of the process, start, stop, token rotation
    and its interleaving with requests.
  \<^item> \<open>Opencode_Adapter\<close>: the tables of sessions and clients, the search for a session and the delivery of events;
    the interface \<open>session_adapter\<close> is what the command handler relies on.
  \<^item> \<open>Discord_Bot\<close>: the slash commands, their answers and the texts that may reach a chat (\<open>discord.go\<close>).
  \<^item> \<open>Halctl\<close>: the command-line client (\<open>internal/halctl\<close>, \<open>cmd/halctl/main.go\<close>) against the model of the HTTP interface:
    its requests reach the handlers that are meant, and its lists are those of the supervisor.
  \<^item> \<open>Halctl_Config\<close>: the configuration dialogue (\<open>cmd/halctl/config_cmd.go\<close>) on the lines of its input, with the
    replacement of files under every failure of a system call.
  \<^item> this theory: properties of supervisor and agent together (a command and its result there and back, the
    credential version after a handshake, commands that are never answered, slash commands that cannot succeed, dispatch
    to connected nodes only), and the agent program (\<open>cmd/agent/main.go\<close>) on a machine that \<open>halctl\<close> has configured.

  \<^bold>\<open>Bounds.\<close> There is no fuel: every loop of the source that is modelled is structural recursion, recursion with
  a proved measure (\<open>drain\<close>, \<open>detectCycleDFS\<close>, the prompts of \<open>Halctl_Config\<close>, where \<open>None\<close> is a dialogue that never ends) or a sequence of steps of arbitrary length (event loop,
  tickers, connection loop). The capacities (dedup window, persist queue, send channel, 1000 remembered
  command ids) are those of the source.

  \<^bold>\<open>Not modelled.\<close>
  \<^item> third-party code and input/output: gorilla/websocket, discordgo, the opencode SDK, SQLite, the LRU library, listening and
    certificates, logging (\<open>shared/logging.go\<close>), Prometheus metrics (\<open>metrics.go\<close>), flags and signals of \<open>src/cmd\<close>;
  \<^item> the layout of the tables that \<open>halctl\<close> prints, the texts of prompts and log messages;
  \<^item> test support (\<open>opencode_mock.go\<close>, \<open>src/integration/helpers.go\<close>) and files that hold a comment only;
  \<^item> timing inside a step, deadlines of sockets, and rounding of floating-point numbers.
\<close>

section \<open>Commands and connections together\<close>



section \<open>Commands there and back\<close>

text \<open>What the agent answers, as the supervisor decodes it.\<close>

definition result_of :: "sessionCommandResult \<Rightarrow> CommandResult" where
  "result_of r = \<lparr>res_CommandID = scr_CommandID r, res_Status = scr_Status r, res_Output = scr_Output r,
     res_Error = scr_Error r, res_Timestamp = scr_Timestamp r\<rparr>"

text \<open>The two programs use the same JSON: what one encodes the other decodes.\<close>

definition same_json :: "hub_world \<Rightarrow> dial_env \<Rightarrow> session_env \<Rightarrow> Command \<Rightarrow> bool" where
  "same_json w de se cmd \<longleftrightarrow>
     de_codec de = w_envelope w \<and>
     (\<forall>env. \<exists>d. encode_envelope (w_envelope w) env = Inr d \<and> decode_envelope (w_envelope w) d = Inr env) \<and>
     (\<forall>payload. w_command w cmd = Inr payload \<longrightarrow>
        de_command_type de payload = Inr (cmd_Type cmd) \<and>
        (\<exists>sc. se_unmarshal se payload = (sc, None) \<and> sc_CommandID sc = cmd_CommandID cmd \<and> sc_Type sc = cmd_Type cmd)) \<and>
     (\<forall>r. \<exists>p. se_marshal_result se r = Inr p \<and> w_result w p = Inr (result_of r))"

lemma codec_round_trip:
  assumes "\<forall>env. \<exists>d. encode_envelope ec env = Inr d \<and> decode_envelope ec d = Inr env" and "validateEnvelope env = None"
  obtains d where "MarshalEnvelope ec env = Inr d" and "UnmarshalEnvelope ec d = Inr env"
  using assms by (fastforce simp: MarshalEnvelope_def UnmarshalEnvelope_def)


text \<open>
  Some commands are never answered: the supervisor accepts \<open>handover\<close>, \<open>credential_push\<close> and
  \<open>oauth_trigger\<close> as supported and waits for a result, but the agent that \<open>Start\<close> sets up has no handler for
  the first and handlers for the other two that send nothing, so whatever the command contains, nothing is
  written to the connection.
\<close>
theorem commands_without_answer:
  assumes "Start e fs a = (None, a')" and "ag_wsClient a' = Some cl0" and "commandHandlers cl = commandHandlers cl0"
    and "t \<in> {CommandTypeHandover, CommandTypeCredentialPush, CommandTypeOAuthTrigger}"
    and "de_command_type de (env_Payload env) = Inr t"
  shows "IsSupportedCommandType t \<and> wire (fst (handleCommand de env (cl, hs))) = wire cl"
proof (rule Start_handlers [OF assms(1)])
  fix c1 assume c1: "ag_wsClient a' = Some c1" "\<And>t. fmlookup (commandHandlers c1) t =
      (if t = ''oauth_trigger'' then Some (oauth_trigger_handler (st_unmarshal_oauth e) (st_tools e) True)
       else if t = ''credential_push'' then Some (on_cred (credential_push_handler (st_unmarshal_push e) (st_push_order e)))
       else if t \<in> set session_command_types then Some (on_session (session_command_handler (st_session e) (st_adapter e)))
       else None)"
  have "fst (snd (on_cred (credential_push_handler u ord) env hs)) = []" for u ord
    by (simp add: on_cred_def credential_push_handler_def split: prod.splits)
  moreover have "fst (snd (oauth_trigger_handler u te b env hs)) = []" for u te b
    by (simp add: oauth_trigger_handler_def)
  moreover have "IsSupportedCommandType t" using assms(4)
    by (auto simp: IsSupportedCommandType_def supportedCommandTypes_def)
  moreover have "t \<in> {''handover'', ''credential_push'', ''oauth_trigger''}" using assms(4)
    by (auto simp: CommandTypeHandover_def CommandTypeCredentialPush_def CommandTypeOAuthTrigger_def)
  then have "fmlookup (commandHandlers cl) t =
      (if t = ''oauth_trigger'' then Some (oauth_trigger_handler (st_unmarshal_oauth e) (st_tools e) True)
       else if t = ''credential_push'' then Some (on_cred (credential_push_handler (st_unmarshal_push e) (st_push_order e)))
       else None)"
    using c1 assms(2,3) by (auto simp: session_command_types_def)
  ultimately show ?thesis
    using assms(5) by (auto simp: handleCommand_def send_replies_def case_prod_beta split: if_splits)
qed

section \<open>An example with both programs\<close>

text \<open>A codec that satisfies the round trip: texts are numerals.\<close>

definition num_codec :: envelope_codec where
  "num_codec = \<lparr>
     encode_envelope = (\<lambda>e. Inr (nat_text (to_nat (env_Version e, env_Type e, env_RequestID e, env_Timestamp e, env_Payload e)))),
     decode_envelope = (\<lambda>s. case from_nat (text_value s) of (v, t, i, ts, p) \<Rightarrow>
       Inr \<lparr>env_Version = v, env_Type = t, env_RequestID = i, env_Timestamp = ts, env_Payload = p\<rparr>)\<rparr>"

lemma num_codec: "\<exists>d. encode_envelope num_codec env = Inr d \<and> decode_envelope num_codec d = Inr env"
  by (simp add: num_codec_def)

definition rt_session :: session_env where
  "rt_session = \<lparr>se_now = 1, se_prov = demo_prov_world, se_check = demo_check_world,
     se_unmarshal = (\<lambda>p. (\<lparr>sc_CommandID = p, sc_Type = ''create_session'', sc_Project = ''demo'', sc_Args = fmempty\<rparr>, None)),
     se_manifest = (\<lambda>_. Inr demo_manifest), se_marshal_check = (\<lambda>_ _. Inr []), se_marshal_provision = (\<lambda>_ _ _. Inr []),
     se_marshal_diff = (\<lambda>_ _ _ _. Inr []), se_marshal_sync = (\<lambda>_ _ _. Inr []),
     se_marshal_result = (\<lambda>r. Inr (nat_text (to_nat (scr_CommandID r, scr_Status r, scr_Output r, scr_Error r, scr_Timestamp r))))\<rparr>"

definition rt_world :: hub_world where
  "rt_world = demo_world\<lparr>w_envelope := num_codec, w_command := (\<lambda>c. Inr (cmd_CommandID c)),
     w_result := (\<lambda>s. case from_nat (text_value s) of (i, st, out, err, t) \<Rightarrow>
       Inr \<lparr>res_CommandID = i, res_Status = st, res_Output = out, res_Error = err, res_Timestamp = t\<rparr>)\<rparr>"

definition rt_adapter :: "unit OpencodeAdapter" where
  "rt_adapter = \<lparr>ad_CreateSession = (\<lambda>_ _ a. (Inr ''s1'', a)), ad_PromptSession = (\<lambda>_ _ a. (None, a)), ad_KillSession = (\<lambda>_ a. (None, a)),
     ad_SessionStatus = (\<lambda>_ a. (Inr ''idle'', a)), ad_projectDirs = (\<lambda>_. None), ad_type_name = ''*agent.MockAdapter''\<rparr>"

definition rt_tools :: tool_env where
  "rt_tools = \<lparr>te_lookpath = (\<lambda>_. True), te_fs = demo_fs, te_getenv = (\<lambda>_. []), te_home = Inr ''/h'', te_read_out = (\<lambda>_. None),
     te_exec = (\<lambda>_. \<lparr>pe_stdout = [], pe_stderr = [], pe_err = None, pe_exit = Some 0, pe_deadline = False\<rparr>),
     te_decode = (\<lambda>_. Inr JNull), te_now = 1\<rparr>"

definition rt_start :: "unit start_env" where
  "rt_start = \<lparr>st_hostname = Inr ''n1'', st_adapter = rt_adapter, st_new_adapter = (\<lambda>_. ()), st_session = rt_session,
     st_unmarshal_push = (\<lambda>_. Inl (Errorf [])), st_push_order = [], st_marshal_report = (\<lambda>r. Inr (int_text (cvr_CredentialVersion r))),
     st_unmarshal_oauth = (\<lambda>_. Inl (Errorf [])), st_tools = rt_tools\<rparr>"

definition rt_agent :: "unit Agent" where
  "rt_agent = \<lparr>ag_cfg = \<lparr>SupervisorURL = ''u'', agent_AuthToken = ''t'', OpencodePort = 1, AuthReportIntervalSec = 30,
       ToolPaths = \<lparr>path_Opencode = [], path_Claude = [], path_Codex = []\<rparr>, Projects = []\<rparr>,
     ag_registry = \<lparr>reg_projects = fmempty\<rparr>, ag_envCheckers = fmempty, ag_lastEnvCheck = fmempty, ag_running = False,
     ag_wsClient = None, ag_handlers = None, ag_reporter = None\<rparr>"

definition rt_started :: "unit Agent" where
  "rt_started = snd (Start rt_start demo_fs rt_agent)"

lemma rt_starts: "Start rt_start demo_fs rt_agent = (None, rt_started)"
proof -
  have "fst (Start rt_start demo_fs rt_agent) = None"
    by (rule Start_succeeds) (simp_all add: rt_agent_def rt_start_def nodeIdentifier_def)
  then show ?thesis unfolding rt_started_def by (metis prod.collapse)
qed

definition rt_client :: "unit handler_state WSClient" where
  "rt_client = (the (ag_wsClient rt_started))\<lparr>ws_connected := True, wire := []\<rparr>"

lemma rt_client_facts:
  "ag_wsClient rt_started = Some (the (ag_wsClient rt_started))"
  "commandHandlers rt_client = commandHandlers (the (ag_wsClient rt_started))" "ws_connected rt_client" "wire rt_client = []"
proof -
  obtain c where "ag_wsClient rt_started = Some c" by (rule Start_handlers [OF rt_starts])
  then show "ag_wsClient rt_started = Some (the (ag_wsClient rt_started))" by simp
qed (simp_all add: rt_client_def)

definition rt_dial :: dial_env where
  "rt_dial = demo_dial\<lparr>de_codec := num_codec, de_command_type := (\<lambda>_. Inr ''create_session''), de_reply_outs := (\<lambda>_. None)\<rparr>"

definition rt_command :: Command where
  "rt_command = (demo_command ''c1'')\<lparr>cmd_CommandID := ''c1'', cmd_Type := ''create_session''\<rparr>"

lemma rt_same_json: "same_json rt_world rt_dial (st_session rt_start) rt_command"
  by (simp add: same_json_def rt_world_def rt_dial_def rt_start_def rt_session_def rt_command_def num_codec result_of_def)

definition rt_router :: router where
  "rt_router = \<lparr>pending = fmupd ''c1'' 0 fmempty, chans = fmupd 0 \<lparr>ch_command = ''c1'', ch_buffer = []\<rparr> fmempty, next_chan = 1\<rparr>"

definition rt_hub :: Hub where
  "rt_hub = (hub demo_connected)\<lparr>commandDispatcher := Some rt_router\<rparr>"

definition rt_data :: string where
  "rt_data = snd (projr (transport_lookup rt_world second (Some rt_hub) ''n1'' rt_command))"

lemma rt_sent: "transport_lookup rt_world second (Some rt_hub) ''n1'' rt_command = Inr (0, rt_data)"
proof -
  have "validateEnvelope \<lparr>env_Version = ProtocolVersion, env_Type = MessageTypeCommand, env_RequestID = i,
      env_Timestamp = time_unix second, env_Payload = p\<rparr> = None" for i p
    by (simp add: validateEnvelope_None_iff MessageTypeCommand_def time_unix_def second_def)
  then show ?thesis
    by (simp add: rt_data_def transport_lookup_def MarshalEnvelope_def rt_world_def num_codec_def rt_hub_def demo_connected_facts(2))
qed


lemma commands_without_answer_witness:
  "wire (fst (handleCommand (rt_dial\<lparr>de_command_type := (\<lambda>_. Inr CommandTypeHandover)\<rparr>) (demo_event_envelope 1)
     (rt_client, the (ag_handlers rt_started)))) = []"
  using commands_without_answer [OF rt_starts rt_client_facts(1,2), of CommandTypeHandover
      "rt_dial\<lparr>de_command_type := (\<lambda>_. Inr CommandTypeHandover)\<rparr>"] rt_client_facts(4)
  by simp

section \<open>Credential versions\<close>

lemma SendEnvelope_hooks: "onConnectHooks (snd (SendEnvelope ec out env c)) = onConnectHooks c"
  by (simp add: SendEnvelope_def split: sum.splits option.splits)

lemma sendSnapshot_hooks: "onConnectHooks (snd (sendSnapshot de c)) = onConnectHooks c"
  by (simp add: sendSnapshot_def SendEnvelope_hooks split: sum.splits)

lemma resend_events_hooks: "onConnectHooks (snd (resend_events ec outs es c)) = onConnectHooks c"
proof (induction es arbitrary: c)
  case (Cons e es)
  have "onConnectHooks (snd (SendEnvelope ec (outs (pe_seq e)) (pe_env e) c)) = onConnectHooks c" by (rule SendEnvelope_hooks)
  with Cons show ?case by (auto split: prod.splits option.splits)
qed simp

text \<open>A handshake that succeeds has run the hooks last.\<close>

lemma handshake_hooks:
  assumes "handshake de a c = (None, c')"
  obtains c3 where "run_hooks de 0 a (onConnectHooks c) c3 = (None, c')"
proof -
  define c1 where "c1 = c\<lparr>ws_connected := True, wire := [], ws_backoff := Reset (ws_backoff c)\<rparr>"
  obtain e2 c2 where s: "sendSnapshot de c1 = (e2, c2)" by fastforce
  obtain e3 c3 where r: "resendPendingEvents (de_codec de) (de_resend_outs de) c2 = (e3, c3)" by fastforce
  have "runOnConnectHooks de a c3 = (None, c')"
    using assms s r by (auto simp: handshake_def c1_def Let_def split: option.splits prod.splits)
  moreover have "onConnectHooks c2 = onConnectHooks c" using sendSnapshot_hooks [of de c1] s by (simp add: c1_def)
  moreover have "onConnectHooks c3 = onConnectHooks c2"
    using resend_events_hooks r by (metis resendPendingEvents_def snd_conv)
  ultimately have "run_hooks de 0 a (onConnectHooks c) c3 = (None, c')" by (simp add: runOnConnectHooks_def)
  then show thesis by (rule that)
qed


definition sync_world :: hub_world where
  "sync_world = rt_world\<lparr>w_sync := (\<lambda>p. Inr \<lparr>csp_NodeID = ''n1'', csp_CredentialVersion = int (text_value p)\<rparr>)\<rparr>"

definition sync_start :: "unit start_env" where
  "sync_start = rt_start\<lparr>st_marshal_report := (\<lambda>r. if cvr_NodeID r = ''n1'' \<and> cvr_CredentialVersion r \<ge> 0
     then Inr (nat_text (nat (cvr_CredentialVersion r))) else Inl (Errorf []))\<rparr>"

definition sync_started :: "unit Agent" where
  "sync_started = snd (Start sync_start demo_fs rt_agent)"

definition sync_client :: "unit handler_state WSClient" where
  "sync_client = (NewWSClient ''u'' ''t'' [])\<lparr>onConnectHooks := onConnectHooks (the (ag_wsClient sync_started))\<rparr>"

definition sync_state :: "unit handler_state" where
  "sync_state = the (ag_handlers sync_started)\<lparr>hs_cred := NewCredentialApplier\<lparr>cred_version := 3\<rparr>\<rparr>"

lemma sync_starts: "Start sync_start demo_fs rt_agent = (None, sync_started)"
proof -
  have "fst (Start sync_start demo_fs rt_agent) = None"
    by (rule Start_succeeds) (simp_all add: rt_agent_def sync_start_def rt_start_def nodeIdentifier_def)
  then show ?thesis unfolding sync_started_def by (metis prod.collapse)
qed

lemma sync_client_some: "ag_wsClient sync_started = Some (the (ag_wsClient sync_started))"
proof -
  obtain c where "ag_wsClient sync_started = Some c" by (rule Start_handlers [OF sync_starts])
  then show ?thesis by simp
qed

definition sync_dial :: dial_env where
  "sync_dial = demo_dial\<lparr>de_codec := num_codec, de_dial := None, de_hook_outs := (\<lambda>_. None)\<rparr>"

definition sync_hub :: Hub where
  "sync_hub = (hub demo_connected)\<lparr>has_credentialRegistry := True, expectedCredVersion := 3\<rparr>"

lemma sync_handshake: "fst (handshake sync_dial sync_state sync_client) = None"
proof -
  have "MarshalEnvelope num_codec \<lparr>env_Version = ProtocolVersion, env_Type = MessageTypeCredentialSync, env_RequestID = [],
      env_Timestamp = time_unix 1, env_Payload = p\<rparr> \<noteq> Inl err" for p err
    by (simp add: MarshalEnvelope_def validateEnvelope_None_iff [THEN iffD2] message_types time_unix_def second_def num_codec_def)
  then show ?thesis
    by (auto simp: handshake_def sync_client_def Start_hooks [OF sync_starts sync_client_some] sync_dial_def demo_dial_def sendSnapshot_def
        NewWSClient_def resendPendingEvents_def runOnConnectHooks_def credential_sync_hook_def sync_start_def rt_start_def rt_tools_def
        BuildVersionReport_def nodeIdentifier_def sync_state_def GetVersion_def SendEnvelope_def NewCredentialApplier_def Let_def
        split: sum.splits)
qed


section \<open>The chat commands at the agent\<close>

text \<open>A command as the agent decodes it, and its answer as the supervisor does.\<close>

definition agent_view :: "Command \<Rightarrow> sessionCommand" where
  "agent_view cmd = \<lparr>sc_CommandID = cmd_CommandID cmd, sc_Type = cmd_Type cmd, sc_Project = tg_Project (cmd_Target cmd),
     sc_Args = (case cmd_Args cmd of None \<Rightarrow> fmempty | Some args \<Rightarrow> fmap_of_list args)\<rparr>"

definition supervisor_view :: "sessionCommandResult \<Rightarrow> CommandResult" where
  "supervisor_view r = \<lparr>res_CommandID = scr_CommandID r, res_Status = scr_Status r, res_Output = scr_Output r, res_Error = scr_Error r,
     res_Timestamp = scr_Timestamp r\<rparr>"

definition agent_answer :: "session_env \<Rightarrow> 'a OpencodeAdapter \<Rightarrow> 'a agent_state \<Rightarrow> Command \<Rightarrow> CommandResult" where
  "agent_answer se ad st cmd =
     supervisor_view (command_result se (cmd_CommandID cmd) (fst (executeSessionCommand se ad (agent_view cmd) st)))"

lemma command_without_session_fails:
  assumes "cmd_Type cmd \<in> {CommandTypeSessionStatus, CommandTypePromptSession}" and "fmlookup (sc_Args (agent_view cmd)) ''session_id'' = None"
  shows "res_Error (agent_answer se ad st cmd) = ''session_id is required''"
    and "res_Status (agent_answer se ad st cmd) = CommandStatusFailure" and "res_Output (agent_answer se ad st cmd) = []"
  using assms
  by (auto simp: agent_answer_def supervisor_view_def executeSessionCommand_def agent_view_def with_session_def readStringArg_def
      command_result_def CommandTypeSessionStatus_def CommandTypePromptSession_def CommandStatusFailure_def commandStatusFailure_def)

text \<open>
  C37. The chat commands \<open>/status\<close> and \<open>/resume\<close> name a project, but the agent needs the id of a session for the commands they are
  turned into: if the dispatcher returns the answer of the agent, whatever its adapter and state, both end in the message
  that an error occurred.
\<close>
theorem slash_status_and_resume_fail:
  assumes "bot_dispatcher b = Some d" and "\<And>cmd. fst (bx_dispatch e d cmd) = Inr (Some (agent_answer se ad st cmd))"
    and "fmlookup opts ''project'' = Some (OString project)" and "fmlookup opts ''message'' = Some (OString message)"
    and "h \<in> {handleStatus, handleResume}"
  shows "\<exists>m. fst (h e opts b) = Some m \<and> emb_Color m = colorFailure \<and>
    emb_Description m = ''An error occurred while processing the command.''"
proof -
  have sanitized: "sanitizeError ''session_id is required'' = ''An error occurred while processing the command.''" by code_simp
  have shown: "\<exists>m. fst (dispatch_embed e cmd failed advice title b) = Some m \<and> emb_Color m = colorFailure \<and>
      emb_Description m = ''An error occurred while processing the command.''"
    if "cmd_Type cmd \<in> {CommandTypeSessionStatus, CommandTypePromptSession}" "fmlookup (sc_Args (agent_view cmd)) ''session_id'' = None"
    for cmd failed advice title
  proof -
    obtain d' where "bx_dispatch e d cmd = (Inr (Some (agent_answer se ad st cmd)), d')" using assms(2) [of cmd] by (metis prod.collapse)
    then show ?thesis
      using command_without_session_fails [OF that, of se ad st] sanitized
      by (simp add: dispatch_embed_def assms(1) commandResultEmbed_def Let_def)
  qed
  show ?thesis
    using assms(3-5) by (auto simp: handleStatus_def handleResume_def StringValue_def bot_command_def agent_view_def intro!: shown)
qed

definition chat_env :: bot_env where
  "chat_env = \<lparr>bx_now = 0, bx_codec = w_codec demo_world,
     bx_dispatch = (\<lambda>d cmd. (Inr (Some (agent_answer rt_session rt_adapter \<lparr>as_adapter = (), as_fs = demo_fs\<rparr> cmd)), d)),
     bx_select = None, bx_nodes = [], bx_sessions = [], bx_money = (\<lambda>_. []), bx_format = rfc3339_text\<rparr>"

lemma slash_status_and_resume_fail_witness:
  "\<exists>m. fst (handleStatus chat_env (fmupd ''message'' (OString ''go'') (fmupd ''project'' (OString ''p'') fmempty)) demo_bot) = Some m \<and>
     emb_Color m = colorFailure \<and> emb_Description m = ''An error occurred while processing the command.''"
  by (rule slash_status_and_resume_fail [where se = rt_session and ad = rt_adapter and st = "\<lparr>as_adapter = (), as_fs = demo_fs\<rparr>"])
    (auto simp: demo_bot_def NewDiscordBotWithSession_def chat_env_def)

text \<open>The command \<open>/restart\<close> does not name a project either: the agent creates the new session in the project without a name.\<close>

lemma slash_restart_loses_project:
  assumes "ad_CreateSession ad [] ''restart'' (snd (ad_KillSession ad sessionID (as_adapter st))) = (r, a')" and "sessionID \<noteq> []"
  shows "executeSessionCommand se ad (agent_view (bot_command CommandTypeRestartSession \<lparr>tg_Project = [], tg_NodeID = nodeID\<rparr>
      (Some [(''session_id'', JString sessionID)]))) st = (r, st\<lparr>as_adapter := a'\<rparr>)"
  using assms by (simp add: executeSessionCommand_def agent_view_def bot_command_def CommandTypeRestartSession_def readStringArg_def Let_def fmlookup_of_list)

section \<open>The agent program on a configured machine\<close>

text \<open>\<open>cmd/agent/main.go\<close> up to the wait for a signal: the exit code, or the running agent; \<open>read_out\<close> is the outcome of reading the file and
  \<open>logger\<close> that of creating the logger. The lines that are printed are left out.\<close>

definition agent_main :: "'a start_env \<Rightarrow> file_system \<Rightarrow> string list \<Rightarrow> go_error option \<Rightarrow> go_error option \<Rightarrow> (string \<Rightarrow> AgentConfig go_result) \<Rightarrow>
    string \<Rightarrow> int + 'a Agent" where
  "agent_main e fs ks read_out logger unmarshal configPath =
     (case LoadAgentConfig (os_ReadFile read_out fs configPath) unmarshal of
        Inl _ \<Rightarrow> Inl 1
      | Inr cfg \<Rightarrow>
          if logger \<noteq> None then Inl 1
          else (case NewAgent fs ks (Some cfg) of
             Inl _ \<Rightarrow> Inl 1
           | Inr ag \<Rightarrow> (case Start e fs ag of (Some _, _) \<Rightarrow> Inl 1 | (None, ag') \<Rightarrow> Inr ag')))"

definition agent_exit :: "'a Agent \<Rightarrow> int" where
  "agent_exit ag = (case Stop ag of (Some _, _) \<Rightarrow> 1 | (None, _) \<Rightarrow> 0)"

lemma Start_keeps_config: "Start e fs a = (None, a') \<Longrightarrow> ag_cfg a' = ag_cfg a \<and> ag_running a'"
  by (auto simp: Start_def Let_def split: if_splits prod.splits option.splits)

text \<open>
  C40. A configured agent starts: after every run of the agent dialogue of \<open>halctl\<close> that reports success, the agent program with that
  file comes up with exactly the settings that were answered, and stops with exit code 0; it is refused exactly if the table of projects is.
\<close>
theorem configured_agent_starts:
  fixes e :: "'a start_env"
  assumes "codec_law cw" and "configureAgent cw input fs = Some (None, fs')" and "nodeIdentifier (st_hostname e) \<noteq> []"
  shows "\<exists>cfg answers. cfg = snd (readJSONIfExists (cw_agent_parse cw) (cw_read cw) fs defaultAgentConfigPath defaultAgentConfig) \<and>
    prompt_agent cfg input = Some answers \<and>
    (case NewProjectRegistry fs' (map project_info (af_Projects answers)) of
       Inl _ \<Rightarrow> agent_main e fs' ks None None (cw_agent_config cw) defaultAgentConfigPath = Inl 1
     | Inr _ \<Rightarrow> \<exists>ag. agent_main e fs' ks None None (cw_agent_config cw) defaultAgentConfigPath = Inr ag \<and>
         ag_running ag \<and> ag_cfg ag = agent_config answers \<and> agent_exit ag = 0)"
proof -
  define cfg where "cfg = snd (readJSONIfExists (cw_agent_parse cw) (cw_read cw) fs defaultAgentConfigPath defaultAgentConfig)"
  from assms(2) obtain answers loaded where d: "prompt_agent cfg input = Some answers"
      "writeJSONAtomic (cw_write cw) defaultAgentConfigPath (cw_agent_text cw answers) fs = (None, fs')"
      "LoadAgentConfig (os_ReadFile (cw_reread cw) fs' defaultAgentConfigPath) (cw_agent_config cw) = Inr loaded"
    by (auto simp: configureAgent_def cfg_def [symmetric] Let_def split: option.splits sum.splits prod.splits)
  obtain t where t: "cw_agent_text cw answers = Inr t" "os_ReadFile None fs' defaultAgentConfigPath = Inr (t @ nl)"
    using written_text [OF d(2) demo_config_name] by blast
  have "os_ReadFile (cw_reread cw) fs' defaultAgentConfigPath = Inr (t @ nl)"
    using t(2) d(3) by (auto simp: os_ReadFile_def LoadAgentConfig_def split: stat_result.splits fs_entry.splits option.splits)
  then have "validateAgentConfig (agent_config answers) = Inr loaded"
    using d(3) assms(1) t(1) by (simp add: LoadAgentConfig_def codec_law_def)
  then have load: "LoadAgentConfig (os_ReadFile None fs' defaultAgentConfigPath) (cw_agent_config cw) = Inr (agent_config answers)"
    using t assms(1) prompt_agent_interval [OF d(1)] validateAgentConfig_keeps by (fastforce simp: LoadAgentConfig_def codec_law_def agent_config_def)
  show ?thesis
  proof (intro exI conjI)
    show "cfg = snd (readJSONIfExists (cw_agent_parse cw) (cw_read cw) fs defaultAgentConfigPath defaultAgentConfig)" by (rule cfg_def)
    show "prompt_agent cfg input = Some answers" by (rule d(1))
    show "case NewProjectRegistry fs' (map project_info (af_Projects answers)) of
       Inl _ \<Rightarrow> agent_main e fs' ks None None (cw_agent_config cw) defaultAgentConfigPath = Inl 1
     | Inr _ \<Rightarrow> \<exists>ag. agent_main e fs' ks None None (cw_agent_config cw) defaultAgentConfigPath = Inr ag \<and>
         ag_running ag \<and> ag_cfg ag = agent_config answers \<and> agent_exit ag = 0"
    proof (cases "NewProjectRegistry fs' (map project_info (af_Projects answers))")
      case (Inl err)
      then show ?thesis by (simp add: agent_main_def load NewAgent_def) (simp add: agent_config_def)
    next
      case (Inr reg)
      then obtain ag :: "'a Agent" where ag: "NewAgent fs' ks (Some (agent_config answers)) = Inr ag" "ag_cfg ag = agent_config answers" "\<not> ag_running ag"
        by (simp add: NewAgent_def agent_config_def)
      obtain ag' where "Start e fs' ag = (None, ag')" using Start_succeeds [OF ag(3) assms(3)] by (metis prod.collapse)
      then show ?thesis using Inr ag Start_keeps_config by (fastforce simp: agent_main_def load agent_exit_def Stop_def)
    qed
  qed
qed

lemma configured_agent_starts_witness:
  "\<exists>fs' ag. configureAgent demo_config_world demo_dialogue demo_files = Some (None, fs') \<and>
     agent_main rt_start fs' [] None None (cw_agent_config demo_config_world) defaultAgentConfigPath = Inr ag \<and> ag_running ag"
proof -
  obtain fs' where run: "configureAgent demo_config_world demo_dialogue demo_files = Some (None, fs')" using demo_agent_dialogue by blast
  have host: "nodeIdentifier (st_hostname rt_start) \<noteq> []" by (simp add: rt_start_def nodeIdentifier_def)
  have "NewProjectRegistry fs' (map project_info (af_Projects answers)) = Inr \<lparr>reg_projects = fmempty\<rparr>"
    if "prompt_agent (snd (readJSONIfExists (cw_agent_parse demo_config_world) (cw_read demo_config_world) demo_files defaultAgentConfigPath
      defaultAgentConfig)) demo_dialogue = Some answers" for answers
  proof -
    have "answers = demo_agent_answers" using that demo_agent_prompt by simp
    then show ?thesis by (simp add: demo_agent_answers_def NewProjectRegistry_def)
  qed
  with configured_agent_starts [OF demo_codec_law run host, of "[]"] run show ?thesis by fastforce
qed

end
